(* ===== verification/Prelude.thy ===== *)
theory Prelude
  imports Main "HOL-Library.Monad_Syntax" "HOL-Library.AList"
begin

text \<open>
  Shared vocabulary of the development: the theorem collections the component theories extend,
  64-bit unsigned arithmetic as the Rust code uses it, panics as the value \<open>None\<close>, and generic
  facts on lists, options and maps.

  A \<open>u64\<close> is a natural number; the wrap-around of a release build and the saturating operations
  are written out below, and component invariants keep the values within \<open>u64_max\<close>.
  A computation that can panic has an \<open>option\<close> type: \<open>None\<close> is the panic.
\<close>

named_theorems pos_simps \<open>term, index and cursor arithmetic\<close>
named_theorems log_simps \<open>operations of the in-memory log store\<close>
named_theorems machine_simps \<open>operations of the replicated state machines\<close>
named_theorems raft_simps \<open>operations of the raft roles\<close>

type_synonym peer_id = nat

section \<open>64-bit unsigned integers\<close>

definition u64_max :: nat where
  "u64_max = 2 ^ 64 - 1"

definition saturating_add :: "nat \<Rightarrow> nat \<Rightarrow> nat" where
  "saturating_add a b = min (a + b) u64_max"

definition saturating_sub :: "nat \<Rightarrow> nat \<Rightarrow> nat" where
  "saturating_sub a b = (if b \<le> a then a - b else 0)"

text \<open>Unchecked \<open>+\<close> on \<open>u64\<close>, as a release build computes it.\<close>

definition wrapping_add :: "nat \<Rightarrow> nat \<Rightarrow> nat" where
  "wrapping_add a b = (a + b) mod 2 ^ 64"

lemma u64_max_less: "a \<le> u64_max \<longleftrightarrow> a < 2 ^ 64"
  by (auto simp: u64_max_def)

lemma u64_max_pos [simp]: "0 < u64_max" "u64_max \<noteq> 0"
  by (auto simp: u64_max_def)

lemma one_le_u64_max [simp]: "Suc 0 \<le> u64_max"
  by (simp add: Suc_le_eq)

lemma saturating_sub_eq [simp]: "saturating_sub a b = a - b"
  by (simp add: saturating_sub_def)

lemma saturating_add_eq [pos_simps]: "a + b \<le> u64_max \<Longrightarrow> saturating_add a b = a + b"
  by (simp add: saturating_add_def)

lemma wrapping_add_eq [pos_simps]: "a + b \<le> u64_max \<Longrightarrow> wrapping_add a b = a + b"
  by (simp add: wrapping_add_def u64_max_less)

lemma saturating_add_le: "saturating_add a b \<le> u64_max"
  by (simp add: saturating_add_def)

lemma wrapping_add_le: "wrapping_add a b \<le> u64_max"
  by (simp add: wrapping_add_def u64_max_less)

section \<open>Lists\<close>

text \<open>\<open>iter().enumerate()\<close>: the elements with their positions, counted from \<open>i\<close>.\<close>

fun enumerate_from :: "nat \<Rightarrow> 'a list \<Rightarrow> (nat \<times> 'a) list" where
  "enumerate_from i [] = []"
| "enumerate_from i (x # xs) = (i, x) # enumerate_from (Suc i) xs"

lemma length_enumerate_from [simp]: "length (enumerate_from i xs) = length xs"
  by (induction xs arbitrary: i) auto

lemma nth_enumerate_from [simp]: "k < length xs \<Longrightarrow> enumerate_from i xs ! k = (i + k, xs ! k)"
  by (induction xs arbitrary: i k) (auto simp: nth_Cons split: nat.splits)

lemma map_snd_enumerate_from [simp]: "map snd (enumerate_from i xs) = xs"
  by (induction xs arbitrary: i) auto

lemma enumerate_from_append:
  "enumerate_from i (xs @ ys) = enumerate_from i xs @ enumerate_from (i + length xs) ys"
  by (induction xs arbitrary: i) auto

lemma foldl_invariant:
  assumes "P s" and "\<And>s x. P s \<Longrightarrow> x \<in> set xs \<Longrightarrow> P (f s x)"
  shows "P (foldl f s xs)"
  using assms by (induction xs arbitrary: s) auto

section \<open>Panicking loops\<close>

text \<open>A loop over a list whose body may panic.\<close>

fun foldM :: "('s \<Rightarrow> 'x \<Rightarrow> 's option) \<Rightarrow> 's \<Rightarrow> 'x list \<Rightarrow> 's option" where
  "foldM f s [] = Some s"
| "foldM f s (x # xs) = Option.bind (f s x) (\<lambda>s'. foldM f s' xs)"

lemma foldM_append: "foldM f s (xs @ ys) = Option.bind (foldM f s xs) (\<lambda>s'. foldM f s' ys)"
  by (induction xs arbitrary: s) (auto split: bind_splits)

lemma foldM_total: "foldM (\<lambda>s x. Some (f s x)) s xs = Some (foldl f s xs)"
  by (induction xs arbitrary: s) auto

lemma foldM_invariant:
  assumes "foldM f s xs = Some s'" and "P s"
    and "\<And>s x s'. P s \<Longrightarrow> x \<in> set xs \<Longrightarrow> f s x = Some s' \<Longrightarrow> P s'"
  shows "P s'"
  using assms
proof (induction xs arbitrary: s)
  case Nil
  then show ?case by simp
next
  case (Cons x xs)
  from Cons.prems(1) obtain s1 where s1: "f s x = Some s1" and run: "foldM f s1 xs = Some s'"
    by (auto split: bind_splits)
  have "P s1" by (rule Cons.prems(3) [OF Cons.prems(2) _ s1]) simp
  with run show ?case by (rule Cons.IH) (auto intro: Cons.prems(3))
qed

section \<open>Finite maps\<close>

definition map_size :: "('k \<rightharpoonup> 'v) \<Rightarrow> nat" where
  "map_size m = card (dom m)"

lemma map_size_empty [simp]: "map_size Map.empty = 0"
  by (simp add: map_size_def)

lemma map_size_upd:
  "finite (dom m) \<Longrightarrow> map_size (m(k \<mapsto> v)) = (if k \<in> dom m then map_size m else Suc (map_size m))"
  by (simp add: map_size_def insert_absorb)

lemma map_size_upd_le: "finite (dom m) \<Longrightarrow> map_size (m(k \<mapsto> v)) \<le> Suc (map_size m)"
  by (simp add: map_size_upd)

lemma map_size_delete:
  "finite (dom m) \<Longrightarrow> map_size (m(k := None)) = (if k \<in> dom m then map_size m - 1 else map_size m)"
  by (auto simp: map_size_def card_Diff_singleton insert_absorb)

lemma map_size_0_iff: "finite (dom m) \<Longrightarrow> map_size m = 0 \<longleftrightarrow> m = Map.empty"
  by (simp add: map_size_def)

lemma alist_update_set: "set (AList.update k v xs) \<subseteq> insert (k, v) (set xs)"
  by (induction xs) auto

section \<open>Sorted maps\<close>

fun btree_insert :: "'k::linorder \<Rightarrow> 'v \<Rightarrow> ('k \<times> 'v) list \<Rightarrow> ('k \<times> 'v) list" where
  "btree_insert k v [] = [(k, v)]"
| "btree_insert k v ((k', v') # xs) =
    (if k < k' then (k, v) # (k', v') # xs
     else if k = k' then (k, v) # xs
     else (k', v') # btree_insert k v xs)"

lemma btree_insert_map_of [simp]: "map_of (btree_insert k v xs) = (map_of xs)(k \<mapsto> v)"
  by (induction xs) auto

lemma btree_insert_keys [simp]: "fst ` set (btree_insert k v xs) = insert k (fst ` set xs)"
  by (induction k v xs rule: btree_insert.induct) (simp_all add: insert_commute)

lemma btree_insert_set: "set (btree_insert k v xs) \<subseteq> insert (k, v) (set xs)"
  by (induction k v xs rule: btree_insert.induct) auto

lemma btree_insert_sorted:
  "sorted_wrt (<) (map fst xs) \<Longrightarrow> sorted_wrt (<) (map fst (btree_insert k v xs))"
proof (induction k v xs rule: btree_insert.induct)
  case (2 k v k' v' xs)
  have "\<forall>y \<in> set (btree_insert k v xs). k' < fst y" if "\<not> k < k'" "k \<noteq> k'"
    using "2.prems" that btree_insert_set [of k v xs] by auto
  then show ?case using 2 by auto
qed simp

end
