(* ===== verification/Log_Cursor.thy ===== *)
theory Log_Cursor
  imports Prelude
begin

text \<open>
  \<open>groups/cursor.rs\<close>: the newtypes \<open>Term\<close> and \<open>Index\<close> over \<open>u64\<close> with their saturating step
  functions, and \<open>Cursor\<close>, a log position ordered by term first and index second. The order is
  an instance of \<open>linorder\<close>, so that \<open>min\<close>, \<open>max\<close> and the order automation apply to it.
\<close>

type_synonym raft_term = nat
type_synonym raft_index = nat

section \<open>Terms and indices\<close>

definition pos_zero :: nat where
  "pos_zero = 0"

definition pos_one :: nat where
  "pos_one = 1"

definition is_zero :: "nat \<Rightarrow> bool" where
  "is_zero p \<longleftrightarrow> p = 0"

definition pos_prev :: "nat \<Rightarrow> nat" where
  "pos_prev p = saturating_sub p 1"

definition pos_next :: "nat \<Rightarrow> nat" where
  "pos_next p = saturating_add p 1"

definition distance :: "nat \<Rightarrow> nat \<Rightarrow> nat" where
  "distance p q = (if p > q then p - q else q - p)"

definition pos_add :: "nat \<Rightarrow> nat \<Rightarrow> nat" where
  "pos_add p n = wrapping_add p n"

definition pos_sub :: "nat \<Rightarrow> nat \<Rightarrow> nat" where
  "pos_sub p n = saturating_sub p n"

text \<open>Conversions from and comparisons with the signed integer types.\<close>

definition pos_from_signed :: "int \<Rightarrow> nat" where
  "pos_from_signed v = (if v < 0 then 0 else nat v)"

definition pos_eq_signed :: "nat \<Rightarrow> int \<Rightarrow> bool" where
  "pos_eq_signed p v = (if v < 0 then False else p = nat v)"

datatype ordering = Less | Equal | Greater

definition cmp_nat :: "nat \<Rightarrow> nat \<Rightarrow> ordering" where
  "cmp_nat a b = (if a < b then Less else if a = b then Equal else Greater)"

definition pos_cmp_signed :: "nat \<Rightarrow> int \<Rightarrow> ordering" where
  "pos_cmp_signed p v = (if v < 0 then Greater else cmp_nat p (nat v))"

lemma is_zero_iff [simp]: "is_zero p \<longleftrightarrow> p = 0"
  by (simp add: is_zero_def)

lemma pos_zero_eq [simp]: "pos_zero = 0"
  by (simp add: pos_zero_def)

lemma pos_prev_eq [simp]: "pos_prev p = p - 1"
  by (simp add: pos_prev_def)

lemma pos_next_eq [pos_simps]: "p < u64_max \<Longrightarrow> pos_next p = Suc p"
  by (simp add: pos_next_def saturating_add_def)

lemma pos_next_le: "pos_next p \<le> u64_max"
  by (simp add: pos_next_def saturating_add_le)

lemma pos_next_ge: "p \<le> u64_max \<Longrightarrow> p \<le> pos_next p"
  by (simp add: pos_next_def saturating_add_def)

lemma pos_next_nonzero [simp]: "pos_next p \<noteq> 0"
  by (simp add: pos_next_def saturating_add_def min_def)

lemma pos_next_max: "pos_next u64_max = u64_max"
  by (simp add: pos_next_def saturating_add_def)

lemma pos_add_eq [pos_simps]: "p + n \<le> u64_max \<Longrightarrow> pos_add p n = p + n"
  by (simp add: pos_add_def wrapping_add_eq)

lemma pos_prev_next: "p < u64_max \<Longrightarrow> pos_prev (pos_next p) = p"
  by (simp add: pos_next_eq)

lemma distance_sym: "distance p q = distance q p"
  by (simp add: distance_def)

lemma pos_cmp_signed_spec:
  "pos_cmp_signed p v =
    (if int p < v then Less else if int p = v then Equal else Greater)"
  by (auto simp: pos_cmp_signed_def cmp_nat_def)

section \<open>Cursors\<close>

datatype cursor = Cursor (cursor_term: raft_term) (cursor_index: raft_index)

definition cursor_zero :: cursor where
  "cursor_zero = Cursor pos_zero pos_zero"

definition cursor_is_zero :: "cursor \<Rightarrow> bool" where
  "cursor_is_zero c \<longleftrightarrow> is_zero (cursor_term c) \<and> is_zero (cursor_index c)"

text \<open>\<open>Ordering::then\<close>: the second comparison decides ties of the first.\<close>

fun ordering_then :: "ordering \<Rightarrow> ordering \<Rightarrow> ordering" where
  "ordering_then Equal o2 = o2"
| "ordering_then o1 o2 = o1"

definition cursor_cmp :: "cursor \<Rightarrow> cursor \<Rightarrow> ordering" where
  "cursor_cmp a b =
    ordering_then (cmp_nat (cursor_term a) (cursor_term b))
      (cmp_nat (cursor_index a) (cursor_index b))"

definition is_behind :: "cursor \<Rightarrow> cursor \<Rightarrow> bool" where
  "is_behind a b \<longleftrightarrow> cursor_cmp a b = Less"

text \<open>Mixed comparisons: a cursor against an index compares the index only.\<close>

definition cursor_eq_index :: "cursor \<Rightarrow> raft_index \<Rightarrow> bool" where
  "cursor_eq_index c i \<longleftrightarrow> cursor_index c = i"

definition cursor_less_index :: "cursor \<Rightarrow> raft_index \<Rightarrow> bool" where
  "cursor_less_index c i \<longleftrightarrow> cmp_nat (cursor_index c) i = Less"

lemma cursor_zero_sel [simp]: "cursor_term cursor_zero = 0" "cursor_index cursor_zero = 0"
  by (simp_all add: cursor_zero_def)

lemma cursor_is_zero_iff [simp]: "cursor_is_zero c \<longleftrightarrow> c = cursor_zero"
  by (cases c) (simp add: cursor_is_zero_def cursor_zero_def)

lemma is_behind_iff:
  "is_behind a b \<longleftrightarrow>
    cursor_term a < cursor_term b \<or>
    cursor_term a = cursor_term b \<and> cursor_index a < cursor_index b"
  by (auto simp: is_behind_def cursor_cmp_def cmp_nat_def)

lemma cursor_less_index_iff [simp]: "cursor_less_index c i \<longleftrightarrow> cursor_index c < i"
  by (simp add: cursor_less_index_def cmp_nat_def)

instantiation cursor :: linorder
begin

definition less_eq_cursor :: "cursor \<Rightarrow> cursor \<Rightarrow> bool" where
  "less_eq_cursor a b \<longleftrightarrow> \<not> is_behind b a"

definition less_cursor :: "cursor \<Rightarrow> cursor \<Rightarrow> bool" where
  "less_cursor a b \<longleftrightarrow> is_behind a b"

instance
  by intro_classes
    (auto simp: less_eq_cursor_def less_cursor_def is_behind_iff cursor.expand)

end

lemma cursor_less_iff:
  "a < b \<longleftrightarrow>
    cursor_term a < cursor_term b \<or>
    cursor_term a = cursor_term b \<and> cursor_index a < cursor_index b"
  by (simp add: less_cursor_def is_behind_iff)

lemma cursor_le_iff:
  "a \<le> b \<longleftrightarrow>
    cursor_term a < cursor_term b \<or>
    cursor_term a = cursor_term b \<and> cursor_index a \<le> cursor_index b"
  by (auto simp: less_eq_cursor_def is_behind_iff)

lemma is_behind_less [simp]: "is_behind a b \<longleftrightarrow> a < b"
  by (simp add: less_cursor_def)

end
