(* ===== verification/Log_Storage.thy ===== *)
theory Log_Storage
  imports Log_Cursor
begin

text \<open>
  \<open>groups/storage.rs\<close>: the \<open>Storage\<close> trait as the locale \<open>raft_log\<close> (its operations and what
  each promises), the in-memory implementation \<open>InMemoryLogStore\<close> as the record \<open>log_store\<close>
  with one definition per method, and the interpretation of the locale on these definitions.
  Lemmas a client of the log needs (appending a batch, committing a range) are proved once in the
  locale.
\<close>

section \<open>The in-memory log store\<close>

record 'c log_store =
  log_entries :: "('c \<times> raft_term) list"
  log_offset :: nat
  last_pruned :: "cursor option"

definition log_default :: "'c log_store" where
  "log_default = \<lparr>log_entries = [], log_offset = 0, last_pruned = None\<rparr>"

definition log_len :: "'c log_store \<Rightarrow> nat" where
  "log_len s = length (log_entries s)"

definition log_append :: "'c log_store \<Rightarrow> 'c \<Rightarrow> raft_term \<Rightarrow> raft_index \<times> 'c log_store" where
  "log_append s command term =
    (let s' = s\<lparr>log_entries := log_entries s @ [(command, term)]\<rparr>
     in (wrapping_add (log_offset s') (log_len s'), s'))"

definition log_get :: "'c log_store \<Rightarrow> raft_index \<Rightarrow> ('c \<times> raft_term) option" where
  "log_get s index =
    (if is_zero index \<or> index \<le> log_offset s then None
     else let physical = index - log_offset s - 1
          in if physical < log_len s then Some (log_entries s ! physical) else None)"

definition log_available :: "'c log_store \<Rightarrow> raft_index \<times> raft_index" where
  "log_available s = (log_offset s, wrapping_add (log_offset s) (log_len s))"

definition log_get_range ::
  "'c log_store \<Rightarrow> raft_index \<times> raft_index \<Rightarrow> (raft_term \<times> raft_index \<times> 'c) list" where
  "log_get_range s rng =
    (let first_available = wrapping_add (log_offset s) 1;
         start = max (fst rng) first_available;
         last_logical = wrapping_add (log_offset s) (log_len s);
         last_wanted = min (snd rng) last_logical
     in if start > last_wanted then []
        else let phys_start = start - log_offset s - 1;
                 phys_end = last_wanted - log_offset s - 1
             in map (\<lambda>(i, (cmd, term)). (term, wrapping_add (wrapping_add (log_offset s) 1) i, cmd))
                  (take (phys_end - phys_start + 1)
                    (drop phys_start (enumerate_from 0 (log_entries s)))))"

definition log_truncate :: "'c log_store \<Rightarrow> raft_index \<Rightarrow> 'c log_store" where
  "log_truncate s at =
    (if at \<le> log_offset s then s\<lparr>log_entries := []\<rparr>
     else let physical = at - log_offset s - 1
          in s\<lparr>log_entries := take physical (log_entries s)\<rparr>)"

definition log_last :: "'c log_store \<Rightarrow> cursor" where
  "log_last s =
    (if log_entries s = []
     then (case last_pruned s of None \<Rightarrow> cursor_zero | Some c \<Rightarrow> c)
     else let (_, term) = last (log_entries s);
              logical_index = wrapping_add (log_offset s) (log_len s)
          in Cursor term logical_index)"

definition log_term_at :: "'c log_store \<Rightarrow> raft_index \<Rightarrow> raft_term option" where
  "log_term_at s index =
    (if is_zero index then Some pos_zero
     else if index = log_offset s then map_option cursor_term (last_pruned s)
     else map_option snd (log_get s index))"

definition log_prune_prefix :: "'c log_store \<Rightarrow> raft_index \<Rightarrow> 'c log_store" where
  "log_prune_prefix s up_to =
    (if up_to \<le> log_offset s then s
     else let to_drain = min (up_to - log_offset s) (log_len s);
              s1 = (if to_drain > 0
                    then let (_, term) = log_entries s ! (to_drain - 1);
                             logical_index = wrapping_add (log_offset s) to_drain
                         in s\<lparr>last_pruned := Some (Cursor term logical_index)\<rparr>
                    else s)
          in s1\<lparr>log_entries := drop to_drain (log_entries s1),
                log_offset := wrapping_add (log_offset s1) to_drain\<rparr>)"

definition log_reset_to :: "'c log_store \<Rightarrow> cursor \<Rightarrow> 'c log_store" where
  "log_reset_to s c =
    s\<lparr>log_entries := [], log_offset := cursor_index c, last_pruned := Some c\<rparr>"

section \<open>Representation invariant\<close>

text \<open>
  Indices fit in a \<open>u64\<close>, and \<open>last_pruned\<close> is the cursor of the offset boundary: absent
  exactly while nothing has been pruned.
\<close>

definition log_wf :: "'c log_store \<Rightarrow> bool" where
  "log_wf s \<longleftrightarrow>
    log_offset s + log_len s \<le> u64_max \<and>
    (case last_pruned s of None \<Rightarrow> log_offset s = 0 | Some c \<Rightarrow> cursor_index c = log_offset s)"

definition log_hi :: "'c log_store \<Rightarrow> raft_index" where
  "log_hi s = log_offset s + log_len s"

definition log_base_term :: "'c log_store \<Rightarrow> raft_term" where
  "log_base_term s = (case last_pruned s of None \<Rightarrow> 0 | Some c \<Rightarrow> cursor_term c)"

lemma log_wf_wrap:
  assumes "log_wf s" and "n \<le> log_len s"
  shows "wrapping_add (log_offset s) n = log_offset s + n"
  using assms by (simp add: log_wf_def wrapping_add_eq)

lemma log_wf_default [simp]: "log_wf log_default"
  by (simp add: log_wf_def log_default_def log_len_def)

lemma log_hi_default [simp]: "log_hi log_default = 0"
  by (simp add: log_hi_def log_default_def log_len_def)

lemma log_hi_le: "log_wf s \<Longrightarrow> log_hi s \<le> u64_max"
  by (simp add: log_wf_def log_hi_def)

lemma log_get_eq:
  "log_get s i =
    (if log_offset s < i \<and> i \<le> log_hi s then Some (log_entries s ! (i - log_offset s - 1)) else None)"
  by (auto simp: log_get_def log_hi_def log_len_def Let_def)

lemma log_available_eq: "log_wf s \<Longrightarrow> log_available s = (log_offset s, log_hi s)"
  by (simp add: log_available_def log_wf_wrap log_hi_def)

lemma log_append_fst: "log_wf s \<Longrightarrow> log_hi s < u64_max \<Longrightarrow> fst (log_append s c t) = Suc (log_hi s)"
  by (simp add: log_append_def log_hi_def log_len_def wrapping_add_eq)

lemma log_append_snd_simps [log_simps]:
  "log_entries (snd (log_append s c t)) = log_entries s @ [(c, t)]"
  "log_offset (snd (log_append s c t)) = log_offset s"
  "last_pruned (snd (log_append s c t)) = last_pruned s"
  by (simp_all add: log_append_def Let_def)

lemma log_append_hi [log_simps]: "log_hi (snd (log_append s c t)) = Suc (log_hi s)"
  by (simp add: log_hi_def log_len_def log_simps)

lemma log_append_wf: "log_wf s \<Longrightarrow> log_hi s < u64_max \<Longrightarrow> log_wf (snd (log_append s c t))"
  by (simp add: log_wf_def log_hi_def log_len_def log_simps split: option.splits)

lemma log_append_get:
  "log_get (snd (log_append s c t)) = (log_get s)(Suc (log_hi s) \<mapsto> (c, t))"
proof
  fix i
  show "log_get (snd (log_append s c t)) i = ((log_get s)(Suc (log_hi s) \<mapsto> (c, t))) i"
    by (auto simp: log_get_eq log_hi_def log_len_def nth_append log_simps)
qed

lemma log_truncate_simps [log_simps]:
  "log_offset (log_truncate s at) = log_offset s"
  "last_pruned (log_truncate s at) = last_pruned s"
  by (simp_all add: log_truncate_def Let_def)

lemma log_truncate_hi:
  "log_hi (log_truncate s at) = (if at \<le> log_offset s then log_offset s else min (log_hi s) (at - 1))"
  by (auto simp: log_truncate_def log_hi_def log_len_def Let_def)

lemma log_truncate_wf: "log_wf s \<Longrightarrow> log_wf (log_truncate s at)"
  by (auto simp: log_wf_def log_truncate_def log_len_def Let_def split: option.splits)

lemma log_truncate_get: "log_get (log_truncate s at) i = (if i < at then log_get s i else None)"
  by (auto simp: log_get_eq log_hi_def log_len_def log_truncate_def Let_def)

lemma log_reset_simps [log_simps]:
  "log_offset (log_reset_to s c) = cursor_index c"
  "log_hi (log_reset_to s c) = cursor_index c"
  "log_last (log_reset_to s c) = c"
  by (simp_all add: log_reset_to_def log_hi_def log_len_def log_last_def)

lemma log_reset_get [log_simps]: "log_get (log_reset_to s c) i = None"
  by (auto simp: log_get_eq log_simps)

lemma log_reset_wf: "cursor_index c \<le> u64_max \<Longrightarrow> log_wf (log_reset_to s c)"
  by (simp add: log_wf_def log_reset_to_def log_len_def)

lemma log_prune_offset:
  assumes "log_wf s"
  shows "log_offset (log_prune_prefix s n) = max (log_offset s) (min n (log_hi s))"
  using assms log_wf_wrap [OF assms]
  by (auto simp: log_prune_prefix_def Let_def log_hi_def split: prod.splits)

lemma log_prune_entries:
  "log_entries (log_prune_prefix s n) =
    (if n \<le> log_offset s then log_entries s
     else drop (min (n - log_offset s) (log_len s)) (log_entries s))"
  by (auto simp: log_prune_prefix_def Let_def split: prod.splits)

lemma log_prune_hi:
  assumes "log_wf s"
  shows "log_hi (log_prune_prefix s n) = log_hi s"
  using log_prune_offset [OF assms, of n]
  by (auto simp: log_hi_def log_len_def log_prune_entries)

lemma log_prune_get:
  assumes "log_wf s"
  shows "log_get (log_prune_prefix s n) i = (if i \<le> n then None else log_get s i)"
  using log_prune_offset [OF assms, of n] log_prune_hi [OF assms, of n]
  by (auto simp: log_get_eq log_prune_entries log_hi_def log_len_def max_def min_def split: if_splits)

lemma log_prune_last_pruned:
  assumes "log_wf s"
  shows "last_pruned (log_prune_prefix s n) =
    (if n \<le> log_offset s \<or> log_len s = 0 then last_pruned s
     else Some (Cursor (snd (log_entries s ! (min (n - log_offset s) (log_len s) - 1)))
                 (min n (log_hi s))))"
  using assms log_wf_wrap [OF assms]
  by (auto simp: log_prune_prefix_def Let_def log_hi_def min_def split: prod.splits)

lemma log_prune_wf:
  assumes "log_wf s"
  shows "log_wf (log_prune_prefix s n)"
proof -
  have "log_offset (log_prune_prefix s n) + log_len (log_prune_prefix s n) \<le> u64_max"
    using log_prune_hi [OF assms, of n] log_hi_le [OF assms] by (simp add: log_hi_def)
  then show ?thesis
    using assms log_prune_offset [OF assms, of n] log_prune_last_pruned [OF assms, of n]
    by (auto simp: log_wf_def log_hi_def min_def max_def split: option.splits if_splits)
qed

lemma log_last_eq:
  assumes "log_wf s"
  shows "log_last s =
    (if log_len s = 0 then Cursor (log_base_term s) (log_offset s)
     else Cursor (snd (last (log_entries s))) (log_hi s))"
  using assms log_wf_wrap [OF assms]
  by (auto simp: log_last_def log_wf_def log_base_term_def log_hi_def log_len_def cursor_zero_def
      cursor.expand split: option.splits prod.splits)

lemma log_last_index: "log_wf s \<Longrightarrow> cursor_index (log_last s) = log_hi s"
  by (simp add: log_last_eq log_hi_def)

lemma log_term_at_eq:
  assumes "log_wf s"
  shows "log_term_at s i =
    (if i = 0 then Some 0
     else if i = log_offset s then Some (log_base_term s)
     else map_option snd (log_get s i))"
  using assms
  by (auto simp: log_term_at_def log_wf_def log_base_term_def split: option.splits)

lemma log_last_term:
  assumes "log_wf s" and "log_hi s \<noteq> 0"
  shows "log_term_at s (log_hi s) = Some (cursor_term (log_last s))"
  using assms
  by (auto simp: log_term_at_eq log_last_eq log_get_eq log_hi_def log_len_def last_conv_nth)

lemma log_get_range_eq:
  assumes wf: "log_wf s"
  shows "log_get_range s (lo, hi) =
    map (\<lambda>i. (snd (the (log_get s i)), i, fst (the (log_get s i))))
      [max lo (Suc (log_offset s)) ..< Suc (min hi (log_hi s))]"
proof (cases "max lo (Suc (log_offset s)) \<le> min hi (log_hi s)")
  case False
  have w: "wrapping_add (log_offset s) (log_len s) = log_hi s"
    using log_wf_wrap [OF wf, of "log_len s"] by (simp add: log_hi_def)
  show ?thesis
  proof (cases "log_len s = 0")
    case True
    then show ?thesis by (simp add: log_get_range_def Let_def log_hi_def log_len_def)
  next
    case False
    then have "wrapping_add (log_offset s) 1 = Suc (log_offset s)"
      using log_wf_wrap [OF wf, of 1] by simp
    with w \<open>\<not> max lo (Suc (log_offset s)) \<le> min hi (log_hi s)\<close> show ?thesis
      by (auto simp: log_get_range_def Let_def not_le)
  qed
next
  case True
  let ?lo = "max lo (Suc (log_offset s))" and ?hi = "min hi (log_hi s)"
  from True have len: "1 \<le> log_len s" by (simp add: log_hi_def)
  have w1: "wrapping_add (log_offset s) 1 = Suc (log_offset s)"
    using log_wf_wrap [OF wf len] by simp
  have w2: "wrapping_add (log_offset s) (log_len s) = log_hi s"
    using log_wf_wrap [OF wf, of "log_len s"] by (simp add: log_hi_def)
  have w3: "wrapping_add (Suc (log_offset s)) i = Suc (log_offset s) + i" if "i < log_len s" for i
    using that wf by (simp add: wrapping_add_eq log_wf_def)
  let ?row = "\<lambda>i. (snd (the (log_get s i)), i, fst (the (log_get s i)))"
  let ?es = "take (Suc (?hi - ?lo)) (drop (?lo - Suc (log_offset s)) (enumerate_from 0 (log_entries s)))"
  let ?f = "\<lambda>(i, (cmd, term)). (term, wrapping_add (Suc (log_offset s)) i, cmd)"
  have eq: "log_get_range s (lo, hi) = map ?f ?es"
    using leD [OF True] w1 w2 by (auto simp: log_get_range_def Let_def Suc_diff_le)
  have len_es: "length ?es = Suc ?hi - ?lo"
    using True by (auto simp: log_hi_def log_len_def)
  show ?thesis unfolding eq
  proof (rule nth_equalityI)
    show "length (map ?f ?es)
        = length (map ?row [?lo ..< Suc ?hi])"
      by (simp only: length_map length_upt len_es)
  next
    fix k
    assume "k < length (map ?f ?es)"
    then have k: "k < Suc ?hi - ?lo" by (simp only: length_map len_es)
    let ?j = "?lo - Suc (log_offset s) + k"
    from k have j: "?j < log_len s" and index: "Suc (log_offset s) + ?j = ?lo + k"
      and row: "?lo + k \<le> log_hi s"
      by (auto simp: log_hi_def)
    have get: "log_get s (?lo + k) = Some (log_entries s ! ?j)"
      using row index by (simp add: log_get_eq)
    have "k < Suc (?hi - ?lo)" using k Suc_diff_le [OF True] by (simp only:)
    then have "?es ! k = enumerate_from 0 (log_entries s) ! ?j"
      using j by (simp add: log_len_def)
    then have es_k: "?es ! k = (?j, log_entries s ! ?j)"
      using j by (simp add: log_len_def)
    have "map ?f ?es ! k = ?f (?es ! k)"
      by (rule nth_map) (simp only: len_es k)
    also have "\<dots> = (snd (log_entries s ! ?j), ?lo + k, fst (log_entries s ! ?j))"
      unfolding es_k using w3 [OF j] index by (simp add: split_beta)
    also have "\<dots> = ?row (?lo + k)" by (simp only: get option.sel)
    also have "\<dots> = map ?row [?lo ..< Suc ?hi] ! k"
      using k by (simp only: nth_map length_upt nth_upt less_diff_conv2 add.commute)
    finally show "map ?f ?es ! k = map ?row [?lo ..< Suc ?hi] ! k" .
  qed
qed

section \<open>The storage interface\<close>

text \<open>
  What the \<open>Storage\<close> trait promises its clients. \<open>lo\<close> is the offset of the pruned prefix and
  \<open>hi\<close> the index of the last entry: exactly the entries with an index in \<open>lo <.. hi\<close> can be
  read.
\<close>

locale raft_log =
  fixes invar :: "'s \<Rightarrow> bool"
    and lo :: "'s \<Rightarrow> raft_index"
    and hi :: "'s \<Rightarrow> raft_index"
    and append :: "'s \<Rightarrow> 'c \<Rightarrow> raft_term \<Rightarrow> raft_index \<times> 's"
    and get :: "'s \<Rightarrow> raft_index \<Rightarrow> ('c \<times> raft_term) option"
    and get_range :: "'s \<Rightarrow> raft_index \<times> raft_index \<Rightarrow> (raft_term \<times> raft_index \<times> 'c) list"
    and truncate :: "'s \<Rightarrow> raft_index \<Rightarrow> 's"
    and last_pos :: "'s \<Rightarrow> cursor"
    and term_at :: "'s \<Rightarrow> raft_index \<Rightarrow> raft_term option"
    and prune :: "'s \<Rightarrow> raft_index \<Rightarrow> 's"
    and reset_to :: "'s \<Rightarrow> cursor \<Rightarrow> 's"
  assumes lo_le_hi: "lo s \<le> hi s"
    and hi_bound: "invar s \<Longrightarrow> hi s \<le> u64_max"
    and get_dom: "get s i \<noteq> None \<longleftrightarrow> lo s < i \<and> i \<le> hi s"
    and get_range: "invar s \<Longrightarrow> get_range s (a, b) =
      map (\<lambda>i. (snd (the (get s i)), i, fst (the (get s i)))) [max a (Suc (lo s)) ..< Suc (min b (hi s))]"
    and append: "invar s \<Longrightarrow> hi s < u64_max \<Longrightarrow>
      fst (append s c t) = Suc (hi s) \<and> invar (snd (append s c t)) \<and>
      lo (snd (append s c t)) = lo s \<and> hi (snd (append s c t)) = Suc (hi s) \<and>
      get (snd (append s c t)) = (get s)(Suc (hi s) \<mapsto> (c, t))"
    and truncate: "invar s \<Longrightarrow> invar (truncate s n) \<and> lo (truncate s n) = lo s \<and>
      hi (truncate s n) = (if n \<le> lo s then lo s else min (hi s) (n - 1)) \<and>
      get (truncate s n) = (\<lambda>i. if i < n then get s i else None)"
    and prune: "invar s \<Longrightarrow> invar (prune s n) \<and> lo (prune s n) = max (lo s) (min n (hi s)) \<and>
      hi (prune s n) = hi s \<and> get (prune s n) = (\<lambda>i. if i \<le> n then None else get s i)"
    and reset_to: "cursor_index p \<le> u64_max \<Longrightarrow> invar (reset_to s p) \<and>
      lo (reset_to s p) = cursor_index p \<and> hi (reset_to s p) = cursor_index p \<and>
      last_pos (reset_to s p) = p"
    and last_index: "invar s \<Longrightarrow> cursor_index (last_pos s) = hi s"
    and last_term: "invar s \<Longrightarrow> hi s \<noteq> 0 \<Longrightarrow> term_at s (hi s) = Some (cursor_term (last_pos s))"
    and term_at_zero: "term_at s 0 = Some 0"
    and term_at_get: "i \<noteq> 0 \<Longrightarrow> i \<noteq> lo s \<Longrightarrow> term_at s i = map_option snd (get s i)"
    and term_at_lo: "invar s \<Longrightarrow> \<exists>t. term_at s (lo s) = Some t"
begin

text \<open>A batch appended entry by entry, as the leader and the sync sessions do.\<close>

definition append_all :: "'s \<Rightarrow> ('c \<times> raft_term) list \<Rightarrow> 's" where
  "append_all s es = foldl (\<lambda>s (c, t). snd (append s c t)) s es"

lemma append_all_simps [simp]:
  "append_all s [] = s"
  "append_all s ((c, t) # es) = append_all (snd (append s c t)) es"
  by (simp_all add: append_all_def)

lemma append_all_spec:
  assumes "invar s" and "hi s + length es \<le> u64_max"
  shows "invar (append_all s es) \<and> lo (append_all s es) = lo s \<and>
    hi (append_all s es) = hi s + length es \<and>
    (\<forall>i \<le> hi s. get (append_all s es) i = get s i) \<and>
    (\<forall>k < length es. get (append_all s es) (Suc (hi s + k)) = Some (es ! k))"
  using assms
proof (induction es arbitrary: s)
  case Nil
  then show ?case by simp
next
  case (Cons e es)
  obtain c t where e: "e = (c, t)" by (cases e)
  let ?s = "snd (append s c t)"
  have room: "hi s < u64_max" using Cons.prems(2) by simp
  note ap = append [OF Cons.prems(1) room, of c t]
  have IH: "invar (append_all ?s es) \<and> lo (append_all ?s es) = lo ?s \<and>
    hi (append_all ?s es) = hi ?s + length es \<and>
    (\<forall>i \<le> hi ?s. get (append_all ?s es) i = get ?s i) \<and>
    (\<forall>k < length es. get (append_all ?s es) (Suc (hi ?s + k)) = Some (es ! k))"
    by (rule Cons.IH) (use ap Cons.prems(2) in simp_all)
  have "get (append_all s (e # es)) (Suc (hi s + k)) = Some ((e # es) ! k)"
    if "k < length (e # es)" for k
    using that IH ap e by (cases k) auto
  with IH ap e show ?case by auto
qed

text \<open>Within the readable part, a range read returns every entry once, in index order.\<close>

lemma get_range_inside:
  assumes "invar s" and "lo s < a" and "b \<le> hi s"
  shows "get_range s (a, b) =
    map (\<lambda>i. (snd (the (get s i)), i, fst (the (get s i)))) [a ..< Suc b]"
proof -
  have "max a (Suc (lo s)) = a" and "min b (hi s) = b" using assms by simp_all
  with assms(1) show ?thesis by (simp only: get_range)
qed

lemma get_range_length:
  assumes "invar s" and "lo s \<le> a" and "b \<le> hi s"
  shows "length (get_range s (Suc a, b)) = b - a"
  using assms by (simp add: get_range_inside del: upt_Suc)

lemma term_at_dom:
  assumes "invar s"
  shows "term_at s i \<noteq> None \<longleftrightarrow> i = 0 \<or> lo s \<le> i \<and> i \<le> hi s"
proof (cases "i = 0 \<or> i = lo s")
  case True
  then show ?thesis using term_at_zero term_at_lo [OF assms] lo_le_hi by auto
next
  case False
  then show ?thesis using term_at_get [of i s] get_dom [of s i] by auto
qed

end

interpretation im: raft_log log_wf log_offset log_hi log_append log_get log_get_range
  log_truncate log_last log_term_at log_prune_prefix log_reset_to
proof (unfold_locales, goal_cases)
  case (1 s) show ?case by (simp add: log_hi_def)
next
  case (2 s) then show ?case by (rule log_hi_le)
next
  case (3 s i) show ?case by (simp add: log_get_eq)
next
  case (4 s a b) then show ?case by (rule log_get_range_eq)
next
  case (5 s c t) then show ?case
    by (simp add: log_append_fst log_append_wf log_append_get log_simps)
next
  case (6 s n) then show ?case
    by (auto simp: log_truncate_wf log_truncate_hi log_truncate_get log_simps)
next
  case (7 s n) then show ?case
    by (auto simp: log_prune_wf log_prune_offset log_prune_hi log_prune_get)
next
  case (8 c s) then show ?case by (simp add: log_reset_wf log_simps)
next
  case (9 s) then show ?case by (rule log_last_index)
next
  case (10 s) then show ?case by (rule log_last_term)
next
  case (11 s) show ?case by (simp add: log_term_at_def)
next
  case (12 i s) then show ?case by (simp add: log_term_at_def)
next
  case (13 s) then show ?case by (simp add: log_term_at_eq)
qed

end
