(* ===== verification/State_Machine.thy ===== *)
theory State_Machine
  imports Log_Cursor
begin

text \<open>
  The interfaces of a replicated state machine: \<open>groups/machine/mod.rs\<close> (\<open>StateMachine\<close>,
  \<open>ApplyContext\<close>, \<open>LeadershipPreference\<close>) and \<open>collections/sync/mod.rs\<close> (\<open>Snapshot\<close>,
  \<open>SnapshotStateMachine\<close>, the snapshot requests a machine answers). The record \<open>collection\<close> holds
  what the six state machines of \<open>src/collections\<close> have in common, \<open>batch\<close> is the state of the
  loop in their \<open>apply_batch\<close>, and \<open>finish_batch\<close> is the code after that loop, the same in each.
  Group and network ids, which the machines read for metrics labels only, are left out.

  \<open>batch_machine\<close> is the contract of \<open>apply_batch\<close>: how the log is cut into batches, the local
  node id and the clock do not influence the replicated data. \<open>snapshot_machine\<close> is the contract
  of the snapshot operations: fetching a snapshot chunk by chunk rebuilds the data.
\<close>

datatype leadership_preference = Normal | Reluctant nat | Observer

definition reluctant :: leadership_preference where
  "reluctant = Reluctant 3"

record apply_context =
  ctx_committed :: cursor
  ctx_log_position :: cursor
  ctx_current_term :: raft_term

section \<open>Snapshot requests\<close>

record snapshot_request =
  requested_by :: peer_id
  requested_at :: int

text \<open>Durations are in milliseconds.\<close>

record sync_config =
  fetch_batch_size :: nat
  snapshot_ttl :: int
  snapshot_request_timeout :: int
  fetch_timeout :: int

definition sync_config_default :: sync_config where
  "sync_config_default = \<lparr>fetch_batch_size = 2000, snapshot_ttl = 10000,
    snapshot_request_timeout = 15000, fetch_timeout = 5000\<rparr>"

text \<open>
  \<open>Config::is_expired\<close> at the clock reading \<open>now\<close>. The absolute value is taken before the
  conversion to an unsigned duration, so the conversion cannot fail.
\<close>

definition is_expired :: "sync_config \<Rightarrow> int \<Rightarrow> snapshot_request \<Rightarrow> bool" where
  "is_expired cfg now request =
    (let elapsed = \<bar>now - requested_at request\<bar>
     in if elapsed < 0 then True else elapsed > snapshot_ttl cfg)"

record 's pending_request =
  pending_request :: snapshot_request
  pending_position :: cursor
  pending_snapshot :: 's

section \<open>The common part of the collection state machines\<close>

text \<open>
  \<open>latest\<close> is the value of the watch channel the public read API looks at, \<open>requests_tx\<close> the
  channel to the state sync provider.
\<close>

record ('d, 's) collection =
  coll_data :: 'd
  coll_latest :: 'd
  coll_local_id :: peer_id
  coll_is_writer :: bool
  coll_config :: sync_config
  coll_requests_tx :: "'s pending_request list"

definition collection_new ::
  "'d \<Rightarrow> bool \<Rightarrow> sync_config \<Rightarrow> peer_id \<Rightarrow> ('d, 's) collection" where
  "collection_new d is_writer cfg local_id =
    \<lparr>coll_data = d, coll_latest = d, coll_local_id = local_id, coll_is_writer = is_writer,
     coll_config = cfg, coll_requests_tx = []\<rparr>"

definition coll_leadership_preference :: "('d, 's) collection \<Rightarrow> leadership_preference" where
  "coll_leadership_preference m = (if coll_is_writer m then Normal else Observer)"

record 'd batch =
  batch_data :: 'd
  commands_len :: nat
  sync_requests :: "snapshot_request list"

definition batch_start :: "('d, 's) collection \<Rightarrow> 'd batch" where
  "batch_start m = \<lparr>batch_data = coll_data m, commands_len = 0, sync_requests = []\<rparr>"

text \<open>The arm for \<open>TakeSnapshot\<close>: note requests of other nodes that have not expired.\<close>

definition take_snapshot ::
  "('d, 's) collection \<Rightarrow> int \<Rightarrow> snapshot_request \<Rightarrow> 'd batch \<Rightarrow> 'd batch" where
  "take_snapshot m now request b =
    (if requested_by request \<noteq> coll_local_id m \<and> \<not> is_expired (coll_config m) now request
     then b\<lparr>sync_requests := sync_requests b @ [request]\<rparr> else b)"

definition count_command :: "'d batch \<Rightarrow> 'd batch" where
  "count_command b = b\<lparr>commands_len := commands_len b + 1\<rparr>"

definition serve_snapshot ::
  "('d, 's) collection \<Rightarrow> snapshot_request \<Rightarrow> cursor \<Rightarrow> 's \<Rightarrow> ('d, 's) collection" where
  "serve_snapshot m request position snapshot =
    m\<lparr>coll_requests_tx := coll_requests_tx m @
        [\<lparr>pending_request = request, pending_position = position, pending_snapshot = snapshot\<rparr>]\<rparr>"

definition finish_batch ::
  "('d \<Rightarrow> 's) \<Rightarrow> apply_context \<Rightarrow> ('d, 's) collection \<Rightarrow> 'd batch \<Rightarrow> ('d, 's) collection" where
  "finish_batch create_snapshot ctx m b =
    (let m1 = m\<lparr>coll_data := batch_data b, coll_latest := batch_data b\<rparr>
     in if sync_requests b \<noteq> []
        then let snapshot = create_snapshot (coll_data m1);
                 position = Cursor (ctx_current_term ctx)
                   (pos_add (cursor_index (ctx_committed ctx)) (commands_len b))
             in foldl (\<lambda>m request. serve_snapshot m request position snapshot) m1 (sync_requests b)
        else m1)"

lemma is_expired_eq: "is_expired cfg now r \<longleftrightarrow> snapshot_ttl cfg < \<bar>now - requested_at r\<bar>"
  by (simp add: is_expired_def Let_def)

lemma batch_data_simps [simp]:
  "batch_data (take_snapshot m now r b) = batch_data b"
  "batch_data (count_command b) = batch_data b"
  "batch_data (batch_start m) = coll_data m"
  "commands_len (take_snapshot m now r b) = commands_len b"
  "commands_len (count_command b) = Suc (commands_len b)"
  "commands_len (batch_start m) = 0"
  "sync_requests (count_command b) = sync_requests b"
  "sync_requests (batch_start m) = []"
  by (simp_all add: take_snapshot_def count_command_def batch_start_def)

lemma foldl_serve_snapshot:
  "foldl (\<lambda>m r. serve_snapshot m r p s) m rs =
    m\<lparr>coll_requests_tx := coll_requests_tx m @
      map (\<lambda>r. \<lparr>pending_request = r, pending_position = p, pending_snapshot = s\<rparr>) rs\<rparr>"
  by (induction rs arbitrary: m) (simp_all add: serve_snapshot_def)

lemma finish_batch_eq:
  "finish_batch cs ctx m b =
    m\<lparr>coll_data := batch_data b, coll_latest := batch_data b,
      coll_requests_tx := coll_requests_tx m @
        map (\<lambda>r. \<lparr>pending_request = r,
                  pending_position = Cursor (ctx_current_term ctx)
                    (pos_add (cursor_index (ctx_committed ctx)) (commands_len b)),
                  pending_snapshot = cs (batch_data b)\<rparr>) (sync_requests b)\<rparr>"
  by (simp add: finish_batch_def Let_def foldl_serve_snapshot)

lemma finish_batch_simps [simp]:
  "coll_data (finish_batch cs ctx m b) = batch_data b"
  "coll_latest (finish_batch cs ctx m b) = batch_data b"
  "coll_local_id (finish_batch cs ctx m b) = coll_local_id m"
  "coll_config (finish_batch cs ctx m b) = coll_config m"
  "coll_is_writer (finish_batch cs ctx m b) = coll_is_writer m"
  by (simp_all add: finish_batch_eq)

section \<open>The contract of a replicated state machine\<close>

text \<open>
  \<open>apply_batch\<close> may panic (\<open>None\<close>). \<open>view\<close> is the replicated data and \<open>apply_one\<close> what one
  command does to it.
\<close>

text \<open>A run of a machine: batches with the context and clock each is applied under.\<close>

fun run_batches ::
  "('c list \<Rightarrow> apply_context \<Rightarrow> int \<Rightarrow> 'm \<Rightarrow> 'm option) \<Rightarrow> ('c list \<times> apply_context \<times> int) list \<Rightarrow> 'm
    \<Rightarrow> 'm option" where
  "run_batches apply_batch [] m = Some m"
| "run_batches apply_batch ((cs, ctx, now) # bs) m =
    Option.bind (apply_batch cs ctx now m) (run_batches apply_batch bs)"

locale batch_machine =
  fixes apply_batch :: "'c list \<Rightarrow> apply_context \<Rightarrow> int \<Rightarrow> 'm \<Rightarrow> 'm option"
    and view :: "'m \<Rightarrow> 'd"
    and apply_one :: "'d \<Rightarrow> 'c \<Rightarrow> 'd option"
  assumes view_apply_batch:
    "map_option view (apply_batch cs ctx now m) = foldM apply_one (view m) cs"
begin

lemma view_apply_batch_Some:
  "apply_batch cs ctx now m = Some m' \<Longrightarrow> foldM apply_one (view m) cs = Some (view m')"
  using view_apply_batch [of cs ctx now m] by (auto dest: sym)

lemma view_apply_batch_None:
  "apply_batch cs ctx now m = None \<Longrightarrow> foldM apply_one (view m) cs = None"
  using view_apply_batch [of cs ctx now m] by (auto dest: sym)

lemma view_run: "map_option view (run_batches apply_batch bs m) = foldM apply_one (view m) (concat (map fst bs))"
proof (induction bs arbitrary: m)
  case Nil
  then show ?case by simp
next
  case (Cons b bs)
  obtain cs ctx now where b: "b = (cs, ctx, now)" by (cases b)
  show ?case
  proof (cases "apply_batch cs ctx now m")
    case None
    with b show ?thesis by (simp add: foldM_append view_apply_batch_None)
  next
    case (Some m')
    with b show ?thesis by (simp add: foldM_append view_apply_batch_Some Cons.IH)
  qed
qed

text \<open>
  Replicas that apply the same commands in the same order hold the same data, whatever their
  batches, contexts, clocks and local state.
\<close>

lemma replicas_converge:
  assumes "view m1 = view m2" and "concat (map fst bs1) = concat (map fst bs2)"
  shows "map_option view (run_batches apply_batch bs1 m1) =
    map_option view (run_batches apply_batch bs2 m2)"
  using assms by (simp add: view_run)

end

section \<open>The contract of snapshots\<close>

text \<open>
  \<open>items\<close> is the sequence of items a snapshot is made of. A range request inside the snapshot
  returns the items of that range; appending all of them to an empty snapshot and installing the
  result restores the data the snapshot was created from. \<open>ok\<close> is the invariant of the data.
\<close>

text \<open>
  The transfer of a snapshot: the chunks between consecutive cut points are requested one after
  the other and appended as they arrive. \<open>None\<close> if a request is refused.
\<close>

fun fetch_chunks ::
  "('s \<Rightarrow> nat \<times> nat \<Rightarrow> 'i list option) \<Rightarrow> ('s \<Rightarrow> 'i list \<Rightarrow> 's) \<Rightarrow> 's \<Rightarrow> nat \<Rightarrow> nat list \<Rightarrow> 's \<Rightarrow> 's option" where
  "fetch_chunks iter_range app src a [] acc = Some acc"
| "fetch_chunks iter_range app src a (b # bs) acc =
    (case iter_range src (a, b) of
       None \<Rightarrow> None
     | Some is \<Rightarrow> fetch_chunks iter_range app src b bs (app acc is))"

locale snapshot_machine =
  fixes ok :: "'d \<Rightarrow> bool"
    and create :: "'d \<Rightarrow> 's"
    and install :: "'s \<Rightarrow> 'd"
    and empty :: 's
    and len :: "'s \<Rightarrow> nat"
    and iter_range :: "'s \<Rightarrow> nat \<times> nat \<Rightarrow> 'i list option"
    and append :: "'s \<Rightarrow> 'i list \<Rightarrow> 's"
    and items :: "'s \<Rightarrow> 'i list"
  assumes len_items: "ok d \<Longrightarrow> len (create d) = length (items (create d))"
    and iter_range: "ok d \<Longrightarrow> a < b \<Longrightarrow> b \<le> len (create d) \<Longrightarrow>
      iter_range (create d) (a, b) = Some (take (b - a) (drop a (items (create d))))"
    and append_Nil: "append s [] = s"
    and append_append: "append s (xs @ ys) = append (append s xs) ys"
    and rebuild: "ok d \<Longrightarrow> install (append empty (items (create d))) = d"
begin

lemma transfer_spec:
  assumes "ok d" and "sorted_wrt (<) (a # bs)" and "\<forall>b \<in> set bs. b \<le> len (create d)"
  shows "fetch_chunks iter_range append (create d) a bs (append empty (take a (items (create d)))) =
    Some (append empty (take (last (a # bs)) (items (create d))))"
  using assms(2,3)
proof (induction bs arbitrary: a)
  case Nil
  then show ?case by simp
next
  case (Cons b bs)
  from Cons.prems have ab: "a < b" "b \<le> len (create d)" by simp_all
  have split: "take b (items (create d)) =
      take a (items (create d)) @ take (b - a) (drop a (items (create d)))"
    using ab take_add [of a "b - a" "items (create d)"] by simp
  have rest: "fetch_chunks iter_range append (create d) b bs (append empty (take b (items (create d)))) =
      Some (append empty (take (last (b # bs)) (items (create d))))"
    by (rule Cons.IH) (use Cons.prems in simp_all)
  have "append (append empty (take a (items (create d)))) (take (b - a) (drop a (items (create d))))
      = append empty (take b (items (create d)))"
    by (simp only: split append_append)
  then show ?case
    using rest iter_range [OF assms(1) ab] by simp
qed

lemma transfer_restores:
  assumes "ok d" and "sorted_wrt (<) (0 # bs)" and "last (0 # bs) = len (create d)"
  shows "map_option install (fetch_chunks iter_range append (create d) 0 bs empty) = Some d"
proof -
  have "\<forall>b \<in> set bs. b \<le> len (create d)"
  proof
    fix b assume "b \<in> set bs"
    then obtain xs ys where bs: "bs = xs @ b # ys" by (auto simp: in_set_conv_decomp)
    with assms(2,3) show "b \<le> len (create d)"
      by (cases ys rule: rev_cases) (auto simp: sorted_wrt_append)
  qed
  from transfer_spec [OF assms(1,2) this]
  show ?thesis using assms(1,3) by (simp add: append_Nil len_items rebuild)
qed

end

end
