(* ===== verification/Raft_Protocol.thy ===== *)
theory Raft_Protocol
  imports Log_Storage State_Machine
begin

text \<open>
  \<open>groups/raft/protocol.rs\<close>: the messages of the consensus protocol. The type parameters are the
  command \<open>'c\<close>, query \<open>'q\<close> and query result \<open>'r\<close> of the state machine and the message \<open>'y\<close> of its
  state sync. \<open>Encoded\<close> is a transparent wrapper and is left out.
\<close>

datatype vote = Granted | Denied | Abstained

record request_vote =
  rv_term :: raft_term
  rv_candidate :: peer_id
  rv_log_position :: cursor

record request_vote_response =
  rvr_term :: raft_term
  rvr_vote :: vote

record 'c log_entry =
  le_term :: raft_term
  le_command :: 'c

record 'c append_entries =
  ae_term :: raft_term
  ae_leader :: peer_id
  ae_prev_log_position :: cursor
  ae_entries :: "'c log_entry list"
  ae_leader_commit :: raft_index

record append_entries_response =
  aer_term :: raft_term
  aer_last_log_index :: raft_index
  aer_vote :: vote

type_synonym index_range = "raft_index \<times> raft_index"

datatype ('c, 'q, 'r) forward =
    ForwardCommand "'c list" "nat option"
  | CommandAck nat index_range
  | ForwardQuery 'q nat
  | QueryResponse nat 'r raft_index

datatype ('c, 'q, 'r, 'y) message =
    AppendEntries "'c append_entries"
  | AppendEntriesResponse append_entries_response
  | RequestVote request_vote
  | RequestVoteResponse request_vote_response
  | Forward "('c, 'q, 'r) forward"
  | StateSync 'y

fun message_term :: "('c, 'q, 'r, 'y) message \<Rightarrow> raft_term option" where
  "message_term (AppendEntries msg) = Some (ae_term msg)"
| "message_term (AppendEntriesResponse msg) = Some (aer_term msg)"
| "message_term (RequestVote msg) = Some (rv_term msg)"
| "message_term (RequestVoteResponse msg) = Some (rvr_term msg)"
| "message_term (Forward _) = None"
| "message_term (StateSync _) = None"

fun message_leader :: "('c, 'q, 'r, 'y) message \<Rightarrow> peer_id option" where
  "message_leader (AppendEntries msg) = Some (ae_leader msg)"
| "message_leader (AppendEntriesResponse _) = None"
| "message_leader (RequestVote _) = None"
| "message_leader (RequestVoteResponse _) = None"
| "message_leader (Forward _) = None"
| "message_leader (StateSync _) = None"

lemma message_term_leader: "message_leader m = Some l \<Longrightarrow> message_term m \<noteq> None"
  by (cases m) simp_all

end
