(* ===== verification/Raft_Shared.thy ===== *)
theory Raft_Shared
  imports Raft_Protocol
begin

text \<open>
  \<open>groups/raft/shared.rs\<close>: the state all raft roles share, with the commit, vote, prune and observer
  operations, and the sending side of \<open>groups/bond/mod.rs\<close> (\<open>send_raft_to\<close>, \<open>broadcast_raft\<close>).

  The generic parameters of the Rust code are dictionaries here: \<open>machine_ops\<close> for the
  \<open>StateMachine\<close> trait, \<open>sync_ops\<close> for \<open>StateSync\<close> with its session and provider. The bonded peers
  are part of the state (the environment changes them between steps), sent messages are appended
  to \<open>outbox\<close>, commands for the group's worker to \<open>worker_tx\<close>, and the observers of \<open>groups/when.rs\<close> are the \<open>when_\<close> fields. Wakers and metrics
  have no counterpart.
\<close>

section \<open>State\<close>

record ('c, 'm, 'q, 'r, 'y, 'p) shared =
  storage :: "'c log_store"
  state_machine :: 'm
  last_vote :: "(raft_term \<times> peer_id) option"
  sync_provider :: 'p
  committed :: cursor
  sh_local_id :: peer_id
  sh_bonds :: "peer_id list"
  when_leader :: "peer_id option"
  when_online :: bool
  when_committed :: raft_index
  when_log_pos :: cursor
  outbox :: "(peer_id \<times> ('c, 'q, 'r, 'y) message) list"
  worker_tx :: "'c list"

record ('c, 'm, 'q, 'r, 'y) machine_ops =
  m_apply_batch :: "'c list \<Rightarrow> apply_context \<Rightarrow> int \<Rightarrow> 'm \<Rightarrow> 'm option"
  m_query :: "'m \<Rightarrow> 'q \<Rightarrow> 'r"
  m_preference :: "'m \<Rightarrow> leadership_preference"
  m_encodable :: "('c, 'q, 'r, 'y) message \<Rightarrow> bool"

record ('c, 's, 'p, 'y, 'h) sync_ops =
  create_session :: "'h \<Rightarrow> cursor \<Rightarrow> raft_index \<Rightarrow> ('c \<times> raft_term) list \<Rightarrow> ('s \<times> 'h) option"
  session_poll :: "'s \<Rightarrow> 'h \<Rightarrow> ('s \<times> 'h \<times> cursor option) option"
  session_receive :: "'s \<Rightarrow> 'y \<Rightarrow> peer_id \<Rightarrow> 'h \<Rightarrow> ('s \<times> 'h) option"
  session_buffer :: "'s \<Rightarrow> cursor \<Rightarrow> ('c \<times> raft_term) list \<Rightarrow> 'h \<Rightarrow> ('s \<times> 'h) option"
  provider_receive :: "'p \<Rightarrow> 'y \<Rightarrow> peer_id \<Rightarrow> 'h \<Rightarrow> ('p \<times> 'h \<times> 'y option) option"
  provider_committed :: "'p \<Rightarrow> cursor \<Rightarrow> 'h \<Rightarrow> 'p \<times> 'h"
  provider_safe_to_prune :: "'p \<Rightarrow> 'h \<Rightarrow> raft_index option"
  provider_poll :: "'p \<Rightarrow> 'h \<Rightarrow> ('p \<times> 'h \<times> bool) option"

definition shared_new :: "'c log_store \<Rightarrow> 'm \<Rightarrow> 'p \<Rightarrow> peer_id \<Rightarrow> ('c, 'm, 'q, 'r, 'y, 'p) shared" where
  "shared_new store machine provider local_id =
    \<lparr>storage = store, state_machine = machine, last_vote = None, sync_provider = provider,
     committed = cursor_zero, sh_local_id = local_id, sh_bonds = [], when_leader = None,
     when_online = False, when_committed = 0, when_log_pos = cursor_zero, outbox = [],
     worker_tx = []\<rparr>"

section \<open>Sending\<close>

text \<open>\<open>None\<close> is the encoding error; a peer without a bond is skipped with a warning.\<close>

definition send_raft_to ::
  "('c, 'm, 'q, 'r, 'y) machine_ops \<Rightarrow> ('c, 'm, 'q, 'r, 'y, 'p) shared
    \<Rightarrow> ('c, 'q, 'r, 'y) message \<Rightarrow> peer_id \<Rightarrow> ('c, 'm, 'q, 'r, 'y, 'p) shared option" where
  "send_raft_to ops sh msg to_peer =
    (if to_peer \<notin> set (sh_bonds sh) then Some sh
     else if m_encodable ops msg then Some (sh\<lparr>outbox := outbox sh @ [(to_peer, msg)]\<rparr>)
     else None)"

definition broadcast_raft ::
  "('c, 'm, 'q, 'r, 'y) machine_ops \<Rightarrow> ('c, 'm, 'q, 'r, 'y, 'p) shared
    \<Rightarrow> ('c, 'q, 'r, 'y) message \<Rightarrow> (peer_id list \<times> ('c, 'm, 'q, 'r, 'y, 'p) shared) option" where
  "broadcast_raft ops sh msg =
    (if m_encodable ops msg
     then Some (sh_bonds sh, sh\<lparr>outbox := outbox sh @ map (\<lambda>p. (p, msg)) (sh_bonds sh)\<rparr>)
     else None)"

section \<open>Observers\<close>

definition update_leader ::
  "('c, 'm, 'q, 'r, 'y, 'p) shared \<Rightarrow> peer_id option \<Rightarrow> ('c, 'm, 'q, 'r, 'y, 'p) shared" where
  "update_leader sh leader = sh\<lparr>when_leader := leader\<rparr>"

definition set_online :: "('c, 'm, 'q, 'r, 'y, 'p) shared \<Rightarrow> ('c, 'm, 'q, 'r, 'y, 'p) shared" where
  "set_online sh = sh\<lparr>when_online := True\<rparr>"

definition set_offline :: "('c, 'm, 'q, 'r, 'y, 'p) shared \<Rightarrow> ('c, 'm, 'q, 'r, 'y, 'p) shared" where
  "set_offline sh = sh\<lparr>when_online := False\<rparr>"

definition update_log_pos ::
  "('c, 'm, 'q, 'r, 'y, 'p) shared \<Rightarrow> cursor \<Rightarrow> ('c, 'm, 'q, 'r, 'y, 'p) shared" where
  "update_log_pos sh pos = sh\<lparr>when_log_pos := pos\<rparr>"

definition update_committed ::
  "('c, 's, 'p, 'y, ('c, 'm, 'q, 'r, 'y, 'p) shared) sync_ops \<Rightarrow> ('c, 'm, 'q, 'r, 'y, 'p) shared
    \<Rightarrow> cursor \<Rightarrow> ('c, 'm, 'q, 'r, 'y, 'p) shared" where
  "update_committed sync sh c =
    (let sh1 = sh\<lparr>when_committed := cursor_index c\<rparr>;
         (provider, sh2) = provider_committed sync (sync_provider sh1) c sh1
     in sh2\<lparr>sync_provider := provider\<rparr>)"

definition set_committed ::
  "('c, 'm, 'q, 'r, 'y, 'p) shared \<Rightarrow> cursor \<Rightarrow> ('c, 'm, 'q, 'r, 'y, 'p) shared" where
  "set_committed sh position = sh\<lparr>committed := position, when_committed := cursor_index position\<rparr>"

section \<open>Votes\<close>

definition can_vote :: "('c, 'm, 'q, 'r, 'y, 'p) shared \<Rightarrow> raft_term \<Rightarrow> peer_id \<Rightarrow> bool" where
  "can_vote sh term candidate =
    (case last_vote sh of
      None \<Rightarrow> True
    | Some (last_term, last_candidate) \<Rightarrow>
        if last_term < term then True
        else if last_term = term \<and> last_candidate = candidate then True
        else False)"

definition save_vote ::
  "('c, 'm, 'q, 'r, 'y, 'p) shared \<Rightarrow> raft_term \<Rightarrow> peer_id \<Rightarrow> ('c, 'm, 'q, 'r, 'y, 'p) shared" where
  "save_vote sh term candidate = sh\<lparr>last_vote := Some (term, candidate)\<rparr>"

section \<open>Commitment\<close>

text \<open>
  The loop of \<open>commit_up_to\<close>: the longest run of entries with the term of the first one is
  applied as one batch, with the committed cursor before the batch in the apply context.
\<close>

function commit_batches ::
  "('c, 'm, 'q, 'r, 'y) machine_ops \<Rightarrow> int \<Rightarrow> cursor \<Rightarrow> (raft_term \<times> raft_index \<times> 'c) list
    \<Rightarrow> ('c, 'm, 'q, 'r, 'y, 'p) shared \<Rightarrow> ('c, 'm, 'q, 'r, 'y, 'p) shared option" where
  "commit_batches ops now log_position [] sh = Some sh"
| "commit_batches ops now log_position (row # rows) sh =
    (let batch_term = fst row;
         same = (\<lambda>(t, _, _). t = batch_term);
         batch = takeWhile same (row # rows);
         rest = dropWhile same (row # rows);
         ctx = \<lparr>ctx_committed = committed sh, ctx_log_position = log_position,
                ctx_current_term = batch_term\<rparr>
     in case m_apply_batch ops (map (snd \<circ> snd) batch) ctx now (state_machine sh) of
          None \<Rightarrow> None
        | Some m \<Rightarrow>
            commit_batches ops now log_position rest
              (sh\<lparr>state_machine := m,
                  committed := Cursor batch_term
                    (pos_add (cursor_index (committed sh)) (length batch))\<rparr>))"
  by pat_completeness auto
termination
proof (relation "measure (\<lambda>(ops, now, log_position, rows, sh). length rows)", goal_cases)
  case 1
  show ?case by simp
next
  case (2 ops now log_position row rows sh x xa xb xc xd x2)
  have "length (dropWhile xa rows) \<le> length rows" by (rule length_dropWhile_le)
  then show ?case using 2 by (cases row) simp
qed

definition commit_up_to ::
  "('c, 'm, 'q, 'r, 'y) machine_ops \<Rightarrow> int \<Rightarrow> raft_index \<Rightarrow> ('c, 'm, 'q, 'r, 'y, 'p) shared
    \<Rightarrow> (cursor \<times> ('c, 'm, 'q, 'r, 'y, 'p) shared) option" where
  "commit_up_to ops now index sh =
    (let commands = log_get_range (storage sh) (pos_next (cursor_index (committed sh)), index);
         log_position = log_last (storage sh)
     in map_option (\<lambda>sh'. (committed sh', sh')) (commit_batches ops now log_position commands sh))"

definition prune_safe_prefix ::
  "('c, 's, 'p, 'y, ('c, 'm, 'q, 'r, 'y, 'p) shared) sync_ops \<Rightarrow> ('c, 'm, 'q, 'r, 'y, 'p) shared
    \<Rightarrow> ('c, 'm, 'q, 'r, 'y, 'p) shared" where
  "prune_safe_prefix sync sh =
    (if is_zero (cursor_index (committed sh)) then sh
     else (case provider_safe_to_prune sync (sync_provider sh) sh of
             None \<Rightarrow> sh
           | Some up_to \<Rightarrow>
               sh\<lparr>storage := log_prune_prefix (storage sh)
                    (min up_to (pos_prev (cursor_index (committed sh))))\<rparr>))"

section \<open>State sync\<close>

definition sync_provider_receive ::
  "('c, 's, 'p, 'y, ('c, 'm, 'q, 'r, 'y, 'p) shared) sync_ops \<Rightarrow> 'y \<Rightarrow> peer_id
    \<Rightarrow> ('c, 'm, 'q, 'r, 'y, 'p) shared \<Rightarrow> ('y option \<times> ('c, 'm, 'q, 'r, 'y, 'p) shared) option" where
  "sync_provider_receive sync msg sender sh =
    map_option (\<lambda>(provider, sh', rejected). (rejected, sh'\<lparr>sync_provider := provider\<rparr>))
      (provider_receive sync (sync_provider sh) msg sender sh)"

definition poll_state_sync_provider ::
  "('c, 's, 'p, 'y, ('c, 'm, 'q, 'r, 'y, 'p) shared) sync_ops \<Rightarrow> ('c, 'm, 'q, 'r, 'y, 'p) shared
    \<Rightarrow> (bool \<times> ('c, 'm, 'q, 'r, 'y, 'p) shared) option" where
  "poll_state_sync_provider sync sh =
    map_option (\<lambda>(provider, sh', ready). (ready, sh'\<lparr>sync_provider := provider\<rparr>))
      (provider_poll sync (sync_provider sh) sh)"

definition provider_is_leader :: "('c, 'm, 'q, 'r, 'y, 'p) shared \<Rightarrow> bool" where
  "provider_is_leader sh \<longleftrightarrow> when_leader sh = Some (sh_local_id sh)"

text \<open>
  \<open>feed_command\<close>: the worker that owns the other end of the channel is the one running this code, so
  the send itself cannot fail. \<open>None\<close> is the command handed back by a node that is not the leader.
\<close>

definition feed_command ::
  "'c \<Rightarrow> ('c, 'm, 'q, 'r, 'y, 'p) shared \<Rightarrow> ('c, 'm, 'q, 'r, 'y, 'p) shared option" where
  "feed_command command sh =
    (if provider_is_leader sh then Some (sh\<lparr>worker_tx := worker_tx sh @ [command]\<rparr>) else None)"

end
