(* ===== verification/Raft_Committee.thy ===== *)
theory Raft_Committee
  imports Raft_Protocol "HOL-Library.AList" "HOL-Library.Multiset"
begin

text \<open>
  The voting committee of \<open>groups/raft/leader.rs\<close>: the voters with the last index each has
  acknowledged, the in-sync followers that may be promoted, and the quorum index the leader commits
  up to. A \<open>HashMap\<close> is an association list whose order stands for the iteration order; the lemmas
  hold for every order.
\<close>

section \<open>The committee\<close>

record committee =
  voters :: "(peer_id \<times> raft_index) list"
  non_voters :: "(peer_id \<times> raft_index) list"
  max_committee_size :: nat

definition committee_new :: "peer_id list \<Rightarrow> raft_index \<Rightarrow> committee" where
  "committee_new vs last_log_index =
    \<lparr>voters = map (\<lambda>voter. (voter, last_log_index)) vs, non_voters = [], max_committee_size = 5\<rparr>"

definition target_committee_size :: "committee \<Rightarrow> nat" where
  "target_committee_size c =
    (let total_followers = length (voters c) + length (non_voters c);
         capped = min (max_committee_size c) total_followers
     in if capped \<le> 2 then capped else if even capped then capped + 1 else capped)"

definition promote_count :: "committee \<Rightarrow> nat" where
  "promote_count c =
    (let deficit = target_committee_size c - length (voters c);
         available = min (length (non_voters c)) deficit
     in if (length (voters c) + available) mod 2 = 0 then available - 1 else available)"

text \<open>\<open>sort_by_key\<close> with \<open>Reverse\<close>: a stable sort by descending index.\<close>

definition by_progress :: "(peer_id \<times> raft_index) list \<Rightarrow> (peer_id \<times> raft_index) list" where
  "by_progress xs = sort_key (\<lambda>(_, log_index). - int log_index) xs"

definition try_backfill_voters :: "committee \<Rightarrow> committee" where
  "try_backfill_voters c =
    (if length (voters c) < target_committee_size c
     then foldl (\<lambda>c (non_voter, log_index).
            c\<lparr>non_voters := AList.delete non_voter (non_voters c),
              voters := AList.update non_voter log_index (voters c)\<rparr>) c
            (take (promote_count c) (by_progress (non_voters c)))
     else c)"

definition committee_remove :: "committee \<Rightarrow> peer_id \<Rightarrow> committee" where
  "committee_remove c follower =
    try_backfill_voters
      (c\<lparr>voters := AList.delete follower (voters c),
         non_voters := AList.delete follower (non_voters c)\<rparr>)"

definition remove_dead_voters :: "committee \<Rightarrow> peer_id set \<Rightarrow> committee" where
  "remove_dead_voters c active_bonds =
    try_backfill_voters
      (c\<lparr>voters := filter (\<lambda>(voter, _). voter \<in> active_bonds) (voters c),
         non_voters := filter (\<lambda>(non_voter, _). non_voter \<in> active_bonds) (non_voters c)\<rparr>)"

text \<open>\<open>None\<close> is the arithmetic underflow of an empty committee.\<close>

definition highest_quorum_index :: "committee \<Rightarrow> raft_index option" where
  "highest_quorum_index c =
    (let log_indices = sort (map snd (voters c));
         quorum = length (voters c) div 2 + 1
     in if length log_indices < quorum then None
        else Some (log_indices ! (length log_indices - quorum)))"

definition committee_record_vote ::
  "committee \<Rightarrow> peer_id \<Rightarrow> raft_index \<Rightarrow> (raft_index \<times> committee) option" where
  "committee_record_vote c follower log_index =
    (let c' =
       (if map_of (voters c) follower \<noteq> None
        then c\<lparr>voters := AList.update follower log_index (voters c)\<rparr>
        else let fresh = map_of (non_voters c) follower = None;
                 c1 = c\<lparr>non_voters := AList.update follower log_index (non_voters c)\<rparr>
             in if fresh then try_backfill_voters c1 else c1)
     in map_option (\<lambda>i. (i, c')) (highest_quorum_index c'))"

section \<open>Invariant\<close>

text \<open>No peer is listed twice.\<close>

definition committee_wf :: "committee \<Rightarrow> bool" where
  "committee_wf c \<longleftrightarrow>
    distinct (map fst (voters c)) \<and> distinct (map fst (non_voters c)) \<and>
    fst ` set (voters c) \<inter> fst ` set (non_voters c) = {}"

lemma committee_new_wf: "distinct vs \<Longrightarrow> committee_wf (committee_new vs i)"
  by (simp add: committee_wf_def committee_new_def comp_def)

definition promote :: "committee \<Rightarrow> (peer_id \<times> raft_index) list \<Rightarrow> committee" where
  "promote c ps =
    foldl (\<lambda>c (non_voter, log_index).
      c\<lparr>non_voters := AList.delete non_voter (non_voters c),
        voters := AList.update non_voter log_index (voters c)\<rparr>) c ps"

lemma promote_simps [simp]:
  "promote c [] = c"
  "promote c ((p, i) # ps) =
    promote (c\<lparr>non_voters := AList.delete p (non_voters c), voters := AList.update p i (voters c)\<rparr>) ps"
  by (simp_all add: promote_def)

lemma try_backfill_eq:
  "try_backfill_voters c =
    (if length (voters c) < target_committee_size c
     then promote c (take (promote_count c) (by_progress (non_voters c))) else c)"
  by (simp add: try_backfill_voters_def promote_def)

lemma alist_update_fresh: "p \<notin> fst ` set xs \<Longrightarrow> AList.update p i xs = xs @ [(p, i)]"
  by (induction xs) auto

text \<open>Promoting distinct non-voters moves exactly them to the end of the voters.\<close>

lemma promote_spec:
  assumes "committee_wf c" and "set ps \<subseteq> set (non_voters c)" and "distinct (map fst ps)"
  shows "voters (promote c ps) = voters c @ ps \<and>
    non_voters (promote c ps) = filter (\<lambda>(p, _). p \<notin> fst ` set ps) (non_voters c) \<and>
    max_committee_size (promote c ps) = max_committee_size c"
  using assms
proof (induction ps arbitrary: c)
  case Nil
  then show ?case by simp
next
  case (Cons x ps)
  obtain p i where x: "x = (p, i)" by (cases x)
  have p: "(p, i) \<in> set (non_voters c)" using Cons.prems(2) x by simp
  then have fresh: "p \<notin> fst ` set (voters c)"
    using Cons.prems(1) by (force simp: committee_wf_def)
  let ?c = "c\<lparr>non_voters := AList.delete p (non_voters c), voters := AList.update p i (voters c)\<rparr>"
  have vs: "AList.update p i (voters c) = voters c @ [(p, i)]" by (rule alist_update_fresh [OF fresh])
  have nv: "AList.delete p (non_voters c) = filter (\<lambda>(q, _). q \<noteq> p) (non_voters c)"
    by (auto simp: AList.delete_eq intro!: filter_cong)
  have wf: "committee_wf ?c"
    using Cons.prems(1) fresh by (auto simp: committee_wf_def vs nv distinct_map_filter split_beta)
  have sub: "set ps \<subseteq> set (non_voters ?c)"
    using Cons.prems(2,3) x by (force simp: nv)
  have "voters (promote ?c ps) = voters ?c @ ps \<and>
    non_voters (promote ?c ps) = filter (\<lambda>(p, _). p \<notin> fst ` set ps) (non_voters ?c) \<and>
    max_committee_size (promote ?c ps) = max_committee_size ?c"
    by (rule Cons.IH [OF wf sub]) (use Cons.prems(3) in simp)
  then show ?case by (auto simp: x vs nv split_beta intro: filter_cong)
qed

lemma by_progress_perm [simp]: "mset (by_progress xs) = mset xs"
  by (simp add: by_progress_def)

lemma by_progress_set [simp]: "set (by_progress xs) = set xs"
  by (simp add: by_progress_def)

lemma by_progress_distinct: "distinct (map fst (by_progress xs)) \<longleftrightarrow> distinct (map fst xs)"
  by (metis by_progress_perm mset_map mset_eq_imp_distinct_iff)

lemma backfill_promoted:
  assumes "committee_wf c"
  defines "ps \<equiv> take (promote_count c) (by_progress (non_voters c))"
  shows "set ps \<subseteq> set (non_voters c)" and "distinct (map fst ps)"
proof -
  show "set ps \<subseteq> set (non_voters c)"
    using set_take_subset [of "promote_count c" "by_progress (non_voters c)"] by (simp add: ps_def)
  show "distinct (map fst ps)"
    using assms(1) by (simp add: ps_def committee_wf_def by_progress_distinct flip: take_map)
qed

lemma backfill_voters:
  assumes "committee_wf c" and "length (voters c) < target_committee_size c"
  shows "voters (try_backfill_voters c) =
      voters c @ take (promote_count c) (by_progress (non_voters c))"
    and "non_voters (try_backfill_voters c) =
      filter (\<lambda>(p, _). p \<notin> fst ` set (take (promote_count c) (by_progress (non_voters c)))) (non_voters c)"
  using promote_spec [OF assms(1) backfill_promoted [OF assms(1)]] assms(2)
  by (simp_all add: try_backfill_eq)

lemma backfill_keeps_voters:
  assumes "committee_wf c"
  shows "set (voters c) \<subseteq> set (voters (try_backfill_voters c))"
  using backfill_voters(1) [OF assms] by (cases "length (voters c) < target_committee_size c")
    (auto simp: try_backfill_eq)

lemma backfill_wf:
  assumes wf: "committee_wf c"
  shows "committee_wf (try_backfill_voters c)"
proof (cases "length (voters c) < target_committee_size c")
  case False
  then show ?thesis using wf by (simp add: try_backfill_eq)
next
  case True
  note pr = backfill_promoted [OF wf] and bf = backfill_voters [OF wf True]
  let ?ps = "take (promote_count c) (by_progress (non_voters c))"
  have sep: "fst ` set (voters c) \<inter> fst ` set ?ps = {}"
    using pr(1) wf unfolding committee_wf_def by fast
  have "distinct (map fst (voters c @ ?ps))"
    using wf pr(2) sep by (simp add: committee_wf_def)
  moreover have "distinct (map fst (filter (\<lambda>(p, _). p \<notin> fst ` set ?ps) (non_voters c)))"
    using wf by (simp add: committee_wf_def distinct_map_filter)
  moreover have "fst ` set (voters c @ ?ps) \<inter>
      fst ` set (filter (\<lambda>(p, _). p \<notin> fst ` set ?ps) (non_voters c)) = {}"
  proof -
    have "fst ` set (filter (\<lambda>(p, _). p \<notin> fst ` set ?ps) (non_voters c)) \<subseteq>
        fst ` set (non_voters c) - fst ` set ?ps"
      by (auto intro: rev_image_eqI)
    then show ?thesis using wf unfolding committee_wf_def by (auto simp only: set_append image_Un)
  qed
  ultimately show ?thesis by (simp only: committee_wf_def bf)
qed

lemma committee_remove_wf: "committee_wf c \<Longrightarrow> committee_wf (committee_remove c p)"
  unfolding committee_remove_def
  by (rule backfill_wf) (auto simp: committee_wf_def AList.delete_eq distinct_map_filter split_beta)

lemma remove_dead_wf: "committee_wf c \<Longrightarrow> committee_wf (remove_dead_voters c A)"
  unfolding remove_dead_voters_def
  by (rule backfill_wf) (auto simp: committee_wf_def distinct_map_filter split_beta)


lemma record_vote_wf:
  assumes "committee_wf c" and "committee_record_vote c p i = Some (q, c')"
  shows "committee_wf c'"
proof -
  have upd: "map fst (AList.update p i xs) = (if p \<in> fst ` set xs then map fst xs else map fst xs @ [p])"
    for xs :: "(peer_id \<times> raft_index) list"
    by (induction xs) auto
  have keys: "fst ` set (AList.update p i xs) = insert p (fst ` set xs)"
    for xs :: "(peer_id \<times> raft_index) list"
    using arg_cong [OF upd [of xs], of set] by auto
  have v: "p \<in> fst ` set (voters c) \<Longrightarrow>
      committee_wf (c\<lparr>voters := AList.update p i (voters c)\<rparr>)"
    using assms(1) by (auto simp: committee_wf_def upd keys)
  have n: "p \<notin> fst ` set (voters c) \<Longrightarrow>
      committee_wf (c\<lparr>non_voters := AList.update p i (non_voters c)\<rparr>)"
    using assms(1) by (auto simp: committee_wf_def upd keys)
  show ?thesis
    using assms(2) v backfill_wf [OF n] n
    by (auto simp: committee_record_vote_def Let_def map_of_eq_None_iff split: if_splits)
qed

section \<open>Quorum index\<close>

lemma highest_quorum_Some: "voters c \<noteq> [] \<Longrightarrow> \<exists>i. highest_quorum_index c = Some i"
  by (cases "voters c") (auto simp: highest_quorum_index_def Let_def)

lemma sorted_nth_count_ge:
  fixes xs :: "nat list"
  assumes "sorted xs" and "k < length xs"
  shows "length xs - k \<le> length (filter (\<lambda>x. xs ! k \<le> x) xs)"
proof -
  have "\<forall>x \<in> set (drop k xs). xs ! k \<le> x"
    using assms by (auto simp: in_set_conv_nth intro!: sorted_nth_mono)
  then have "drop k xs = filter (\<lambda>x. xs ! k \<le> x) (drop k xs)"
    by (simp add: filter_True)
  then have "length xs - k = length (filter (\<lambda>x. xs ! k \<le> x) (drop k xs))"
    by (metis length_drop)
  also have "\<dots> \<le> length (filter (\<lambda>x. xs ! k \<le> x) (take k xs @ drop k xs))"
    by (simp only: filter_append length_append)
  finally show ?thesis by simp
qed

lemma sorted_nth_count_gt:
  fixes xs :: "nat list"
  assumes "sorted xs" and "k < length xs" and "xs ! k < j"
  shows "length (filter (\<lambda>x. j \<le> x) xs) \<le> length xs - Suc k"
proof -
  have low: "x < j" if "x \<in> set (take (Suc k) xs)" for x
  proof -
    from that obtain i where "i < Suc k" "i < length xs" "x = xs ! i"
      by (auto simp: in_set_conv_nth)
    then have "x \<le> xs ! k" using assms(1,2) by (simp add: sorted_nth_mono)
    then show ?thesis using assms(3) by simp
  qed
  have "filter (\<lambda>x. j \<le> x) (take (Suc k) xs) = []"
    using low by (force simp: filter_empty_conv)
  then have "filter (\<lambda>x. j \<le> x) (take (Suc k) xs @ drop (Suc k) xs) =
      filter (\<lambda>x. j \<le> x) (drop (Suc k) xs)"
    by (simp only: filter_append append_Nil)
  then have "filter (\<lambda>x. j \<le> x) xs = filter (\<lambda>x. j \<le> x) (drop (Suc k) xs)"
    by (simp only: append_take_drop_id)
  then show ?thesis by (metis length_drop length_filter_le)
qed

lemma length_filter_sort:
  fixes xs :: "nat list"
  shows "length (filter P (sort xs)) = length (filter P xs)"
  by (metis mset_filter mset_sort size_mset)

text \<open>
  The number of voters that have acknowledged an index, and the defining property of the quorum
  index: a majority has acknowledged it, and no majority has acknowledged anything above it.
\<close>

definition acked :: "committee \<Rightarrow> raft_index \<Rightarrow> nat" where
  "acked c i = length (filter (\<lambda>(_, j). i \<le> j) (voters c))"

lemma acked_eq: "acked c i = length (filter (\<lambda>j. i \<le> j) (sort (map snd (voters c))))"
proof -
  have "length (filter (\<lambda>j. i \<le> j) (map snd (voters c))) = acked c i"
    by (simp add: acked_def filter_map comp_def case_prod_unfold)
  then show ?thesis by (simp add: length_filter_sort)
qed

lemma highest_quorum_majority:
  assumes "highest_quorum_index c = Some i"
  shows "length (voters c) < 2 * acked c i"
    and "i < j \<Longrightarrow> 2 * acked c j \<le> length (voters c)"
proof -
  let ?xs = "sort (map snd (voters c))" and ?n = "length (voters c)"
  let ?k = "?n - (?n div 2 + 1)"
  from assms have ne: "?n div 2 + 1 \<le> ?n" and i: "i = ?xs ! ?k"
    by (auto simp: highest_quorum_index_def Let_def split: if_splits)
  then have k: "?k < length ?xs" by simp
  have "length ?xs - ?k \<le> acked c i"
    using sorted_nth_count_ge [OF sorted_sort k] i by (simp add: acked_eq)
  with ne show "length (voters c) < 2 * acked c i" by simp
  assume "i < j"
  then have "acked c j \<le> length ?xs - Suc ?k"
    using sorted_nth_count_gt [OF sorted_sort k] i by (simp add: acked_eq)
  with ne show "2 * acked c j \<le> length (voters c)" by simp
qed

end
