(* ===== verification/Raft_Leader.thy ===== *)
theory Raft_Leader
  imports Raft_Shared Raft_Committee
begin

text \<open>
  \<open>groups/raft/leader.rs\<close>: the leader role. Client commands queue up in \<open>client_commands\<close>; a poll
  appends them to the log, broadcasts them and records the leader's own vote, or else sends a
  heartbeat. The heartbeat timer is \<open>heartbeat_now\<close> (set when it is rescheduled to fire at once)
  together with the input \<open>elapsed\<close> of a poll, which says whether the timer has run out.

  A handler returns what the role could not handle as a value of \<open>handled\<close>, the model of
  \<open>Result<(), RoleHandlerError>\<close>; a panic is \<open>None\<close>.
\<close>

record 'c leader =
  lead_term :: raft_term
  heartbeat_now :: bool
  client_commands :: "'c list"
  lead_committee :: committee

datatype ('c, 'q, 'r, 'y) handled =
    Handled
  | Unexpected "('c, 'q, 'r, 'y) message"
  | StepDown "'c append_entries"
  | RivalLeader "'c append_entries"

definition leader_new ::
  "raft_term \<Rightarrow> peer_id list \<Rightarrow> ('c, 'm, 'q, 'r, 'y, 'p) shared
    \<Rightarrow> 'c leader \<times> ('c, 'm, 'q, 'r, 'y, 'p) shared" where
  "leader_new term voted_by sh =
    (let c = committee_new voted_by (cursor_index (log_last (storage sh)));
         sh1 = set_online (update_leader sh (Some (sh_local_id sh)))
     in (\<lparr>lead_term = term, heartbeat_now = False, client_commands = [], lead_committee = c\<rparr>, sh1))"

definition reset_heartbeat_timeout :: "'c leader \<Rightarrow> 'c leader" where
  "reset_heartbeat_timeout l = l\<lparr>heartbeat_now := False\<rparr>"

definition schedule_immediate_heartbeat :: "'c leader \<Rightarrow> 'c leader" where
  "schedule_immediate_heartbeat l =
    (if client_commands l = [] then l\<lparr>heartbeat_now := True\<rparr> else l)"

definition enqueue_commands ::
  "'c leader \<Rightarrow> 'c list \<Rightarrow> ('c, 'm, 'q, 'r, 'y, 'p) shared \<Rightarrow> index_range \<times> 'c leader" where
  "enqueue_commands l commands sh =
    (let last_index = cursor_index (log_last (storage sh));
         pending_commands_count = length (client_commands l);
         last_index = pos_add last_index pending_commands_count;
         l1 = l\<lparr>client_commands := client_commands l @ commands\<rparr>;
         new_commands_count = saturating_sub (length (client_commands l1)) pending_commands_count
     in if new_commands_count \<noteq> 0
        then ((pos_next last_index, pos_add last_index new_commands_count), l1)
        else ((pos_zero, pos_zero), l1))"

definition active_bonds :: "('c, 'm, 'q, 'r, 'y, 'p) shared \<Rightarrow> peer_id set" where
  "active_bonds sh = insert (sh_local_id sh) (set (sh_bonds sh))"

text \<open>The common end of \<open>record_vote\<close> and \<open>record_no_vote\<close>: commit up to the quorum index.\<close>

definition advance_commit ::
  "('c, 'm, 'q, 'r, 'y) machine_ops \<Rightarrow> ('c, 's, 'p, 'y, ('c, 'm, 'q, 'r, 'y, 'p) shared) sync_ops
    \<Rightarrow> int \<Rightarrow> raft_index \<Rightarrow> 'c leader \<Rightarrow> ('c, 'm, 'q, 'r, 'y, 'p) shared
    \<Rightarrow> ('c leader \<times> ('c, 'm, 'q, 'r, 'y, 'p) shared) option" where
  "advance_commit ops sync now quorum_index l sh =
    (let prev_committed = committed sh
     in if \<not> cursor_eq_index prev_committed quorum_index
        then (case commit_up_to ops now quorum_index sh of
                None \<Rightarrow> None
              | Some (new_committed, sh1) \<Rightarrow>
                  if new_committed \<noteq> prev_committed
                  then let sh2 = update_committed sync sh1 new_committed;
                           sh3 = prune_safe_prefix sync sh2
                       in Some (schedule_immediate_heartbeat l, sh3)
                  else Some (l, sh1))
        else Some (l, sh))"

definition leader_record_vote ::
  "('c, 'm, 'q, 'r, 'y) machine_ops \<Rightarrow> ('c, 's, 'p, 'y, ('c, 'm, 'q, 'r, 'y, 'p) shared) sync_ops
    \<Rightarrow> int \<Rightarrow> 'c leader \<Rightarrow> peer_id \<Rightarrow> raft_index \<Rightarrow> ('c, 'm, 'q, 'r, 'y, 'p) shared
    \<Rightarrow> ('c leader \<times> ('c, 'm, 'q, 'r, 'y, 'p) shared) option" where
  "leader_record_vote ops sync now l follower log_index sh =
    (let c = remove_dead_voters (lead_committee l) (active_bonds sh)
     in case committee_record_vote c follower log_index of
          None \<Rightarrow> None
        | Some (quorum_index, c') \<Rightarrow>
            advance_commit ops sync now quorum_index (l\<lparr>lead_committee := c'\<rparr>) sh)"

definition leader_record_no_vote ::
  "('c, 'm, 'q, 'r, 'y) machine_ops \<Rightarrow> ('c, 's, 'p, 'y, ('c, 'm, 'q, 'r, 'y, 'p) shared) sync_ops
    \<Rightarrow> int \<Rightarrow> 'c leader \<Rightarrow> peer_id \<Rightarrow> bool \<Rightarrow> ('c, 'm, 'q, 'r, 'y, 'p) shared
    \<Rightarrow> ('c leader \<times> ('c, 'm, 'q, 'r, 'y, 'p) shared) option" where
  "leader_record_no_vote ops sync now l follower abstained sh =
    (let c1 = (if abstained then committee_remove (lead_committee l) follower else lead_committee l);
         c2 = remove_dead_voters c1 (active_bonds sh)
     in case highest_quorum_index c2 of
          None \<Rightarrow> None
        | Some quorum_index \<Rightarrow>
            advance_commit ops sync now quorum_index (l\<lparr>lead_committee := c2\<rparr>) sh)"

fun leader_receive ::
  "('c, 'm, 'q, 'r, 'y) machine_ops \<Rightarrow> ('c, 's, 'p, 'y, ('c, 'm, 'q, 'r, 'y, 'p) shared) sync_ops
    \<Rightarrow> int \<Rightarrow> ('c, 'q, 'r, 'y) message \<Rightarrow> peer_id \<Rightarrow> 'c leader \<Rightarrow> ('c, 'm, 'q, 'r, 'y, 'p) shared
    \<Rightarrow> (('c, 'q, 'r, 'y) handled \<times> 'c leader \<times> ('c, 'm, 'q, 'r, 'y, 'p) shared) option" where
  "leader_receive ops sync now (AppendEntriesResponse response) sender l sh =
    map_option (\<lambda>(l', sh'). (Handled, l', sh'))
      (case aer_vote response of
        Granted \<Rightarrow> leader_record_vote ops sync now l sender (aer_last_log_index response) sh
      | Abstained \<Rightarrow> leader_record_no_vote ops sync now l sender True sh
      | Denied \<Rightarrow> leader_record_no_vote ops sync now l sender False sh)"
| "leader_receive ops sync now (AppendEntries request) sender l sh =
    (if ae_term request = lead_term l then Some (RivalLeader request, l, sh)
     else Some (Unexpected (AppendEntries request), l, sh))"
| "leader_receive ops sync now (Forward (ForwardCommand commands request_id)) sender l sh =
    (if commands = [] then Some (Handled, l, sh)
     else let (assigned, l1) = enqueue_commands l commands sh
          in case request_id of
               None \<Rightarrow> Some (Handled, l1, sh)
             | Some rid \<Rightarrow>
                 (case send_raft_to ops sh (Forward (CommandAck rid assigned)) sender of
                    None \<Rightarrow> None
                  | Some sh1 \<Rightarrow> Some (Handled, l1, sh1)))"
| "leader_receive ops sync now (Forward (ForwardQuery query request_id)) sender l sh =
    (let result = m_query ops (state_machine sh) query;
         position = cursor_index (committed sh)
     in case send_raft_to ops sh (Forward (QueryResponse request_id result position)) sender of
          None \<Rightarrow> Some (Handled, l, sh)
        | Some sh1 \<Rightarrow> Some (Handled, l, sh1))"
| "leader_receive ops sync now message sender l sh = Some (Unexpected message, l, sh)"

definition append_commands :: "'c log_store \<Rightarrow> 'c list \<Rightarrow> raft_term \<Rightarrow> 'c log_store" where
  "append_commands s commands term = foldl (\<lambda>s c. snd (log_append s c term)) s commands"

text \<open>
  The first component says whether the poll was ready. All queued commands are received at once.
\<close>

definition poll_pending_entries ::
  "('c, 'm, 'q, 'r, 'y) machine_ops \<Rightarrow> ('c, 's, 'p, 'y, ('c, 'm, 'q, 'r, 'y, 'p) shared) sync_ops
    \<Rightarrow> int \<Rightarrow> 'c leader \<Rightarrow> ('c, 'm, 'q, 'r, 'y, 'p) shared
    \<Rightarrow> (bool \<times> 'c leader \<times> ('c, 'm, 'q, 'r, 'y, 'p) shared) option" where
  "poll_pending_entries ops sync now l sh =
    (if client_commands l = [] then Some (False, l, sh)
     else let count = length (client_commands l);
              entries = client_commands l;
              l1 = l\<lparr>client_commands := []\<rparr>;
              prev_pos = log_last (storage sh);
              sh1 = sh\<lparr>storage := append_commands (storage sh) entries (lead_term l)\<rparr>;
              sh2 = update_log_pos sh1 (log_last (storage sh1));
              msg = AppendEntries
                \<lparr>ae_term = lead_term l, ae_leader = sh_local_id sh2,
                 ae_prev_log_position = prev_pos,
                 ae_entries = map (\<lambda>c. \<lparr>le_term = lead_term l, le_command = c\<rparr>) entries,
                 ae_leader_commit = cursor_index (committed sh2)\<rparr>
          in case broadcast_raft ops sh2 msg of
               None \<Rightarrow>
                 Some (True, l1,
                   sh2\<lparr>storage := log_truncate (storage sh2) (pos_next (cursor_index prev_pos))\<rparr>)
             | Some (followers, sh3) \<Rightarrow>
                 (case leader_record_vote ops sync now l1 (sh_local_id sh3)
                         (pos_add (cursor_index prev_pos) count) sh3 of
                    None \<Rightarrow> None
                  | Some (l2, sh4) \<Rightarrow> Some (True, reset_heartbeat_timeout l2, sh4)))"

definition poll_next_heartbeat ::
  "('c, 'm, 'q, 'r, 'y) machine_ops \<Rightarrow> bool \<Rightarrow> 'c leader \<Rightarrow> ('c, 'm, 'q, 'r, 'y, 'p) shared
    \<Rightarrow> (bool \<times> 'c leader \<times> ('c, 'm, 'q, 'r, 'y, 'p) shared) option" where
  "poll_next_heartbeat ops elapsed l sh =
    (if \<not> (heartbeat_now l \<or> elapsed) then Some (False, l, sh)
     else let prev_pos = log_last (storage sh);
              heartbeat = AppendEntries
                \<lparr>ae_term = lead_term l, ae_leader = sh_local_id sh, ae_prev_log_position = prev_pos,
                 ae_entries = [], ae_leader_commit = cursor_index (committed sh)\<rparr>
          in case broadcast_raft ops sh heartbeat of
               None \<Rightarrow> None
             | Some (_, sh1) \<Rightarrow> Some (True, reset_heartbeat_timeout l, sh1))"

definition leader_poll ::
  "('c, 'm, 'q, 'r, 'y) machine_ops \<Rightarrow> ('c, 's, 'p, 'y, ('c, 'm, 'q, 'r, 'y, 'p) shared) sync_ops
    \<Rightarrow> int \<Rightarrow> bool \<Rightarrow> 'c leader \<Rightarrow> ('c, 'm, 'q, 'r, 'y, 'p) shared
    \<Rightarrow> (bool \<times> 'c leader \<times> ('c, 'm, 'q, 'r, 'y, 'p) shared) option" where
  "leader_poll ops sync now elapsed l sh =
    (case poll_pending_entries ops sync now l sh of
       None \<Rightarrow> None
     | Some (True, l1, sh1) \<Rightarrow> Some (True, l1, sh1)
     | Some (False, l1, sh1) \<Rightarrow> poll_next_heartbeat ops elapsed l1 sh1)"

end
