(* ===== verification/Raft_Candidate.thy ===== *)
theory Raft_Candidate
  imports Raft_Leader
begin

text \<open>
  \<open>groups/raft/candidate.rs\<close>: a node running for leadership. The search of \<open>Candidate::new\<close> for a
  term in which the node can still vote is a loop with no obvious bound, hence a
  \<open>partial_function\<close>; \<open>Raft_Invariants\<close> shows that it ends.
\<close>

record candidate =
  cand_term :: raft_term
  requested_from :: "peer_id set"
  votes_granted :: "peer_id set"
  votes_abstained :: "peer_id set"
  votes_denied :: "peer_id set"

partial_function (option) votable_term ::
  "('c, 'm, 'q, 'r, 'y, 'p) shared \<Rightarrow> raft_term \<Rightarrow> raft_term option" where
  "votable_term sh term =
    (if can_vote sh term (sh_local_id sh) then Some term else votable_term sh (pos_next term))"

definition candidate_new ::
  "('c, 'm, 'q, 'r, 'y) machine_ops \<Rightarrow> raft_term \<Rightarrow> ('c, 'm, 'q, 'r, 'y, 'p) shared
    \<Rightarrow> (candidate \<times> ('c, 'm, 'q, 'r, 'y, 'p) shared) option" where
  "candidate_new ops term0 sh =
    (if term0 = pos_zero then None
     else let sh0 = set_offline sh
          in case votable_term sh0 term0 of
               None \<Rightarrow> None
             | Some term \<Rightarrow>
                 let cand = sh_local_id sh0;
                     request = \<lparr>rv_term = term, rv_candidate = cand,
                                rv_log_position = log_last (storage sh0)\<rparr>
                 in case broadcast_raft ops sh0 (RequestVote request) of
                      None \<Rightarrow> None
                    | Some (sent_to, sh1) \<Rightarrow>
                        Some (\<lparr>cand_term = term, requested_from = set sent_to \<union> {cand},
                               votes_granted = {cand}, votes_abstained = {}, votes_denied = {}\<rparr>,
                              save_vote sh1 term cand))"

definition cand_quorum :: "candidate \<Rightarrow> nat" where
  "cand_quorum c =
    (let voters_count = saturating_sub (card (requested_from c)) (card (votes_abstained c))
     in voters_count div 2 + 1)"

definition quorum_reached :: "candidate \<Rightarrow> bool" where
  "quorum_reached c \<longleftrightarrow> card (votes_granted c) \<ge> cand_quorum c"

definition elections_lost :: "candidate \<Rightarrow> bool" where
  "elections_lost c \<longleftrightarrow> card (votes_denied c) \<ge> cand_quorum c"

datatype 'c next_role = NextLeader "'c leader" | NextCandidate candidate

text \<open>
  \<open>elapsed\<close>: the election timeout has run out. The granted votes become the leader's committee in
  ascending order of the peer ids, which stands for the iteration order of the hash set.
\<close>

definition candidate_poll ::
  "('c, 'm, 'q, 'r, 'y) machine_ops \<Rightarrow> bool \<Rightarrow> candidate \<Rightarrow> ('c, 'm, 'q, 'r, 'y, 'p) shared
    \<Rightarrow> ('c next_role option \<times> ('c, 'm, 'q, 'r, 'y, 'p) shared) option" where
  "candidate_poll ops elapsed c sh =
    (if quorum_reached c
     then let (l, sh1) = leader_new (cand_term c) (sorted_list_of_set (votes_granted c)) sh
          in Some (Some (NextLeader l), sh1)
     else if elapsed
     then (case candidate_new ops (pos_next (cand_term c)) sh of
             None \<Rightarrow> None
           | Some (c1, sh1) \<Rightarrow> Some (Some (NextCandidate c1), sh1))
     else Some (None, sh))"

fun candidate_receive ::
  "('c, 'q, 'r, 'y) message \<Rightarrow> peer_id \<Rightarrow> candidate \<Rightarrow> ('c, 'q, 'r, 'y) handled \<times> candidate" where
  "candidate_receive (RequestVoteResponse response) sender c =
    (if sender \<notin> requested_from c then (Handled, c)
     else (Handled,
       case rvr_vote response of
         Granted \<Rightarrow> c\<lparr>votes_granted := insert sender (votes_granted c)\<rparr>
       | Abstained \<Rightarrow> c\<lparr>votes_abstained := insert sender (votes_abstained c)\<rparr>
       | Denied \<Rightarrow> c\<lparr>votes_denied := insert sender (votes_denied c)\<rparr>))"
| "candidate_receive (AppendEntries request) sender c = (StepDown request, c)"
| "candidate_receive message sender c = (Unexpected message, c)"

end
