(* ===== verification/Raft_Follower.thy ===== *)
theory Raft_Follower
  imports Raft_Candidate
begin

text \<open>
  \<open>groups/raft/follower.rs\<close>: the follower role. It appends and commits what the leader sends, votes
  through its acknowledgements, forwards client commands and queries, and runs a state sync session
  (\<open>catchup\<close>) while its log has a gap.

  The oneshot channels of forwarded requests are the sets \<open>pending_commands\<close> and
  \<open>pending_queries\<close> of request ids together with the answers delivered on them (\<open>acks\<close>,
  \<open>answers\<close>); the timeout of such a request is the event \<open>expire_command\<close> or \<open>expire_query\<close>.
  The election timer is the input \<open>elapsed\<close> of a poll.
\<close>

record ('s, 'r) follower =
  fol_term :: raft_term
  fol_leader :: "peer_id option"
  fol_preference :: leadership_preference
  pending_commands :: "nat set"
  pending_queries :: "nat set"
  expired_commands :: "nat list"
  expired_queries :: "nat list"
  acks :: "(nat \<times> index_range) list"
  answers :: "(nat \<times> 'r \<times> raft_index) list"
  catchup :: "'s option"

definition follower_new ::
  "('c, 'm, 'q, 'r, 'y) machine_ops \<Rightarrow> raft_term \<Rightarrow> peer_id option \<Rightarrow> ('c, 'm, 'q, 'r, 'y, 'p) shared
    \<Rightarrow> ('s, 'r) follower \<times> ('c, 'm, 'q, 'r, 'y, 'p) shared" where
  "follower_new ops term leader sh =
    (let sh1 = (case leader of None \<Rightarrow> sh | Some l \<Rightarrow> update_leader sh (Some l));
         sh2 = set_offline sh1
     in (\<lparr>fol_term = term, fol_leader = leader,
          fol_preference = m_preference ops (state_machine sh),
          pending_commands = {}, pending_queries = {}, expired_commands = [], expired_queries = [],
          acks = [], answers = [], catchup = None\<rparr>, sh2))"

section \<open>Appending what the leader sends\<close>

text \<open>
  The check of an \<open>AppendEntries\<close> against the local log: whether it is consistent, and the log
  after the truncation the check may do.
\<close>

definition check_consistency :: "'c append_entries \<Rightarrow> 'c log_store \<Rightarrow> bool \<times> 'c log_store" where
  "check_consistency request s =
    (let prev = ae_prev_log_position request
     in case log_term_at s (cursor_index prev) of
          None \<Rightarrow> (False, s)
        | Some local_term \<Rightarrow>
            if local_term = cursor_term prev
            then (True,
              case ae_entries request of
                [] \<Rightarrow> s
              | first # _ \<Rightarrow>
                  let next_index = pos_next (cursor_index prev)
                  in (case log_term_at s next_index of
                        None \<Rightarrow> s
                      | Some existing_term \<Rightarrow>
                          if existing_term \<noteq> le_term first then log_truncate s next_index else s))
            else (False, log_truncate s (cursor_index prev)))"

text \<open>The append loop: entry \<open>i\<close> is skipped if the log has an entry of its term at its index.\<close>

fun append_entries_from ::
  "raft_index \<Rightarrow> nat \<Rightarrow> 'c log_entry list \<Rightarrow> 'c log_store \<Rightarrow> 'c log_store" where
  "append_entries_from start_index i [] s = s"
| "append_entries_from start_index i (entry # es) s =
    (if log_term_at s (pos_add start_index i) = Some (le_term entry)
     then append_entries_from start_index (Suc i) es s
     else append_entries_from start_index (Suc i) es
            (snd (log_append s (le_command entry) (le_term entry))))"

definition follower_vote :: "('s, 'r) follower \<Rightarrow> vote" where
  "follower_vote f = (if fol_preference f = Observer then Abstained else Granted)"

definition follower_commit ::
  "('c, 'm, 'q, 'r, 'y) machine_ops \<Rightarrow> ('c, 's, 'p, 'y, ('c, 'm, 'q, 'r, 'y, 'p) shared) sync_ops
    \<Rightarrow> int \<Rightarrow> raft_index \<Rightarrow> ('c, 'm, 'q, 'r, 'y, 'p) shared
    \<Rightarrow> ('c, 'm, 'q, 'r, 'y, 'p) shared option" where
  "follower_commit ops sync now leader_commit sh =
    (let local_log_pos = log_last (storage sh);
         prev_committed = committed sh;
         leader_committed = min leader_commit (cursor_index local_log_pos)
     in if cursor_less_index prev_committed leader_committed
        then (case commit_up_to ops now leader_committed sh of
                None \<Rightarrow> None
              | Some (new_committed, sh1) \<Rightarrow>
                  if prev_committed < new_committed
                  then Some (prune_safe_prefix sync (update_committed sync sh1 new_committed))
                  else Some sh1)
        else Some sh)"

definition accept_in_sync_entries ::
  "('c, 'm, 'q, 'r, 'y) machine_ops \<Rightarrow> ('c, 's, 'p, 'y, ('c, 'm, 'q, 'r, 'y, 'p) shared) sync_ops
    \<Rightarrow> int \<Rightarrow> 'c append_entries \<Rightarrow> peer_id \<Rightarrow> ('s, 'r) follower \<Rightarrow> ('c, 'm, 'q, 'r, 'y, 'p) shared
    \<Rightarrow> ('c, 'm, 'q, 'r, 'y, 'p) shared option" where
  "accept_in_sync_entries ops sync now request sender f sh =
    (if ae_entries request = [] then follower_commit ops sync now (ae_leader_commit request) sh
     else let start_index = pos_next (cursor_index (ae_prev_log_position request));
              sh1 = sh\<lparr>storage := append_entries_from start_index 0 (ae_entries request) (storage sh)\<rparr>;
              response = AppendEntriesResponse
                \<lparr>aer_term = fol_term f, aer_last_log_index = cursor_index (log_last (storage sh1)),
                 aer_vote = follower_vote f\<rparr>
          in case send_raft_to ops sh1 response sender of
               None \<Rightarrow> None
             | Some sh2 \<Rightarrow> follower_commit ops sync now (ae_leader_commit request) sh2)"

definition on_append_entries ::
  "('c, 'm, 'q, 'r, 'y) machine_ops \<Rightarrow> ('c, 's, 'p, 'y, ('c, 'm, 'q, 'r, 'y, 'p) shared) sync_ops
    \<Rightarrow> int \<Rightarrow> 'c append_entries \<Rightarrow> peer_id \<Rightarrow> ('s, 'r) follower \<Rightarrow> ('c, 'm, 'q, 'r, 'y, 'p) shared
    \<Rightarrow> (('s, 'r) follower \<times> ('c, 'm, 'q, 'r, 'y, 'p) shared) option" where
  "on_append_entries ops sync now request sender f sh =
    (let f1 = f\<lparr>fol_leader := Some (ae_leader request)\<rparr>;
         sh1 = update_leader sh (Some (ae_leader request));
         (consistent, s) = check_consistency request (storage sh1);
         sh2 = sh1\<lparr>storage := s\<rparr>
     in if consistent
        then (case accept_in_sync_entries ops sync now request sender f1 (set_online sh2) of
                None \<Rightarrow> None
              | Some sh3 \<Rightarrow> Some (f1, sh3))
        else let sh3 = set_offline sh2;
                 entries = map (\<lambda>e. (le_command e, le_term e)) (ae_entries request)
             in (case catchup f1 of
                   Some session \<Rightarrow>
                     (case session_buffer sync session (ae_prev_log_position request) entries sh3 of
                        None \<Rightarrow> None
                      | Some (session1, sh4) \<Rightarrow> Some (f1\<lparr>catchup := Some session1\<rparr>, sh4))
                 | None \<Rightarrow>
                     (case create_session sync sh3 (ae_prev_log_position request)
                             (ae_leader_commit request) entries of
                        None \<Rightarrow> None
                      | Some (session, sh4) \<Rightarrow> Some (f1\<lparr>catchup := Some session\<rparr>, sh4))))"

section \<open>Forwarded requests\<close>

definition on_forward_command_response ::
  "nat \<Rightarrow> index_range \<Rightarrow> ('s, 'r) follower \<Rightarrow> ('s, 'r) follower" where
  "on_forward_command_response request_id assigned f =
    (if request_id \<in> pending_commands f
     then f\<lparr>pending_commands := pending_commands f - {request_id},
            acks := acks f @ [(request_id, assigned)]\<rparr>
     else f)"

definition on_forward_query_response ::
  "nat \<Rightarrow> 'r \<Rightarrow> raft_index \<Rightarrow> ('s, 'r) follower \<Rightarrow> ('s, 'r) follower" where
  "on_forward_query_response request_id result at_position f =
    (if request_id \<in> pending_queries f
     then f\<lparr>pending_queries := pending_queries f - {request_id},
            answers := answers f @ [(request_id, result, at_position)]\<rparr>
     else f)"

definition expire_command :: "nat \<Rightarrow> ('s, 'r) follower \<Rightarrow> ('s, 'r) follower" where
  "expire_command request_id f = f\<lparr>expired_commands := expired_commands f @ [request_id]\<rparr>"

definition expire_query :: "nat \<Rightarrow> ('s, 'r) follower \<Rightarrow> ('s, 'r) follower" where
  "expire_query request_id f = f\<lparr>expired_queries := expired_queries f @ [request_id]\<rparr>"

definition clean_expired_forwarded_commands :: "('s, 'r) follower \<Rightarrow> ('s, 'r) follower" where
  "clean_expired_forwarded_commands f =
    f\<lparr>pending_commands := pending_commands f - set (expired_commands f), expired_commands := [],
      pending_queries := pending_queries f - set (expired_queries f), expired_queries := []\<rparr>"

datatype ('c, 'q, 'r) submitted =
    SubmitOffline "'c list"
  | SubmitEncoding "'c list"
  | SubmitAssigned index_range
  | SubmitPending nat
  | QueryOffline 'q
  | QueryEncoding 'q
  | QueryAnswered 'r raft_index
  | QueryPending nat

text \<open>
  \<open>draws\<close> are the random numbers drawn for the request id: the first one not in use is taken.
  \<open>None\<close> if all given draws are in use and the loop would go on drawing.
\<close>

definition fresh_request_id :: "nat list \<Rightarrow> nat set \<Rightarrow> nat option" where
  "fresh_request_id draws used = List.find (\<lambda>rid. rid \<notin> used) draws"

definition forward_commands ::
  "('c, 'm, 'q, 'r, 'y) machine_ops \<Rightarrow> nat list \<Rightarrow> 'c list \<Rightarrow> ('s, 'r) follower
    \<Rightarrow> ('c, 'm, 'q, 'r, 'y, 'p) shared
    \<Rightarrow> (('c, 'q, 'r) submitted \<times> ('s, 'r) follower \<times> ('c, 'm, 'q, 'r, 'y, 'p) shared) option" where
  "forward_commands ops draws commands f sh =
    (case fol_leader f of
       None \<Rightarrow> Some (SubmitOffline commands, f, sh)
     | Some leader \<Rightarrow>
         (case fresh_request_id draws (pending_commands f) of
            None \<Rightarrow> None
          | Some request_id \<Rightarrow>
              let f1 = f\<lparr>pending_commands := insert request_id (pending_commands f)\<rparr>
              in (case send_raft_to ops sh (Forward (ForwardCommand commands (Some request_id))) leader of
                    None \<Rightarrow> Some (SubmitEncoding commands, f1, sh)
                  | Some sh1 \<Rightarrow> Some (SubmitPending request_id, f1, sh1))))"

definition forward_query ::
  "('c, 'm, 'q, 'r, 'y) machine_ops \<Rightarrow> nat list \<Rightarrow> 'q \<Rightarrow> ('s, 'r) follower
    \<Rightarrow> ('c, 'm, 'q, 'r, 'y, 'p) shared
    \<Rightarrow> (('c, 'q, 'r) submitted \<times> ('s, 'r) follower \<times> ('c, 'm, 'q, 'r, 'y, 'p) shared) option" where
  "forward_query ops draws query f sh =
    (case fol_leader f of
       None \<Rightarrow> Some (QueryOffline query, f, sh)
     | Some leader \<Rightarrow>
         (case fresh_request_id draws (pending_queries f) of
            None \<Rightarrow> None
          | Some request_id \<Rightarrow>
              let f1 = f\<lparr>pending_queries := insert request_id (pending_queries f)\<rparr>
              in (case send_raft_to ops sh (Forward (ForwardQuery query request_id)) leader of
                    None \<Rightarrow> Some (QueryEncoding query, f1, sh)
                  | Some sh1 \<Rightarrow> Some (QueryPending request_id, f1, sh1))))"

section \<open>Messages and polling\<close>

fun follower_receive ::
  "('c, 'm, 'q, 'r, 'y) machine_ops \<Rightarrow> ('c, 's, 'p, 'y, ('c, 'm, 'q, 'r, 'y, 'p) shared) sync_ops
    \<Rightarrow> int \<Rightarrow> ('c, 'q, 'r, 'y) message \<Rightarrow> peer_id \<Rightarrow> ('s, 'r) follower
    \<Rightarrow> ('c, 'm, 'q, 'r, 'y, 'p) shared
    \<Rightarrow> (('c, 'q, 'r, 'y) handled \<times> ('s, 'r) follower \<times> ('c, 'm, 'q, 'r, 'y, 'p) shared) option" where
  "follower_receive ops sync now (AppendEntries request) sender f sh =
    map_option (\<lambda>(f', sh'). (Handled, f', sh')) (on_append_entries ops sync now request sender f sh)"
| "follower_receive ops sync now (Forward (CommandAck request_id assigned)) sender f sh =
    Some (Handled, on_forward_command_response request_id assigned f, sh)"
| "follower_receive ops sync now (Forward (QueryResponse request_id result position)) sender f sh =
    Some (Handled, on_forward_query_response request_id result position f, sh)"
| "follower_receive ops sync now (StateSync msg) sender f sh =
    (case catchup f of
       None \<Rightarrow> Some (Handled, f, sh)
     | Some session \<Rightarrow>
         map_option (\<lambda>(session', sh'). (Handled, f\<lparr>catchup := Some session'\<rparr>, sh'))
           (session_receive sync session msg sender sh))"
| "follower_receive ops sync now message sender f sh = Some (Unexpected message, f, sh)"

text \<open>\<open>catchup\<close> in a poll: \<open>Inl\<close> while the session is pending, \<open>Inr\<close> when there is none left.\<close>

definition follower_catch_up ::
  "('c, 's, 'p, 'y, ('c, 'm, 'q, 'r, 'y, 'p) shared) sync_ops \<Rightarrow> ('s, 'r) follower
    \<Rightarrow> ('c, 'm, 'q, 'r, 'y, 'p) shared
    \<Rightarrow> (('s, 'r) follower \<times> ('c, 'm, 'q, 'r, 'y, 'p) shared +
        ('s, 'r) follower \<times> ('c, 'm, 'q, 'r, 'y, 'p) shared) option" where
  "follower_catch_up sync f sh =
    (case catchup f of
       None \<Rightarrow> Some (Inr (f, sh))
     | Some session \<Rightarrow>
         (case session_poll sync session sh of
            None \<Rightarrow> None
          | Some (session1, sh1, None) \<Rightarrow> Some (Inl (f\<lparr>catchup := Some session1\<rparr>, sh1))
          | Some (session1, sh1, Some c) \<Rightarrow>
              if c \<noteq> log_last (storage sh1) then None
              else Some (Inr (f\<lparr>catchup := None\<rparr>, update_log_pos sh1 c))))"

definition follower_poll ::
  "('c, 'm, 'q, 'r, 'y) machine_ops \<Rightarrow> ('c, 's, 'p, 'y, ('c, 'm, 'q, 'r, 'y, 'p) shared) sync_ops
    \<Rightarrow> bool \<Rightarrow> ('s, 'r) follower \<Rightarrow> ('c, 'm, 'q, 'r, 'y, 'p) shared
    \<Rightarrow> (candidate option \<times> ('s, 'r) follower \<times> ('c, 'm, 'q, 'r, 'y, 'p) shared) option" where
  "follower_poll ops sync elapsed f sh =
    (case follower_catch_up sync (clean_expired_forwarded_commands f) sh of
       None \<Rightarrow> None
     | Some (Inl (f1, sh1)) \<Rightarrow> Some (None, f1, sh1)
     | Some (Inr (f1, sh1)) \<Rightarrow>
         if elapsed \<and> fol_preference f1 \<noteq> Observer
         then (case candidate_new ops (pos_next (fol_term f1)) sh1 of
                 None \<Rightarrow> None
               | Some (c, sh2) \<Rightarrow> Some (Some c, f1, sh2))
         else Some (None, f1, sh1))"

end
