(* ===== verification/Raft_Role.thy ===== *)
theory Raft_Role
  imports Raft_Follower
begin

text \<open>
  \<open>groups/raft/role.rs\<close> and \<open>groups/raft/mod.rs\<close>: the role of a node, the handling common to all
  roles (stale messages, state sync, stepping down, voting), the dispatch to the role, and the
  public entry points \<open>feed\<close>, \<open>query\<close>, \<open>poll\<close> and \<open>receive_protocol_message\<close> of \<open>Raft\<close>.
\<close>

datatype ('c, 's, 'r) role =
    RFollower "('s, 'r) follower"
  | RCandidate candidate
  | RLeader "'c leader"

fun role_term :: "('c, 's, 'r) role \<Rightarrow> raft_term" where
  "role_term (RFollower f) = fol_term f"
| "role_term (RCandidate c) = cand_term c"
| "role_term (RLeader l) = lead_term l"

definition role_new ::
  "('c, 'm, 'q, 'r, 'y) machine_ops \<Rightarrow> ('c, 'm, 'q, 'r, 'y, 'p) shared
    \<Rightarrow> ('c, 's, 'r) role \<times> ('c, 'm, 'q, 'r, 'y, 'p) shared" where
  "role_new ops sh = (let (f, sh1) = follower_new ops pos_zero None sh in (RFollower f, sh1))"

section \<open>Polling\<close>

fun next_role_to_role :: "'c next_role \<Rightarrow> ('c, 's, 'r) role" where
  "next_role_to_role (NextLeader l) = RLeader l"
| "next_role_to_role (NextCandidate c) = RCandidate c"

text \<open>One tick of the role: whether it was ready, and the role after it.\<close>

fun role_tick ::
  "('c, 'm, 'q, 'r, 'y) machine_ops \<Rightarrow> ('c, 's, 'p, 'y, ('c, 'm, 'q, 'r, 'y, 'p) shared) sync_ops
    \<Rightarrow> int \<Rightarrow> bool \<Rightarrow> ('c, 's, 'r) role \<Rightarrow> ('c, 'm, 'q, 'r, 'y, 'p) shared
    \<Rightarrow> (bool \<times> ('c, 's, 'r) role \<times> ('c, 'm, 'q, 'r, 'y, 'p) shared) option" where
  "role_tick ops sync now elapsed (RFollower f) sh =
    (case follower_poll ops sync elapsed f sh of
       None \<Rightarrow> None
     | Some (None, f1, sh1) \<Rightarrow> Some (False, RFollower f1, sh1)
     | Some (Some c, f1, sh1) \<Rightarrow> Some (True, RCandidate c, sh1))"
| "role_tick ops sync now elapsed (RCandidate c) sh =
    (case candidate_poll ops elapsed c sh of
       None \<Rightarrow> None
     | Some (None, sh1) \<Rightarrow> Some (False, RCandidate c, sh1)
     | Some (Some nr, sh1) \<Rightarrow> Some (True, next_role_to_role nr, sh1))"
| "role_tick ops sync now elapsed (RLeader l) sh =
    (case leader_poll ops sync now elapsed l sh of
       None \<Rightarrow> None
     | Some (ready, l1, sh1) \<Rightarrow> Some (ready, RLeader l1, sh1))"

definition role_poll ::
  "('c, 'm, 'q, 'r, 'y) machine_ops \<Rightarrow> ('c, 's, 'p, 'y, ('c, 'm, 'q, 'r, 'y, 'p) shared) sync_ops
    \<Rightarrow> int \<Rightarrow> bool \<Rightarrow> ('c, 's, 'r) role \<Rightarrow> ('c, 'm, 'q, 'r, 'y, 'p) shared
    \<Rightarrow> (bool \<times> ('c, 's, 'r) role \<times> ('c, 'm, 'q, 'r, 'y, 'p) shared) option" where
  "role_poll ops sync now elapsed role sh =
    (case role_tick ops sync now elapsed role sh of
       None \<Rightarrow> None
     | Some (ready, role1, sh1) \<Rightarrow>
         (case poll_state_sync_provider sync sh1 of
            None \<Rightarrow> None
          | Some (provider_ready, sh2) \<Rightarrow> Some (provider_ready \<or> ready, role1, sh2)))"

section \<open>Handling common to all roles\<close>

text \<open>\<open>Inr\<close> is a message that has to be handled further.\<close>

fun maybe_state_sync ::
  "('c, 's, 'p, 'y, ('c, 'm, 'q, 'r, 'y, 'p) shared) sync_ops \<Rightarrow> ('c, 'q, 'r, 'y) message \<Rightarrow> peer_id
    \<Rightarrow> ('c, 'm, 'q, 'r, 'y, 'p) shared
    \<Rightarrow> (('c, 'q, 'r, 'y) message option \<times> ('c, 'm, 'q, 'r, 'y, 'p) shared) option" where
  "maybe_state_sync sync (StateSync msg) sender sh =
    (case sync_provider_receive sync msg sender sh of
       None \<Rightarrow> None
     | Some (rejected, sh1) \<Rightarrow> Some (map_option StateSync rejected, sh1))"
| "maybe_state_sync sync message sender sh = Some (Some message, sh)"

definition maybe_step_down ::
  "('c, 'm, 'q, 'r, 'y) machine_ops \<Rightarrow> ('c, 'q, 'r, 'y) message \<Rightarrow> ('c, 's, 'r) role
    \<Rightarrow> ('c, 'm, 'q, 'r, 'y, 'p) shared
    \<Rightarrow> (('c, 's, 'r) role \<times> ('c, 'm, 'q, 'r, 'y, 'p) shared) option" where
  "maybe_step_down ops message role sh =
    (case message_term message of
       None \<Rightarrow> Some (role, sh)
     | Some t \<Rightarrow>
         if t < role_term role then None
         else if t > role_term role
         then let (f, sh1) = follower_new ops t (message_leader message) sh
              in Some (RFollower f, update_leader sh1 (message_leader message))
         else Some (role, sh))"

text \<open>The vote a node gives to a request, and the shared state after it.\<close>

definition decide_vote ::
  "('c, 'm, 'q, 'r, 'y) machine_ops \<Rightarrow> request_vote \<Rightarrow> peer_id \<Rightarrow> ('c, 'm, 'q, 'r, 'y, 'p) shared
    \<Rightarrow> vote \<times> ('c, 'm, 'q, 'r, 'y, 'p) shared" where
  "decide_vote ops request sender sh =
    (let local_cursor = log_last (storage sh)
     in if \<not> can_vote sh (rv_term request) (rv_candidate request) then (Denied, sh)
        else if is_behind (rv_log_position request) local_cursor then (Denied, sh)
        else if is_behind local_cursor (rv_log_position request) then (Abstained, sh)
        else (if m_preference ops (state_machine sh) = Observer then Abstained else Granted,
              save_vote sh (rv_term request) sender))"

text \<open>
  The first component says whether the message was a vote request. Resetting the election timer
  of a follower has no counterpart.
\<close>

fun maybe_cast_vote ::
  "('c, 'm, 'q, 'r, 'y) machine_ops \<Rightarrow> ('c, 'q, 'r, 'y) message \<Rightarrow> peer_id \<Rightarrow> ('c, 's, 'r) role
    \<Rightarrow> ('c, 'm, 'q, 'r, 'y, 'p) shared \<Rightarrow> (bool \<times> ('c, 'm, 'q, 'r, 'y, 'p) shared) option" where
  "maybe_cast_vote ops (RequestVote request) sender role sh =
    (if rv_term request < role_term role then None
     else let (v, sh1) = decide_vote ops request sender sh
          in case send_raft_to ops sh1
                    (RequestVoteResponse \<lparr>rvr_term = rv_term request, rvr_vote = v\<rparr>) sender of
               None \<Rightarrow> None
             | Some sh2 \<Rightarrow> Some (True, sh2))"
| "maybe_cast_vote ops message sender role sh = Some (False, sh)"

section \<open>Receiving a message\<close>

fun role_handle ::
  "('c, 'm, 'q, 'r, 'y) machine_ops \<Rightarrow> ('c, 's, 'p, 'y, ('c, 'm, 'q, 'r, 'y, 'p) shared) sync_ops
    \<Rightarrow> int \<Rightarrow> ('c, 'q, 'r, 'y) message \<Rightarrow> peer_id \<Rightarrow> ('c, 's, 'r) role
    \<Rightarrow> ('c, 'm, 'q, 'r, 'y, 'p) shared
    \<Rightarrow> (('c, 'q, 'r, 'y) handled \<times> ('c, 's, 'r) role \<times> ('c, 'm, 'q, 'r, 'y, 'p) shared) option" where
  "role_handle ops sync now message sender (RFollower f) sh =
    map_option (\<lambda>(h, f', sh'). (h, RFollower f', sh')) (follower_receive ops sync now message sender f sh)"
| "role_handle ops sync now message sender (RCandidate c) sh =
    (let (h, c') = candidate_receive message sender c in Some (h, RCandidate c', sh))"
| "role_handle ops sync now message sender (RLeader l) sh =
    map_option (\<lambda>(h, l', sh'). (h, RLeader l', sh')) (leader_receive ops sync now message sender l sh)"

text \<open>The body of \<open>receive_protocol_message\<close> up to the match on the handler's result.\<close>

definition role_dispatch ::
  "('c, 'm, 'q, 'r, 'y) machine_ops \<Rightarrow> ('c, 's, 'p, 'y, ('c, 'm, 'q, 'r, 'y, 'p) shared) sync_ops
    \<Rightarrow> int \<Rightarrow> ('c, 'q, 'r, 'y) message \<Rightarrow> peer_id \<Rightarrow> ('c, 's, 'r) role
    \<Rightarrow> ('c, 'm, 'q, 'r, 'y, 'p) shared
    \<Rightarrow> (('c, 'q, 'r, 'y) handled \<times> ('c, 's, 'r) role \<times> ('c, 'm, 'q, 'r, 'y, 'p) shared) option" where
  "role_dispatch ops sync now message sender role sh =
    (if (case message_term message of None \<Rightarrow> False | Some t \<Rightarrow> t < role_term role)
     then Some (Handled, role, sh)
     else case maybe_state_sync sync message sender sh of
            None \<Rightarrow> None
          | Some (None, sh1) \<Rightarrow> Some (Handled, role, sh1)
          | Some (Some message1, sh1) \<Rightarrow>
     (case maybe_step_down ops message1 role sh1 of
        None \<Rightarrow> None
      | Some (role1, sh2) \<Rightarrow>
     (case maybe_cast_vote ops message1 sender role1 sh2 of
        None \<Rightarrow> None
      | Some (True, sh3) \<Rightarrow> Some (Handled, role1, sh3)
      | Some (False, sh3) \<Rightarrow> role_handle ops sync now message1 sender role1 sh3)))"

text \<open>Only a candidate answers with \<open>StepDown\<close>, so that the recursion below is one level deep.\<close>

lemma follower_receive_no_step_down:
  "follower_receive ops sync now message sender f sh = Some (h, res) \<Longrightarrow> h \<noteq> StepDown request"
  by (erule follower_receive.elims) (auto simp: map_option_case split: option.splits)

lemma leader_receive_no_step_down:
  "leader_receive ops sync now message sender l sh = Some (h, res) \<Longrightarrow> h \<noteq> StepDown request"
  by (erule leader_receive.elims)
    (auto simp: map_option_case split: option.splits if_splits vote.splits prod.splits)

lemma role_handle_step_down:
  "role_handle ops sync now message sender role sh = Some (StepDown request, res)
    \<Longrightarrow> \<exists>c. role = RCandidate c"
  by (cases role) (auto dest: follower_receive_no_step_down leader_receive_no_step_down)

lemma maybe_step_down_candidate:
  "maybe_step_down ops message role sh = Some (RCandidate c, sh') \<Longrightarrow> role = RCandidate c"
  by (auto simp: maybe_step_down_def Let_def split: option.splits if_splits prod.splits)

lemma role_dispatch_step_down:
  "role_dispatch ops sync now message sender role sh = Some (StepDown request, res)
    \<Longrightarrow> \<exists>c. role = RCandidate c"
  by (auto simp: role_dispatch_def split: option.splits if_splits prod.splits bool.splits
      dest!: role_handle_step_down maybe_step_down_candidate)

fun is_candidate :: "('c, 's, 'r) role \<Rightarrow> bool" where
  "is_candidate (RCandidate _) = True"
| "is_candidate _ = False"

function role_receive ::
  "('c, 'm, 'q, 'r, 'y) machine_ops \<Rightarrow> ('c, 's, 'p, 'y, ('c, 'm, 'q, 'r, 'y, 'p) shared) sync_ops
    \<Rightarrow> int \<Rightarrow> ('c, 'q, 'r, 'y) message \<Rightarrow> peer_id \<Rightarrow> ('c, 's, 'r) role
    \<Rightarrow> ('c, 'm, 'q, 'r, 'y, 'p) shared
    \<Rightarrow> (('c, 's, 'r) role \<times> ('c, 'm, 'q, 'r, 'y, 'p) shared) option" where
  "role_receive ops sync now message sender role sh =
    (case role_dispatch ops sync now message sender role sh of
       None \<Rightarrow> None
     | Some (Handled, role1, sh1) \<Rightarrow> Some (role1, sh1)
     | Some (Unexpected _, role1, sh1) \<Rightarrow> Some (role1, sh1)
     | Some (StepDown request, role1, sh1) \<Rightarrow>
         (let stepped = follower_new ops (ae_term request) (Some (ae_leader request)) sh1
          in role_receive ops sync now (AppendEntries request) sender (RFollower (fst stepped))
               (update_leader (snd stepped) (Some (ae_leader request))))
     | Some (RivalLeader request, role1, sh1) \<Rightarrow>
         (case candidate_new ops (pos_next (role_term role1)) sh1 of
            None \<Rightarrow> None
          | Some (c, sh2) \<Rightarrow> Some (RCandidate c, update_leader sh2 None)))"
  by pat_completeness auto
termination
  by (relation "measure (\<lambda>(ops, sync, now, message, sender, role, sh). if is_candidate role then 1 else 0)")
     (auto dest: role_dispatch_step_down)

declare role_receive.simps [simp del]

section \<open>The entry points of a node\<close>

datatype consistency = Weak | Strong

fun raft_feed ::
  "('c, 'm, 'q, 'r, 'y) machine_ops \<Rightarrow> nat list \<Rightarrow> 'c list \<Rightarrow> ('c, 's, 'r) role
    \<Rightarrow> ('c, 'm, 'q, 'r, 'y, 'p) shared
    \<Rightarrow> (('c, 'q, 'r) submitted \<times> ('c, 's, 'r) role \<times> ('c, 'm, 'q, 'r, 'y, 'p) shared) option" where
  "raft_feed ops draws commands (RLeader l) sh =
    (let (assigned, l1) = enqueue_commands l commands sh in Some (SubmitAssigned assigned, RLeader l1, sh))"
| "raft_feed ops draws commands (RFollower f) sh =
    map_option (\<lambda>(r, f', sh'). (r, RFollower f', sh')) (forward_commands ops draws commands f sh)"
| "raft_feed ops draws commands (RCandidate c) sh = Some (SubmitOffline commands, RCandidate c, sh)"

definition answer_locally ::
  "('c, 'm, 'q, 'r, 'y) machine_ops \<Rightarrow> 'q \<Rightarrow> ('c, 'm, 'q, 'r, 'y, 'p) shared \<Rightarrow> ('c, 'q, 'r) submitted" where
  "answer_locally ops query sh =
    QueryAnswered (m_query ops (state_machine sh) query) (cursor_index (committed sh))"

fun raft_query ::
  "('c, 'm, 'q, 'r, 'y) machine_ops \<Rightarrow> nat list \<Rightarrow> 'q \<Rightarrow> consistency \<Rightarrow> ('c, 's, 'r) role
    \<Rightarrow> ('c, 'm, 'q, 'r, 'y, 'p) shared
    \<Rightarrow> (('c, 'q, 'r) submitted \<times> ('c, 's, 'r) role \<times> ('c, 'm, 'q, 'r, 'y, 'p) shared) option" where
  "raft_query ops draws query consistency (RLeader l) sh =
    Some (answer_locally ops query sh, RLeader l, sh)"
| "raft_query ops draws query Weak (RFollower f) sh =
    Some (answer_locally ops query sh, RFollower f, sh)"
| "raft_query ops draws query Strong (RFollower f) sh =
    map_option (\<lambda>(r, f', sh'). (r, RFollower f', sh')) (forward_query ops draws query f sh)"
| "raft_query ops draws query consistency (RCandidate c) sh =
    Some (QueryOffline query, RCandidate c, sh)"

end
