(* ===== verification/Raft_Sync.thy ===== *)
theory Raft_Sync
  imports Raft_Role
begin

text \<open>
  What the raft roles rely on in a state sync implementation (the traits \<open>StateSync\<close>,
  \<open>StateSyncSession\<close> and \<open>StateSyncProvider\<close> of \<open>groups/machine/sync.rs\<close>), as the locale
  \<open>state_sync\<close>; and the frame of every role operation: which messages it sends and that it leaves
  the vote record alone. The vote record is written by \<open>maybe_cast_vote\<close> and \<open>candidate_new\<close> only.
\<close>

section \<open>Messages that cast a vote\<close>

text \<open>A granted response votes for its receiver, a vote request for the candidate itself.\<close>

fun casts :: "peer_id \<times> ('c, 'q, 'r, 'y) message \<Rightarrow> (raft_term \<times> peer_id) option" where
  "casts (to_peer, RequestVoteResponse r) = (if rvr_vote r = Granted then Some (rvr_term r, to_peer) else None)"
| "casts (to_peer, RequestVote r) = Some (rv_term r, rv_candidate r)"
| "casts (to_peer, _) = None"

definition votes_cast :: "(peer_id \<times> ('c, 'q, 'r, 'y) message) list \<Rightarrow> (raft_term \<times> peer_id) set" where
  "votes_cast ms = {v. \<exists>m \<in> set ms. casts m = Some v}"

lemma votes_cast_append [simp]: "votes_cast (ms @ ms') = votes_cast ms \<union> votes_cast ms'"
  by (auto simp: votes_cast_def)

lemma votes_cast_Nil [simp]: "votes_cast [] = {}"
  by (simp add: votes_cast_def)

lemma votes_cast_single [simp]: "votes_cast [m] = set_option (casts m)"
  by (auto simp: votes_cast_def)

section \<open>Frames\<close>

definition is_state_sync :: "('c, 'q, 'r, 'y) message \<Rightarrow> bool" where
  "is_state_sync m \<longleftrightarrow> (\<exists>y. m = StateSync y)"

text \<open>What a state sync operation keeps of the shared state.\<close>

definition sync_frame ::
  "('c, 'm, 'q, 'r, 'y, 'p) shared \<Rightarrow> ('c, 'm, 'q, 'r, 'y, 'p) shared \<Rightarrow> bool" where
  "sync_frame sh sh' \<longleftrightarrow>
    last_vote sh' = last_vote sh \<and> sh_local_id sh' = sh_local_id sh \<and> sh_bonds sh' = sh_bonds sh \<and>
    (\<exists>ms. outbox sh' = outbox sh @ ms \<and> (\<forall>m \<in> set ms. is_state_sync (snd m)))"

lemma sync_frame_refl [simp]: "sync_frame sh sh"
  by (simp add: sync_frame_def)

lemma sync_frame_trans: "sync_frame a b \<Longrightarrow> sync_frame b c \<Longrightarrow> sync_frame a c"
  by (fastforce simp: sync_frame_def)

text \<open>
  The part of the shared state voting depends on: the vote record, the node and the votes sent. A
  step that neither votes nor changes the vote record keeps it.
\<close>

definition vote_view ::
  "('c, 'm, 'q, 'r, 'y, 'p) shared
    \<Rightarrow> (raft_term \<times> peer_id) option \<times> peer_id \<times> (raft_term \<times> peer_id) set" where
  "vote_view sh = (last_vote sh, sh_local_id sh, votes_cast (outbox sh))"

lemma casts_state_sync: "is_state_sync (snd m) \<Longrightarrow> casts m = None"
  by (cases m) (auto simp: is_state_sync_def)

lemma sync_frame_quiet: "sync_frame sh sh' \<Longrightarrow> vote_view sh' = vote_view sh"
  by (auto simp: sync_frame_def vote_view_def) (auto simp: votes_cast_def casts_state_sync)

lemma vote_view_updates [simp]:
  "vote_view (sh\<lparr>storage := s\<rparr>) = vote_view sh"
  "vote_view (sh\<lparr>state_machine := m\<rparr>) = vote_view sh"
  "vote_view (sh\<lparr>sync_provider := p\<rparr>) = vote_view sh"
  "vote_view (sh\<lparr>committed := c\<rparr>) = vote_view sh"
  "vote_view (sh\<lparr>when_committed := i\<rparr>) = vote_view sh"
  "vote_view (update_leader sh l) = vote_view sh"
  "vote_view (set_online sh) = vote_view sh"
  "vote_view (set_offline sh) = vote_view sh"
  "vote_view (update_log_pos sh pos) = vote_view sh"
  "vote_view (set_committed sh pos) = vote_view sh"
  by (simp_all add: vote_view_def update_leader_def set_online_def set_offline_def update_log_pos_def
      set_committed_def)

lemma send_raft_quiet:
  "send_raft_to ops sh m p = Some sh' \<Longrightarrow> casts (p, m) = None \<Longrightarrow> vote_view sh' = vote_view sh"
  by (auto simp: send_raft_to_def vote_view_def split: if_splits)

lemma broadcast_quiet:
  "broadcast_raft ops sh m = Some (ps, sh') \<Longrightarrow> \<forall>p. casts (p, m) = None \<Longrightarrow> vote_view sh' = vote_view sh"
  by (auto simp: broadcast_raft_def vote_view_def votes_cast_def split: if_splits)

lemma commit_batches_quiet:
  "commit_batches ops now pos rows sh = Some sh' \<Longrightarrow> vote_view sh' = vote_view sh"
proof (induction ops now pos rows sh rule: commit_batches.induct)
  case (1 ops now pos sh)
  then show ?case by simp
next
  case (2 ops now pos row rows sh)
  then show ?case by (auto simp: Let_def vote_view_def split: option.splits)
qed

lemma commit_up_to_quiet: "commit_up_to ops now i sh = Some (c, sh') \<Longrightarrow> vote_view sh' = vote_view sh"
  by (auto simp: commit_up_to_def Let_def dest: commit_batches_quiet)

lemma prune_quiet [simp]: "vote_view (prune_safe_prefix sync sh) = vote_view sh"
  by (simp add: prune_safe_prefix_def split: option.splits)

lemma follower_new_quiet [simp]: "vote_view (snd (follower_new ops t l sh)) = vote_view sh"
  by (simp add: follower_new_def Let_def split: option.splits)

lemma leader_new_quiet [simp]: "vote_view (snd (leader_new t vs sh)) = vote_view sh"
  by (simp add: leader_new_def Let_def)

section \<open>The contract\<close>

text \<open>
  Every operation of a state sync implementation stays within \<open>sync_frame\<close>: it may append to the
  log, advance the committed position and send state sync messages, but it does not touch the vote
  record or the bonds.
\<close>

locale state_sync =
  fixes sync :: "('c, 's, 'p, 'y, ('c, 'm, 'q, 'r, 'y, 'p) shared) sync_ops"
  assumes create_frame: "create_session sync sh pos i es = Some (s, sh') \<Longrightarrow> sync_frame sh sh'"
    and poll_frame: "session_poll sync s sh = Some (s', sh', r) \<Longrightarrow> sync_frame sh sh'"
    and receive_frame: "session_receive sync s y p sh = Some (s', sh') \<Longrightarrow> sync_frame sh sh'"
    and buffer_frame: "session_buffer sync s pos es sh = Some (s', sh') \<Longrightarrow> sync_frame sh sh'"
    and provider_receive_frame: "provider_receive sync pr y p sh = Some (pr', sh', rejected) \<Longrightarrow> sync_frame sh sh'"
    and provider_committed_frame: "provider_committed sync pr c sh = (pr', sh') \<Longrightarrow> sync_frame sh sh'"
    and provider_committed_state: "provider_committed sync pr c sh = (pr', sh') \<Longrightarrow>
      storage sh' = storage sh \<and> committed sh' = committed sh \<and> state_machine sh' = state_machine sh"
    and provider_poll_frame: "provider_poll sync pr sh = Some (pr', sh', b) \<Longrightarrow> sync_frame sh sh'"
begin

lemma update_committed_quiet [simp]: "vote_view (update_committed sync sh c) = vote_view sh"
  by (auto simp: update_committed_def Let_def split: prod.splits
      dest!: provider_committed_frame sync_frame_quiet)

lemma update_committed_state:
  "storage (update_committed sync sh c) = storage sh"
  "committed (update_committed sync sh c) = committed sh"
  "state_machine (update_committed sync sh c) = state_machine sh"
  by (auto simp: update_committed_def Let_def split: prod.splits dest!: provider_committed_state)

lemma advance_commit_quiet:
  "advance_commit ops sync now i l sh = Some (l', sh') \<Longrightarrow> vote_view sh' = vote_view sh"
  by (auto simp: advance_commit_def Let_def split: option.splits if_splits
      dest!: commit_up_to_quiet)

lemma leader_record_vote_quiet:
  "leader_record_vote ops sync now l p i sh = Some (l', sh') \<Longrightarrow> vote_view sh' = vote_view sh"
  by (auto simp: leader_record_vote_def Let_def split: option.splits dest: advance_commit_quiet)

lemma leader_record_no_vote_quiet:
  "leader_record_no_vote ops sync now l p b sh = Some (l', sh') \<Longrightarrow> vote_view sh' = vote_view sh"
  by (auto simp: leader_record_no_vote_def Let_def split: option.splits dest: advance_commit_quiet)

lemma leader_receive_quiet:
  "leader_receive ops sync now m p l sh = Some (h, l', sh') \<Longrightarrow> vote_view sh' = vote_view sh"
  by (erule leader_receive.elims)
    (auto simp: Let_def map_option_case split: option.splits if_splits vote.splits prod.splits
      dest: leader_record_vote_quiet leader_record_no_vote_quiet send_raft_quiet)

lemma poll_pending_quiet:
  "poll_pending_entries ops sync now l sh = Some (b, l', sh') \<Longrightarrow> vote_view sh' = vote_view sh"
  by (auto simp: poll_pending_entries_def Let_def split: option.splits if_splits prod.splits
      dest!: leader_record_vote_quiet broadcast_quiet)

lemma poll_heartbeat_quiet:
  "poll_next_heartbeat ops e l sh = Some (b, l', sh') \<Longrightarrow> vote_view sh' = vote_view sh"
  by (auto simp: poll_next_heartbeat_def Let_def split: option.splits if_splits prod.splits
      dest!: broadcast_quiet)

lemma leader_poll_quiet:
  "leader_poll ops sync now e l sh = Some (b, l', sh') \<Longrightarrow> vote_view sh' = vote_view sh"
  by (auto simp: leader_poll_def split: option.splits prod.splits bool.splits
      dest!: poll_pending_quiet poll_heartbeat_quiet)

lemma follower_commit_quiet:
  "follower_commit ops sync now i sh = Some sh' \<Longrightarrow> vote_view sh' = vote_view sh"
  by (auto simp: follower_commit_def Let_def split: option.splits if_splits
      dest!: commit_up_to_quiet)

lemma accept_quiet:
  "accept_in_sync_entries ops sync now req p f sh = Some sh' \<Longrightarrow> vote_view sh' = vote_view sh"
  by (auto simp: accept_in_sync_entries_def Let_def split: option.splits if_splits
      dest!: follower_commit_quiet send_raft_quiet)

lemma on_append_quiet:
  assumes "on_append_entries ops sync now req p f sh = Some (f', sh')"
  shows "vote_view sh' = vote_view sh"
  using assms
  by (auto simp: on_append_entries_def Let_def split: option.splits if_splits prod.splits
      dest!: accept_quiet create_frame buffer_frame sync_frame_quiet)

lemma follower_receive_quiet:
  "follower_receive ops sync now m p f sh = Some (h, f', sh') \<Longrightarrow> vote_view sh' = vote_view sh"
  by (erule follower_receive.elims)
    (auto simp: map_option_case split: option.splits prod.splits dest: on_append_quiet dest!: receive_frame sync_frame_quiet)

lemma role_handle_quiet:
  "role_handle ops sync now m p role sh = Some (h, role', sh') \<Longrightarrow> vote_view sh' = vote_view sh"
  by (cases role)
    (auto split: prod.splits dest: follower_receive_quiet leader_receive_quiet)

lemma maybe_state_sync_quiet:
  "maybe_state_sync sync m p sh = Some (m', sh') \<Longrightarrow> vote_view sh' = vote_view sh"
  by (erule maybe_state_sync.elims)
    (auto simp: sync_provider_receive_def split: option.splits
      dest!: provider_receive_frame sync_frame_quiet)

lemma poll_provider_quiet:
  "poll_state_sync_provider sync sh = Some (b, sh') \<Longrightarrow> vote_view sh' = vote_view sh"
  by (auto simp: poll_state_sync_provider_def dest!: provider_poll_frame sync_frame_quiet)

lemma follower_catch_up_quiet:
  "follower_catch_up sync f sh = Some r \<Longrightarrow> r = Inl (f', sh') \<or> r = Inr (f', sh') \<Longrightarrow> vote_view sh' = vote_view sh"
  by (auto simp: follower_catch_up_def split: option.splits if_splits prod.splits
      dest!: poll_frame sync_frame_quiet)

end

lemma maybe_step_down_quiet:
  "maybe_step_down ops m role sh = Some (role', sh') \<Longrightarrow> vote_view sh' = vote_view sh"
  by (auto simp: maybe_step_down_def follower_new_def Let_def split: option.splits if_splits)

end
