(* ===== verification/Raft_Votes.thy ===== *)
theory Raft_Votes
  imports Raft_Sync
begin

text \<open>
  The safety of voting. A node is a state machine over the events of \<open>groups/worker.rs\<close>: a
  protocol message arrives, the role is polled, a client feeds commands or queries, the bonds
  change, a forwarded request expires. In every reachable state the node has cast at most one vote
  per term, its own candidacy included; a candidate or leader has voted for itself in its term; and
  the term of the vote record is at most the term of the role, so that the search for a votable
  term always ends.
\<close>

section \<open>The search for a votable term\<close>

lemma votable_term_Some:
  "votable_term sh t = Some t' \<Longrightarrow> can_vote sh t' (sh_local_id sh)"
proof (induction arbitrary: t rule: votable_term.raw_induct [rotated, consumes 1, case_names step])
  case (step f sh t t')
  then show ?case by (auto split: if_splits)
qed

lemma votable_term_ge:
  "votable_term sh t = Some t' \<Longrightarrow> t \<le> u64_max \<Longrightarrow> t \<le> t' \<and> t' \<le> u64_max"
proof (induction rule: votable_term.raw_induct [rotated, consumes 1, case_names step])
  case (step f sh t t')
  show ?case
  proof (cases "can_vote sh t (sh_local_id sh)")
    case True
    then show ?thesis using step by simp
  next
    case False
    then have "f sh (pos_next t) = Some t'" using step(2) by simp
    then have "pos_next t \<le> t' \<and> t' \<le> u64_max" using step(1) pos_next_le by blast
    then show ?thesis using pos_next_ge [OF step(3)] by simp
  qed
qed

text \<open>A term above the one of the vote record is taken as it is.\<close>

lemma votable_term_fresh:
  assumes "\<And>t' p. last_vote sh = Some (t', p) \<Longrightarrow> t' < t"
  shows "votable_term sh t = Some t"
  by (subst votable_term.simps) (use assms in \<open>auto simp: can_vote_def split: option.splits\<close>)

text \<open>Below the largest term the search ends whatever the vote record is.\<close>

lemma votable_term_returns:
  assumes "\<And>t' p. last_vote sh = Some (t', p) \<Longrightarrow> t' < u64_max" and "t < u64_max"
  shows "\<exists>t'. votable_term sh t = Some t' \<and> t \<le> t'"
  using assms(2)
proof (induction "u64_max - t" arbitrary: t rule: less_induct)
  case (less t)
  show ?case
  proof (cases "can_vote sh t (sh_local_id sh)")
    case True
    then show ?thesis by (subst votable_term.simps) simp
  next
    case False
    then obtain t' p where lv: "last_vote sh = Some (t', p)" and le: "t \<le> t'"
      by (auto simp: can_vote_def split: option.splits if_splits)
    then have "Suc t < u64_max \<or> Suc t = u64_max" using assms(1) less.prems by auto
    then show ?thesis
    proof
      assume "Suc t < u64_max"
      then have "\<exists>t'. votable_term sh (Suc t) = Some t' \<and> Suc t \<le> t'"
        using less.hyps [of "Suc t"] less.prems by simp
      then show ?thesis
        using False less.prems by (subst votable_term.simps) (auto simp: pos_next_eq)
    next
      assume "Suc t = u64_max"
      then have "votable_term sh (Suc t) = Some (Suc t)"
        by (intro votable_term_fresh) (use assms(1) in auto)
      then show ?thesis
        using False less.prems by (subst votable_term.simps) (auto simp: pos_next_eq)
    qed
  qed
qed

section \<open>The invariant\<close>

definition vote_safe :: "('c, 'm, 'q, 'r, 'y, 'p) shared \<Rightarrow> bool" where
  "vote_safe sh \<longleftrightarrow>
    (\<forall>t p. (t, p) \<in> votes_cast (outbox sh) \<longrightarrow>
      (\<exists>t' c. last_vote sh = Some (t', c) \<and> (t < t' \<or> t = t' \<and> p = c))) \<and>
    (\<forall>t p p'. (t, p) \<in> votes_cast (outbox sh) \<longrightarrow> (t, p') \<in> votes_cast (outbox sh) \<longrightarrow> p = p')"

fun role_voted :: "('c, 's, 'r) role \<Rightarrow> ('c, 'm, 'q, 'r, 'y, 'p) shared \<Rightarrow> bool" where
  "role_voted (RFollower f) sh \<longleftrightarrow> True"
| "role_voted (RCandidate c) sh \<longleftrightarrow>
    last_vote sh = Some (cand_term c, sh_local_id sh) \<and> sh_local_id sh \<in> votes_granted c \<and>
    votes_granted c \<subseteq> requested_from c \<and> finite (requested_from c)"
| "role_voted (RLeader l) sh \<longleftrightarrow> last_vote sh = Some (lead_term l, sh_local_id sh)"

definition node_inv :: "peer_id \<Rightarrow> ('c, 's, 'r) role \<Rightarrow> ('c, 'm, 'q, 'r, 'y, 'p) shared \<Rightarrow> bool" where
  "node_inv me role sh \<longleftrightarrow>
    sh_local_id sh = me \<and> vote_safe sh \<and> role_voted role sh \<and> role_term role \<le> u64_max \<and>
    (\<forall>t p. last_vote sh = Some (t, p) \<longrightarrow> t \<le> role_term role)"

lemma vote_safe_cong: "vote_view sh' = vote_view sh \<Longrightarrow> vote_safe sh' \<longleftrightarrow> vote_safe sh"
  by (simp add: vote_view_def vote_safe_def)

lemma node_inv_cong: "vote_view sh' = vote_view sh \<Longrightarrow> node_inv me role sh' \<longleftrightarrow> node_inv me role sh"
  by (cases role) (auto simp: node_inv_def vote_view_def vote_safe_def)

text \<open>Casting a vote the record allows, and recording it, is safe.\<close>

lemma vote_safe_cast:
  assumes "vote_safe sh" and "can_vote sh t p" and "last_vote sh' = Some (t, p)"
    and "votes_cast (outbox sh') \<subseteq> insert (t, p) (votes_cast (outbox sh))"
  shows "vote_safe sh'"
proof -
  have old: "t1 < t \<or> t1 = t \<and> p1 = p" if v: "(t1, p1) \<in> votes_cast (outbox sh)" for t1 p1
  proof -
    from v assms(1) obtain t' c where lv: "last_vote sh = Some (t', c)"
      and le: "t1 < t' \<or> t1 = t' \<and> p1 = c"
      unfolding vote_safe_def by blast
    from assms(2) lv have "t' < t \<or> t' = t \<and> c = p" by (auto simp: can_vote_def split: if_splits)
    with le show ?thesis by auto
  qed
  have new: "t1 < t \<or> t1 = t \<and> p1 = p" if "(t1, p1) \<in> votes_cast (outbox sh')" for t1 p1
    using that assms(4) old by blast
  have uniq: "p1 = p2" if "(t1, p1) \<in> votes_cast (outbox sh')" "(t1, p2) \<in> votes_cast (outbox sh')"
    for t1 p1 p2
  proof (cases "t1 = t")
    case True
    with new that show ?thesis by blast
  next
    case False
    with that assms(4) have "(t1, p1) \<in> votes_cast (outbox sh)" "(t1, p2) \<in> votes_cast (outbox sh)"
      by auto
    with assms(1) show ?thesis unfolding vote_safe_def by blast
  qed
  from new uniq assms(3) show ?thesis by (fastforce simp: vote_safe_def)
qed

section \<open>Becoming a candidate\<close>

lemma candidate_new_inv:
  assumes "vote_safe sh" and "term0 \<le> u64_max" and "sh_local_id sh = me" and "candidate_new ops term0 sh = Some (c, sh')"
  shows "node_inv me (RCandidate c) sh' \<and> term0 \<le> cand_term c"
proof -
  let ?me = "sh_local_id sh" and ?sh = "set_offline sh"
  obtain t ps sh1 where t: "votable_term ?sh term0 = Some t"
    and b: "broadcast_raft ops ?sh (RequestVote \<lparr>rv_term = t, rv_candidate = ?me,
        rv_log_position = log_last (storage ?sh)\<rparr>) = Some (ps, sh1)"
    and c: "c = \<lparr>cand_term = t, requested_from = set ps \<union> {?me}, votes_granted = {?me},
        votes_abstained = {}, votes_denied = {}\<rparr>"
    and sh': "sh' = save_vote sh1 t ?me"
    using assms(4) by (auto simp: candidate_new_def Let_def set_offline_def split: if_splits option.splits)
  have cv: "can_vote sh t ?me"
    using votable_term_Some [OF t] by (simp add: set_offline_def can_vote_def)
  have tb: "term0 \<le> t" "t \<le> u64_max" using votable_term_ge [OF t assms(2)] by simp_all
  have me: "sh_local_id sh' = ?me" and lv: "last_vote sh' = Some (t, ?me)"
    using b by (auto simp: sh' save_vote_def broadcast_raft_def set_offline_def split: if_splits)
  have "votes_cast (outbox sh') \<subseteq> insert (t, ?me) (votes_cast (outbox sh))"
    using b by (auto simp: sh' save_vote_def broadcast_raft_def set_offline_def votes_cast_def
        split: if_splits)
  then have "vote_safe sh'" by (rule vote_safe_cast [OF assms(1) cv lv])
  then show ?thesis using me lv tb assms(3) by (auto simp: node_inv_def c)
qed

lemma candidate_from_inv:
  assumes "node_inv me role sh" and "candidate_new ops (pos_next (role_term role)) sh = Some (c, sh')"
  shows "node_inv me (RCandidate c) sh'" and "role_term role \<le> cand_term c"
proof -
  have "vote_safe sh" and b: "role_term role \<le> u64_max" and "sh_local_id sh = me"
    using assms(1) by (auto simp: node_inv_def)
  from candidate_new_inv [OF this(1) pos_next_le this(3) assms(2)] pos_next_ge [OF b]
  show "node_inv me (RCandidate c) sh'" and "role_term role \<le> cand_term c" by auto
qed

text \<open>A node that is not at the largest term becomes a candidate of exactly the next term.\<close>

lemma candidate_new_next:
  assumes "node_inv me role sh" and "role_term role < u64_max"
    and "\<And>m. m_encodable ops m"
  shows "\<exists>c sh'. candidate_new ops (pos_next (role_term role)) sh = Some (c, sh') \<and>
    cand_term c = Suc (role_term role)"
proof -
  let ?t = "Suc (role_term role)" and ?sh = "set_offline sh"
  have "t' \<le> role_term role" if "last_vote sh = Some (t', p)" for t' p
    using assms(1) that unfolding node_inv_def by blast
  then have "votable_term ?sh ?t = Some ?t"
    by (intro votable_term_fresh) (simp add: set_offline_def less_Suc_eq_le)
  then show ?thesis
    using assms(2,3) by (simp add: candidate_new_def Let_def pos_next_eq broadcast_raft_def)
qed

section \<open>Terms of the roles\<close>

lemma advance_commit_term:
  "advance_commit ops sync now i l sh = Some (l', sh') \<Longrightarrow> lead_term l' = lead_term l"
  by (auto simp: advance_commit_def schedule_immediate_heartbeat_def Let_def
      split: option.splits if_splits)

lemma record_vote_term:
  "leader_record_vote ops sync now l p i sh = Some (l', sh') \<Longrightarrow> lead_term l' = lead_term l"
  by (auto simp: leader_record_vote_def Let_def split: option.splits dest!: advance_commit_term)

lemma record_no_vote_term:
  "leader_record_no_vote ops sync now l p b sh = Some (l', sh') \<Longrightarrow> lead_term l' = lead_term l"
  by (auto simp: leader_record_no_vote_def Let_def split: option.splits dest!: advance_commit_term)

lemma leader_receive_term:
  "leader_receive ops sync now m p l sh = Some (h, l', sh') \<Longrightarrow> lead_term l' = lead_term l"
  by (erule leader_receive.elims)
    (auto simp: Let_def map_option_case enqueue_commands_def
      split: option.splits if_splits vote.splits prod.splits
      dest!: record_vote_term record_no_vote_term)

lemma leader_poll_term:
  "leader_poll ops sync now e l sh = Some (b, l', sh') \<Longrightarrow> lead_term l' = lead_term l"
  by (auto simp: leader_poll_def poll_pending_entries_def poll_next_heartbeat_def
      reset_heartbeat_timeout_def Let_def split: option.splits if_splits bool.splits prod.splits
      dest!: record_vote_term)

lemma follower_receive_term:
  "follower_receive ops sync now m p f sh = Some (h, f', sh') \<Longrightarrow> fol_term f' = fol_term f"
  by (erule follower_receive.elims)
    (auto simp: map_option_case on_append_entries_def on_forward_command_response_def
      on_forward_query_response_def Let_def split: option.splits if_splits prod.splits)

lemma follower_catch_up_term:
  "follower_catch_up sync f sh = Some r \<Longrightarrow> r = Inl (f', sh') \<or> r = Inr (f', sh')
    \<Longrightarrow> fol_term f' = fol_term f \<and> fol_preference f' = fol_preference f"
  by (auto simp: follower_catch_up_def split: option.splits if_splits prod.splits)

lemma follower_new_term [simp]: "fol_term (fst (follower_new ops t l sh)) = t"
  by (simp add: follower_new_def Let_def)

lemma clean_expired_simps [simp]:
  "fol_term (clean_expired_forwarded_commands f) = fol_term f"
  "fol_preference (clean_expired_forwarded_commands f) = fol_preference f"
  by (simp_all add: clean_expired_forwarded_commands_def)

lemma candidate_receive_inv:
  "candidate_receive m p c = (h, c') \<Longrightarrow> node_inv me (RCandidate c) sh \<Longrightarrow>
    node_inv me (RCandidate c') sh \<and> cand_term c' = cand_term c"
  by (erule candidate_receive.elims)
    (auto simp: node_inv_def split: if_splits vote.splits)

section \<open>Every step keeps the invariant\<close>

text \<open>A vote request names its sender, and terms are \<open>u64\<close> values.\<close>

definition message_ok :: "('c, 'q, 'r, 'y) message \<Rightarrow> peer_id \<Rightarrow> bool" where
  "message_ok m sender \<longleftrightarrow>
    (case m of RequestVote r \<Rightarrow> rv_candidate r = sender | _ \<Rightarrow> True) \<and>
    (case message_term m of None \<Rightarrow> True | Some t \<Rightarrow> t \<le> u64_max)"

lemma maybe_step_down_inv:
  assumes "node_inv me role sh" and "maybe_step_down ops m role sh = Some (role', sh')"
    and "message_ok m p"
  shows "node_inv me role' sh' \<and> role_term role \<le> role_term role' \<and>
    (\<forall>t. message_term m = Some t \<longrightarrow> role_term role' = t)"
proof (cases "\<exists>t. message_term m = Some t \<and> role_term role < t")
  case True
  then obtain t where t: "message_term m = Some t" "role_term role < t" by blast
  have vv: "vote_view sh' = vote_view sh" by (rule maybe_step_down_quiet [OF assms(2)])
  have r: "role' = RFollower (fst (follower_new ops t (message_leader m) sh))"
    using assms(2) t by (auto simp: maybe_step_down_def follower_new_def Let_def)
  have rt: "role_term role' = t" by (simp add: r)
  have tb: "t \<le> u64_max" using assms(3) t(1) by (simp add: message_ok_def)
  have "node_inv me role' sh"
    using assms(1) tb t(2) rt by (simp add: node_inv_def r) (meson less_imp_le order_trans)
  then show ?thesis using rt t by (simp add: node_inv_cong [OF vv])
next
  case False
  then have "role' = role \<and> sh' = sh \<and> (\<forall>t. message_term m = Some t \<longrightarrow> role_term role = t)"
    using assms(2) by (auto simp: maybe_step_down_def split: option.splits if_splits)
  then show ?thesis using assms(1) by simp
qed

text \<open>A candidate steps down on an append request of its own term, which it then handles.\<close>

lemma candidate_step_down_request:
  "candidate_receive m p c = (StepDown r, c') \<Longrightarrow> m = AppendEntries r \<and> c' = c"
  by (erule candidate_receive.elims) (auto split: if_splits)

lemma role_handle_step_down_request:
  "role_handle ops sync now m p role sh = Some (StepDown r, role', sh')
    \<Longrightarrow> m = AppendEntries r \<and> role' = role \<and> is_candidate role"
  by (cases role)
    (auto split: prod.splits dest: follower_receive_no_step_down leader_receive_no_step_down
      candidate_step_down_request)

lemma maybe_step_down_stays:
  "maybe_step_down ops m role sh = Some (role', sh') \<Longrightarrow> is_candidate role' \<Longrightarrow>
    role' = role \<and> (\<forall>t. message_term m = Some t \<longrightarrow> role_term role = t)"
  by (auto simp: maybe_step_down_def Let_def split: option.splits if_splits prod.splits)

lemma maybe_state_sync_other:
  "maybe_state_sync sync m p sh = Some (Some (AppendEntries r), sh') \<Longrightarrow> m = AppendEntries r"
  by (erule maybe_state_sync.elims) (auto simp: map_option_case split: option.splits)

lemma role_dispatch_step_down_request:
  assumes "role_dispatch ops sync now m p role sh = Some (StepDown r, role1, sh1)"
  shows "m = AppendEntries r \<and> role_term role1 = ae_term r \<and> role1 = role"
  using assms
  by (auto simp: role_dispatch_def split: option.splits if_splits prod.splits bool.splits
      dest!: role_handle_step_down_request maybe_step_down_stays maybe_state_sync_other)

lemma decide_vote_cases:
  assumes "decide_vote ops r p sh = (v, sh1)"
  shows "sh1 = sh \<and> v \<noteq> Granted \<or>
    can_vote sh (rv_term r) (rv_candidate r) \<and> sh1 = save_vote sh (rv_term r) p"
  using assms by (auto simp: decide_vote_def Let_def split: if_splits)

text \<open>Voting on a request of the role's own term.\<close>

lemma maybe_cast_vote_inv:
  assumes inv: "node_inv me role sh" and cast: "maybe_cast_vote ops m p role sh = Some (b, sh')"
    and ok: "message_ok m p" and t: "\<And>t. message_term m = Some t \<Longrightarrow> role_term role = t"
  shows "node_inv me role sh'"
proof (cases "\<exists>r. m = RequestVote r")
  case False
  then have "sh' = sh" using cast by (cases m) auto
  with inv show ?thesis by simp
next
  case True
  then obtain r where m: "m = RequestVote r" by blast
  have p: "rv_candidate r = p" and rt: "role_term role = rv_term r"
    using ok t by (auto simp: m message_ok_def)
  obtain v sh1 where d: "decide_vote ops r p sh = (v, sh1)" by fastforce
  have snd: "send_raft_to ops sh1 (RequestVoteResponse \<lparr>rvr_term = rv_term r, rvr_vote = v\<rparr>) p = Some sh'"
    using cast d by (auto simp: m split: if_splits option.splits)
  from decide_vote_cases [OF d] show ?thesis
  proof
    assume "sh1 = sh \<and> v \<noteq> Granted"
    then have "vote_view sh' = vote_view sh" using send_raft_quiet [OF snd] by simp
    then show ?thesis using inv node_inv_cong by blast
  next
    assume c: "can_vote sh (rv_term r) (rv_candidate r) \<and> sh1 = save_vote sh (rv_term r) p"
    then have lv: "last_vote sh' = Some (rv_term r, p)" and me: "sh_local_id sh' = sh_local_id sh"
      and vc: "votes_cast (outbox sh') \<subseteq> insert (rv_term r, p) (votes_cast (outbox sh))"
      using snd by (auto simp: send_raft_to_def save_vote_def split: if_splits)
    have "vote_safe sh'"
      by (rule vote_safe_cast [OF _ _ lv vc]) (use inv c p in \<open>simp_all add: node_inv_def\<close>)
    moreover have "role_voted role sh'"
    proof (cases role)
      case (RCandidate k)
      then show ?thesis using inv c rt lv me p by (auto simp: node_inv_def can_vote_def split: if_splits)
    next
      case (RLeader l)
      then show ?thesis using inv c rt lv me p by (auto simp: node_inv_def can_vote_def split: if_splits)
    qed simp
    ultimately show ?thesis using inv rt lv me by (simp add: node_inv_def)
  qed
qed

context state_sync
begin

lemma role_handle_inv:
  assumes "node_inv me role sh" and "role_handle ops sync now m p role sh = Some (h, role', sh')"
  shows "node_inv me role' sh' \<and> role_term role' = role_term role"
proof -
  have vv: "vote_view sh' = vote_view sh" using assms(2) by (rule role_handle_quiet)
  have "node_inv me role' sh \<and> role_term role' = role_term role"
  proof (cases role)
    case (RFollower f)
    then obtain f' where "role' = RFollower f'" "fol_term f' = fol_term f"
      using assms(2) by (auto dest: follower_receive_term)
    then show ?thesis using assms(1) RFollower by (simp add: node_inv_def)
  next
    case (RCandidate c)
    then show ?thesis using assms candidate_receive_inv [of m p c h _ me sh]
      by (auto split: prod.splits)
  next
    case (RLeader l)
    then obtain l' where "role' = RLeader l'" "lead_term l' = lead_term l"
      using assms(2) by (auto dest: leader_receive_term)
    then show ?thesis using assms(1) RLeader by (simp add: node_inv_def)
  qed
  then show ?thesis by (simp add: node_inv_cong [OF vv])
qed

lemma role_dispatch_inv:
  assumes inv: "node_inv me role sh" and ok: "message_ok m p"
    and disp: "role_dispatch ops sync now m p role sh = Some (h, role', sh')"
  shows "node_inv me role' sh' \<and> role_term role \<le> role_term role'"
proof (cases "case message_term m of None \<Rightarrow> False | Some t \<Rightarrow> t < role_term role")
  case True
  then show ?thesis using disp inv by (simp add: role_dispatch_def)
next
  case False
  then obtain m1o sh1 where s1: "maybe_state_sync sync m p sh = Some (m1o, sh1)"
    using disp by (auto simp: role_dispatch_def split: option.splits)
  have i1: "node_inv me role sh1" using inv by (simp add: node_inv_cong [OF maybe_state_sync_quiet [OF s1]])
  show ?thesis
  proof (cases m1o)
    case None
    then show ?thesis using disp False s1 i1 by (simp add: role_dispatch_def)
  next
    case (Some m1)
    have ok1: "message_ok m1 p" using s1 ok Some
      by (cases m) (auto simp: message_ok_def split: option.splits)
    from disp False s1 Some obtain role1 sh2 where s2: "maybe_step_down ops m1 role sh1 = Some (role1, sh2)"
      by (auto simp: role_dispatch_def split: option.splits)
    note i2 = maybe_step_down_inv [OF i1 s2 ok1]
    from disp False s1 Some s2 obtain b sh3 where s3: "maybe_cast_vote ops m1 p role1 sh2 = Some (b, sh3)"
      by (auto simp: role_dispatch_def split: option.splits)
    have i3: "node_inv me role1 sh3" by (rule maybe_cast_vote_inv [OF _ s3 ok1]) (use i2 in auto)
    show ?thesis
    proof (cases b)
      case True
      then show ?thesis using disp False s1 Some s2 s3 i2 i3 by (simp add: role_dispatch_def)
    next
      case b: False
      have "role_handle ops sync now m1 p role1 sh3 = Some (h, role', sh')"
        using disp False s1 Some s2 s3 b by (simp add: role_dispatch_def)
      then show ?thesis using role_handle_inv [OF i3] i2 by fastforce
    qed
  qed
qed

lemma role_receive_once_inv:
  assumes "node_inv me role sh" and "message_ok m p"
    and d: "role_dispatch ops sync now m p role sh = Some (h, role1, sh1)" and "\<And>r. h \<noteq> StepDown r"
    and rec: "role_receive ops sync now m p role sh = Some (role', sh')"
  shows "node_inv me role' sh' \<and> role_term role \<le> role_term role'"
proof -
  note i1 = role_dispatch_inv [OF assms(1,2) d]
  show ?thesis
  proof (cases h)
    case (RivalLeader r)
    then obtain c sh2 where c: "candidate_new ops (pos_next (role_term role1)) sh1 = Some (c, sh2)"
      and r: "role' = RCandidate c" "sh' = update_leader sh2 None"
      using rec d by (auto simp: role_receive.simps split: option.splits)
    have "node_inv me role' sh'" using candidate_from_inv(1) [OF _ c, of me] i1
      by (simp add: r node_inv_cong [OF vote_view_updates(6)])
    then show ?thesis using candidate_from_inv(2) [OF _ c, of me] i1 r by auto
  qed (use rec d i1 assms(4) in \<open>simp_all add: role_receive.simps\<close>)
qed

lemma role_receive_inv:
  assumes inv: "node_inv me role sh" and ok: "message_ok m p"
    and rec: "role_receive ops sync now m p role sh = Some (role', sh')"
  shows "node_inv me role' sh' \<and> role_term role \<le> role_term role'"
proof -
  from rec obtain h role1 sh1 where d: "role_dispatch ops sync now m p role sh = Some (h, role1, sh1)"
    by (auto simp: role_receive.simps [of ops sync now m] split: option.splits)
  show ?thesis
  proof (cases "\<exists>r. h = StepDown r")
    case False
    then show ?thesis using role_receive_once_inv [OF inv ok d _ rec] by blast
  next
    case True
    then obtain r where h: "h = StepDown r" by blast
    note sd = role_dispatch_step_down_request [OF d [unfolded h]]
    obtain f :: "('s, 'r) follower" and shf
      where st: "follower_new ops (ae_term r) (Some (ae_leader r)) sh1 = (f, shf)" by fastforce
    let ?f = "RFollower f" and ?sh = "update_leader shf (Some (ae_leader r))"
    note i1 = role_dispatch_inv [OF inv ok d]
    have ft: "fol_term f = ae_term r" and vv: "vote_view ?sh = vote_view sh1"
      using st by (auto simp: follower_new_def Let_def)
    have "node_inv me ?f sh1" using i1 sd ft by (auto simp: node_inv_def)
    then have i2: "node_inv me ?f ?sh" by (simp only: node_inv_cong [OF vv])
    have ok2: "message_ok (AppendEntries r :: ('c, 'q, 'r, 'y) message) p" using ok sd by simp
    have rec2: "role_receive ops sync now (AppendEntries r) p ?f ?sh = Some (role', sh')"
      using rec d h by (simp add: role_receive.simps [of ops sync now m] st)
    obtain h2 role2 sh2 where d2: "role_dispatch ops sync now (AppendEntries r) p ?f ?sh = Some (h2, role2, sh2)"
      using rec2 by (auto simp: role_receive.simps [of ops sync now "AppendEntries r"] split: option.splits)
    have "h2 \<noteq> StepDown r'" for r' using role_dispatch_step_down [of ops sync now _ p ?f ?sh] d2 by blast
    from role_receive_once_inv [OF i2 ok2 d2 this rec2] show ?thesis using i1 sd ft by auto
  qed
qed

lemma follower_poll_inv:
  assumes inv: "node_inv me (RFollower f) sh" and poll: "follower_poll ops sync e f sh = Some (co, f', sh')"
  shows "(case co of None \<Rightarrow> node_inv me (RFollower f') sh' \<and> fol_term f' = fol_term f
    | Some c \<Rightarrow> node_inv me (RCandidate c) sh' \<and> fol_term f \<le> cand_term c)"
proof -
  from poll obtain r f1 sh1 where
    r: "follower_catch_up sync (clean_expired_forwarded_commands f) sh = Some r"
    and rr: "r = Inl (f1, sh1) \<or> r = Inr (f1, sh1)"
    by (auto simp: follower_poll_def split: option.splits sum.splits prod.splits)
  have t: "fol_term f1 = fol_term f" using follower_catch_up_term [OF r rr] by simp
  have "node_inv me (RFollower f1) sh" using inv t by (simp add: node_inv_def)
  then have i1: "node_inv me (RFollower f1) sh1"
    by (simp only: node_inv_cong [OF follower_catch_up_quiet [OF r rr]])
  from poll r rr consider "co = None" "f' = f1" "sh' = sh1" |
    c where "co = Some c" "candidate_new ops (pos_next (fol_term f1)) sh1 = Some (c, sh')"
    by (auto simp: follower_poll_def split: option.splits if_splits)
  then show ?thesis
  proof cases
    case 1
    then show ?thesis using i1 t by simp
  next
    case 2
    then show ?thesis using candidate_from_inv [OF i1] t by simp
  qed
qed

lemma candidate_poll_inv:
  assumes inv: "node_inv me (RCandidate c :: ('c, 's, 'r) role) sh"
    and poll: "candidate_poll ops e c sh = Some (ro, sh')"
  shows "(case ro of None \<Rightarrow> node_inv me (RCandidate c :: ('c, 's, 'r) role) sh'
    | Some nr \<Rightarrow> node_inv me (next_role_to_role nr :: ('c, 's, 'r) role) sh' \<and> cand_term c \<le> role_term (next_role_to_role nr))"
proof (cases "quorum_reached c")
  case True
  then have ro: "ro = Some (NextLeader (fst (leader_new (cand_term c) (sorted_list_of_set (votes_granted c)) sh)))"
    and sh': "sh' = snd (leader_new (cand_term c) (sorted_list_of_set (votes_granted c)) sh)"
    using poll by (auto simp: candidate_poll_def split: prod.splits)
  have vv: "vote_view sh' = vote_view sh" by (simp add: sh')
  show ?thesis unfolding ro option.case node_inv_cong [OF vv]
    using inv by (simp add: node_inv_def leader_new_def Let_def)
next
  case False
  then consider "ro = None" "sh' = sh" |
    k where "ro = Some (NextCandidate k)"
      "candidate_new ops (pos_next (cand_term c)) sh = Some (k, sh')"
    using poll by (auto simp: candidate_poll_def split: if_splits option.splits)
  then show ?thesis
  proof cases
    case 1
    then show ?thesis using inv by simp
  next
    case 2
    then show ?thesis using candidate_from_inv [OF inv] by simp
  qed
qed

lemma role_poll_inv:
  assumes inv: "node_inv me role sh" and poll: "role_poll ops sync now e role sh = Some (b, role', sh')"
  shows "node_inv me role' sh' \<and> role_term role \<le> role_term role'"
proof -
  from poll obtain b1 b2 sh1 where tick: "role_tick ops sync now e role sh = Some (b1, role', sh1)"
    and p: "poll_state_sync_provider sync sh1 = Some (b2, sh')"
    by (auto simp: role_poll_def split: option.splits)
  note vv = poll_provider_quiet [OF p]
  have "node_inv me role' sh1 \<and> role_term role \<le> role_term role'"
  proof (cases role)
    case (RFollower f)
    with tick obtain co f' where "follower_poll ops sync e f sh = Some (co, f', sh1)"
      and "role' = (case co of None \<Rightarrow> RFollower f' | Some c \<Rightarrow> RCandidate c)"
      by (auto split: option.splits prod.splits)
    then show ?thesis using follower_poll_inv inv RFollower by (fastforce split: option.splits)
  next
    case (RCandidate c)
    with tick obtain ro where "candidate_poll ops e c sh = Some (ro, sh1)"
      and "role' = (case ro of None \<Rightarrow> RCandidate c | Some nr \<Rightarrow> next_role_to_role nr)"
      by (auto split: option.splits prod.splits)
    then show ?thesis using candidate_poll_inv inv RCandidate by (fastforce split: option.splits)
  next
    case (RLeader l)
    with tick obtain l' where p: "leader_poll ops sync now e l sh = Some (b1, l', sh1)"
      and r: "role' = RLeader l'"
      by (auto split: option.splits prod.splits)
    have "node_inv me (RLeader l') sh" using inv RLeader leader_poll_term [OF p] by (simp add: node_inv_def)
    then show ?thesis using RLeader leader_poll_term [OF p]
      by (simp add: r node_inv_cong [OF leader_poll_quiet [OF p]])
  qed
  then show ?thesis by (simp add: node_inv_cong [OF vv])
qed

end

section \<open>Reachable states of a node\<close>

datatype ('c, 'q, 'r, 'y) event =
    Receive "('c, 'q, 'r, 'y) message" peer_id int
  | Poll int bool
  | Feed "nat list" "'c list"
  | Ask "nat list" 'q consistency
  | Rebond "peer_id list"
  | ExpireCommand nat
  | ExpireQuery nat

fun on_follower :: "(('s, 'r) follower \<Rightarrow> ('s, 'r) follower) \<Rightarrow> ('c, 's, 'r) role \<Rightarrow> ('c, 's, 'r) role" where
  "on_follower g (RFollower f) = RFollower (g f)"
| "on_follower g role = role"

fun node_step ::
  "('c, 'm, 'q, 'r, 'y) machine_ops \<Rightarrow> ('c, 's, 'p, 'y, ('c, 'm, 'q, 'r, 'y, 'p) shared) sync_ops
    \<Rightarrow> ('c, 'q, 'r, 'y) event \<Rightarrow> ('c, 's, 'r) role \<Rightarrow> ('c, 'm, 'q, 'r, 'y, 'p) shared
    \<Rightarrow> (('c, 's, 'r) role \<times> ('c, 'm, 'q, 'r, 'y, 'p) shared) option" where
  "node_step ops sync (Receive m p now) role sh = role_receive ops sync now m p role sh"
| "node_step ops sync (Poll now elapsed) role sh =
    map_option snd (role_poll ops sync now elapsed role sh)"
| "node_step ops sync (Feed draws cs) role sh = map_option snd (raft_feed ops draws cs role sh)"
| "node_step ops sync (Ask draws q k) role sh = map_option snd (raft_query ops draws q k role sh)"
| "node_step ops sync (Rebond ps) role sh = Some (role, sh\<lparr>sh_bonds := ps\<rparr>)"
| "node_step ops sync (ExpireCommand rid) role sh = Some (on_follower (expire_command rid) role, sh)"
| "node_step ops sync (ExpireQuery rid) role sh = Some (on_follower (expire_query rid) role, sh)"

fun event_ok :: "('c, 'q, 'r, 'y) event \<Rightarrow> bool" where
  "event_ok (Receive m p now) = message_ok m p"
| "event_ok _ = True"

text \<open>
  The states a node started with an empty vote record can get into. Between two events the
  environment may change what only timers, channels and clocks of the state sync change: any change
  of the catch-up session and of the provider is allowed.
\<close>

inductive reachable ::
  "('c, 'm, 'q, 'r, 'y) machine_ops \<Rightarrow> ('c, 's, 'p, 'y, ('c, 'm, 'q, 'r, 'y, 'p) shared) sync_ops
    \<Rightarrow> peer_id \<Rightarrow> ('c, 's, 'r) role \<Rightarrow> ('c, 'm, 'q, 'r, 'y, 'p) shared \<Rightarrow> bool"
  for ops sync me where
  start: "role_new ops (shared_new store machine provider me) = (role, sh) \<Longrightarrow> reachable ops sync me role sh"
| step: "reachable ops sync me role sh \<Longrightarrow> event_ok e \<Longrightarrow>
    node_step ops sync e role sh = Some (role', sh') \<Longrightarrow> reachable ops sync me role' sh'"
| environment: "reachable ops sync me role sh \<Longrightarrow>
    reachable ops sync me (on_follower (\<lambda>f. f\<lparr>catchup := map_option g (catchup f)\<rparr>) role)
      (sh\<lparr>sync_provider := h (sync_provider sh)\<rparr>)"

text \<open>A sequence of events, \<open>None\<close> if one of them panics.\<close>

definition node_run ::
  "('c, 'm, 'q, 'r, 'y) machine_ops \<Rightarrow> ('c, 's, 'p, 'y, ('c, 'm, 'q, 'r, 'y, 'p) shared) sync_ops
    \<Rightarrow> ('c, 'q, 'r, 'y) event list \<Rightarrow> ('c, 's, 'r) role \<times> ('c, 'm, 'q, 'r, 'y, 'p) shared
    \<Rightarrow> (('c, 's, 'r) role \<times> ('c, 'm, 'q, 'r, 'y, 'p) shared) option" where
  "node_run ops sync es st = foldM (\<lambda>(role, sh) e. node_step ops sync e role sh) st es"

lemma node_run_reachable:
  assumes "node_run ops sync es st = Some st'" and "reachable ops sync me (fst st) (snd st)"
    and "list_all event_ok es"
  shows "reachable ops sync me (fst st') (snd st')"
  using assms(1,2) unfolding node_run_def
  by (rule foldM_invariant) (use assms(3) in \<open>auto simp: list_all_iff intro: reachable.step\<close>)

lemma on_follower_inv: "(\<And>f. fol_term (g f) = fol_term f) \<Longrightarrow>
    node_inv me (on_follower g role) sh = node_inv me role sh \<and> role_term (on_follower g role) = role_term role"
  by (cases role) (simp_all add: node_inv_def)

text \<open>Client requests change neither the standing of the role nor the votes.\<close>

fun same_standing :: "('c, 's, 'r) role \<Rightarrow> ('c, 's, 'r) role \<Rightarrow> bool" where
  "same_standing (RFollower f) (RFollower f') \<longleftrightarrow> fol_term f' = fol_term f"
| "same_standing (RCandidate c) (RCandidate c') \<longleftrightarrow> c' = c"
| "same_standing (RLeader l) (RLeader l') \<longleftrightarrow> lead_term l' = lead_term l"
| "same_standing _ _ \<longleftrightarrow> False"

lemma same_standing_inv:
  "same_standing role role' \<Longrightarrow> vote_view sh' = vote_view sh \<Longrightarrow>
    node_inv me role' sh' = node_inv me role sh \<and> role_term role' = role_term role"
  by (erule same_standing.elims) (simp_all add: node_inv_def vote_view_def vote_safe_def)

lemma forward_commands_inv:
  "forward_commands ops draws cs f sh = Some (r, f', sh') \<Longrightarrow>
    fol_term f' = fol_term f \<and> vote_view sh' = vote_view sh"
  by (auto simp: forward_commands_def Let_def split: option.splits dest: send_raft_quiet)

lemma forward_query_inv:
  "forward_query ops draws q f sh = Some (r, f', sh') \<Longrightarrow>
    fol_term f' = fol_term f \<and> vote_view sh' = vote_view sh"
  by (auto simp: forward_query_def Let_def split: option.splits dest: send_raft_quiet)

lemma enqueue_term: "lead_term (snd (enqueue_commands l cs sh)) = lead_term l"
  by (simp add: enqueue_commands_def Let_def)

lemma raft_feed_inv:
  "raft_feed ops draws cs role sh = Some (r, role', sh') \<Longrightarrow>
    same_standing role role' \<and> vote_view sh' = vote_view sh"
  using enqueue_term [of _ cs sh]
  by (cases role) (auto split: prod.splits dest: forward_commands_inv, metis snd_conv)

lemma raft_query_inv:
  "raft_query ops draws q k role sh = Some (r, role', sh') \<Longrightarrow>
    same_standing role role' \<and> vote_view sh' = vote_view sh"
  by (cases role; cases k) (auto dest: forward_query_inv)

context state_sync
begin

lemma node_step_inv:
  assumes "node_inv me role sh" and "event_ok e" and "node_step ops sync e role sh = Some (role', sh')"
  shows "node_inv me role' sh' \<and> role_term role \<le> role_term role'"
proof (cases e)
  case (Receive m p now)
  then show ?thesis using assms role_receive_inv by simp
next
  case (Poll now el)
  then show ?thesis using assms role_poll_inv by auto
next
  case (Feed draws cs)
  then show ?thesis using assms same_standing_inv by (fastforce dest: raft_feed_inv)
next
  case (Ask draws q k)
  then show ?thesis using assms same_standing_inv by (fastforce dest: raft_query_inv)
next
  case (Rebond ps)
  then have vv: "vote_view sh' = vote_view sh" and "role' = role"
    using assms(3) by (auto simp: vote_view_def)
  then show ?thesis using assms(1) by (simp add: node_inv_cong [OF vv])
next
  case (ExpireCommand rid)
  then show ?thesis using assms on_follower_inv [of "expire_command rid" me role sh]
    by (auto simp: expire_command_def)
next
  case (ExpireQuery rid)
  then show ?thesis using assms on_follower_inv [of "expire_query rid" me role sh]
    by (auto simp: expire_query_def)
qed

lemma reachable_inv: "reachable ops sync me role sh \<Longrightarrow> node_inv me role sh"
proof (induction rule: reachable.induct)
  case (start store machine provider role sh)
  then show ?case
    by (auto simp: role_new_def follower_new_def shared_new_def set_offline_def Let_def node_inv_def
        vote_safe_def)
next
  case (step role sh e role' sh')
  then show ?case using node_step_inv by blast
next
  case (environment role sh g h)
  have vv: "vote_view (sh\<lparr>sync_provider := h (sync_provider sh)\<rparr>) = vote_view sh" by simp
  have "node_inv me (on_follower (\<lambda>f. f\<lparr>catchup := map_option g (catchup f)\<rparr>) role) sh"
    using environment.IH on_follower_inv [of "\<lambda>f. f\<lparr>catchup := map_option g (catchup f)\<rparr>" me role sh] by simp
  then show ?case by (simp only: node_inv_cong [OF vv])
qed

lemma reachable_vote_once:
  assumes "reachable ops sync me role sh"
    and "(t, p) \<in> votes_cast (outbox sh)" and "(t, p') \<in> votes_cast (outbox sh)"
  shows "p = p'"
  using reachable_inv [OF assms(1)] assms(2,3) unfolding node_inv_def vote_safe_def by blast

end

end
