(* ===== verification/Raft_Election.thy ===== *)
theory Raft_Election
  imports Raft_Votes
begin

text \<open>
  Elections across nodes: two quorums of the same electorate intersect, hence at most one candidate
  of a term wins it; and a node whose state machine prefers to observe never stands for election
  and never grants a vote.
\<close>

section \<open>Majorities\<close>

lemma majorities_intersect:
  assumes "finite E" and "A \<subseteq> E" and "B \<subseteq> E" and "card E < card A + card B"
  shows "A \<inter> B \<noteq> {}"
proof
  assume "A \<inter> B = {}"
  then have "card (A \<union> B) = card A + card B"
    using assms(1-3) by (intro card_Un_disjoint) (auto intro: finite_subset)
  moreover have "card (A \<union> B) \<le> card E" using assms(1-3) by (intro card_mono) auto
  ultimately show False using assms(4) by simp
qed

lemma candidate_quorums_intersect:
  assumes "finite (requested_from c)" and "requested_from d = requested_from c"
    and "votes_granted c \<subseteq> requested_from c" and "votes_granted d \<subseteq> requested_from d"
    and "votes_abstained c = {}" and "votes_abstained d = {}"
    and "quorum_reached c" and "quorum_reached d"
  shows "votes_granted c \<inter> votes_granted d \<noteq> {}"
proof (rule majorities_intersect)
  show "card (requested_from c) < card (votes_granted c) + card (votes_granted d)"
    using assms by (simp add: quorum_reached_def cand_quorum_def)
qed (use assms in auto)

text \<open>A quorum and a defeat exclude each other while no peer has sent two answers.\<close>

lemma won_not_lost:
  assumes "finite (requested_from c)" and "votes_granted c \<subseteq> requested_from c"
    and "votes_denied c \<subseteq> requested_from c" and "votes_abstained c \<subseteq> requested_from c"
    and "votes_granted c \<inter> votes_denied c = {}" and "votes_granted c \<inter> votes_abstained c = {}"
    and "votes_denied c \<inter> votes_abstained c = {}" and "quorum_reached c"
  shows "\<not> elections_lost c"
proof -
  let ?E = "requested_from c - votes_abstained c"
  have card: "card ?E = card (requested_from c) - card (votes_abstained c)"
    using assms(1,4) by (simp add: card_Diff_subset finite_subset)
  show ?thesis
  proof
    assume lost: "elections_lost c"
    have "votes_granted c \<inter> votes_denied c \<noteq> {}"
    proof (rule majorities_intersect [of ?E])
      show "card ?E < card (votes_granted c) + card (votes_denied c)"
        using assms(8) lost card by (simp add: quorum_reached_def elections_lost_def cand_quorum_def)
    qed (use assms in auto)
    then show False using assms(5) by simp
  qed
qed

section \<open>At most one winner per term\<close>

text \<open>
  The votes a candidate has counted were cast: by the candidate itself, or by a node that sent a
  granted response for this term to it.
\<close>

definition votes_backed ::
  "(peer_id \<Rightarrow> ('c, 's, 'r) role \<times> ('c, 'm, 'q, 'r, 'y, 'p) shared) \<Rightarrow> peer_id \<Rightarrow> candidate \<Rightarrow> bool" where
  "votes_backed nodes a c \<longleftrightarrow>
    (\<forall>p \<in> votes_granted c. p = a \<or> (cand_term c, a) \<in> votes_cast (outbox (snd (nodes p))))"

context state_sync
begin

lemma candidate_vote_self:
  assumes "reachable ops sync a (RCandidate c) sh" and "(cand_term c, b) \<in> votes_cast (outbox sh)"
  shows "b = a"
  using reachable_inv [OF assms(1)] assms(2) unfolding node_inv_def vote_safe_def role_voted.simps
  by (metis less_irrefl option.inject prod.inject)

lemma one_winner:
  assumes reach: "\<And>p. p \<in> requested_from ca \<Longrightarrow> reachable ops sync p (fst (nodes p)) (snd (nodes p))"
    and a: "fst (nodes a) = RCandidate ca" "a \<in> requested_from ca" "votes_backed nodes a ca"
    and b: "fst (nodes b) = RCandidate cb" "b \<in> requested_from cb" "votes_backed nodes b cb"
    and same: "cand_term cb = cand_term ca" "requested_from cb = requested_from ca"
    and abst: "votes_abstained ca = {}" "votes_abstained cb = {}"
    and won: "quorum_reached ca" "quorum_reached cb"
  shows "a = b"
proof -
  have ra: "reachable ops sync a (RCandidate ca) (snd (nodes a))" using reach [OF a(2)] a(1) by simp
  have rb: "reachable ops sync b (RCandidate cb) (snd (nodes b))"
    using reach [of b] b(1,2) same(2) by simp
  have "votes_granted ca \<inter> votes_granted cb \<noteq> {}"
    by (rule candidate_quorums_intersect)
      (use reachable_inv [OF ra] reachable_inv [OF rb] same abst won in \<open>auto simp: node_inv_def\<close>)
  then obtain p where p: "p \<in> votes_granted ca" "p \<in> votes_granted cb" by blast
  let ?V = "\<lambda>q. votes_cast (outbox (snd (nodes q)))"
  have va: "p = a \<or> (cand_term ca, a) \<in> ?V p" and vb: "p = b \<or> (cand_term ca, b) \<in> ?V p"
    using a(3) b(3) p same(1) by (auto simp: votes_backed_def)
  show ?thesis
  proof (cases "p = a")
    case True
    then show ?thesis using vb candidate_vote_self [OF ra, of b] by auto
  next
    case False
    then have ca: "(cand_term ca, a) \<in> ?V p" using va by simp
    show ?thesis
    proof (cases "p = b")
      case True
      then show ?thesis using ca candidate_vote_self [OF rb, of a] same(1) by simp
    next
      case False
      have "p \<in> requested_from ca" using p(1) reachable_inv [OF ra] by (auto simp: node_inv_def)
      from reachable_vote_once [OF reach [OF this] ca] vb False show ?thesis by simp
    qed
  qed
qed

end

section \<open>Observers\<close>

definition observing :: "('c, 's, 'r) role \<Rightarrow> ('c, 'm, 'q, 'r, 'y, 'p) shared \<Rightarrow> bool" where
  "observing role sh \<longleftrightarrow>
    (case role of RFollower f \<Rightarrow> fol_preference f = Observer | _ \<Rightarrow> False) \<and>
    votes_cast (outbox sh) = {}"

lemma observing_follower:
  "observing role sh \<longleftrightarrow>
    (\<exists>f. role = RFollower f \<and> fol_preference f = Observer) \<and> votes_cast (outbox sh) = {}"
  by (cases role) (simp_all add: observing_def)

lemma observing_cong: "vote_view sh' = vote_view sh \<Longrightarrow> observing role sh' \<longleftrightarrow> observing role sh"
  by (simp add: observing_def vote_view_def)

lemma follower_receive_preference:
  "follower_receive ops sync now m p f sh = Some (h, f', sh') \<Longrightarrow> fol_preference f' = fol_preference f"
  by (erule follower_receive.elims)
    (auto simp: map_option_case on_append_entries_def on_forward_command_response_def
      on_forward_query_response_def Let_def split: option.splits if_splits prod.splits)

lemma follower_receive_result:
  "follower_receive ops sync now m p f sh = Some (h, f', sh') \<Longrightarrow> h = Handled \<or> h = Unexpected m"
  by (erule follower_receive.elims) (auto simp: map_option_case split: option.splits)

lemma observer_step_down:
  assumes "m_preference ops (state_machine sh) = Observer" and "observing role sh"
    and "maybe_step_down ops m role sh = Some (role', sh')"
  shows "observing role' sh'"
proof -
  have "observing role' sh"
    using assms by (auto simp: maybe_step_down_def follower_new_def observing_def Let_def
        split: option.splits if_splits)
  then show ?thesis by (simp add: observing_cong [OF maybe_step_down_quiet [OF assms(3)]])
qed

lemma observer_casts_none:
  assumes "m_preference ops (state_machine sh) = Observer" and "observing role sh"
    and "maybe_cast_vote ops m p role sh = Some (b, sh')"
  shows "observing role sh'"
proof (cases "\<exists>r. m = RequestVote r")
  case False
  then have "sh' = sh" using assms(3) by (cases m) auto
  then show ?thesis using assms(2) by simp
next
  case True
  then obtain r where m: "m = RequestVote r" by blast
  obtain v sh1 where d: "decide_vote ops r p sh = (v, sh1)" by fastforce
  have s: "send_raft_to ops sh1 (RequestVoteResponse \<lparr>rvr_term = rv_term r, rvr_vote = v\<rparr>) p = Some sh'"
    using assms(3) d by (auto simp: m split: if_splits option.splits)
  have "v \<noteq> Granted \<and> votes_cast (outbox sh1) = votes_cast (outbox sh)"
    using d assms(1) by (auto simp: decide_vote_def save_vote_def Let_def split: if_splits)
  then have "votes_cast (outbox sh') = {}"
    using s assms(2) by (auto simp: send_raft_to_def observing_def split: if_splits)
  then show ?thesis using assms(2) by (simp add: observing_def)
qed

context state_sync
begin

lemma observer_dispatch:
  assumes pref: "\<And>x. m_preference ops x = Observer" and obs: "observing role sh"
    and disp: "role_dispatch ops sync now m p role sh = Some (h, role', sh')"
  shows "observing role' sh' \<and> (h = Handled \<or> (\<exists>m'. h = Unexpected m'))"
proof (cases "case message_term m of None \<Rightarrow> False | Some t \<Rightarrow> t < role_term role")
  case True
  then show ?thesis using disp obs by (simp add: role_dispatch_def)
next
  case False
  then obtain m1o sh1 where s1: "maybe_state_sync sync m p sh = Some (m1o, sh1)"
    using disp by (auto simp: role_dispatch_def split: option.splits)
  have o1: "observing role sh1" using obs by (simp add: observing_cong [OF maybe_state_sync_quiet [OF s1]])
  show ?thesis
  proof (cases m1o)
    case None
    then show ?thesis using disp False s1 o1 by (simp add: role_dispatch_def)
  next
    case (Some m1)
    from disp False s1 Some obtain role1 sh2 b sh3
      where s2: "maybe_step_down ops m1 role sh1 = Some (role1, sh2)"
        and s3: "maybe_cast_vote ops m1 p role1 sh2 = Some (b, sh3)"
      by (auto simp: role_dispatch_def split: option.splits)
    have o3: "observing role1 sh3"
      by (rule observer_casts_none [OF pref observer_step_down [OF pref o1 s2] s3])
    then obtain f where f: "role1 = RFollower f" "fol_preference f = Observer"
      by (auto simp: observing_follower)
    show ?thesis
    proof (cases b)
      case True
      then show ?thesis using disp False s1 Some s2 s3 o3 by (simp add: role_dispatch_def)
    next
      case b: False
      then obtain f' where f': "follower_receive ops sync now m1 p f sh3 = Some (h, f', sh')"
        and r: "role' = RFollower f'"
        using disp False s1 Some s2 s3 f by (auto simp: role_dispatch_def)
      have "observing role' sh3"
        using o3 f follower_receive_preference [OF f'] by (simp add: observing_def r)
      then show ?thesis using follower_receive_result [OF f']
        by (auto simp: observing_cong [OF follower_receive_quiet [OF f']])
    qed
  qed
qed

lemma observer_step:
  assumes pref: "\<And>x. m_preference ops x = Observer" and obs: "observing role sh"
    and st: "node_step ops sync e role sh = Some (role', sh')"
  shows "observing role' sh'"
proof -
  obtain f where f: "role = RFollower f" "fol_preference f = Observer"
    using obs by (auto simp: observing_follower)
  show ?thesis
  proof (cases e)
    case (Receive m p now)
    then have rec: "role_receive ops sync now m p role sh = Some (role', sh')" using st by simp
    then obtain h role1 sh1 where d: "role_dispatch ops sync now m p role sh = Some (h, role1, sh1)"
      by (auto simp: role_receive.simps [of ops sync now m] split: option.splits)
    from observer_dispatch [OF pref obs d] rec d show ?thesis
      by (auto simp: role_receive.simps)
  next
    case (Poll now el)
    then obtain r1 f1 sh1 where c: "follower_catch_up sync (clean_expired_forwarded_commands f) sh = Some r1"
      "r1 = Inl (f1, sh1) \<or> r1 = Inr (f1, sh1)"
      using st f by (auto simp: role_poll_def follower_poll_def split: option.splits sum.splits)
    have "fol_preference f1 = Observer" using follower_catch_up_term [OF c] f by simp
    then obtain b where r: "role' = RFollower f1" and pp: "poll_state_sync_provider sync sh1 = Some (b, sh')"
      using st f c Poll by (auto simp: role_poll_def follower_poll_def split: option.splits)
    have "observing role' sh" using obs f r follower_catch_up_term [OF c] by (simp add: observing_def)
    then show ?thesis
      by (simp add: observing_cong [OF poll_provider_quiet [OF pp]]
          observing_cong [OF follower_catch_up_quiet [OF c]])
  next
    case (Feed draws cs)
    then show ?thesis using st obs f
      by (auto simp: observing_def forward_commands_def vote_view_def Let_def send_raft_to_def
          split: option.splits if_splits)
  next
    case (Ask draws q k)
    then show ?thesis using st obs f
      by (cases k) (auto simp: observing_def forward_query_def Let_def send_raft_to_def
          split: option.splits if_splits)
  qed (use st obs f in \<open>auto simp: observing_def expire_command_def expire_query_def\<close>)
qed

lemma observer_reachable:
  assumes "\<And>x. m_preference ops x = Observer" and "reachable ops sync me role sh"
  shows "observing role sh"
  using assms(2)
proof (induction rule: reachable.induct)
  case (start store machine provider role sh)
  then show ?case using assms(1)
    by (auto simp: role_new_def follower_new_def shared_new_def set_offline_def Let_def observing_def)
next
  case (step role sh e role' sh')
  then show ?case using observer_step [OF assms(1)] by blast
next
  case (environment role sh g h)
  then show ?case by (cases role) (simp_all add: observing_def)
qed

end

end
