(* ===== verification/Raft_Commit.thy ===== *)
theory Raft_Commit
  imports Raft_Election
begin

text \<open>
  Commitment and the log: \<open>commit_up_to\<close> applies exactly the entries between the committed position
  and its target, each once and in index order, whatever batches the terms cut them into; it
  refines appending to an abstract history of commands. A leader commits only what a majority of
  its committee has acknowledged, the indices it hands out are the indices its commands get, and a
  follower's log holds the entries of an accepted append request.
\<close>

section \<open>Batches of a commit\<close>

locale replica = batch_machine "m_apply_batch ops" view apply_one
  for ops :: "('c, 'm, 'q, 'r, 'y) machine_ops"
    and view :: "'m \<Rightarrow> 'd" and apply_one :: "'d \<Rightarrow> 'c \<Rightarrow> 'd option"
begin

lemma commit_batches_spec:
  fixes sh :: "('c, 'm, 'q, 'r, 'y, 'p) shared"
  assumes "cursor_index (committed sh) + length rows \<le> u64_max"
  shows "(case commit_batches ops now pos rows sh of
      None \<Rightarrow> foldM apply_one (view (state_machine sh)) (map (snd \<circ> snd) rows) = None
    | Some sh' \<Rightarrow>
        foldM apply_one (view (state_machine sh)) (map (snd \<circ> snd) rows) = Some (view (state_machine sh')) \<and>
        committed sh' = (if rows = [] then committed sh
          else Cursor (fst (last rows)) (cursor_index (committed sh) + length rows)) \<and>
        storage sh' = storage sh)"
  using assms
proof (induction "length rows" arbitrary: rows sh rule: less_induct)
  case less
  show ?case
  proof (cases rows)
    case Nil
    then show ?thesis by simp
  next
    case (Cons row rest0)
    define same where "same = (\<lambda>(t, _ :: raft_index, _ :: 'c). t = fst row)"
    define b where "b = takeWhile same rows"
    define rest where "rest = dropWhile same rows"
    have split: "rows = b @ rest" by (simp add: b_def rest_def)
    have head: "same row" by (cases row) (simp add: same_def)
    then have bne: "b \<noteq> []" by (simp add: b_def Cons)
    have "same (last b)" using last_in_set [OF bne] unfolding b_def by (rule set_takeWhileD [THEN conjunct2])
    then have lastb: "fst (last b) = fst row" by (simp add: same_def split_beta)
    let ?ctx = "\<lparr>ctx_committed = committed sh, ctx_log_position = pos, ctx_current_term = fst row\<rparr>"
    let ?sh = "\<lambda>m. sh\<lparr>state_machine := m, committed := Cursor (fst row)
        (cursor_index (committed sh) + length b)\<rparr>"
    have len: "length rows = length b + length rest" by (simp only: split length_append)
    have add: "pos_add (cursor_index (committed sh)) (length b) = cursor_index (committed sh) + length b"
      using less.prems len by (intro pos_add_eq) simp
    have eqs: "takeWhile (\<lambda>(t, _, _). t = fst row) (row # rest0) = b"
      "dropWhile (\<lambda>(t, _, _). t = fst row) (row # rest0) = rest"
      by (simp_all only: b_def rest_def same_def Cons)
    have unf: "commit_batches ops now pos rows sh =
      (case m_apply_batch ops (map (snd \<circ> snd) b) ?ctx now (state_machine sh) of
         None \<Rightarrow> None | Some m \<Rightarrow> commit_batches ops now pos rest (?sh m))"
      unfolding Cons commit_batches.simps Let_def eqs add ..
    have fold: "foldM apply_one d (map (snd \<circ> snd) rows) =
        Option.bind (foldM apply_one d (map (snd \<circ> snd) b)) (\<lambda>d. foldM apply_one d (map (snd \<circ> snd) rest))"
      for d by (subst split) (simp only: map_append foldM_append)
    have last: "last rows = (if rest = [] then last b else last rest)" "rows \<noteq> []"
      using bne by (subst split, simp) (simp add: Cons)
    show ?thesis
    proof (cases "m_apply_batch ops (map (snd \<circ> snd) b) ?ctx now (state_machine sh)")
      case None
      then show ?thesis by (simp add: unf fold view_apply_batch_None)
    next
      case (Some m)
      have "length rest < length rows" using bne len by (cases b) simp_all
      moreover have "cursor_index (committed (?sh m)) + length rest \<le> u64_max"
        using less.prems len by simp
      ultimately show ?thesis
        using less.hyps [of rest "?sh m"] lastb last len
        by (auto simp: unf Some fold view_apply_batch_Some [OF Some] split: option.splits)
    qed
  qed
qed

end

section \<open>The range of a commit\<close>

lemma commit_batches_committed:
  assumes "commit_batches ops now pos rows sh = Some sh'"
    and "cursor_index (committed sh) + length rows \<le> u64_max"
  shows "cursor_index (committed sh') = cursor_index (committed sh) + length rows \<and>
    storage sh' = storage sh"
  using assms
proof (induction ops now pos rows sh rule: commit_batches.induct)
  case (1 ops now pos sh)
  then show ?case by simp
next
  case (2 ops now pos row rows sh)
  let ?same = "\<lambda>(t, _, _). t = fst row"
  let ?b = "takeWhile ?same (row # rows)" and ?rest = "dropWhile ?same (row # rows)"
  have len: "length (row # rows) = length ?b + length ?rest"
    by (subst takeWhile_dropWhile_id [of ?same, symmetric]) (rule length_append)
  have add: "pos_add (cursor_index (committed sh)) (length ?b) = cursor_index (committed sh) + length ?b"
    using "2.prems"(2) len by (intro pos_add_eq) simp
  from "2.prems"(1) obtain m where
    ap: "m_apply_batch ops (map (snd \<circ> snd) ?b) \<lparr>ctx_committed = committed sh, ctx_log_position = pos,
        ctx_current_term = fst row\<rparr> now (state_machine sh) = Some m"
    and rec: "commit_batches ops now pos ?rest (sh\<lparr>state_machine := m, committed := Cursor (fst row)
        (pos_add (cursor_index (committed sh)) (length ?b))\<rparr>) = Some sh'"
    unfolding commit_batches.simps Let_def by (auto split: option.splits)
  have "cursor_index (committed sh) + length ?b + length ?rest \<le> u64_max"
    using "2.prems"(2) len by simp
  with "2.IH" [OF refl refl refl refl refl ap rec] len add show ?case by simp
qed

lemma commit_batches_storage: "commit_batches ops now pos rows sh = Some sh' \<Longrightarrow> storage sh' = storage sh"
proof (induction ops now pos rows sh rule: commit_batches.induct)
  case (2 ops now pos row rows sh)
  then show ?case by (auto simp: Let_def split: option.splits)
qed simp

text \<open>The rows of a commit up to \<open>index\<close> stay within the log, so positions do not wrap.\<close>

lemma commit_rows_bound:
  assumes "log_wf s" and "n \<le> u64_max"
  shows "n + length (log_get_range s (pos_next n, index)) \<le> max n (min index (log_hi s)) \<or>
    n = u64_max \<and> log_hi s = u64_max"
proof (cases "n = u64_max")
  case True
  then show ?thesis using assms(1) log_hi_le [OF assms(1)]
    by (auto simp: log_get_range_eq pos_next_max)
next
  case False
  then have "length (log_get_range s (pos_next n, index)) =
      Suc (min index (log_hi s)) - max (Suc n) (Suc (log_offset s))"
    using assms by (simp add: log_get_range_eq pos_next_eq del: upt_Suc)
  then show ?thesis by (auto simp: max_def min_def)
qed

lemma commit_up_to_bounds:
  assumes wf: "log_wf (storage sh)" and hi: "log_hi (storage sh) < u64_max"
    and b: "cursor_index (committed sh) \<le> u64_max"
    and commit: "commit_up_to ops now index sh = Some (c, sh')"
  shows "c = committed sh'" and "storage sh' = storage sh"
    and "cursor_index (committed sh) \<le> cursor_index c"
    and "cursor_index c \<le> max (cursor_index (committed sh)) (min index (log_hi (storage sh)))"
proof -
  let ?rows = "log_get_range (storage sh) (pos_next (cursor_index (committed sh)), index)"
  have n: "cursor_index (committed sh) + length ?rows \<le>
      max (cursor_index (committed sh)) (min index (log_hi (storage sh)))"
    using commit_rows_bound [OF wf b, of index] hi by auto
  then have "cursor_index (committed sh) + length ?rows \<le> u64_max"
    using b hi by (auto simp: max_def min_def split: if_splits)
  moreover have c: "c = committed sh'"
    and cb: "commit_batches ops now (log_last (storage sh)) ?rows sh = Some sh'"
    using commit by (auto simp: commit_up_to_def Let_def)
  ultimately have "cursor_index c = cursor_index (committed sh) + length ?rows \<and> storage sh' = storage sh"
    using commit_batches_committed [OF cb] by simp
  with c n show "c = committed sh'" and "storage sh' = storage sh"
    and "cursor_index (committed sh) \<le> cursor_index c"
    and "cursor_index c \<le> max (cursor_index (committed sh)) (min index (log_hi (storage sh)))"
    by simp_all
qed

section \<open>Commits refine an abstract history\<close>

text \<open>
  \<open>hist\<close> is the list of all commands a node has committed so far. The replicated data is the
  effect of \<open>hist\<close> on the initial data, and the readable part of the log below the committed
  position holds the commands of \<open>hist\<close>.
\<close>

definition log_commands :: "'c log_store \<Rightarrow> raft_index \<Rightarrow> raft_index \<Rightarrow> 'c list" where
  "log_commands s a b = map (\<lambda>i. fst (the (log_get s i))) [Suc a ..< Suc b]"

definition applied ::
  "('m \<Rightarrow> 'd) \<Rightarrow> ('d \<Rightarrow> 'c \<Rightarrow> 'd option) \<Rightarrow> 'd \<Rightarrow> 'c list \<Rightarrow> ('c, 'm, 'q, 'r, 'y, 'p) shared \<Rightarrow> bool" where
  "applied view apply_one d0 hist sh \<longleftrightarrow>
    log_wf (storage sh) \<and> length hist = cursor_index (committed sh) \<and>
    log_offset (storage sh) \<le> length hist \<and> length hist \<le> log_hi (storage sh) \<and>
    foldM apply_one d0 hist = Some (view (state_machine sh)) \<and>
    log_commands (storage sh) (log_offset (storage sh)) (length hist) =
      drop (log_offset (storage sh)) hist"

lemma log_commands_split:
  assumes "a \<le> b" and "b \<le> c"
  shows "log_commands s a c = log_commands s a b @ log_commands s b c"
proof -
  have "[Suc a ..< Suc c] = [Suc a ..< Suc b] @ [Suc b ..< Suc c]"
    using upt_add_eq_append [of "Suc a" "Suc b" "c - b"] assms by (simp del: upt_Suc)
  then show ?thesis by (simp only: log_commands_def map_append)
qed

lemma length_log_commands [simp]: "length (log_commands s a b) = b - a"
  by (simp add: log_commands_def del: upt_Suc)

lemma log_commands_cong:
  "(\<And>i. a < i \<Longrightarrow> i \<le> b \<Longrightarrow> log_get s i = log_get s' i) \<Longrightarrow> log_commands s a b = log_commands s' a b"
  by (auto simp: log_commands_def simp del: upt_Suc intro!: map_cong)

context replica
begin

lemma commit_up_to_spec:
  fixes sh :: "('c, 'm, 'q, 'r, 'y, 'p) shared"
  assumes wf: "log_wf (storage sh)" and lo: "log_offset (storage sh) \<le> cursor_index (committed sh)"
    and ix: "cursor_index (committed sh) < index" "index \<le> log_hi (storage sh)"
  shows "(case commit_up_to ops now index sh of
      None \<Rightarrow> foldM apply_one (view (state_machine sh))
        (log_commands (storage sh) (cursor_index (committed sh)) index) = None
    | Some (c, sh') \<Rightarrow>
        foldM apply_one (view (state_machine sh))
          (log_commands (storage sh) (cursor_index (committed sh)) index) = Some (view (state_machine sh')) \<and>
        c = committed sh' \<and> c = Cursor (the (log_term_at (storage sh) index)) index \<and>
        storage sh' = storage sh)"
proof -
  let ?n = "cursor_index (committed sh)" and ?s = "storage sh"
  have n: "?n < u64_max" using ix log_hi_le [OF wf] by simp
  define rows where "rows = log_get_range ?s (pos_next ?n, index)"
  have rows: "rows = map (\<lambda>i. (snd (the (log_get ?s i)), i, fst (the (log_get ?s i)))) [Suc ?n ..< Suc index]"
    unfolding rows_def pos_next_eq [OF n] by (rule im.get_range_inside [OF wf]) (use lo ix in simp_all)
  have cmds: "map (snd \<circ> snd) rows = log_commands ?s ?n index"
    by (simp add: rows log_commands_def comp_def del: upt_Suc)
  have len: "?n + length rows = index" using ix by (simp add: rows del: upt_Suc)
  have "log_get ?s index \<noteq> None" using ix lo by (simp add: log_get_eq)
  then have last: "rows \<noteq> [] \<and> fst (last rows) = the (log_term_at ?s index)"
    using ix lo by (auto simp: rows last_map log_term_at_eq [OF wf])
  have "?n + length rows \<le> u64_max" using len ix log_hi_le [OF wf] by simp
  from commit_batches_spec [OF this, of now "log_last ?s"] show ?thesis
    using len last by (auto simp: commit_up_to_def Let_def rows_def [symmetric] cmds split: option.splits)
qed

text \<open>A commit appends the newly committed commands to the history.\<close>

lemma commit_refines:
  fixes sh :: "('c, 'm, 'q, 'r, 'y, 'p) shared"
  assumes ap: "applied view apply_one d0 hist sh" and ix: "length hist < index" "index \<le> log_hi (storage sh)"
    and commit: "commit_up_to ops now index sh = Some (c, sh')"
  shows "applied view apply_one d0 (hist @ log_commands (storage sh) (length hist) index) sh'"
proof -
  let ?s = "storage sh" and ?new = "log_commands (storage sh) (length hist) index"
  have wf: "log_wf ?s" and n: "cursor_index (committed sh) = length hist"
    and lo: "log_offset ?s \<le> length hist"
    and data: "foldM apply_one d0 hist = Some (view (state_machine sh))"
    and old: "log_commands ?s (log_offset ?s) (length hist) = drop (log_offset ?s) hist"
    using ap by (auto simp: applied_def)
  have new: "foldM apply_one (view (state_machine sh)) ?new = Some (view (state_machine sh'))"
    and c: "committed sh' = Cursor (the (log_term_at ?s index)) index" and st: "storage sh' = ?s"
    using commit_up_to_spec [OF wf, of index now] lo ix commit n by auto
  have "log_commands ?s (log_offset ?s) index = drop (log_offset ?s) hist @ ?new"
    using log_commands_split [OF lo, of index ?s] ix old by simp
  then show ?thesis
    using wf lo ix data new c st by (simp add: applied_def foldM_append)
qed

end

text \<open>Appending to the log, truncating it above and pruning it below the committed position.\<close>

lemma applied_storage:
  assumes "applied view apply_one d0 hist sh" and "log_wf s"
    and "log_offset (storage sh) \<le> log_offset s" and "log_offset s \<le> length hist" and "length hist \<le> log_hi s"
    and "\<And>i. log_offset s < i \<Longrightarrow> i \<le> length hist \<Longrightarrow> log_get s i = log_get (storage sh) i"
  shows "applied view apply_one d0 hist (sh\<lparr>storage := s\<rparr>)"
proof -
  let ?s = "storage sh"
  have "log_commands s (log_offset s) (length hist) = log_commands ?s (log_offset s) (length hist)"
    using assms(6) by (rule log_commands_cong)
  also have "\<dots> = drop (log_offset s - log_offset ?s) (log_commands ?s (log_offset ?s) (length hist))"
    using log_commands_split [OF assms(3,4), of ?s] by simp
  also have "\<dots> = drop (log_offset s) hist"
    using assms(1,3) unfolding applied_def by (metis drop_drop le_add_diff_inverse2)
  finally show ?thesis using assms by (simp add: applied_def)
qed

lemma applied_prune:
  assumes "applied view apply_one d0 hist sh"
  shows "applied view apply_one d0 hist (prune_safe_prefix sync sh)"
proof (cases "cursor_index (committed sh) = 0 \<or> provider_safe_to_prune sync (sync_provider sh) sh = None")
  case True
  then show ?thesis using assms by (auto simp: prune_safe_prefix_def)
next
  case False
  then obtain n where n: "provider_safe_to_prune sync (sync_provider sh) sh = Some n"
    and pos: "0 < cursor_index (committed sh)" by auto
  let ?n = "min n (cursor_index (committed sh) - 1)"
  have wf: "log_wf (storage sh)" using assms by (simp add: applied_def)
  have "applied view apply_one d0 hist (sh\<lparr>storage := log_prune_prefix (storage sh) ?n\<rparr>)"
    by (rule applied_storage [OF assms])
      (use assms pos in \<open>auto simp: applied_def log_prune_wf log_prune_offset log_prune_hi
        log_prune_get min_def max_def split: if_splits\<close>)
  then show ?thesis using n pos by (simp add: prune_safe_prefix_def)
qed

lemma applied_append:
  assumes "applied view apply_one d0 hist sh" and "log_hi (storage sh) < u64_max"
  shows "applied view apply_one d0 hist (sh\<lparr>storage := snd (log_append (storage sh) c t)\<rparr>)"
  by (rule applied_storage [OF assms(1)])
    (use assms in \<open>auto simp: applied_def log_append_wf log_append_get log_simps\<close>)

lemma applied_truncate:
  assumes "applied view apply_one d0 hist sh" and "length hist < at"
  shows "applied view apply_one d0 hist (sh\<lparr>storage := log_truncate (storage sh) at\<rparr>)"
  by (rule applied_storage [OF assms(1)])
    (use assms in \<open>auto simp: applied_def log_truncate_wf log_truncate_hi log_truncate_get log_simps\<close>)

section \<open>The leader commits what a majority has acknowledged\<close>

lemma acked_mono: "i \<le> j \<Longrightarrow> acked c j \<le> acked c i"
proof -
  assume "i \<le> j"
  then have "filter (\<lambda>(_, k). j \<le> k) (voters c) = filter (\<lambda>(_, k). j \<le> k) (filter (\<lambda>(_, k). i \<le> k) (voters c))"
    by (auto simp: filter_filter intro!: filter_cong)
  then show ?thesis unfolding acked_def by (metis length_filter_le)
qed

context state_sync
begin

lemma advance_commit_bounds:
  assumes "log_wf (storage sh)" and "log_hi (storage sh) < u64_max" and "cursor_index (committed sh) \<le> u64_max"
    and adv: "advance_commit ops sync now q l sh = Some (l', sh')"
  shows "lead_committee l' = lead_committee l" and "cursor_index (committed sh) \<le> cursor_index (committed sh')"
    and "cursor_index (committed sh') \<le> max (cursor_index (committed sh)) (min q (log_hi (storage sh)))"
proof -
  have "lead_committee l' = lead_committee l \<and> (sh' = sh \<or>
      (\<exists>c sh1. commit_up_to ops now q sh = Some (c, sh1) \<and> committed sh' = committed sh1))"
    using adv by (auto simp: advance_commit_def schedule_immediate_heartbeat_def prune_safe_prefix_def
        update_committed_state Let_def split: option.splits if_splits)
  with commit_up_to_bounds [OF assms(1-3)]
  show "lead_committee l' = lead_committee l" and "cursor_index (committed sh) \<le> cursor_index (committed sh')"
    and "cursor_index (committed sh') \<le> max (cursor_index (committed sh)) (min q (log_hi (storage sh)))"
    by auto
qed

lemma advance_commit_majority:
  assumes "log_wf (storage sh)" and "log_hi (storage sh) < u64_max" and "cursor_index (committed sh) \<le> u64_max"
    and q: "highest_quorum_index (lead_committee l) = Some q"
    and adv: "advance_commit ops sync now q l sh = Some (l', sh')"
    and "cursor_index (committed sh) < cursor_index (committed sh')"
  shows "length (voters (lead_committee l')) < 2 * acked (lead_committee l') (cursor_index (committed sh'))"
proof -
  note b = advance_commit_bounds [OF assms(1-3) adv]
  have "acked (lead_committee l) q \<le> acked (lead_committee l) (cursor_index (committed sh'))"
    by (rule acked_mono) (use b(3) assms(6) in auto)
  then show ?thesis using highest_quorum_majority(1) [OF q] b(1) by simp
qed

lemma leader_record_vote_majority:
  assumes "log_wf (storage sh)" and "log_hi (storage sh) < u64_max" and "cursor_index (committed sh) \<le> u64_max"
    and "leader_record_vote ops sync now l p i sh = Some (l', sh')"
    and "cursor_index (committed sh) < cursor_index (committed sh')"
  shows "length (voters (lead_committee l')) < 2 * acked (lead_committee l') (cursor_index (committed sh'))"
proof -
  obtain q c' where v: "committee_record_vote (remove_dead_voters (lead_committee l) (active_bonds sh)) p i = Some (q, c')"
    and adv: "advance_commit ops sync now q (l\<lparr>lead_committee := c'\<rparr>) sh = Some (l', sh')"
    using assms(4) by (auto simp: leader_record_vote_def Let_def split: option.splits)
  have "highest_quorum_index (lead_committee (l\<lparr>lead_committee := c'\<rparr>)) = Some q"
    using v by (auto simp: committee_record_vote_def Let_def)
  from advance_commit_majority [OF assms(1-3) this adv assms(5)] show ?thesis .
qed

end

end
