(* ===== verification/Raft_Append.thy ===== *)
theory Raft_Append
  imports Raft_Commit
begin

text \<open>
  The log under replication: the indices a leader hands out are the ones its commands get, and a
  follower that accepts an append request holds its entries at their indices, with the log before
  them untouched.
\<close>

section \<open>The leader's log\<close>

lemma append_commands_eq: "append_commands s cs t = im.append_all s (map (\<lambda>c. (c, t)) cs)"
  by (simp add: append_commands_def im.append_all_def foldl_map)

lemma append_commands_spec:
  assumes "log_wf s" and "log_hi s + length cs \<le> u64_max"
  shows "log_wf (append_commands s cs t)" and "log_offset (append_commands s cs t) = log_offset s"
    and "log_hi (append_commands s cs t) = log_hi s + length cs"
    and "i \<le> log_hi s \<Longrightarrow> log_get (append_commands s cs t) i = log_get s i"
    and "k < length cs \<Longrightarrow> log_get (append_commands s cs t) (Suc (log_hi s + k)) = Some (cs ! k, t)"
  using im.append_all_spec [OF assms(1), of "map (\<lambda>c. (c, t)) cs"] assms(2)
  by (auto simp: append_commands_eq)

lemma enqueue_commands_spec:
  assumes "log_wf (storage sh)" and "cs \<noteq> []"
    and "log_hi (storage sh) + length (client_commands l) + length cs \<le> u64_max"
    and "enqueue_commands l cs sh = ((a, b), l')"
  shows "a = Suc (log_hi (storage sh) + length (client_commands l))"
    and "b = log_hi (storage sh) + length (client_commands l) + length cs"
    and "client_commands l' = client_commands l @ cs" and "lead_term l' = lead_term l"
proof -
  have "0 < length cs" using assms(2) by simp
  then have "log_hi (storage sh) + length (client_commands l) < u64_max" using assms(3) by linarith
  then show "a = Suc (log_hi (storage sh) + length (client_commands l))"
    and "b = log_hi (storage sh) + length (client_commands l) + length cs"
    and "client_commands l' = client_commands l @ cs" and "lead_term l' = lead_term l"
    using assms by (auto simp: enqueue_commands_def Let_def log_last_index pos_next_eq pos_add_eq)
qed

lemma enqueue_then_append:
  assumes wf: "log_wf (storage sh)" and "cs \<noteq> []"
    and room: "log_hi (storage sh) + length (client_commands l) + length cs + length later \<le> u64_max"
    and enq: "enqueue_commands l cs sh = ((a, b), l')" and k: "k < length cs"
  shows "log_get (append_commands (storage sh) (client_commands l' @ later) t) (a + k) = Some (cs ! k, t)"
proof -
  have r: "log_hi (storage sh) + length (client_commands l) + length cs \<le> u64_max" using room by simp
  note e = enqueue_commands_spec [OF wf assms(2) r enq]
  let ?all = "client_commands l' @ later" and ?j = "length (client_commands l) + k"
  have "log_get (append_commands (storage sh) ?all t) (Suc (log_hi (storage sh) + ?j)) = Some (?all ! ?j, t)"
    by (rule append_commands_spec(5) [OF wf]) (use e(3) room k in simp_all)
  moreover have "?all ! ?j = cs ! k" using k by (simp add: e(3) nth_append)
  ultimately show ?thesis by (simp add: e(1) add.assoc)
qed

context state_sync
begin

lemma advance_commit_storage:
  "log_wf (storage sh) \<Longrightarrow> advance_commit ops sync now q l sh = Some (l', sh') \<Longrightarrow>
    \<exists>n. storage sh' = log_prune_prefix (storage sh) n"
proof -
  assume wf: "log_wf (storage sh)" and adv: "advance_commit ops sync now q l sh = Some (l', sh')"
  have id: "log_prune_prefix s 0 = s" for s :: "'c log_store" by (simp add: log_prune_prefix_def)
  have keep: "storage sh1 = storage sh" if "commit_up_to ops now q sh = Some (c, sh1)" for c sh1
    using that commit_batches_storage by (auto simp: commit_up_to_def Let_def)
  have prune: "\<exists>n. storage (prune_safe_prefix sync s) = log_prune_prefix (storage s) n" for s
    by (auto simp: prune_safe_prefix_def split: option.splits intro: id [symmetric])
  from adv consider "sh' = sh" |
    c sh1 where "commit_up_to ops now q sh = Some (c, sh1)"
      "sh' = sh1 \<or> sh' = prune_safe_prefix sync (update_committed sync sh1 c)"
    by (auto simp: advance_commit_def Let_def split: option.splits if_splits)
  then show ?thesis
  proof cases
    case 1
    then show ?thesis using id by metis
  next
    case 2
    then show ?thesis
      using keep [OF 2(1)] prune [of "update_committed sync sh1 c"] id [of "storage sh"]
      by (metis update_committed_state(1))
  qed
qed

end

section \<open>The follower's log\<close>

text \<open>
  The terms of a log never decrease and are at most the current term \<open>T\<close>.
\<close>

definition log_terms_ok :: "raft_term \<Rightarrow> 'c log_store \<Rightarrow> bool" where
  "log_terms_ok T s \<longleftrightarrow>
    sorted (map snd (log_entries s)) \<and> (\<forall>(c, t) \<in> set (log_entries s). t \<le> T)"

lemma log_terms_ok_get:
  assumes "log_terms_ok T s" and "log_get s i = Some (c, t)" and "log_get s j = Some (d, t')" and "i \<le> j"
  shows "t \<le> t'" and "t' \<le> T"
proof -
  let ?p = "\<lambda>i. i - log_offset s - 1"
  from assms(2-4) have i: "map snd (log_entries s) ! ?p i = t" and j: "map snd (log_entries s) ! ?p j = t'"
    and le: "?p i \<le> ?p j" "?p j < length (map snd (log_entries s))"
    by (auto simp: log_get_eq log_hi_def log_len_def split: if_splits)
  have "sorted (map snd (log_entries s))" using assms(1) by (simp add: log_terms_ok_def)
  from sorted_nth_mono [OF this le] i j show "t \<le> t'" by simp
  have "(d, t') \<in> set (log_entries s)"
    using assms(3) le(2) by (auto simp: log_get_eq split: if_splits) (metis nth_mem)
  then show "t' \<le> T" using assms(1) by (auto simp: log_terms_ok_def)
qed

text \<open>
  If the entries that overlap the log agree with it in their terms, the loop appends the others.
\<close>

lemma append_entries_from_spec:
  assumes "log_wf s" and "log_offset s < start + i" and "start + i \<le> Suc (log_hi s)"
    and "start + i + length es \<le> u64_max"
    and "\<And>k. k < length es \<Longrightarrow> start + i + k \<le> log_hi s \<Longrightarrow>
      log_term_at s (start + i + k) = Some (le_term (es ! k))"
  shows "append_entries_from start i es s =
    im.append_all s (map (\<lambda>e. (le_command e, le_term e)) (drop (Suc (log_hi s) - (start + i)) es))"
  using assms
proof (induction es arbitrary: i s)
  case Nil
  then show ?case by simp
next
  case (Cons e es)
  have add: "pos_add start i = start + i" by (rule pos_add_eq) (use Cons.prems(4) in simp)
  show ?case
  proof (cases "start + i \<le> log_hi s")
    case True
    then have "log_term_at s (start + i) = Some (le_term e)" using Cons.prems(5) [of 0] by simp
    moreover have "append_entries_from start (Suc i) es s =
        im.append_all s (map (\<lambda>e. (le_command e, le_term e)) (drop (Suc (log_hi s) - (start + Suc i)) es))"
      by (rule Cons.IH) (use Cons.prems True Cons.prems(5) [of "Suc _"] in auto)
    moreover have "Suc (log_hi s) - (start + i) = Suc (Suc (log_hi s) - (start + Suc i))"
      using True by simp
    ultimately show ?thesis by (simp add: add)
  next
    case False
    then have eol: "start + i = Suc (log_hi s)" using Cons.prems(3) by simp
    then have "log_term_at s (start + i) = None"
      using Cons.prems(1,2) by (auto simp: log_term_at_eq log_get_eq)
    let ?s = "snd (log_append s (le_command e) (le_term e))"
    have hi: "log_hi s < u64_max" using eol Cons.prems(4) by simp
    have "append_entries_from start (Suc i) es ?s =
        im.append_all ?s (map (\<lambda>e. (le_command e, le_term e)) (drop (Suc (log_hi ?s) - (start + Suc i)) es))"
      by (rule Cons.IH)
        (use Cons.prems eol hi in \<open>simp_all add: log_append_wf log_simps\<close>)
    then show ?thesis using \<open>log_term_at s (start + i) = None\<close> eol by (simp add: add log_simps)
  qed
qed

text \<open>The consistency check only truncates behind the previous position, unless it fails.\<close>

lemma check_consistency_True:
  assumes "check_consistency req s = (True, s1)" and "log_wf s" and "ae_entries req = e # es"
    and "cursor_index (ae_prev_log_position req) < u64_max"
  defines "prev \<equiv> cursor_index (ae_prev_log_position req)"
  shows "log_term_at s prev = Some (cursor_term (ae_prev_log_position req))"
    and "s1 = s \<and> (log_term_at s (Suc prev) = None \<or> log_term_at s (Suc prev) = Some (le_term e)) \<or>
      s1 = log_truncate s (Suc prev)"
  using assms by (auto simp: check_consistency_def pos_next_eq Let_def split: option.splits if_splits)

text \<open>
  What the check leaves of the log: the part up to the previous position, and behind it only
  entries of the request's term.
\<close>

lemma check_consistency_rest:
  assumes chk: "check_consistency req s = (True, s1)" and wf: "log_wf s" and ok: "log_terms_ok T s"
    and ne: "ae_entries req \<noteq> []" and ts: "\<And>e. e \<in> set (ae_entries req) \<Longrightarrow> le_term e = T"
    and lo: "log_offset s \<le> cursor_index (ae_prev_log_position req)"
    and hi: "cursor_index (ae_prev_log_position req) < u64_max"
  defines "prev \<equiv> cursor_index (ae_prev_log_position req)"
  shows "log_wf s1 \<and> log_offset s1 = log_offset s \<and> prev \<le> log_hi s1" (is ?A)
    and "i \<le> prev \<Longrightarrow> log_get s1 i = log_get s i" (is "_ \<Longrightarrow> ?B i")
    and "prev < i \<Longrightarrow> i \<le> log_hi s1 \<Longrightarrow> log_get s1 i = log_get s i \<and> log_term_at s1 i = Some T"
      (is "_ \<Longrightarrow> _ \<Longrightarrow> ?C i")
proof -
  obtain e es where es: "ae_entries req = e # es" using ne by (cases "ae_entries req") auto
  have le: "le_term e = T" using ts es by simp
  note c = check_consistency_True [OF chk wf es hi, folded prev_def, unfolded le]
  have ph: "prev \<le> log_hi s" using c(1) im.term_at_dom [OF wf, of prev] by auto
  have lo': "log_offset s \<le> prev" using lo by (simp add: prev_def)
  show ?A using c(2) wf ph lo' by (auto simp: log_truncate_wf log_truncate_hi log_simps)
  show "?B i" if "i \<le> prev" using c(2) that by (auto simp: log_truncate_get)
  show "?C i" if i: "prev < i" "i \<le> log_hi s1"
  proof -
    have "s1 \<noteq> log_truncate s (Suc prev)" using i lo' ph by (auto simp: log_truncate_hi)
    then have s1: "s1 = s" and t1: "log_term_at s (Suc prev) = None \<or> log_term_at s (Suc prev) = Some T"
      using c(2) by auto
    obtain p where p: "log_get s (Suc prev) = Some p" and q: "log_get s i \<noteq> None"
      using i lo' by (auto simp: s1 log_get_eq)
    have pt: "log_term_at s (Suc prev) = Some (snd p)" using lo' p by (simp add: log_term_at_eq [OF wf])
    then have "snd p = T" using t1 by simp
    then have "log_term_at s i = Some T"
      using log_terms_ok_get [OF ok, of "Suc prev" "fst p" T i] p q i lo'
      by (cases p) (auto simp: log_term_at_eq [OF wf])
    then show ?thesis by (simp add: s1)
  qed
qed

text \<open>The log of a follower after it has accepted a request of the current term \<open>T\<close>.\<close>

lemma follower_accepts:
  assumes chk: "check_consistency req s = (True, s1)" and wf: "log_wf s" and ok: "log_terms_ok T s"
    and ne: "ae_entries req \<noteq> []" and ts: "\<And>e. e \<in> set (ae_entries req) \<Longrightarrow> le_term e = T"
    and lo: "log_offset s \<le> cursor_index (ae_prev_log_position req)"
    and room: "Suc (cursor_index (ae_prev_log_position req)) + length (ae_entries req) \<le> u64_max"
  defines "prev \<equiv> cursor_index (ae_prev_log_position req)"
    and "s2 \<equiv> append_entries_from (pos_next (cursor_index (ae_prev_log_position req))) 0 (ae_entries req) s1"
  shows "log_wf s2 \<and> log_offset s2 = log_offset s \<and>
      log_hi s2 = max (log_hi s1) (prev + length (ae_entries req))" (is ?A)
    and "i \<le> prev \<Longrightarrow> log_get s2 i = log_get s i" (is "_ \<Longrightarrow> ?B i")
    and "k < length (ae_entries req) \<Longrightarrow>
      (\<And>c. log_get s (Suc prev + k) = Some (c, T) \<Longrightarrow> c = le_command (ae_entries req ! k)) \<Longrightarrow>
      log_get s2 (Suc prev + k) = Some (le_command (ae_entries req ! k), T)"
proof -
  let ?es = "ae_entries req" and ?pair = "\<lambda>e. (le_command e, le_term e)"
  have pm: "prev < u64_max" using room by (simp add: prev_def)
  note r = check_consistency_rest [OF chk wf ok ne ts lo pm [unfolded prev_def], folded prev_def]
  let ?d = "log_hi s1 - prev"
  have "s2 = im.append_all s1 (map ?pair (drop (Suc (log_hi s1) - (Suc prev + 0)) ?es))"
    unfolding s2_def prev_def [symmetric] pos_next_eq [OF pm]
  proof (rule append_entries_from_spec)
    show "log_term_at s1 (Suc prev + 0 + k) = Some (le_term (?es ! k))"
      if "k < length ?es" "Suc prev + 0 + k \<le> log_hi s1" for k
      using r(3) [of "Suc prev + k"] that ts by simp
  qed (use r(1) lo room pm in \<open>auto simp: prev_def\<close>)
  then have s2: "s2 = im.append_all s1 (map ?pair (drop ?d ?es))" by simp
  have "log_hi s1 + length (map ?pair (drop ?d ?es)) \<le> u64_max"
    using r(1) room log_hi_le [of s1] by (auto simp: prev_def)
  note a = im.append_all_spec [OF conjunct1 [OF r(1)] this, folded s2]
  show ?A using a r(1) by auto
  show "?B i" if "i \<le> prev" using a r(1) r(2) [of i] that by simp
  show "log_get s2 (Suc prev + k) = Some (le_command (?es ! k), T)"
    if k: "k < length ?es"
      and m: "\<And>c. log_get s (Suc prev + k) = Some (c, T) \<Longrightarrow> c = le_command (?es ! k)"
  proof (cases "Suc prev + k \<le> log_hi s1")
    case True
    have "log_offset s1 < Suc prev + k" using r(1) lo by (simp add: prev_def)
    then have "log_term_at s1 (Suc prev + k) = map_option snd (log_get s1 (Suc prev + k))"
      by (simp add: log_term_at_def)
    then have "map_option snd (log_get s1 (Suc prev + k)) = Some T"
      using r(3) [of "Suc prev + k"] True by (metis add_Suc le_add1 less_Suc_eq_le)
    then obtain c where c: "log_get s1 (Suc prev + k) = Some (c, T)" by auto
    moreover have "log_get s (Suc prev + k) = log_get s1 (Suc prev + k)"
      using r(3) [of "Suc prev + k"] True by simp
    ultimately have "c = le_command (?es ! k)" using m by simp
    moreover have "log_get s2 (Suc prev + k) = log_get s1 (Suc prev + k)" using a True by simp
    ultimately show ?thesis using c by simp
  next
    case False
    then obtain j where j: "prev + k = log_hi s1 + j" using le_Suc_ex by fastforce
    then have jk: "?d + j = k" using r(1) by simp
    then have "j < length (map ?pair (drop ?d ?es))" using k by simp
    then have "log_get s2 (Suc (log_hi s1 + j)) = Some (map ?pair (drop ?d ?es) ! j)" using a by blast
    moreover have "map ?pair (drop ?d ?es) ! j = ?pair (?es ! k)"
      using k jk nth_drop [of ?d ?es j] by auto
    ultimately show ?thesis using j ts k by simp
  qed
qed

end
