(* ===== verification/Log_Replay.thy ===== *)
theory Log_Replay
  imports Raft_Append
begin

text \<open>
  \<open>groups/replay/\<close>: the generic state sync that replays log entries. The provider answers
  availability and fetch requests from its log; the session of a lagging follower asks its bonded
  peers what they have, fetches the gap in chunks, appends chunks that have become contiguous, and
  finally appends what the leader sent in the meantime.

  Hash maps are association lists (their order stands for the iteration order), the \<open>BTreeMap\<close> of
  fetched chunks is an association list sorted by key. The termination channel and the timers of
  pending fetches are part of the session's state: the environment adds to \<open>rs_terminations\<close> and
  sets \<open>pf_timed_out\<close> between two polls. Metrics and wakers are left out.
\<close>

section \<open>Messages and sessions\<close>

datatype 'c replay_message =
    AvailabilityRequest
  | AvailabilityResponse index_range
  | FetchEntriesRequest index_range
  | FetchEntriesResponse index_range "('c \<times> raft_term) list"

record pending_fetch =
  pf_range :: index_range
  pf_timed_out :: bool

record 'c replay_session =
  rs_batch_size :: nat
  rs_leader :: peer_id
  rs_gap :: index_range
  rs_buffered :: "(raft_index \<times> raft_term \<times> 'c) list"
  rs_terminations :: "peer_id list"
  rs_known_bonds :: "peer_id set"
  rs_availability :: "(peer_id \<times> index_range) list"
  rs_inflight :: "(peer_id \<times> pending_fetch) list"
  rs_fetched :: "(raft_index \<times> raft_index \<times> peer_id \<times> ('c \<times> raft_term) list) list"

type_synonym ('c, 'm, 'q, 'r) replay_shared = "('c, 'm, 'q, 'r, 'c replay_message, unit) shared"

definition range_is_empty :: "index_range \<Rightarrow> bool" where
  "range_is_empty r \<longleftrightarrow> fst r > snd r"

text \<open>\<open>send_to\<close> with \<open>expect\<close>: \<open>None\<close> is the panic on an encoding error.\<close>

definition sync_send ::
  "('c, 'm, 'q, 'r, 'y) machine_ops \<Rightarrow> peer_id \<Rightarrow> 'y \<Rightarrow> ('c, 'm, 'q, 'r, 'y, 'p) shared
    \<Rightarrow> ('c, 'm, 'q, 'r, 'y, 'p) shared option" where
  "sync_send ops peer msg sh = send_raft_to ops sh (StateSync msg) peer"

text \<open>The indices of entries that follow a position.\<close>

definition index_entries ::
  "raft_index \<Rightarrow> ('c \<times> raft_term) list \<Rightarrow> (raft_index \<times> raft_term \<times> 'c) list" where
  "index_entries pos es = map (\<lambda>(i, (cmd, term)). (pos_add pos i, term, cmd)) (enumerate_from 0 es)"

definition replay_session_new ::
  "nat \<Rightarrow> ('c, 'm, 'q, 'r) replay_shared \<Rightarrow> cursor \<Rightarrow> ('c \<times> raft_term) list \<Rightarrow> 'c replay_session option" where
  "replay_session_new batch_size sh position es =
    (let local_pos = log_last (storage sh);
         gap = (pos_next (cursor_index local_pos), cursor_index position);
         total = pos_sub (cursor_index position) (cursor_index local_pos)
     in if total = 0 then None
        else case when_leader sh of
               None \<Rightarrow> None
             | Some leader \<Rightarrow>
                 Some \<lparr>rs_batch_size = batch_size, rs_leader = leader, rs_gap = gap,
                       rs_buffered = index_entries (pos_next (cursor_index position)) es,
                       rs_terminations = [], rs_known_bonds = {}, rs_availability = [],
                       rs_inflight = [], rs_fetched = []\<rparr>)"

section \<open>Polling a session\<close>

definition poll_terminations :: "'c replay_session \<Rightarrow> 'c replay_session" where
  "poll_terminations s =
    foldl (\<lambda>s peer. s\<lparr>rs_availability := AList.delete peer (rs_availability s),
                       rs_inflight := AList.delete peer (rs_inflight s),
                       rs_known_bonds := rs_known_bonds s - {peer}\<rparr>)
      (s\<lparr>rs_terminations := []\<rparr>) (rs_terminations s)"

definition poll_timeouts ::
  "('c, 'm, 'q, 'r, 'c replay_message) machine_ops \<Rightarrow> 'c replay_session
    \<Rightarrow> ('c, 'm, 'q, 'r) replay_shared \<Rightarrow> ('c replay_session \<times> ('c, 'm, 'q, 'r) replay_shared) option" where
  "poll_timeouts ops s sh =
    (let timed_out = map fst (filter (\<lambda>(_, pending). pf_timed_out pending) (rs_inflight s))
     in foldM (\<lambda>(s, sh) peer.
          let s1 = s\<lparr>rs_inflight := AList.delete peer (rs_inflight s),
                     rs_availability := AList.delete peer (rs_availability s)\<rparr>
          in map_option (Pair s1) (sync_send ops peer AvailabilityRequest sh))
          (s, sh) timed_out)"

definition poll_new_bonds ::
  "('c, 'm, 'q, 'r, 'c replay_message) machine_ops \<Rightarrow> 'c replay_session
    \<Rightarrow> ('c, 'm, 'q, 'r) replay_shared \<Rightarrow> ('c replay_session \<times> ('c, 'm, 'q, 'r) replay_shared) option" where
  "poll_new_bonds ops s sh =
    (let new_peers = filter (\<lambda>p. p \<notin> rs_known_bonds s) (sh_bonds sh)
     in map_option (Pair (s\<lparr>rs_known_bonds := set (sh_bonds sh)\<rparr>))
          (foldM (\<lambda>sh peer. sync_send ops peer AvailabilityRequest sh) sh new_peers))"

definition idle_peers_sorted :: "'c replay_session \<Rightarrow> peer_id list" where
  "idle_peers_sorted s =
    sort_key (\<lambda>p. if p = rs_leader s then 1 else (0 :: int))
      (filter (\<lambda>p. map_of (rs_inflight s) p = None) (map fst (rs_availability s)))"

definition send_fetch_request ::
  "('c, 'm, 'q, 'r, 'c replay_message) machine_ops \<Rightarrow> peer_id \<Rightarrow> index_range \<Rightarrow> 'c replay_session
    \<Rightarrow> ('c, 'm, 'q, 'r) replay_shared \<Rightarrow> ('c replay_session \<times> ('c, 'm, 'q, 'r) replay_shared) option" where
  "send_fetch_request ops peer rng s sh =
    map_option (Pair (s\<lparr>rs_inflight := AList.update peer \<lparr>pf_range = rng, pf_timed_out = False\<rparr> (rs_inflight s)\<rparr>))
      (sync_send ops peer (FetchEntriesRequest rng) sh)"

definition assigned_ranges :: "'c replay_session \<Rightarrow> index_range list" where
  "assigned_ranges s =
    sort_key fst (map (pf_range \<circ> snd) (rs_inflight s) @ map (\<lambda>(start, ende, _). (start, ende)) (rs_fetched s))"

fun skip_until :: "raft_index \<Rightarrow> index_range list \<Rightarrow> raft_index \<Rightarrow> raft_index" where
  "skip_until gap_end [] cur = cur"
| "skip_until gap_end (r # rs) cur =
    (if cur > gap_end then cur
     else skip_until gap_end rs (if fst r \<le> cur \<and> snd r \<ge> cur then pos_next (snd r) else cur))"

definition skip_assigned :: "index_range list \<Rightarrow> raft_index \<Rightarrow> raft_index" where
  "skip_assigned rs cur = foldl (\<lambda>cur r. if fst r \<le> cur \<and> snd r \<ge> cur then pos_next (snd r) else cur) cur rs"

definition covers :: "(peer_id \<times> index_range) list \<Rightarrow> raft_index \<Rightarrow> peer_id \<Rightarrow> bool" where
  "covers availability cur p =
    (case map_of availability p of None \<Rightarrow> False | Some a \<Rightarrow> fst a \<le> cur \<and> snd a \<ge> cur)"

function assign_chunks ::
  "('c, 'm, 'q, 'r, 'c replay_message) machine_ops \<Rightarrow> index_range list \<Rightarrow> raft_index \<Rightarrow> peer_id list
    \<Rightarrow> 'c replay_session \<Rightarrow> ('c, 'm, 'q, 'r) replay_shared
    \<Rightarrow> ('c replay_session \<times> ('c, 'm, 'q, 'r) replay_shared) option" where
  "assign_chunks ops assigned cur idle s sh =
    (let gap_end = snd (rs_gap s)
     in if cur \<le> gap_end \<and> idle \<noteq> []
        then let chunk_end = min (pos_add cur (rs_batch_size s - 1)) gap_end
             in case List.find (covers (rs_availability s) cur) idle of
                  None \<Rightarrow> Some (s, sh)
                | Some peer \<Rightarrow>
                    (let effective_end = min chunk_end (snd (the (map_of (rs_availability s) peer)))
                     in case send_fetch_request ops peer (cur, effective_end) s sh of
                          None \<Rightarrow> None
                        | Some r \<Rightarrow>
                            assign_chunks ops assigned (skip_assigned assigned (pos_next effective_end))
                              (remove1 peer idle) (fst r) (snd r))
        else Some (s, sh))"
  by pat_completeness auto
termination
  by (relation "measure (\<lambda>(ops, assigned, cur, idle, s, sh). length idle)")
    (auto simp: length_remove1 find_Some_iff nth_mem)

declare assign_chunks.simps [simp del]

definition schedule_fetches ::
  "('c, 'm, 'q, 'r, 'c replay_message) machine_ops \<Rightarrow> 'c replay_session
    \<Rightarrow> ('c, 'm, 'q, 'r) replay_shared \<Rightarrow> ('c replay_session \<times> ('c, 'm, 'q, 'r) replay_shared) option" where
  "schedule_fetches ops s sh =
    (let assigned = assigned_ranges s;
         cur = skip_until (snd (rs_gap s)) assigned (fst (rs_gap s))
     in assign_chunks ops assigned cur (idle_peers_sorted s) s sh)"

text \<open>The loop of \<open>drain_fetched_entries\<close>; \<open>None\<close> is the failed assertion.\<close>

definition append_fetched :: "'c log_store \<Rightarrow> ('c \<times> raft_term) list \<Rightarrow> 'c log_store" where
  "append_fetched st es = foldl (\<lambda>st (cmd, term). snd (log_append st cmd term)) st es"

fun drain_loop ::
  "raft_index \<Rightarrow> (raft_index \<times> raft_index \<times> peer_id \<times> ('c \<times> raft_term) list) list \<Rightarrow> 'c log_store
    \<Rightarrow> (raft_index \<times> (raft_index \<times> raft_index \<times> peer_id \<times> ('c \<times> raft_term) list) list \<times> 'c log_store) option" where
  "drain_loop cur [] st = Some (cur, [], st)"
| "drain_loop cur ((start, ende, peer, es) # rest) st =
    (if start \<noteq> cur then Some (cur, (start, ende, peer, es) # rest, st)
     else if start \<noteq> pos_next (cursor_index (log_last st)) then None
     else drain_loop (pos_next ende) rest (append_fetched st es))"

definition drain_fetched_entries ::
  "'c replay_session \<Rightarrow> ('c, 'm, 'q, 'r) replay_shared
    \<Rightarrow> ('c replay_session \<times> ('c, 'm, 'q, 'r) replay_shared) option" where
  "drain_fetched_entries s sh =
    (case drain_loop (fst (rs_gap s)) (rs_fetched s) (storage sh) of
       None \<Rightarrow> None
     | Some (cur, fetched, st) \<Rightarrow>
         Some (s\<lparr>rs_fetched := fetched, rs_gap := (cur, snd (rs_gap s))\<rparr>, sh\<lparr>storage := st\<rparr>))"

fun apply_buffered ::
  "raft_index \<Rightarrow> (raft_index \<times> raft_term \<times> 'c) list \<Rightarrow> 'c log_store \<Rightarrow> 'c log_store option" where
  "apply_buffered pos [] st = Some st"
| "apply_buffered pos ((index, term, cmd) # rest) st =
    (if index \<noteq> pos then None
     else apply_buffered (pos_next pos) rest (snd (log_append st cmd term)))"

definition finalize_sync ::
  "'c replay_session \<Rightarrow> ('c, 'm, 'q, 'r) replay_shared
    \<Rightarrow> ('c replay_session \<times> ('c, 'm, 'q, 'r) replay_shared) option" where
  "finalize_sync s sh =
    map_option (\<lambda>st. (s\<lparr>rs_buffered := []\<rparr>, sh\<lparr>storage := st\<rparr>))
      (apply_buffered (pos_next (snd (rs_gap s))) (rs_buffered s) (storage sh))"

definition replay_poll ::
  "('c, 'm, 'q, 'r, 'c replay_message) machine_ops \<Rightarrow> 'c replay_session \<Rightarrow> ('c, 'm, 'q, 'r) replay_shared
    \<Rightarrow> ('c replay_session \<times> ('c, 'm, 'q, 'r) replay_shared \<times> cursor option) option" where
  "replay_poll ops s sh =
    (if range_is_empty (rs_gap s)
     then map_option (\<lambda>(s1, sh1). (s1, sh1, Some (log_last (storage sh1)))) (finalize_sync s sh)
     else do {
       (s1, sh1) \<leftarrow> drain_fetched_entries (poll_terminations s) sh;
       (s2, sh2) \<leftarrow> poll_timeouts ops s1 sh1;
       (s3, sh3) \<leftarrow> poll_new_bonds ops s2 sh2;
       (s4, sh4) \<leftarrow> schedule_fetches ops s3 sh3;
       Some (s4, sh4, None)
     })"

section \<open>Messages\<close>

fun replay_receive ::
  "'c replay_session \<Rightarrow> 'c replay_message \<Rightarrow> peer_id \<Rightarrow> 'c replay_session" where
  "replay_receive s (AvailabilityResponse available) sender =
    s\<lparr>rs_availability := AList.update sender available (rs_availability s)\<rparr>"
| "replay_receive s (FetchEntriesResponse rng es) sender =
    s\<lparr>rs_inflight := AList.delete sender (rs_inflight s),
      rs_fetched := btree_insert (fst rng) (snd rng, sender, es) (rs_fetched s)\<rparr>"
| "replay_receive s _ sender = s"

definition replay_buffer ::
  "'c replay_session \<Rightarrow> cursor \<Rightarrow> ('c \<times> raft_term) list \<Rightarrow> 'c replay_session" where
  "replay_buffer s position es =
    s\<lparr>rs_buffered := rs_buffered s @ index_entries (pos_next (cursor_index position)) es\<rparr>"

text \<open>
  The provider. The inner \<open>None\<close> of the result is \<open>Ok\<close>, \<open>Some\<close> a message that is handed back; an
  encoding error panics except for a non-empty fetch response, where it is only logged.
\<close>

fun replay_provider_receive ::
  "('c, 'm, 'q, 'r, 'c replay_message) machine_ops \<Rightarrow> nat \<Rightarrow> 'c replay_message \<Rightarrow> peer_id
    \<Rightarrow> ('c, 'm, 'q, 'r) replay_shared \<Rightarrow> (('c, 'm, 'q, 'r) replay_shared \<times> 'c replay_message option) option" where
  "replay_provider_receive ops batch_size AvailabilityRequest sender sh =
    (let available = log_available (storage sh);
         available = (fst available, min (cursor_index (committed sh)) (snd available))
     in map_option (\<lambda>sh1. (sh1, None)) (sync_send ops sender (AvailabilityResponse available) sh))"
| "replay_provider_receive ops batch_size (FetchEntriesRequest rng) sender sh =
    (if range_is_empty rng then Some (sh, None)
     else let len = min (distance (snd rng) (fst rng) + 1) batch_size;
              rng1 = (fst rng, pos_sub (pos_add (fst rng) len) 1);
              entries = log_get_range (storage sh) rng1
          in if entries = []
             then map_option (\<lambda>sh1. (sh1, None))
                    (sync_send ops sender (FetchEntriesResponse (pos_zero, pos_zero) []) sh)
             else let actual_range = (fst (snd (hd entries)), fst (snd (last entries)))
                  in case sync_send ops sender (FetchEntriesResponse actual_range
                            (map (\<lambda>(term, _, cmd). (cmd, term)) entries)) sh of
                       None \<Rightarrow> Some (sh, None)
                     | Some sh1 \<Rightarrow> Some (sh1, None))"
| "replay_provider_receive ops batch_size message sender sh = Some (sh, Some message)"

text \<open>The implementation as a dictionary; provider callbacks without an override do nothing.\<close>

definition log_replay ::
  "('c, 'm, 'q, 'r, 'c replay_message) machine_ops \<Rightarrow> nat
    \<Rightarrow> ('c, 'c replay_session, unit, 'c replay_message, ('c, 'm, 'q, 'r) replay_shared) sync_ops" where
  "log_replay ops batch_size =
    \<lparr>create_session = (\<lambda>sh position _ es. map_option (\<lambda>s. (s, sh)) (replay_session_new batch_size sh position es)),
     session_poll = replay_poll ops,
     session_receive = (\<lambda>s msg sender sh. Some (replay_receive s msg sender, sh)),
     session_buffer = (\<lambda>s position es sh. Some (replay_buffer s position es, sh)),
     provider_receive = (\<lambda>p msg sender sh.
       map_option (\<lambda>(sh1, rejected). ((), sh1, rejected)) (replay_provider_receive ops batch_size msg sender sh)),
     provider_committed = (\<lambda>p c sh. ((), sh)),
     provider_safe_to_prune = (\<lambda>p sh. None),
     provider_poll = (\<lambda>p sh. Some ((), sh, False))\<rparr>"

section \<open>The contract\<close>

lemma sync_send_frame: "sync_send ops peer msg sh = Some sh' \<Longrightarrow> sync_frame sh sh'"
  by (auto simp: sync_send_def send_raft_to_def sync_frame_def is_state_sync_def split: if_splits)

lemma sync_send_frame_from: "sync_frame a sh \<Longrightarrow> sync_send ops peer msg sh = Some sh' \<Longrightarrow> sync_frame a sh'"
  by (rule sync_frame_trans [OF _ sync_send_frame])

lemma sync_send_state:
  "sync_send ops peer msg sh = Some sh' \<Longrightarrow> storage sh' = storage sh \<and> committed sh' = committed sh"
  by (auto simp: sync_send_def send_raft_to_def split: if_splits)

lemma sync_frame_storage [simp]: "sync_frame a (sh\<lparr>storage := st\<rparr>) \<longleftrightarrow> sync_frame a sh"
  by (simp add: sync_frame_def)

lemma poll_timeouts_frame:
  assumes "poll_timeouts ops s sh = Some (s', sh')"
  shows "sync_frame sh sh' \<and> storage sh' = storage sh"
proof -
  have "sync_frame sh (snd (s', sh')) \<and> storage (snd (s', sh')) = storage sh"
    using assms unfolding poll_timeouts_def Let_def
    by (rule foldM_invariant)
      (auto dest: sync_send_state intro: sync_send_frame_from)
  then show ?thesis by simp
qed

lemma poll_new_bonds_frame:
  assumes "poll_new_bonds ops s sh = Some (s', sh')"
  shows "sync_frame sh sh' \<and> storage sh' = storage sh"
proof -
  from assms obtain ps where
    f: "foldM (\<lambda>sh peer. sync_send ops peer AvailabilityRequest sh) sh ps = Some sh'"
    by (auto simp: poll_new_bonds_def Let_def)
  show ?thesis
    using f by (rule foldM_invariant) (auto intro: sync_frame_trans sync_send_frame dest: sync_send_state)
qed

lemma send_fetch_frame:
  "send_fetch_request ops peer rng s sh = Some (s', sh') \<Longrightarrow> sync_frame sh sh' \<and> storage sh' = storage sh"
  by (auto simp: send_fetch_request_def intro: sync_send_frame dest: sync_send_state)

lemma assign_chunks_frame:
  "assign_chunks ops assigned cur idle s sh = Some (s', sh') \<Longrightarrow>
    sync_frame sh sh' \<and> storage sh' = storage sh"
proof (induction ops assigned cur idle s sh rule: assign_chunks.induct)
  case (1 ops assigned cur idle s sh)
  show ?case
  proof (cases "cur \<le> snd (rs_gap s) \<and> idle \<noteq> [] \<and> List.find (covers (rs_availability s) cur) idle \<noteq> None")
    case False
    then have "sh' = sh" using "1.prems"
      by (subst (asm) assign_chunks.simps) (auto simp: Let_def split: if_splits)
    then show ?thesis by simp
  next
    case True
    then obtain peer where p: "List.find (covers (rs_availability s) cur) idle = Some peer" by auto
    let ?e = "min (min (pos_add cur (rs_batch_size s - 1)) (snd (rs_gap s)))
        (snd (the (map_of (rs_availability s) peer)))"
    from "1.prems" True p obtain r where r: "send_fetch_request ops peer (cur, ?e) s sh = Some r"
      and rec: "assign_chunks ops assigned (skip_assigned assigned (pos_next ?e)) (remove1 peer idle)
        (fst r) (snd r) = Some (s', sh')"
      by (subst (asm) assign_chunks.simps) (auto simp: Let_def split: option.splits)
    have "sync_frame (snd r) sh' \<and> storage sh' = storage (snd r)"
      by (rule "1.IH" [OF refl _ refl p refl r rec]) (use True in simp)
    moreover have "sync_frame sh (snd r) \<and> storage (snd r) = storage sh"
      using r by (cases r) (auto dest: send_fetch_frame)
    ultimately show ?thesis by (auto intro: sync_frame_trans)
  qed
qed

lemma drain_frame: "drain_fetched_entries s sh = Some (s', sh') \<Longrightarrow> sync_frame sh sh'"
  by (auto simp: drain_fetched_entries_def split: option.splits)

lemma replay_poll_frame:
  assumes "replay_poll ops s sh = Some (s', sh', r)"
  shows "sync_frame sh sh'"
proof (cases "range_is_empty (rs_gap s)")
  case True
  then show ?thesis using assms by (auto simp: replay_poll_def finalize_sync_def)
next
  case False
  then show ?thesis using assms
    by (auto simp: replay_poll_def schedule_fetches_def Let_def split: bind_splits
        dest!: drain_frame poll_timeouts_frame poll_new_bonds_frame assign_chunks_frame)
      (meson sync_frame_trans)
qed

lemma replay_provider_frame:
  "replay_provider_receive ops n msg p sh = Some (sh', r) \<Longrightarrow> sync_frame sh sh'"
  by (erule replay_provider_receive.elims)
    (auto simp: Let_def map_option_case split: if_splits option.splits intro: sync_send_frame)

interpretation lr: state_sync "log_replay ops batch_size" for ops batch_size
  by unfold_locales
    (auto simp: log_replay_def intro: replay_poll_frame replay_provider_frame)

section \<open>Correctness of the catch-up\<close>

text \<open>
  \<open>L\<close> is the log of the group. A chunk is honest if it holds consecutive entries of \<open>L\<close> under
  the indices of its range.
\<close>

definition agrees :: "(raft_index \<Rightarrow> ('c \<times> raft_term) option) \<Rightarrow> 'c log_store \<Rightarrow> bool" where
  "agrees L st \<longleftrightarrow> (\<forall>i. log_offset st < i \<and> i \<le> log_hi st \<longrightarrow> log_get st i = L i)"

fun honest_chunk ::
  "(raft_index \<Rightarrow> ('c \<times> raft_term) option)
    \<Rightarrow> raft_index \<times> raft_index \<times> peer_id \<times> ('c \<times> raft_term) list \<Rightarrow> bool" where
  "honest_chunk L (start, ende, peer, es) \<longleftrightarrow>
    es \<noteq> [] \<and> Suc ende = start + length es \<and> ende < u64_max \<and>
    (\<forall>k < length es. L (start + k) = Some (es ! k))"

lemma append_fetched_eq: "append_fetched st es = im.append_all st es"
  by (simp add: append_fetched_def im.append_all_def)

lemma append_fetched_agrees:
  assumes "log_wf st" and "agrees L st" and "log_hi st + length es \<le> u64_max"
    and "\<And>k. k < length es \<Longrightarrow> L (Suc (log_hi st) + k) = Some (es ! k)"
  shows "log_wf (append_fetched st es) \<and> agrees L (append_fetched st es) \<and>
    log_offset (append_fetched st es) = log_offset st \<and>
    log_hi (append_fetched st es) = log_hi st + length es"
proof -
  note a = im.append_all_spec [OF assms(1,3), folded append_fetched_eq]
  have "log_get (append_fetched st es) i = L i"
    if i: "log_offset st < i" "i \<le> log_hi st + length es" for i
  proof (cases "i \<le> log_hi st")
    case True
    then show ?thesis using a assms(2) i by (simp add: agrees_def)
  next
    case False
    then obtain k where k: "i = Suc (log_hi st + k)" using less_imp_Suc_add by fastforce
    then show ?thesis using a assms(4) [of k] i(2) by simp
  qed
  then show ?thesis using a by (simp add: agrees_def)
qed

text \<open>Draining honest chunks never fails an assertion and copies the log of the group.\<close>

lemma drain_loop_honest:
  assumes "log_wf st" and "agrees L st" and "log_hi st < u64_max"
    and "\<And>c. c \<in> set fetched \<Longrightarrow> honest_chunk L c"
  shows "\<exists>rest st'. drain_loop (Suc (log_hi st)) fetched st = Some (Suc (log_hi st'), rest, st') \<and>
    log_wf st' \<and> agrees L st' \<and> log_offset st' = log_offset st \<and> log_hi st \<le> log_hi st' \<and>
    log_hi st' < u64_max \<and> set rest \<subseteq> set fetched \<and>
    (rest = [] \<or> fst (hd rest) \<noteq> Suc (log_hi st'))"
  using assms
proof (induction fetched arbitrary: st)
  case Nil
  then show ?case by auto
next
  case (Cons c fetched)
  obtain start ende peer es where c: "c = (start, ende, peer, es)" by (cases c)
  have h: "es \<noteq> []" "Suc ende = start + length es" "ende < u64_max"
    "\<And>k. k < length es \<Longrightarrow> L (start + k) = Some (es ! k)"
    using Cons.prems(4) [of c] by (auto simp: c)
  show ?case
  proof (cases "start = Suc (log_hi st)")
    case False
    then show ?thesis using Cons.prems by (auto simp: c intro!: exI [of _ st])
  next
    case True
    let ?st = "append_fetched st es"
    have hi: "log_hi st + length es = ende" using h(2) True by simp
    have a: "log_wf ?st \<and> agrees L ?st \<and> log_offset ?st = log_offset st \<and> log_hi ?st = log_hi st + length es"
      by (rule append_fetched_agrees) (use Cons.prems h True hi in auto)
    have unf: "drain_loop (Suc (log_hi st)) (c # fetched) st = drain_loop (Suc (log_hi ?st)) fetched ?st"
      using True Cons.prems(1,3) h(3) a hi by (simp add: c log_last_index pos_next_eq)
    have "\<exists>rest st'. drain_loop (Suc (log_hi ?st)) fetched ?st = Some (Suc (log_hi st'), rest, st') \<and>
      log_wf st' \<and> agrees L st' \<and> log_offset st' = log_offset ?st \<and> log_hi ?st \<le> log_hi st' \<and>
      log_hi st' < u64_max \<and> set rest \<subseteq> set fetched \<and> (rest = [] \<or> fst (hd rest) \<noteq> Suc (log_hi st'))"
      by (rule Cons.IH) (use a hi h(3) Cons.prems(4) in auto)
    then show ?thesis unfolding unf using a by auto
  qed
qed

definition replay_ok ::
  "(raft_index \<Rightarrow> ('c \<times> raft_term) option) \<Rightarrow> 'c replay_session \<Rightarrow> 'c log_store \<Rightarrow> bool" where
  "replay_ok L s st \<longleftrightarrow>
    log_wf st \<and> log_hi st < u64_max \<and> agrees L st \<and> fst (rs_gap s) = Suc (log_hi st) \<and>
    (\<forall>c \<in> set (rs_fetched s). honest_chunk L c)"

lemma poll_terminations_simps [simp]:
  "rs_gap (poll_terminations s) = rs_gap s"
  "rs_fetched (poll_terminations s) = rs_fetched s"
  "rs_buffered (poll_terminations s) = rs_buffered s"
  unfolding poll_terminations_def
  by (rule foldl_invariant [where P = "\<lambda>x. rs_gap x = rs_gap s"], simp, simp)
    (rule foldl_invariant [where P = "\<lambda>x. rs_fetched x = rs_fetched s"], simp, simp,
     rule foldl_invariant [where P = "\<lambda>x. rs_buffered x = rs_buffered s"], simp, simp)

lemma poll_timeouts_session:
  assumes "poll_timeouts ops s sh = Some (s', sh')"
  shows "rs_gap s' = rs_gap s \<and> rs_fetched s' = rs_fetched s"
proof -
  have "rs_gap (fst (s', sh')) = rs_gap s \<and> rs_fetched (fst (s', sh')) = rs_fetched s"
    using assms unfolding poll_timeouts_def Let_def by (rule foldM_invariant) auto
  then show ?thesis by simp
qed

lemma poll_new_bonds_session:
  "poll_new_bonds ops s sh = Some (s', sh') \<Longrightarrow> rs_gap s' = rs_gap s \<and> rs_fetched s' = rs_fetched s"
  by (auto simp: poll_new_bonds_def Let_def)

lemma sync_send_Some: "(\<And>m. m_encodable ops m) \<Longrightarrow> \<exists>sh'. sync_send ops p y sh = Some sh'"
  by (simp add: sync_send_def send_raft_to_def)

lemma send_fetch_session:
  "send_fetch_request ops p rng s sh = Some (s', sh') \<Longrightarrow> rs_gap s' = rs_gap s \<and> rs_fetched s' = rs_fetched s"
  by (auto simp: send_fetch_request_def)

lemma assign_chunks_session:
  assumes enc: "\<And>m. m_encodable ops m"
  shows "\<exists>s' sh'. assign_chunks ops assigned cur idle s sh = Some (s', sh') \<and>
    rs_gap s' = rs_gap s \<and> rs_fetched s' = rs_fetched s"
  using enc
proof (induction ops assigned cur idle s sh rule: assign_chunks.induct)
  case (1 ops assigned cur idle s sh)
  show ?case
  proof (cases "cur \<le> snd (rs_gap s) \<and> idle \<noteq> [] \<and> List.find (covers (rs_availability s) cur) idle \<noteq> None")
    case False
    then show ?thesis by (subst assign_chunks.simps) (auto simp: Let_def split: option.splits)
  next
    case True
    then obtain peer where p: "List.find (covers (rs_availability s) cur) idle = Some peer" by auto
    let ?e = "min (min (pos_add cur (rs_batch_size s - 1)) (snd (rs_gap s)))
        (snd (the (map_of (rs_availability s) peer)))"
    obtain s1 sh1 where r: "send_fetch_request ops peer (cur, ?e) s sh = Some (s1, sh1)"
      using sync_send_Some [OF "1.prems", of peer "FetchEntriesRequest (cur, ?e)" sh]
      by (auto simp: send_fetch_request_def)
    have "\<exists>s' sh'. assign_chunks ops assigned (skip_assigned assigned (pos_next ?e)) (remove1 peer idle)
        (fst (s1, sh1)) (snd (s1, sh1)) = Some (s', sh') \<and>
        rs_gap s' = rs_gap (fst (s1, sh1)) \<and> rs_fetched s' = rs_fetched (fst (s1, sh1))"
      by (rule "1.IH" [OF refl _ refl p refl r]) (use True "1.prems" in simp_all)
    then show ?thesis using True p r send_fetch_session [OF r]
      by (subst assign_chunks.simps) (auto simp: Let_def)
  qed
qed

lemma foldM_send_Some:
  "(\<And>m. m_encodable ops m) \<Longrightarrow> \<exists>sh'. foldM (\<lambda>sh p. sync_send ops p y sh) sh ps = Some sh'"
proof (induction ps arbitrary: sh)
  case (Cons p ps)
  obtain sh1 where "sync_send ops p y sh = Some sh1" using sync_send_Some [OF Cons.prems] by blast
  then show ?case using Cons by simp
qed simp

lemma poll_timeouts_Some:
  assumes "\<And>m. m_encodable ops m"
  shows "\<exists>s' sh'. poll_timeouts ops s sh = Some (s', sh')"
proof -
  let ?f = "\<lambda>(s, sh) peer. map_option (Pair (s\<lparr>rs_inflight := AList.delete peer (rs_inflight s),
      rs_availability := AList.delete peer (rs_availability s)\<rparr>)) (sync_send ops peer AvailabilityRequest sh)"
  have "\<exists>r. foldM ?f x ps = Some r" for x ps
  proof (induction ps arbitrary: x)
    case (Cons p ps)
    obtain sh1 where "sync_send ops p AvailabilityRequest (snd x) = Some sh1"
      using sync_send_Some [OF assms] by blast
    then show ?case using Cons.IH by (cases x) simp
  qed simp
  then obtain r where "poll_timeouts ops s sh = Some r" unfolding poll_timeouts_def Let_def by blast
  then show ?thesis by (cases r) simp
qed

text \<open>A poll of a session with a gap: it does not panic, and what it appends is the group's log.\<close>

lemma replay_poll_ok:
  assumes ok: "replay_ok L s (storage sh)" and gap: "\<not> range_is_empty (rs_gap s)"
    and enc: "\<And>m. m_encodable ops m"
  shows "\<exists>s' sh'. replay_poll ops s sh = Some (s', sh', None) \<and> replay_ok L s' (storage sh') \<and>
    log_hi (storage sh) \<le> log_hi (storage sh') \<and> snd (rs_gap s') = snd (rs_gap s) \<and>
    (rs_fetched s' = [] \<or> fst (hd (rs_fetched s')) \<noteq> fst (rs_gap s'))"
proof -
  let ?t = "poll_terminations s"
  from ok have o: "log_wf (storage sh)" "agrees L (storage sh)" "log_hi (storage sh) < u64_max"
    "\<And>c. c \<in> set (rs_fetched ?t) \<Longrightarrow> honest_chunk L c" and g: "fst (rs_gap ?t) = Suc (log_hi (storage sh))"
    by (auto simp: replay_ok_def)
  from drain_loop_honest [OF o] obtain rest st where
    d: "drain_loop (Suc (log_hi (storage sh))) (rs_fetched ?t) (storage sh) = Some (Suc (log_hi st), rest, st)"
    and st: "log_wf st" "agrees L st" "log_hi (storage sh) \<le> log_hi st" "log_hi st < u64_max"
      "set rest \<subseteq> set (rs_fetched ?t)" "rest = [] \<or> fst (hd rest) \<noteq> Suc (log_hi st)"
    by blast
  define s1 where "s1 = ?t\<lparr>rs_fetched := rest, rs_gap := (Suc (log_hi st), snd (rs_gap s))\<rparr>"
  define sh1 where "sh1 = sh\<lparr>storage := st\<rparr>"
  have p1: "drain_fetched_entries ?t sh = Some (s1, sh1)"
    using d g by (simp add: drain_fetched_entries_def s1_def sh1_def)
  obtain s2 sh2 where p2: "poll_timeouts ops s1 sh1 = Some (s2, sh2)"
    using poll_timeouts_Some [OF enc] by blast
  obtain s3 sh3 where p3: "poll_new_bonds ops s2 sh2 = Some (s3, sh3)"
    using foldM_send_Some [OF enc, of AvailabilityRequest sh2 "filter (\<lambda>p. p \<notin> rs_known_bonds s2) (sh_bonds sh2)"]
    by (auto simp: poll_new_bonds_def Let_def)
  obtain s4 sh4 where p4: "schedule_fetches ops s3 sh3 = Some (s4, sh4)"
    and k4: "rs_gap s4 = rs_gap s3 \<and> rs_fetched s4 = rs_fetched s3"
    using assign_chunks_session [OF enc, of "assigned_ranges s3" _ "idle_peers_sorted s3" s3 sh3]
    unfolding schedule_fetches_def Let_def by blast
  have stor: "storage sh4 = st"
    using poll_timeouts_frame [OF p2] poll_new_bonds_frame [OF p3] p4
    by (auto simp: schedule_fetches_def Let_def sh1_def dest!: assign_chunks_frame)
  have sess: "rs_gap s4 = (Suc (log_hi st), snd (rs_gap s)) \<and> rs_fetched s4 = rest"
    using k4 poll_new_bonds_session [OF p3] poll_timeouts_session [OF p2] by (simp add: s1_def)
  have "replay_poll ops s sh = Some (s4, sh4, None)"
    using gap p1 p2 p3 p4 by (simp add: replay_poll_def)
  then show ?thesis using sess stor st o(4) by (auto simp: replay_ok_def)
qed

text \<open>The last poll: the buffered entries follow the gap, and the session reports the log's end.\<close>

lemma apply_buffered_index_entries:
  assumes "log_wf st" and "Suc (log_hi st) + length es \<le> u64_max"
  shows "apply_buffered (Suc (log_hi st)) (index_entries (Suc (log_hi st)) es) st = Some (append_fetched st es)"
proof -
  have "apply_buffered (pos + k) (map (\<lambda>(i, (cmd, term)). (pos_add pos i, term, cmd)) (enumerate_from k es)) st =
      Some (append_fetched st es)" if "pos + k + length es \<le> u64_max" for pos k st
    using that
  proof (induction es arbitrary: k st)
    case Nil
    then show ?case by (simp add: append_fetched_def)
  next
    case (Cons e es)
    obtain cmd t where e: "e = (cmd, t)" by (cases e)
    have "apply_buffered (pos + Suc k) (map (\<lambda>(i, (cmd, term)). (pos_add pos i, term, cmd)) (enumerate_from (Suc k) es))
        (snd (log_append st cmd t)) = Some (append_fetched (snd (log_append st cmd t)) es)"
      by (rule Cons.IH) (use Cons.prems in simp)
    then show ?case using Cons.prems by (simp add: e append_fetched_def pos_add_eq pos_next_eq)
  qed
  from this [of "Suc (log_hi st)" 0] assms(2) show ?thesis by (simp add: index_entries_def)
qed

lemma replay_finishes:
  assumes ok: "replay_ok L s (storage sh)" and gap: "snd (rs_gap s) = log_hi (storage sh)"
    and buf: "rs_buffered s = index_entries (Suc (log_hi (storage sh))) es"
    and room: "Suc (log_hi (storage sh)) + length es \<le> u64_max"
    and L: "\<And>k. k < length es \<Longrightarrow> L (Suc (log_hi (storage sh)) + k) = Some (es ! k)"
  shows "\<exists>s' sh'. replay_poll ops s sh = Some (s', sh', Some (log_last (storage sh'))) \<and>
    log_wf (storage sh') \<and> agrees L (storage sh') \<and>
    log_hi (storage sh') = log_hi (storage sh) + length es \<and> rs_buffered s' = []"
proof -
  let ?st = "storage sh"
  have o: "log_wf ?st" "agrees L ?st" "log_hi ?st < u64_max" and g: "fst (rs_gap s) = Suc (log_hi ?st)"
    using ok by (auto simp: replay_ok_def)
  have empty: "range_is_empty (rs_gap s)" using g gap by (simp add: range_is_empty_def)
  have fin: "finalize_sync s sh = Some (s\<lparr>rs_buffered := []\<rparr>, sh\<lparr>storage := append_fetched ?st es\<rparr>)"
    using apply_buffered_index_entries [OF o(1) room] gap o(3) by (simp add: finalize_sync_def buf pos_next_eq)
  have "log_wf (append_fetched ?st es) \<and> agrees L (append_fetched ?st es) \<and>
    log_offset (append_fetched ?st es) = log_offset ?st \<and> log_hi (append_fetched ?st es) = log_hi ?st + length es"
    by (rule append_fetched_agrees [OF o(1,2)]) (use room L in auto)
  then show ?thesis using empty fin by (simp add: replay_poll_def)
qed

section \<open>What a provider sends\<close>

lemma provider_answer_honest:
  assumes wf: "log_wf (storage sh)" and hi: "log_hi (storage sh) < u64_max"
    and bond: "p \<in> set (sh_bonds sh)" and enc: "\<And>m. m_encodable ops m"
    and rng: "a \<le> b" "log_offset (storage sh) < a" "a \<le> log_hi (storage sh)" "0 < n" "a + n \<le> u64_max"
  shows "\<exists>sh' r es. replay_provider_receive ops n (FetchEntriesRequest (a, b)) p sh = Some (sh', None) \<and>
    outbox sh' = outbox sh @ [(p, StateSync (FetchEntriesResponse r es))] \<and> fst r = a \<and>
    honest_chunk (log_get (storage sh)) (fst r, snd r, p, es) \<and>
    snd r = min (min b (a + n - 1)) (log_hi (storage sh))"
proof -
  let ?s = "storage sh"
  let ?len = "min (distance b a + 1) n"
  have len: "?len = min (Suc (b - a)) n" "0 < ?len" using rng by (auto simp: distance_def)
  have add: "pos_add a ?len = a + ?len" by (rule pos_add_eq) (use rng in simp)
  define last where "last = min (a + ?len - 1) (log_hi ?s)"
  have le: "a \<le> last" using len rng by (simp add: last_def)
  have rows: "log_get_range ?s (a, pos_sub (pos_add a ?len) 1) =
      map (\<lambda>i. (snd (the (log_get ?s i)), i, fst (the (log_get ?s i)))) [a ..< Suc last]"
  proof -
    have "max a (Suc (log_offset ?s)) = a" using rng by simp
    then show ?thesis
      unfolding log_get_range_eq [OF wf] add last_def pos_sub_def saturating_sub_eq by (simp only:)
  qed
  have ne: "[a ..< Suc last] \<noteq> []" using le by simp
  define es where "es = map (\<lambda>i. (fst (the (log_get ?s i)), snd (the (log_get ?s i)))) [a ..< Suc last]"
  have get: "log_get ?s (a + k) = Some (es ! k)" if "k < length es" for k
  proof -
    have k: "k < Suc last - a" using that by (simp add: es_def del: upt_Suc)
    then have "log_get ?s (a + k) \<noteq> None" using rng by (auto simp: log_get_eq last_def)
    moreover have "es ! k = the (log_get ?s (a + k))" using k le by (simp add: es_def del: upt_Suc)
    ultimately show ?thesis by simp
  qed
  have h: "honest_chunk (log_get ?s) (a, last, p, es)"
    using le ne get hi by (simp add: es_def last_def del: upt_Suc)
  have "replay_provider_receive ops n (FetchEntriesRequest (a, b)) p sh =
      Some (sh\<lparr>outbox := outbox sh @ [(p, StateSync (FetchEntriesResponse (a, last) es))]\<rparr>, None)"
    unfolding replay_provider_receive.simps Let_def fst_conv snd_conv rows
    using ne rng bond enc le
    by (simp add: range_is_empty_def hd_map last_map sync_send_def send_raft_to_def es_def comp_def
        del: upt_Suc)
  moreover have "last = min (min b (a + n - 1)) (log_hi ?s)"
    using rng unfolding last_def len(1) by (simp add: min_def, linarith)
  ultimately show ?thesis using h by auto
qed

section \<open>An empty answer blocks the session\<close>

text \<open>
  A provider answers a request for entries it does not have with the range \<open>0..=0\<close>. The session
  stores this answer under the key \<open>0\<close>, where it is the first chunk for good: no chunk behind it is
  drained any more.
\<close>

lemma drain_blocked:
  assumes "rs_fetched s = (0, c) # rest" and "0 < fst (rs_gap s)"
  shows "drain_fetched_entries s sh = Some (s, sh)"
  using assms by (cases c) (simp add: drain_fetched_entries_def)

lemma btree_insert_zero: "xs = [] \<or> 0 < fst (hd xs) \<Longrightarrow> btree_insert 0 v xs = (0, v) # xs"
  by (cases xs) auto

lemma btree_insert_keeps_zero: "0 < k \<Longrightarrow> btree_insert (k :: nat) v ((0, c) # xs) = (0, c) # btree_insert k v xs"
  by simp

end
