(* ===== verification/Snapshot_Sync.thy ===== *)
theory Snapshot_Sync
  imports Log_Replay
begin

text \<open>
  \<open>collections/sync/\<close>: the state sync of the collections. A lagging follower asks the leader for a
  snapshot; the leader feeds a marker command into the log; every peer that applies it offers the
  snapshot it has taken at that position; the follower selects an anchor position, fetches the items
  in chunks from all peers that offered it, installs the result and resets its log to the anchor.

  The machine is a \<open>collection\<close>, whose \<open>coll_requests_tx\<close> is the channel the provider reads. The
  operations of \<open>Snapshot\<close> and \<open>SnapshotStateMachine\<close> and the configuration are the dictionary
  \<open>snapshot_env\<close>. Hash maps and sets that are iterated over are lists in iteration order. Timers are
  flags the environment sets (\<open>sf_timed_out\<close>, \<open>as_expired\<close>, \<open>ss_request_timer\<close>), as is the
  reading of the clock \<open>sp_now\<close>; terminated bonds arrive in \<open>ss_terminations\<close>. A failed send is
  ignored, as the code ignores the result. Unsigned additions wrap.
\<close>

section \<open>Messages and state\<close>

record snapshot_info =
  si_anchor :: cursor
  si_items_count :: nat

record fetch_data_request =
  fd_anchor :: cursor
  fd_range :: "nat \<times> nat"

record 'i fetch_data_response =
  fr_anchor :: cursor
  fr_offset :: nat
  fr_items :: "'i list"

datatype 'i snapshot_message =
    RequestSnapshot
  | SnapshotOffer snapshot_info
  | FetchDataRequest fetch_data_request
  | FetchDataResponse "'i fetch_data_response"

record ('c, 'd, 's, 'i) snapshot_env =
  se_config :: sync_config
  se_to_command :: "snapshot_request \<Rightarrow> 'c"
  se_empty :: 's
  se_len :: "'s \<Rightarrow> nat"
  se_iter_range :: "'s \<Rightarrow> nat \<times> nat \<Rightarrow> 'i list option"
  se_append :: "'s \<Rightarrow> 'i list \<Rightarrow> 's"
  se_install :: "('d, 's) collection \<Rightarrow> 's \<Rightarrow> ('d, 's) collection"

record 's available_snapshot =
  as_snapshot :: 's
  as_expired :: bool

record 's snapshot_provider =
  sp_now :: int
  sp_available :: "(cursor \<times> 's available_snapshot) list"

record snapshot_fetch =
  sf_range :: "nat \<times> nat"
  sf_timed_out :: bool

record ('c, 's, 'i) snapshot_session =
  ss_leader :: peer_id
  ss_trigger_position :: raft_index
  ss_anchor :: "cursor option"
  ss_snapshot_len :: nat
  ss_gap :: "(nat \<times> nat) option"
  ss_anchor_candidates :: "(cursor \<times> snapshot_info \<times> peer_id list) list"
  ss_buffered :: "(raft_index \<times> raft_term \<times> 'c) list"
  ss_terminations :: "peer_id list"
  ss_known_bonds :: "peer_id set"
  ss_available_peers :: "peer_id list"
  ss_inflight :: "(peer_id \<times> snapshot_fetch) list"
  ss_fetched :: "(nat \<times> nat \<times> 'i list) list"
  ss_accumulated :: 's
  ss_request_timer :: "bool option"

type_synonym ('c, 'd, 's, 'i, 'q, 'r) snapshot_shared =
  "('c, ('d, 's) collection, 'q, 'r, 'i snapshot_message, 's snapshot_provider) shared"

type_synonym ('c, 'd, 's, 'i, 'q, 'r) snapshot_machine_ops =
  "('c, ('d, 's) collection, 'q, 'r, 'i snapshot_message) machine_ops"

definition snap_send ::
  "('c, 'm, 'q, 'r, 'y) machine_ops \<Rightarrow> peer_id \<Rightarrow> 'y \<Rightarrow> ('c, 'm, 'q, 'r, 'y, 'p) shared
    \<Rightarrow> ('c, 'm, 'q, 'r, 'y, 'p) shared" where
  "snap_send ops peer msg sh = (case sync_send ops peer msg sh of None \<Rightarrow> sh | Some sh1 \<Rightarrow> sh1)"

definition half_open_is_empty :: "nat \<times> nat \<Rightarrow> bool" where
  "half_open_is_empty r \<longleftrightarrow> \<not> fst r < snd r"

section \<open>The provider\<close>

definition snapshot_provider_new :: "int \<Rightarrow> 's snapshot_provider" where
  "snapshot_provider_new now = \<lparr>sp_now = now, sp_available = []\<rparr>"

definition snap_revive :: "'s available_snapshot \<Rightarrow> 's available_snapshot" where
  "snap_revive a = a\<lparr>as_expired := False\<rparr>"

text \<open>One request of the channel: an entry for the position is revived or created, and offered.\<close>

definition offer_snapshot ::
  "('c, 'd, 's, 'i, 'q, 'r) snapshot_machine_ops \<Rightarrow> ('c, 'd, 's, 'i) snapshot_env
    \<Rightarrow> 's snapshot_provider \<times> ('c, 'd, 's, 'i, 'q, 'r) snapshot_shared \<Rightarrow> 's pending_request
    \<Rightarrow> 's snapshot_provider \<times> ('c, 'd, 's, 'i, 'q, 'r) snapshot_shared" where
  "offer_snapshot ops env psh pending =
    (let (p, sh) = psh; request = pending_request pending; position = pending_position pending
     in if requested_by request = sh_local_id sh \<or> is_expired (se_config env) (sp_now p) request
        then (p, sh)
        else let entry = (case map_of (sp_available p) position of
                            Some existing \<Rightarrow> snap_revive existing
                          | None \<Rightarrow> \<lparr>as_snapshot = pending_snapshot pending, as_expired = False\<rparr>)
             in (p\<lparr>sp_available := AList.update position entry (sp_available p)\<rparr>,
                 snap_send ops (requested_by request)
                   (SnapshotOffer \<lparr>si_anchor = position, si_items_count = se_len env (pending_snapshot pending)\<rparr>) sh))"

definition poll_pending_requests ::
  "('c, 'd, 's, 'i, 'q, 'r) snapshot_machine_ops \<Rightarrow> ('c, 'd, 's, 'i) snapshot_env
    \<Rightarrow> 's snapshot_provider \<Rightarrow> ('c, 'd, 's, 'i, 'q, 'r) snapshot_shared
    \<Rightarrow> bool \<times> 's snapshot_provider \<times> ('c, 'd, 's, 'i, 'q, 'r) snapshot_shared" where
  "poll_pending_requests ops env p sh =
    (let requests = coll_requests_tx (state_machine sh);
         sh1 = sh\<lparr>state_machine := (state_machine sh)\<lparr>coll_requests_tx := []\<rparr>\<rparr>
     in (requests \<noteq> [], foldl (offer_snapshot ops env) (p, sh1) requests))"

definition prune_expired_snapshots :: "'s snapshot_provider \<Rightarrow> 's snapshot_provider" where
  "prune_expired_snapshots p =
    p\<lparr>sp_available := filter (\<lambda>(_, snapshot). \<not> as_expired snapshot) (sp_available p)\<rparr>"

definition snapshot_provider_poll ::
  "('c, 'd, 's, 'i, 'q, 'r) snapshot_machine_ops \<Rightarrow> ('c, 'd, 's, 'i) snapshot_env
    \<Rightarrow> 's snapshot_provider \<Rightarrow> ('c, 'd, 's, 'i, 'q, 'r) snapshot_shared
    \<Rightarrow> 's snapshot_provider \<times> ('c, 'd, 's, 'i, 'q, 'r) snapshot_shared \<times> bool" where
  "snapshot_provider_poll ops env p sh =
    (case poll_pending_requests ops env p sh of
       (True, p1, sh1) \<Rightarrow> (p1, sh1, True)
     | (False, p1, sh1) \<Rightarrow> (prune_expired_snapshots p1, sh1, False))"

definition on_snapshot_request ::
  "('c, 'd, 's, 'i) snapshot_env \<Rightarrow> snapshot_request
    \<Rightarrow> ('c, 'd, 's, 'i, 'q, 'r) snapshot_shared \<Rightarrow> ('c, 'd, 's, 'i, 'q, 'r) snapshot_shared" where
  "on_snapshot_request env request sh =
    (if \<not> provider_is_leader sh then sh
     else case feed_command (se_to_command env request) sh of None \<Rightarrow> sh | Some sh1 \<Rightarrow> sh1)"

definition on_fetch_data_request ::
  "('c, 'd, 's, 'i, 'q, 'r) snapshot_machine_ops \<Rightarrow> ('c, 'd, 's, 'i) snapshot_env
    \<Rightarrow> fetch_data_request \<Rightarrow> peer_id \<Rightarrow> 's snapshot_provider \<Rightarrow> ('c, 'd, 's, 'i, 'q, 'r) snapshot_shared
    \<Rightarrow> 's snapshot_provider \<times> ('c, 'd, 's, 'i, 'q, 'r) snapshot_shared" where
  "on_fetch_data_request ops env request sender p sh =
    (case map_of (sp_available p) (fd_anchor request) of
       None \<Rightarrow> (p, sh)
     | Some available \<Rightarrow>
         let start = fst (fd_range request);
             ende = min (snd (fd_range request)) (wrapping_add start (fetch_batch_size (se_config env)));
             rng = (start, ende)
         in if half_open_is_empty rng then (p, sh)
            else let p1 = p\<lparr>sp_available :=
                       AList.update (fd_anchor request) (snap_revive available) (sp_available p)\<rparr>
                 in case se_iter_range env (as_snapshot available) rng of
                      None \<Rightarrow> (p1, sh)
                    | Some items \<Rightarrow>
                        (p1, snap_send ops sender (FetchDataResponse
                               \<lparr>fr_anchor = fd_anchor request, fr_offset = start, fr_items = items\<rparr>) sh))"

fun snapshot_provider_receive ::
  "('c, 'd, 's, 'i, 'q, 'r) snapshot_machine_ops \<Rightarrow> ('c, 'd, 's, 'i) snapshot_env
    \<Rightarrow> 's snapshot_provider \<Rightarrow> 'i snapshot_message \<Rightarrow> peer_id \<Rightarrow> ('c, 'd, 's, 'i, 'q, 'r) snapshot_shared
    \<Rightarrow> 's snapshot_provider \<times> ('c, 'd, 's, 'i, 'q, 'r) snapshot_shared \<times> 'i snapshot_message option" where
  "snapshot_provider_receive ops env p RequestSnapshot sender sh =
    (p, on_snapshot_request env \<lparr>requested_by = sender, requested_at = sp_now p\<rparr> sh, None)"
| "snapshot_provider_receive ops env p (FetchDataRequest request) sender sh =
    (let (p1, sh1) = on_fetch_data_request ops env request sender p sh in (p1, sh1, None))"
| "snapshot_provider_receive ops env p other sender sh = (p, sh, Some other)"

definition snapshot_safe_to_prune ::
  "'s snapshot_provider \<Rightarrow> ('c, 'd, 's, 'i, 'q, 'r) snapshot_shared \<Rightarrow> raft_index option" where
  "snapshot_safe_to_prune p sh = Some (cursor_index (committed sh))"

section \<open>The session\<close>

text \<open>\<open>None\<close> is the panic when no leader is known.\<close>

definition snapshot_session_new ::
  "('c, 'd, 's, 'i, 'q, 'r) snapshot_machine_ops \<Rightarrow> ('c, 'd, 's, 'i) snapshot_env
    \<Rightarrow> ('c, 'd, 's, 'i, 'q, 'r) snapshot_shared \<Rightarrow> cursor \<Rightarrow> ('c \<times> raft_term) list
    \<Rightarrow> (('c, 's, 'i) snapshot_session \<times> ('c, 'd, 's, 'i, 'q, 'r) snapshot_shared) option" where
  "snapshot_session_new ops env sh position es =
    (case when_leader sh of
       None \<Rightarrow> None
     | Some leader \<Rightarrow>
         Some (\<lparr>ss_leader = leader, ss_trigger_position = cursor_index position, ss_anchor = None,
                ss_snapshot_len = 0, ss_gap = None, ss_anchor_candidates = [],
                ss_buffered = index_entries (pos_next (cursor_index position)) es,
                ss_terminations = [], ss_known_bonds = {}, ss_available_peers = [], ss_inflight = [],
                ss_fetched = [], ss_accumulated = se_empty env, ss_request_timer = Some False\<rparr>,
               snap_send ops leader RequestSnapshot sh))"

definition earliest_buffered :: "('c, 's, 'i) snapshot_session \<Rightarrow> raft_index option" where
  "earliest_buffered s = (case ss_buffered s of [] \<Rightarrow> None | (idx, _, _) # _ \<Rightarrow> Some idx)"

definition anchor_usable :: "('c, 's, 'i) snapshot_session \<Rightarrow> cursor \<Rightarrow> bool" where
  "anchor_usable s anchor =
    (case earliest_buffered s of None \<Rightarrow> True | Some earliest \<Rightarrow> cursor_index anchor \<ge> earliest)"

text \<open>\<open>Iterator::max_by_key\<close> on the anchor index: the last of the largest.\<close>

fun max_by_index :: "(cursor \<times> 'a) list \<Rightarrow> (cursor \<times> 'a) option" where
  "max_by_index [] = None"
| "max_by_index (x # xs) =
    (case max_by_index xs of
       None \<Rightarrow> Some x
     | Some y \<Rightarrow> if cursor_index (fst x) > cursor_index (fst y) then Some x else Some y)"

definition try_upgrade_anchor ::
  "('c, 'd, 's, 'i) snapshot_env \<Rightarrow> ('c, 's, 'i) snapshot_session \<Rightarrow> bool \<times> ('c, 's, 'i) snapshot_session" where
  "try_upgrade_anchor env s =
    (case ss_anchor s of
       None \<Rightarrow> (False, s)
     | Some current \<Rightarrow>
         (case max_by_index (filter (\<lambda>(c, _). cursor_index c > cursor_index current \<and> anchor_usable s c)
                               (ss_anchor_candidates s)) of
            None \<Rightarrow> (False, s)
          | Some (new_anchor, info, peers) \<Rightarrow>
              (True, s\<lparr>ss_anchor := Some new_anchor, ss_snapshot_len := si_items_count info,
                        ss_accumulated := se_empty env, ss_inflight := [], ss_fetched := [],
                        ss_gap := Some (0, si_items_count info), ss_available_peers := peers\<rparr>)))"

definition try_select_anchor ::
  "('c, 'd, 's, 'i) snapshot_env \<Rightarrow> ('c, 's, 'i) snapshot_session \<Rightarrow> bool \<times> ('c, 's, 'i) snapshot_session" where
  "try_select_anchor env s =
    (if ss_anchor s \<noteq> None then try_upgrade_anchor env s
     else let candidates = sort_key (\<lambda>(c, _). - int (cursor_index c)) (ss_anchor_candidates s)
          in case List.find (\<lambda>(c, _). anchor_usable s c) candidates of
               None \<Rightarrow> (False, s)
             | Some (anchor, info, peers) \<Rightarrow>
                 (True, s\<lparr>ss_anchor := Some anchor, ss_snapshot_len := si_items_count info,
                           ss_gap := Some (if si_items_count info > 0 then (0, si_items_count info) else (0, 0)),
                           ss_available_peers := foldl (\<lambda>ps p. List.insert p ps) (ss_available_peers s) peers\<rparr>))"

definition on_snapshot_ready ::
  "('c, 'd, 's, 'i) snapshot_env \<Rightarrow> peer_id \<Rightarrow> snapshot_info \<Rightarrow> ('c, 's, 'i) snapshot_session
    \<Rightarrow> ('c, 's, 'i) snapshot_session" where
  "on_snapshot_ready env peer info s =
    (let s1 = s\<lparr>ss_request_timer := None\<rparr>;
         entry = (case map_of (ss_anchor_candidates s1) (si_anchor info) of
                    None \<Rightarrow> (info, []) | Some e \<Rightarrow> e);
         s2 = s1\<lparr>ss_anchor_candidates := AList.update (si_anchor info)
                   (fst entry, List.insert peer (snd entry)) (ss_anchor_candidates s1)\<rparr>;
         s3 = (if ss_anchor s2 = Some (si_anchor info)
               then s2\<lparr>ss_available_peers := List.insert peer (ss_available_peers s2)\<rparr> else s2)
     in snd (try_select_anchor env s3))"

definition on_fetch_data_response ::
  "peer_id \<Rightarrow> 'i fetch_data_response \<Rightarrow> ('c, 's, 'i) snapshot_session \<Rightarrow> ('c, 's, 'i) snapshot_session" where
  "on_fetch_data_response peer response s =
    (if ss_anchor s \<noteq> Some (fr_anchor response) then s
     else let start = fr_offset response; ende = wrapping_add start (length (fr_items response))
          in s\<lparr>ss_inflight := AList.delete peer (ss_inflight s),
               ss_fetched := btree_insert start (ende, fr_items response) (ss_fetched s)\<rparr>)"

definition snap_drop_peer ::
  "('c, 's, 'i) snapshot_session \<Rightarrow> peer_id \<Rightarrow> ('c, 's, 'i) snapshot_session" where
  "snap_drop_peer s peer =
    s\<lparr>ss_available_peers := removeAll peer (ss_available_peers s),
      ss_inflight := AList.delete peer (ss_inflight s),
      ss_known_bonds := ss_known_bonds s - {peer},
      ss_anchor_candidates :=
        map (\<lambda>(c, info, peers). (c, info, removeAll peer peers)) (ss_anchor_candidates s)\<rparr>"

definition snap_poll_terminations :: "('c, 's, 'i) snapshot_session \<Rightarrow> ('c, 's, 'i) snapshot_session" where
  "snap_poll_terminations s = foldl snap_drop_peer (s\<lparr>ss_terminations := []\<rparr>) (ss_terminations s)"

definition snap_drop_timed_out ::
  "('c, 's, 'i) snapshot_session \<Rightarrow> peer_id \<Rightarrow> ('c, 's, 'i) snapshot_session" where
  "snap_drop_timed_out s peer =
    s\<lparr>ss_inflight := AList.delete peer (ss_inflight s),
      ss_available_peers := removeAll peer (ss_available_peers s)\<rparr>"

definition snap_poll_timeouts :: "('c, 's, 'i) snapshot_session \<Rightarrow> ('c, 's, 'i) snapshot_session" where
  "snap_poll_timeouts s =
    (let timed_out = map fst (filter (\<lambda>(_, pending). sf_timed_out pending) (ss_inflight s))
     in foldl snap_drop_timed_out s timed_out)"

definition poll_snapshot_request_timeout ::
  "('c, 'd, 's, 'i, 'q, 'r) snapshot_machine_ops \<Rightarrow> ('c, 's, 'i) snapshot_session
    \<Rightarrow> ('c, 'd, 's, 'i, 'q, 'r) snapshot_shared
    \<Rightarrow> (('c, 's, 'i) snapshot_session \<times> ('c, 'd, 's, 'i, 'q, 'r) snapshot_shared) option" where
  "poll_snapshot_request_timeout ops s sh =
    (case ss_request_timer s of
       Some True \<Rightarrow>
         (case when_leader sh of
            None \<Rightarrow> None
          | Some leader \<Rightarrow> Some (s\<lparr>ss_request_timer := Some False\<rparr>, snap_send ops leader RequestSnapshot sh))
     | _ \<Rightarrow> Some (s, sh))"

definition snap_poll_new_bonds ::
  "('c, 'd, 's, 'i, 'q, 'r) snapshot_shared \<Rightarrow> ('c, 's, 'i) snapshot_session \<Rightarrow> ('c, 's, 'i) snapshot_session" where
  "snap_poll_new_bonds sh s = s\<lparr>ss_known_bonds := set (sh_bonds sh)\<rparr>"

definition snap_idle_peers :: "('c, 's, 'i) snapshot_session \<Rightarrow> peer_id list" where
  "snap_idle_peers s =
    sort_key (\<lambda>p. if p = ss_leader s then 1 else (0 :: int))
      (filter (\<lambda>p. map_of (ss_inflight s) p = None) (ss_available_peers s))"

definition snap_send_fetch ::
  "('c, 'd, 's, 'i, 'q, 'r) snapshot_machine_ops \<Rightarrow> peer_id \<Rightarrow> cursor \<Rightarrow> nat \<times> nat
    \<Rightarrow> ('c, 's, 'i) snapshot_session \<Rightarrow> ('c, 'd, 's, 'i, 'q, 'r) snapshot_shared
    \<Rightarrow> ('c, 's, 'i) snapshot_session \<times> ('c, 'd, 's, 'i, 'q, 'r) snapshot_shared" where
  "snap_send_fetch ops peer anchor rng s sh =
    (s\<lparr>ss_inflight := AList.update peer \<lparr>sf_range = rng, sf_timed_out = False\<rparr> (ss_inflight s)\<rparr>,
     snap_send ops peer (FetchDataRequest \<lparr>fd_anchor = anchor, fd_range = rng\<rparr>) sh)"

fun snap_skip_until :: "nat \<Rightarrow> (nat \<times> nat) list \<Rightarrow> nat \<Rightarrow> nat" where
  "snap_skip_until gap_end [] cur = cur"
| "snap_skip_until gap_end (r # rs) cur =
    (if cur \<ge> gap_end then cur
     else snap_skip_until gap_end rs (if fst r \<le> cur \<and> snd r > cur then snd r else cur))"

definition snap_skip_assigned :: "(nat \<times> nat) list \<Rightarrow> nat \<Rightarrow> nat" where
  "snap_skip_assigned rs cur = foldl (\<lambda>cur r. if fst r \<le> cur \<and> snd r > cur then snd r else cur) cur rs"

definition snap_assigned :: "('c, 's, 'i) snapshot_session \<Rightarrow> (nat \<times> nat) list" where
  "snap_assigned s =
    sort_key fst (map (sf_range \<circ> snd) (ss_inflight s) @ map (\<lambda>(start, ende, _). (start, ende)) (ss_fetched s))"

fun snap_assign_chunks ::
  "('c, 'd, 's, 'i, 'q, 'r) snapshot_machine_ops \<Rightarrow> nat \<Rightarrow> cursor \<Rightarrow> nat \<Rightarrow> (nat \<times> nat) list \<Rightarrow> nat
    \<Rightarrow> peer_id list \<Rightarrow> ('c, 's, 'i) snapshot_session \<Rightarrow> ('c, 'd, 's, 'i, 'q, 'r) snapshot_shared
    \<Rightarrow> ('c, 's, 'i) snapshot_session \<times> ('c, 'd, 's, 'i, 'q, 'r) snapshot_shared" where
  "snap_assign_chunks ops chunk_size anchor gap_end assigned cur [] s sh = (s, sh)"
| "snap_assign_chunks ops chunk_size anchor gap_end assigned cur (peer # idle) s sh =
    (if cur < gap_end
     then let chunk_end = min (wrapping_add cur chunk_size) gap_end;
              (s1, sh1) = snap_send_fetch ops peer anchor (cur, chunk_end) s sh
          in snap_assign_chunks ops chunk_size anchor gap_end assigned
               (snap_skip_assigned assigned chunk_end) idle s1 sh1
     else (s, sh))"

definition snap_schedule_fetches ::
  "('c, 'd, 's, 'i, 'q, 'r) snapshot_machine_ops \<Rightarrow> ('c, 'd, 's, 'i) snapshot_env
    \<Rightarrow> ('c, 's, 'i) snapshot_session \<Rightarrow> ('c, 'd, 's, 'i, 'q, 'r) snapshot_shared
    \<Rightarrow> ('c, 's, 'i) snapshot_session \<times> ('c, 'd, 's, 'i, 'q, 'r) snapshot_shared" where
  "snap_schedule_fetches ops env s sh =
    (case (ss_gap s, ss_anchor s) of
       (Some gap, Some anchor) \<Rightarrow>
         if half_open_is_empty gap then (s, sh)
         else let assigned = snap_assigned s
              in snap_assign_chunks ops (fetch_batch_size (se_config env)) anchor (snd gap) assigned
                   (snap_skip_until (snd gap) assigned (fst gap)) (snap_idle_peers s) s sh
     | _ \<Rightarrow> (s, sh))"

fun snap_drain ::
  "('s \<Rightarrow> 'i list \<Rightarrow> 's) \<Rightarrow> nat \<Rightarrow> (nat \<times> nat \<times> 'i list) list \<Rightarrow> 's
    \<Rightarrow> nat \<times> (nat \<times> nat \<times> 'i list) list \<times> 's" where
  "snap_drain app cur [] acc = (cur, [], acc)"
| "snap_drain app cur ((start, ende, items) # rest) acc =
    (if start \<noteq> cur then (cur, (start, ende, items) # rest, acc)
     else snap_drain app ende rest (app acc items))"

definition drain_fetched_items ::
  "('c, 'd, 's, 'i) snapshot_env \<Rightarrow> ('c, 's, 'i) snapshot_session \<Rightarrow> ('c, 's, 'i) snapshot_session" where
  "drain_fetched_items env s =
    (case ss_gap s of
       None \<Rightarrow> s
     | Some gap \<Rightarrow>
         if half_open_is_empty gap then s
         else let (cur, fetched, acc) = snap_drain (se_append env) (fst gap) (ss_fetched s) (ss_accumulated s);
                  s1 = s\<lparr>ss_fetched := fetched, ss_accumulated := acc\<rparr>
              in if cur \<noteq> fst gap then s1\<lparr>ss_gap := Some (cur, snd gap)\<rparr> else s1)"

text \<open>\<open>None\<close>: no anchor, or a buffered entry is not at the next position (a failed assertion).\<close>

definition snap_finalize ::
  "('c, 'd, 's, 'i) snapshot_env \<Rightarrow> ('c, 's, 'i) snapshot_session
    \<Rightarrow> ('c, 'd, 's, 'i, 'q, 'r) snapshot_shared
    \<Rightarrow> (('c, 's, 'i) snapshot_session \<times> ('c, 'd, 's, 'i, 'q, 'r) snapshot_shared) option" where
  "snap_finalize env s sh =
    (case ss_anchor s of
       None \<Rightarrow> None
     | Some anchor \<Rightarrow>
         let sh1 = sh\<lparr>state_machine := se_install env (state_machine sh) (ss_accumulated s)\<rparr>;
             sh2 = set_committed (sh1\<lparr>storage := log_reset_to (storage sh1) anchor\<rparr>) anchor;
             buffered = filter (\<lambda>(idx, _, _). idx > cursor_index anchor) (ss_buffered s)
         in map_option (\<lambda>st. (s\<lparr>ss_accumulated := se_empty env, ss_buffered := []\<rparr>, sh2\<lparr>storage := st\<rparr>))
              (apply_buffered (pos_next (cursor_index anchor)) buffered (storage sh2)))"

definition is_sync_complete :: "('c, 's, 'i) snapshot_session \<Rightarrow> bool" where
  "is_sync_complete s \<longleftrightarrow>
    ss_anchor s \<noteq> None \<and> (case ss_gap s of None \<Rightarrow> False | Some gap \<Rightarrow> half_open_is_empty gap)"

definition snapshot_session_poll ::
  "('c, 'd, 's, 'i, 'q, 'r) snapshot_machine_ops \<Rightarrow> ('c, 'd, 's, 'i) snapshot_env
    \<Rightarrow> ('c, 's, 'i) snapshot_session \<Rightarrow> ('c, 'd, 's, 'i, 'q, 'r) snapshot_shared
    \<Rightarrow> (('c, 's, 'i) snapshot_session \<times> ('c, 'd, 's, 'i, 'q, 'r) snapshot_shared \<times> cursor option) option" where
  "snapshot_session_poll ops env s sh =
    (if is_sync_complete s
     then map_option (\<lambda>(s1, sh1). (s1, sh1, Some (log_last (storage sh1)))) (snap_finalize env s sh)
     else do {
       (s1, sh1) \<leftarrow> poll_snapshot_request_timeout ops (snap_poll_terminations s) sh;
       let s2 = snd (try_select_anchor env s1);
       let s3 = snap_poll_timeouts (drain_fetched_items env s2);
       let (s4, sh2) = snap_schedule_fetches ops env (snap_poll_new_bonds sh1 s3) sh1;
       Some (s4, sh2, None)
     })"

text \<open>Messages the provider handles do not reach a session (\<open>unreachable!\<close> otherwise).\<close>

fun snapshot_session_receive ::
  "('c, 'd, 's, 'i) snapshot_env \<Rightarrow> ('c, 's, 'i) snapshot_session \<Rightarrow> 'i snapshot_message \<Rightarrow> peer_id
    \<Rightarrow> ('c, 's, 'i) snapshot_session option" where
  "snapshot_session_receive env s (SnapshotOffer info) sender = Some (on_snapshot_ready env sender info s)"
| "snapshot_session_receive env s (FetchDataResponse response) sender =
    Some (on_fetch_data_response sender response s)"
| "snapshot_session_receive env s _ sender = None"

definition snapshot_session_buffer ::
  "('c, 's, 'i) snapshot_session \<Rightarrow> cursor \<Rightarrow> ('c \<times> raft_term) list \<Rightarrow> ('c, 's, 'i) snapshot_session" where
  "snapshot_session_buffer s position es =
    s\<lparr>ss_buffered := ss_buffered s @ index_entries (pos_next (cursor_index position)) es\<rparr>"

definition snapshot_sync ::
  "('c, 'd, 's, 'i, 'q, 'r) snapshot_machine_ops \<Rightarrow> ('c, 'd, 's, 'i) snapshot_env
    \<Rightarrow> ('c, ('c, 's, 'i) snapshot_session, 's snapshot_provider, 'i snapshot_message,
        ('c, 'd, 's, 'i, 'q, 'r) snapshot_shared) sync_ops" where
  "snapshot_sync ops env =
    \<lparr>create_session = (\<lambda>sh position _ es. snapshot_session_new ops env sh position es),
     session_poll = snapshot_session_poll ops env,
     session_receive = (\<lambda>s msg sender sh. map_option (\<lambda>s1. (s1, sh)) (snapshot_session_receive env s msg sender)),
     session_buffer = (\<lambda>s position es sh. Some (snapshot_session_buffer s position es, sh)),
     provider_receive = (\<lambda>p msg sender sh. Some (snapshot_provider_receive ops env p msg sender sh)),
     provider_committed = (\<lambda>p c sh. (p, sh)),
     provider_safe_to_prune = snapshot_safe_to_prune,
     provider_poll = (\<lambda>p sh. Some (snapshot_provider_poll ops env p sh))\<rparr>"

section \<open>The contract\<close>

lemma snap_send_frame [simp]: "sync_frame a sh \<Longrightarrow> sync_frame a (snap_send ops peer msg sh)"
  by (auto simp: snap_send_def sync_send_def send_raft_to_def sync_frame_def is_state_sync_def)

lemma snap_send_state [simp]:
  "storage (snap_send ops peer msg sh) = storage sh"
  "committed (snap_send ops peer msg sh) = committed sh"
  "state_machine (snap_send ops peer msg sh) = state_machine sh"
  "when_leader (snap_send ops peer msg sh) = when_leader sh"
  "sh_bonds (snap_send ops peer msg sh) = sh_bonds sh"
  by (simp_all add: snap_send_def sync_send_def send_raft_to_def)

lemma sync_frame_updates [simp]:
  "sync_frame a (sh\<lparr>state_machine := m\<rparr>) \<longleftrightarrow> sync_frame a sh"
  "sync_frame a (sh\<lparr>worker_tx := cs\<rparr>) \<longleftrightarrow> sync_frame a sh"
  "sync_frame a (set_committed sh c) \<longleftrightarrow> sync_frame a sh"
  by (simp_all add: sync_frame_def set_committed_def)

lemma offer_snapshot_frame [simp]: "sync_frame a (snd psh) \<Longrightarrow> sync_frame a (snd (offer_snapshot ops env psh r))"
  by (cases psh) (simp add: offer_snapshot_def Let_def)

lemma offer_snapshots_frame [simp]:
  "sync_frame a (snd psh) \<Longrightarrow> sync_frame a (snd (foldl (offer_snapshot ops env) psh rs))"
  by (induction rs arbitrary: psh) simp_all

lemma snap_assign_chunks_frame [simp]:
  "sync_frame a sh \<Longrightarrow> sync_frame a (snd (snap_assign_chunks ops n anchor ge asg cur idle s sh))"
  by (induction ops n anchor ge asg cur idle s sh rule: snap_assign_chunks.induct)
    (simp_all add: snap_send_fetch_def Let_def)

lemma snap_assign_chunks_state:
  "storage (snd (snap_assign_chunks ops n anchor ge asg cur idle s sh)) = storage sh \<and>
    committed (snd (snap_assign_chunks ops n anchor ge asg cur idle s sh)) = committed sh \<and>
    state_machine (snd (snap_assign_chunks ops n anchor ge asg cur idle s sh)) = state_machine sh"
  by (induction ops n anchor ge asg cur idle s sh rule: snap_assign_chunks.induct)
    (simp_all add: snap_send_fetch_def Let_def)

lemma snap_schedule_frame [simp]: "sync_frame a sh \<Longrightarrow> sync_frame a (snd (snap_schedule_fetches ops env s sh))"
  by (simp add: snap_schedule_fetches_def Let_def split: option.splits)

lemma snap_schedule_state:
  "storage (snd (snap_schedule_fetches ops env s sh)) = storage sh"
  "committed (snd (snap_schedule_fetches ops env s sh)) = committed sh"
  "state_machine (snd (snap_schedule_fetches ops env s sh)) = state_machine sh"
  by (simp_all add: snap_schedule_fetches_def Let_def snap_assign_chunks_state split: option.splits)

lemma request_timeout_frame:
  assumes "poll_snapshot_request_timeout ops s sh = Some (s', sh')"
  shows "sync_frame sh sh' \<and> storage sh' = storage sh \<and> committed sh' = committed sh \<and>
    state_machine sh' = state_machine sh \<and> sh_bonds sh' = sh_bonds sh"
    and "s' = s\<lparr>ss_request_timer := ss_request_timer s'\<rparr>"
  using assms by (auto simp: poll_snapshot_request_timeout_def split: option.splits bool.splits)

lemma snap_finalize_frame:
  assumes "snap_finalize env s sh = Some (s', sh')"
  shows "sync_frame sh sh'"
  using assms by (auto simp: snap_finalize_def Let_def split: option.splits)

lemma snapshot_poll_frame:
  assumes "snapshot_session_poll ops env s sh = Some (s', sh', r)"
  shows "sync_frame sh sh'"
proof (cases "is_sync_complete s")
  case True
  then show ?thesis using assms by (auto simp: snapshot_session_poll_def dest: snap_finalize_frame)
next
  case False
  then obtain s1 sh1 where 1: "poll_snapshot_request_timeout ops (snap_poll_terminations s) sh = Some (s1, sh1)"
    using assms by (auto simp: snapshot_session_poll_def bind_eq_Some_conv)
  have "\<exists>x. sh' = snd (snap_schedule_fetches ops env x sh1)"
    using assms False 1 by (auto simp: snapshot_session_poll_def Let_def split: prod.splits) (metis snd_conv)
  then show ?thesis using request_timeout_frame(1) [OF 1] by auto
qed

lemma snapshot_provider_frame:
  assumes "snapshot_provider_receive ops env p msg sender sh = (p', sh', rejected)"
  shows "sync_frame sh sh'"
proof (cases msg)
  case RequestSnapshot
  then show ?thesis using assms
    by (auto simp: on_snapshot_request_def feed_command_def)
next
  case (FetchDataRequest request)
  then show ?thesis using assms
    by (auto simp: on_fetch_data_request_def Let_def split: option.splits if_splits)
qed (use assms in simp_all)

lemma snapshot_provider_poll_frame:
  assumes "snapshot_provider_poll ops env p sh = (p', sh', b)"
  shows "sync_frame sh sh'"
proof -
  define sh0 where "sh0 = sh\<lparr>state_machine := (state_machine sh)\<lparr>coll_requests_tx := []\<rparr>\<rparr>"
  have "sh' = snd (foldl (offer_snapshot ops env) (p, sh0) (coll_requests_tx (state_machine sh)))"
    using assms by (auto simp: snapshot_provider_poll_def poll_pending_requests_def sh0_def Let_def
        split: prod.splits bool.splits)
  then show ?thesis by (simp add: sh0_def)
qed

interpretation sn: state_sync "snapshot_sync ops env" for ops env
proof (unfold_locales, goal_cases)
  case 1 then show ?case by (auto simp: snapshot_sync_def snapshot_session_new_def split: option.splits)
next
  case 2 then show ?case by (auto simp: snapshot_sync_def dest: snapshot_poll_frame)
next
  case 3 then show ?case by (auto simp: snapshot_sync_def)
next
  case 4 then show ?case by (auto simp: snapshot_sync_def)
next
  case 5 then show ?case by (auto simp: snapshot_sync_def dest: snapshot_provider_frame)
next
  case 6 then show ?case by (auto simp: snapshot_sync_def)
next
  case 7 then show ?case by (auto simp: snapshot_sync_def)
next
  case 8 then show ?case by (auto simp: snapshot_sync_def dest: snapshot_provider_poll_frame)
qed

section \<open>What a session accumulates\<close>

text \<open>
  \<open>state\<close> is the data at each position of the log. Peers are honest if what they offer at an anchor
  is the snapshot of the data there; a chunk is honest if it holds the items of its range.
\<close>

definition honest_chunk_of :: "'i list \<Rightarrow> nat \<times> nat \<times> 'i list \<Rightarrow> bool" where
  "honest_chunk_of L ch \<longleftrightarrow>
    (case ch of (start, ende, is) \<Rightarrow>
      start < ende \<and> ende \<le> length L \<and> is = take (ende - start) (drop start L))"

definition honest_response :: "(cursor \<Rightarrow> 'i list) \<Rightarrow> 'i fetch_data_response \<Rightarrow> bool" where
  "honest_response truth r \<longleftrightarrow>
    honest_chunk_of (truth (fr_anchor r))
      (fr_offset r, fr_offset r + length (fr_items r), fr_items r)"

definition honest_offer :: "(cursor \<Rightarrow> 'i list) \<Rightarrow> snapshot_info \<Rightarrow> bool" where
  "honest_offer truth info \<longleftrightarrow> si_items_count info = length (truth (si_anchor info))"

fun honest_message :: "(cursor \<Rightarrow> 'i list) \<Rightarrow> 'i snapshot_message \<Rightarrow> bool" where
  "honest_message truth (SnapshotOffer info) = honest_offer truth info"
| "honest_message truth (FetchDataResponse r) = honest_response truth r"
| "honest_message truth _ = True"

text \<open>The invariant of a session that receives honest messages.\<close>

definition candidates_ok :: "(cursor \<Rightarrow> 'i list) \<Rightarrow> (cursor \<times> snapshot_info \<times> peer_id list) list \<Rightarrow> bool" where
  "candidates_ok truth cs \<longleftrightarrow> (\<forall>x \<in> set cs. si_items_count (fst (snd x)) = length (truth (fst x)))"

definition progress_ok ::
  "('c, 'd, 's, 'i) snapshot_env \<Rightarrow> (cursor \<Rightarrow> 'i list) \<Rightarrow> cursor option \<Rightarrow> (nat \<times> nat) option
    \<Rightarrow> (nat \<times> nat \<times> 'i list) list \<Rightarrow> 's \<Rightarrow> bool" where
  "progress_ok env truth anchor gap fetched acc \<longleftrightarrow>
    (case anchor of
       None \<Rightarrow> gap = None \<and> fetched = [] \<and> acc = se_empty env
     | Some a \<Rightarrow>
         (\<exists>lo \<le> length (truth a). gap = Some (lo, length (truth a)) \<and>
            acc = se_append env (se_empty env) (take lo (truth a))) \<and>
         (\<forall>ch \<in> set fetched. honest_chunk_of (truth a) ch))"

definition snap_ok ::
  "('c, 'd, 's, 'i) snapshot_env \<Rightarrow> (cursor \<Rightarrow> 'i list) \<Rightarrow> ('c, 's, 'i) snapshot_session \<Rightarrow> bool" where
  "snap_ok env truth s \<longleftrightarrow>
    candidates_ok truth (ss_anchor_candidates s) \<and>
    progress_ok env truth (ss_anchor s) (ss_gap s) (ss_fetched s) (ss_accumulated s)"

lemma max_by_index_in: "max_by_index xs = Some x \<Longrightarrow> x \<in> set xs"
  by (induction xs arbitrary: x) (auto split: option.splits if_splits)

lemma max_by_index_max:
  "max_by_index xs = Some x \<Longrightarrow> y \<in> set xs \<Longrightarrow> cursor_index (fst y) \<le> cursor_index (fst x)"
proof (induction xs arbitrary: x)
  case Nil
  then show ?case by simp
next
  case (Cons z zs)
  have "max_by_index zs = None \<Longrightarrow> zs = []" by (cases zs) (auto split: option.splits if_splits)
  then show ?case using Cons by (fastforce split: option.splits if_splits)
qed

lemma candidates_okD:
  "candidates_ok truth cs \<Longrightarrow> (a, info, ps) \<in> set cs \<Longrightarrow> si_items_count info = length (truth a)"
  by (force simp: candidates_ok_def)

lemma candidates_ok_update:
  assumes "candidates_ok truth cs" and "si_items_count i = length (truth a)"
  shows "candidates_ok truth (AList.update a (i, ps) cs)"
  using assms alist_update_set [of a "(i, ps)" cs] by (auto simp: candidates_ok_def)

lemma snap_drop_peer_ok [simp]: "snap_ok env truth (snap_drop_peer s p) \<longleftrightarrow> snap_ok env truth s"
  by (simp add: snap_ok_def snap_drop_peer_def candidates_ok_def case_prod_beta)

lemma terminations_ok [simp]: "snap_ok env truth (snap_poll_terminations s) \<longleftrightarrow> snap_ok env truth s"
proof -
  have "snap_ok env truth (foldl snap_drop_peer s ps) \<longleftrightarrow> snap_ok env truth s" for s ps
    by (induction ps arbitrary: s) simp_all
  then show ?thesis by (simp add: snap_poll_terminations_def snap_ok_def)
qed

lemma timeouts_ok [simp]: "snap_ok env truth (snap_poll_timeouts s) \<longleftrightarrow> snap_ok env truth s"
proof -
  have "snap_ok env truth (foldl snap_drop_timed_out s ps) \<longleftrightarrow> snap_ok env truth s" for s ps
    by (induction ps arbitrary: s) (simp_all add: snap_ok_def snap_drop_timed_out_def)
  then show ?thesis by (simp add: snap_poll_timeouts_def Let_def)
qed

lemma new_bonds_ok [simp]: "snap_ok env truth (snap_poll_new_bonds sh s) \<longleftrightarrow> snap_ok env truth s"
  by (simp add: snap_ok_def snap_poll_new_bonds_def)

lemma snap_assign_ok [simp]:
  "snap_ok env truth (fst (snap_assign_chunks ops n anchor ge asg cur idle s sh)) \<longleftrightarrow> snap_ok env truth s"
  by (induction ops n anchor ge asg cur idle s sh rule: snap_assign_chunks.induct)
    (simp_all add: snap_send_fetch_def Let_def snap_ok_def)

lemma schedule_ok [simp]: "snap_ok env truth (fst (snap_schedule_fetches ops env' s sh)) \<longleftrightarrow> snap_ok env truth s"
  by (simp add: snap_schedule_fetches_def Let_def split: option.splits)

lemma request_timeout_ok:
  "poll_snapshot_request_timeout ops s sh = Some (s', sh') \<Longrightarrow> snap_ok env truth s' \<longleftrightarrow> snap_ok env truth s"
  using request_timeout_frame(2) [of ops s sh s' sh'] by (metis snap_ok_def snapshot_session.select_convs snapshot_session.surjective
      snapshot_session.update_convs(14))

text \<open>What the parts of a poll keep of a session.\<close>

lemma snap_drop_peers_state:
  "ss_anchor (foldl snap_drop_peer s ps) = ss_anchor s \<and> ss_gap (foldl snap_drop_peer s ps) = ss_gap s \<and>
    ss_fetched (foldl snap_drop_peer s ps) = ss_fetched s \<and>
    ss_accumulated (foldl snap_drop_peer s ps) = ss_accumulated s \<and>
    ss_buffered (foldl snap_drop_peer s ps) = ss_buffered s \<and>
    ss_request_timer (foldl snap_drop_peer s ps) = ss_request_timer s \<and>
    fst ` set (ss_anchor_candidates (foldl snap_drop_peer s ps)) = fst ` set (ss_anchor_candidates s)"
  by (induction ps arbitrary: s) (simp_all add: snap_drop_peer_def image_image case_prod_beta)

lemma snap_poll_terminations_state:
  "ss_anchor (snap_poll_terminations s) = ss_anchor s" "ss_gap (snap_poll_terminations s) = ss_gap s"
  "ss_fetched (snap_poll_terminations s) = ss_fetched s"
  "ss_accumulated (snap_poll_terminations s) = ss_accumulated s"
  "ss_buffered (snap_poll_terminations s) = ss_buffered s"
  "ss_request_timer (snap_poll_terminations s) = ss_request_timer s"
  "fst ` set (ss_anchor_candidates (snap_poll_terminations s)) = fst ` set (ss_anchor_candidates s)"
  by (simp_all add: snap_poll_terminations_def snap_drop_peers_state)

lemma snap_drop_timed_out_state:
  "ss_anchor (foldl snap_drop_timed_out s ps) = ss_anchor s \<and> ss_gap (foldl snap_drop_timed_out s ps) = ss_gap s \<and>
    ss_fetched (foldl snap_drop_timed_out s ps) = ss_fetched s \<and>
    ss_buffered (foldl snap_drop_timed_out s ps) = ss_buffered s"
  by (induction ps arbitrary: s) (simp_all add: snap_drop_timed_out_def)

lemma snap_poll_timeouts_state:
  "ss_anchor (snap_poll_timeouts s) = ss_anchor s" "ss_gap (snap_poll_timeouts s) = ss_gap s"
  "ss_fetched (snap_poll_timeouts s) = ss_fetched s" "ss_buffered (snap_poll_timeouts s) = ss_buffered s"
  by (simp_all add: snap_poll_timeouts_def snap_drop_timed_out_state Let_def)

lemma request_timeout_state:
  assumes "poll_snapshot_request_timeout ops s sh = Some (s', sh')"
  shows "ss_anchor s' = ss_anchor s" "ss_gap s' = ss_gap s" "ss_fetched s' = ss_fetched s"
  using assms by (auto simp: poll_snapshot_request_timeout_def split: option.splits bool.splits)

lemma snap_assign_session:
  "ss_anchor (fst (snap_assign_chunks ops n anchor ge asg cur idle s sh)) = ss_anchor s \<and>
    ss_gap (fst (snap_assign_chunks ops n anchor ge asg cur idle s sh)) = ss_gap s \<and>
    ss_fetched (fst (snap_assign_chunks ops n anchor ge asg cur idle s sh)) = ss_fetched s"
  by (induction ops n anchor ge asg cur idle s sh rule: snap_assign_chunks.induct)
    (simp_all add: snap_send_fetch_def Let_def)

lemma snap_schedule_session:
  "ss_anchor (fst (snap_schedule_fetches ops env s sh)) = ss_anchor s"
  "ss_gap (fst (snap_schedule_fetches ops env s sh)) = ss_gap s"
  "ss_fetched (fst (snap_schedule_fetches ops env s sh)) = ss_fetched s"
  by (simp_all add: snap_schedule_fetches_def Let_def snap_assign_session split: option.splits)

lemma drain_anchor: "ss_anchor (drain_fetched_items env s) = ss_anchor s"
  by (simp add: drain_fetched_items_def Let_def split: option.splits prod.splits)

text \<open>An upgrade goes to a strictly higher anchor.\<close>

lemma try_select_anchor_keeps:
  assumes "ss_anchor s = Some a"
  shows "snd (try_select_anchor env s) = s \<or>
    (\<exists>b. ss_anchor (snd (try_select_anchor env s)) = Some b \<and> cursor_index a < cursor_index b)"
  using assms
  by (auto simp: try_select_anchor_def try_upgrade_anchor_def split: option.splits dest!: max_by_index_in)

text \<open>Chunks that follow each other from \<open>cur\<close> to \<open>n\<close>.\<close>

fun tiles :: "nat \<Rightarrow> nat \<Rightarrow> (nat \<times> nat \<times> 'i list) list \<Rightarrow> bool" where
  "tiles cur n [] \<longleftrightarrow> cur = n"
| "tiles cur n ((start, ende, is) # f) \<longleftrightarrow> start = cur \<and> tiles ende n f"

text \<open>The buffered entries behind an anchor.\<close>

lemma filter_index_entries:
  assumes "start + length es \<le> u64_max" and "start \<le> Suc a"
  shows "filter (\<lambda>(idx, _, _). a < idx) (index_entries start es) =
    index_entries (Suc a) (drop (Suc a - start) es)"
proof -
  let ?f = "\<lambda>p (i, (cmd, term)). (pos_add p i, term, cmd)"
  have gt: "filter (\<lambda>(idx, _, _). a < idx) (map (?f start) (enumerate_from k es)) = map (?f start) (enumerate_from k es)"
    if "start + k + length es \<le> u64_max" "a < start + k" for k es
    using that by (induction es arbitrary: k) (auto simp: pos_add_eq)
  have shift: "map (?f start) (enumerate_from (k + d) es) = map (?f (start + d)) (enumerate_from k es)"
    if "start + k + d + length es \<le> u64_max" for k d es
    using that
  proof (induction es arbitrary: k)
    case (Cons e es)
    then show ?case using Cons.IH [of "Suc k"] by (cases e) (simp add: pos_add_eq)
  qed simp
  have "filter (\<lambda>(idx, _, _). a < idx) (map (?f start) (enumerate_from k es)) =
      map (?f (Suc a)) (enumerate_from 0 (drop (Suc a - (start + k)) es))"
    if "start + k + length es \<le> u64_max" "start + k \<le> Suc a" for k
    using that
  proof (induction es arbitrary: k)
    case Nil
    then show ?case by simp
  next
    case (Cons e es)
    show ?case
    proof (cases "start + k \<le> a")
      case True
      then have "Suc a - (start + k) = Suc (Suc a - (start + Suc k))" by simp
      then show ?thesis using Cons.IH [of "Suc k"] Cons.prems True
        by (cases e) (simp add: pos_add_eq)
    next
      case False
      then have k: "start + k = Suc a" using Cons.prems by simp
      have "filter (\<lambda>(idx, _, _). a < idx) (map (?f start) (enumerate_from k (e # es))) =
          map (?f start) (enumerate_from (0 + k) (e # es))"
        using gt [of k "e # es"] Cons.prems k by simp
      also have "\<dots> = map (?f (start + k)) (enumerate_from 0 (e # es))"
        by (rule shift) (use Cons.prems in simp)
      also have "\<dots> = map (?f (Suc a)) (enumerate_from 0 (drop (Suc a - (start + k)) (e # es)))"
        by (simp only: k diff_self_eq_0 drop_0)
      finally show ?thesis .
    qed
  qed
  from this [of 0] assms show ?thesis by (simp add: index_entries_def)
qed

text \<open>
  The sessions a node can have: created on falling behind, then any interleaving of honest messages,
  entries from the leader and polls, while the rest of the node changes in any way.
\<close>

inductive session_run ::
  "('c, 'd, 's, 'i, 'q, 'r) snapshot_machine_ops \<Rightarrow> ('c, 'd, 's, 'i) snapshot_env \<Rightarrow> (cursor \<Rightarrow> 'i list)
    \<Rightarrow> ('c, 's, 'i) snapshot_session \<Rightarrow> bool" for ops env truth where
  created: "snapshot_session_new ops env sh position es = Some (s, sh') \<Longrightarrow> session_run ops env truth s"
| received: "session_run ops env truth s \<Longrightarrow> honest_message truth msg \<Longrightarrow>
    snapshot_session_receive env s msg sender = Some s' \<Longrightarrow> session_run ops env truth s'"
| buffered: "session_run ops env truth s \<Longrightarrow> session_run ops env truth (snapshot_session_buffer s position es)"
| polled: "session_run ops env truth s \<Longrightarrow> snapshot_session_poll ops env s sh = Some (s', sh', None) \<Longrightarrow>
    session_run ops env truth s'"

text \<open>The snapshots a provider holds are those of the data at their positions.\<close>

definition provider_ok :: "('d \<Rightarrow> 's) \<Rightarrow> (cursor \<Rightarrow> 'd) \<Rightarrow> 's snapshot_provider \<Rightarrow> bool" where
  "provider_ok create state p \<longleftrightarrow> (\<forall>x \<in> set (sp_available p). as_snapshot (snd x) = create (state (fst x)))"

locale snapshot_transfer = snapshot_machine ok create install empty len iter_range append items
  for ok :: "'d \<Rightarrow> bool" and create :: "'d \<Rightarrow> 's" and install empty len
    and iter_range :: "'s \<Rightarrow> nat \<times> nat \<Rightarrow> 'i list option" and append items +
  fixes env :: "('c, 'd, 's, 'i) snapshot_env"
  assumes env_simps [simp]: "se_empty env = empty" "se_len env = len" "se_iter_range env = iter_range"
      "se_append env = append"
    and env_install [simp]: "coll_data (se_install env m s) = install s"
begin

lemma drain_spec:
  assumes "\<forall>ch \<in> set f. honest_chunk_of L ch" and "cur \<le> length L"
    and "snap_drain append cur f (append empty (take cur L)) = (cur', f', acc')"
  shows "cur \<le> cur' \<and> cur' \<le> length L \<and> acc' = append empty (take cur' L) \<and> set f' \<subseteq> set f"
  using assms
proof (induction f arbitrary: cur)
  case Nil
  then show ?case by auto
next
  case (Cons ch f)
  obtain a b "is" where ch: "ch = (a, b, is)" by (cases ch)
  show ?case
  proof (cases "a = cur")
    case True
    from Cons.prems(1) ch True have h: "cur < b" "b \<le> length L" "is = take (b - cur) (drop cur L)"
      by (simp_all add: honest_chunk_of_def)
    have "take b L = take cur L @ is" using h(1) take_add [of cur "b - cur" L] by (simp add: h(3))
    then have "append empty (take b L) = append (append empty (take cur L)) is" by (simp add: append_append)
    then show ?thesis using Cons.IH [of b] Cons.prems ch True h by auto
  next
    case False
    then show ?thesis using Cons.prems ch by auto
  qed
qed

lemma drain_ok:
  assumes "snap_ok env truth s"
  shows "snap_ok env truth (drain_fetched_items env s)"
proof (cases "ss_anchor s")
  case None
  then show ?thesis using assms by (simp add: snap_ok_def progress_ok_def drain_fetched_items_def)
next
  case (Some a)
  then obtain lo where lo: "lo \<le> length (truth a)" "ss_gap s = Some (lo, length (truth a))"
      "ss_accumulated s = append empty (take lo (truth a))" "\<forall>ch \<in> set (ss_fetched s). honest_chunk_of (truth a) ch"
    using assms by (auto simp: snap_ok_def progress_ok_def)
  obtain cur f acc where d: "snap_drain append lo (ss_fetched s) (append empty (take lo (truth a))) = (cur, f, acc)"
    by (metis prod_cases3)
  note sp = drain_spec [OF lo(4,1) d]
  show ?thesis using assms Some lo d sp
    by (auto simp: snap_ok_def progress_ok_def drain_fetched_items_def Let_def)
qed

lemma upgrade_ok:
  assumes "snap_ok env truth s"
  shows "snap_ok env truth (snd (try_upgrade_anchor env s))"
  using assms
  by (auto simp: try_upgrade_anchor_def snap_ok_def progress_ok_def append_Nil
      split: option.splits dest!: max_by_index_in intro: candidates_okD)

lemma select_ok:
  assumes "snap_ok env truth s"
  shows "snap_ok env truth (snd (try_select_anchor env s))"
proof (cases "ss_anchor s")
  case None
  let ?x = "List.find (\<lambda>(c, _). anchor_usable s c)
    (sort_key (\<lambda>(c, _). - int (cursor_index c)) (ss_anchor_candidates s))"
  have "x \<in> set (ss_anchor_candidates s)" if "?x = Some x" for x
    using that by (metis find_Some_iff nth_mem set_sort)
  then have "si_items_count info = length (truth a)" if "?x = Some (a, info, ps)" for a info ps
    using that assms by (auto simp: snap_ok_def intro: candidates_okD)
  then show ?thesis using assms None
    by (auto simp: try_select_anchor_def snap_ok_def progress_ok_def Let_def append_Nil split: option.splits)
next
  case (Some a)
  then show ?thesis using upgrade_ok [OF assms] by (simp add: try_select_anchor_def)
qed

lemma ready_ok:
  assumes "snap_ok env truth s" and "honest_offer truth info"
  shows "snap_ok env truth (on_snapshot_ready env p info s)"
proof -
  let ?e = "case map_of (ss_anchor_candidates s) (si_anchor info) of None \<Rightarrow> (info, []) | Some e \<Rightarrow> e"
  have "si_items_count (fst ?e) = length (truth (si_anchor info))"
    using assms by (auto simp: honest_offer_def snap_ok_def split: option.splits dest!: map_of_SomeD intro: candidates_okD)
  then have "candidates_ok truth (AList.update (si_anchor info) (fst ?e, List.insert p (snd ?e)) (ss_anchor_candidates s))"
    using assms(1) by (intro candidates_ok_update) (simp_all add: snap_ok_def)
  then show ?thesis using assms(1)
    unfolding on_snapshot_ready_def Let_def by (intro select_ok) (auto simp: snap_ok_def)
qed

lemma response_ok:
  assumes "snap_ok env truth s" and "honest_response truth r" and "\<And>a. length (truth a) \<le> u64_max"
  shows "snap_ok env truth (on_fetch_data_response p r s)"
proof (cases "ss_anchor s = Some (fr_anchor r)")
  case True
  have "fr_offset r + length (fr_items r) \<le> u64_max"
    using assms(2) assms(3) [of "fr_anchor r"] by (simp add: honest_response_def honest_chunk_of_def)
  then have "honest_chunk_of (truth (fr_anchor r))
      (fr_offset r, wrapping_add (fr_offset r) (length (fr_items r)), fr_items r)"
    using assms(2) by (simp add: honest_response_def wrapping_add_eq)
  then show ?thesis using assms(1) True btree_insert_set
    by (fastforce simp: on_fetch_data_response_def snap_ok_def progress_ok_def Let_def)
qed (use assms(1) in \<open>simp add: on_fetch_data_response_def\<close>)

lemma receive_ok:
  assumes "snap_ok env truth s" and "honest_message truth msg" and "\<And>a. length (truth a) \<le> u64_max"
    and "snapshot_session_receive env s msg p = Some s'"
  shows "snap_ok env truth s'"
  using assms by (cases msg) (auto intro: ready_ok response_ok)

lemma poll_ok:
  assumes "snap_ok env truth s" and "snapshot_session_poll ops env s sh = Some (s', sh', None)"
  shows "snap_ok env truth s' \<and> storage sh' = storage sh \<and> committed sh' = committed sh \<and>
    state_machine sh' = state_machine sh"
proof -
  have nc: "\<not> is_sync_complete s" using assms(2) by (auto simp: snapshot_session_poll_def)
  then obtain s1 sh1 where 1: "poll_snapshot_request_timeout ops (snap_poll_terminations s) sh = Some (s1, sh1)"
    using assms(2) by (auto simp: snapshot_session_poll_def bind_eq_Some_conv)
  let ?s3 = "snap_poll_new_bonds sh1 (snap_poll_timeouts (drain_fetched_items env (snd (try_select_anchor env s1))))"
  have r: "s' = fst (snap_schedule_fetches ops env ?s3 sh1)" "sh' = snd (snap_schedule_fetches ops env ?s3 sh1)"
    using assms(2) nc 1 by (auto simp: snapshot_session_poll_def Let_def split: prod.splits)
  have "snap_ok env truth s1" using assms(1) by (simp add: request_timeout_ok [OF 1])
  then have "snap_ok env truth ?s3" using select_ok drain_ok by simp
  then show ?thesis using r request_timeout_frame(1) [OF 1] by (simp add: snap_schedule_state)
qed

lemma run_ok:
  assumes "\<And>a. length (truth a) \<le> u64_max"
  shows "session_run ops env truth s \<Longrightarrow> snap_ok env truth s"
proof (induction rule: session_run.induct)
  case (created sh position es s sh')
  then show ?case
    by (auto simp: snapshot_session_new_def snap_ok_def candidates_ok_def progress_ok_def split: option.splits)
next
  case (buffered s position es)
  then show ?case by (simp add: snapshot_session_buffer_def snap_ok_def)
next
  case (polled s sh s' sh')
  then show ?case using poll_ok by blast
qed (rule receive_ok [OF _ _ assms])

text \<open>The last poll installs the data of the anchor and makes the log continue from there.\<close>

lemma poll_finishes:
  assumes inv: "snap_ok env (\<lambda>a. items (create (state a))) s" and anchor: "ss_anchor s = Some a" and d: "ok (state a)"
    and gap: "is_sync_complete s"
    and buf: "ss_buffered s = index_entries start es" "start \<le> Suc (cursor_index a)"
    and room: "start + length es \<le> u64_max" "Suc (cursor_index a) \<le> u64_max"
  shows "\<exists>s' sh'. snapshot_session_poll ops env s sh = Some (s', sh', Some (log_last (storage sh'))) \<and>
    coll_data (state_machine sh') = state a \<and> committed sh' = a \<and> when_committed sh' = cursor_index a \<and>
    storage sh' = append_fetched (log_reset_to (storage sh) a) (drop (Suc (cursor_index a) - start) es)"
proof -
  let ?L = "items (create (state a))" and ?st = "log_reset_to (storage sh) a"
  have acc: "ss_accumulated s = append empty ?L"
    using inv anchor gap by (auto simp: snap_ok_def progress_ok_def is_sync_complete_def half_open_is_empty_def)
  have hi: "log_hi ?st = cursor_index a" by (simp add: log_simps)
  have wf: "log_wf ?st" by (rule log_reset_wf) (use room in simp)
  have "Suc (log_hi ?st) + length (drop (Suc (cursor_index a) - start) es) \<le> u64_max"
    using room buf(2) by (simp add: hi)
  from apply_buffered_index_entries [OF wf this]
  have "apply_buffered (pos_next (cursor_index a)) (filter (\<lambda>(idx, _, _). idx > cursor_index a) (ss_buffered s)) ?st
      = Some (append_fetched ?st (drop (Suc (cursor_index a) - start) es))"
    using room buf filter_index_entries [OF room(1) buf(2)] by (simp add: hi pos_next_eq)
  then show ?thesis using gap anchor acc rebuild [OF d]
    by (simp add: snapshot_session_poll_def snap_finalize_def Let_def set_committed_def)
qed

text \<open>Chunks that tile the gap are drained by one poll.\<close>

lemma drain_all:
  assumes "tiles cur (length L) f"
  shows "fst (snap_drain append cur f acc) = length L \<and> fst (snd (snap_drain append cur f acc)) = []"
  using assms by (induction cur "length L" f arbitrary: acc rule: tiles.induct) simp_all

lemma poll_drains:
  assumes anchor: "ss_anchor s = Some a" and gap: "ss_gap s = Some (lo, length L)" "lo < length L"
    and best: "\<forall>c \<in> fst ` set (ss_anchor_candidates s). cursor_index c \<le> cursor_index a"
    and tl: "tiles lo (length L) (ss_fetched s)" and timer: "ss_request_timer s \<noteq> Some True"
  shows "\<exists>s' sh'. snapshot_session_poll ops env s sh = Some (s', sh', None) \<and> is_sync_complete s' \<and>
    ss_anchor s' = Some a \<and> ss_buffered s' = ss_buffered s \<and> storage sh' = storage sh"
proof -
  let ?s1 = "snap_poll_terminations s"
  have nc: "\<not> is_sync_complete s" using gap by (simp add: is_sync_complete_def half_open_is_empty_def)
  note t = snap_poll_terminations_state [of s]
  have 1: "poll_snapshot_request_timeout ops ?s1 sh = Some (?s1, sh)"
    using timer t by (simp add: poll_snapshot_request_timeout_def split: option.splits bool.splits)
  have "filter (\<lambda>(c, _). cursor_index a < cursor_index c \<and> anchor_usable ?s1 c) (ss_anchor_candidates ?s1) = []"
    using best t(7) by (force simp: filter_empty_conv)
  then have 2: "snd (try_select_anchor env ?s1) = ?s1"
    using anchor t by (simp add: try_select_anchor_def try_upgrade_anchor_def)
  let ?s3 = "snap_poll_new_bonds sh (snap_poll_timeouts (drain_fetched_items env ?s1))"
  obtain f acc where d: "snap_drain append lo (ss_fetched s) (ss_accumulated s) = (length L, f, acc)"
    using drain_all [OF tl, of "ss_accumulated s"] by (metis fst_conv prod.exhaust)
  have "drain_fetched_items env ?s1 = ?s1\<lparr>ss_fetched := f, ss_accumulated := acc, ss_gap := Some (length L, length L)\<rparr>"
    using gap d t by (simp add: drain_fetched_items_def half_open_is_empty_def Let_def)
  then have 3: "ss_gap ?s3 = Some (length L, length L)" "ss_anchor ?s3 = Some a" "ss_buffered ?s3 = ss_buffered s"
    using anchor t by (simp_all add: snap_poll_new_bonds_def snap_poll_timeouts_state)
  then have "snap_schedule_fetches ops env ?s3 sh = (?s3, sh)"
    by (simp add: snap_schedule_fetches_def half_open_is_empty_def)
  then show ?thesis using nc 1 2 3
    by (simp add: snapshot_session_poll_def Let_def is_sync_complete_def half_open_is_empty_def)
qed

text \<open>After the last poll, the node is in the state commits rely on.\<close>

lemma poll_finishes_applied:
  assumes inv: "snap_ok env (\<lambda>a. items (create (state a))) s" and anchor: "ss_anchor s = Some a" and d: "ok (state a)"
    and gap: "is_sync_complete s"
    and buf: "ss_buffered s = index_entries start es" "start \<le> Suc (cursor_index a)"
    and room: "start + length es \<le> u64_max" "Suc (cursor_index a) \<le> u64_max"
    and hist: "foldM apply_one d0 hist = Some (state a)" "length hist = cursor_index a"
    and L: "\<And>k. k < length es \<Longrightarrow> L (start + k) = Some (es ! k)"
  shows "\<exists>s' sh'. snapshot_session_poll ops env s sh = Some (s', sh', Some (log_last (storage sh'))) \<and>
    applied coll_data apply_one d0 hist sh' \<and> agrees L (storage sh') \<and>
    log_hi (storage sh') = max (cursor_index a) (start + length es - 1)"
proof -
  let ?st = "log_reset_to (storage sh) a" and ?es = "drop (Suc (cursor_index a) - start) es"
  obtain s' sh' where p: "snapshot_session_poll ops env s sh = Some (s', sh', Some (log_last (storage sh')))"
      "coll_data (state_machine sh') = state a" "committed sh' = a" "storage sh' = append_fetched ?st ?es"
    using poll_finishes [OF inv anchor d gap buf room] by blast
  have r: "log_wf ?st" "agrees L ?st" "log_hi ?st = cursor_index a" "log_offset ?st = cursor_index a"
    using room by (auto simp: log_reset_wf agrees_def log_simps)
  have "log_wf (append_fetched ?st ?es) \<and> agrees L (append_fetched ?st ?es) \<and>
      log_offset (append_fetched ?st ?es) = log_offset ?st \<and> log_hi (append_fetched ?st ?es) = log_hi ?st + length ?es"
  proof (rule append_fetched_agrees [OF r(1,2)])
    show "log_hi ?st + length ?es \<le> u64_max" using room buf(2) by (simp add: r)
    show "L (Suc (log_hi ?st) + k) = Some (?es ! k)" if "k < length ?es" for k
      using L [of "Suc (cursor_index a) - start + k"] that buf(2) by (simp add: r)
  qed
  then show ?thesis using p r(3,4) hist buf(2) by (auto simp: applied_def log_commands_def)
qed

section \<open>What a provider sends\<close>

lemma provider_ok_update:
  assumes "provider_ok create state p" and "as_snapshot a = create (state c)"
  shows "provider_ok create state (p\<lparr>sp_available := AList.update c a (sp_available p)\<rparr>)"
  using assms alist_update_set [of c a "sp_available p"] by (auto simp: provider_ok_def)

lemma provider_ok_lookup:
  "provider_ok create state p \<Longrightarrow> map_of (sp_available p) c = Some a \<Longrightarrow> as_snapshot a = create (state c)"
  by (force simp: provider_ok_def dest: map_of_SomeD)

lemma offer_ok:
  assumes "provider_ok create state p" and "pending_snapshot r = create (state (pending_position r))"
    and "ok (state (pending_position r))" and "offer_snapshot ops env (p, sh) r = (p', sh')"
  shows "provider_ok create state p' \<and>
    (sh' = sh \<or> sh' = snap_send ops (requested_by (pending_request r))
      (SnapshotOffer \<lparr>si_anchor = pending_position r,
        si_items_count = length (items (create (state (pending_position r))))\<rparr>) sh)"
  using assms
  by (auto simp: offer_snapshot_def len_items snap_revive_def provider_ok_lookup Let_def
      split: if_splits option.splits intro!: provider_ok_update)

lemma fetch_answer:
  assumes "provider_ok create state p" and avail: "map_of (sp_available p) (fd_anchor q) = Some av"
    and d: "ok (state (fd_anchor q))" and rng: "fd_range q = (a, b)" "a < b" "b \<le> len (create (state (fd_anchor q)))"
    and batch: "0 < fetch_batch_size (se_config env)" "a + fetch_batch_size (se_config env) \<le> u64_max"
    and bond: "peer \<in> set (sh_bonds sh)" and enc: "\<And>m. m_encodable ops m"
  shows "\<exists>p' sh' r. snapshot_provider_receive ops env p (FetchDataRequest q) peer sh = (p', sh', None) \<and>
    provider_ok create state p' \<and> outbox sh' = outbox sh @ [(peer, StateSync (FetchDataResponse r))] \<and>
    honest_response (\<lambda>c. items (create (state c))) r \<and> fr_anchor r = fd_anchor q \<and> fr_offset r = a \<and>
    length (fr_items r) = min (b - a) (fetch_batch_size (se_config env))"
proof -
  let ?n = "fetch_batch_size (se_config env)" and ?L = "items (create (state (fd_anchor q)))"
  let ?e = "min b (a + ?n)"
  have snap: "as_snapshot av = create (state (fd_anchor q))" by (rule provider_ok_lookup [OF assms(1) avail])
  have e: "a < ?e" "?e \<le> len (create (state (fd_anchor q)))" "?e \<le> length ?L"
    using rng batch(1) len_items [OF d] by auto
  let ?r = "\<lparr>fr_anchor = fd_anchor q, fr_offset = a, fr_items = take (?e - a) (drop a ?L)\<rparr>"
  let ?p = "p\<lparr>sp_available := AList.update (fd_anchor q) (snap_revive av) (sp_available p)\<rparr>"
  have len: "length (fr_items ?r) = ?e - a" using e by simp
  have h: "honest_response (\<lambda>c. items (create (state c))) ?r"
    using e len by (simp add: honest_response_def honest_chunk_of_def)
  have ans: "on_fetch_data_request ops env q peer p sh = (?p, snap_send ops peer (FetchDataResponse ?r) sh)"
    using avail rng batch e iter_range [OF d e(1,2)]
    by (simp add: on_fetch_data_request_def Let_def snap half_open_is_empty_def wrapping_add_eq)
  have out: "outbox (snap_send ops peer (FetchDataResponse ?r) sh) = outbox sh @ [(peer, StateSync (FetchDataResponse ?r))]"
    using bond enc by (simp add: snap_send_def sync_send_def send_raft_to_def)
  have ok': "provider_ok create state ?p"
    by (rule provider_ok_update [OF assms(1)]) (simp add: snap snap_revive_def)
  have "?e - a = min (b - a) ?n" by auto
  then show ?thesis using ans out ok' h len
    by (intro exI [of _ ?p] exI [of _ "snap_send ops peer (FetchDataResponse ?r) sh"] exI [of _ ?r]) simp
qed

end

section \<open>A late answer\<close>

text \<open>
  An answer for a range that has been drained already stays in front of the later chunks: while the
  anchor is kept, the gap does not shrink any more.
\<close>

definition snap_stuck :: "('c, 's, 'i) snapshot_session \<Rightarrow> bool" where
  "snap_stuck s \<longleftrightarrow> ss_anchor s \<noteq> None \<and>
    (\<exists>lo n k ch rest. ss_gap s = Some (lo, n) \<and> lo < n \<and> ss_fetched s = (k, ch) # rest \<and> k < lo)"

lemma late_response_stuck:
  assumes "ss_anchor s = Some (fr_anchor r)" and "ss_gap s = Some (lo, n)" and "lo < n" and "fr_offset r < lo"
  shows "snap_stuck (on_fetch_data_response p r s) \<and> ss_gap (on_fetch_data_response p r s) = ss_gap s"
  using assms by (cases "ss_fetched s") (auto simp: snap_stuck_def on_fetch_data_response_def Let_def)

lemma snap_stuck_receive:
  assumes "snap_stuck s"
  shows "snap_stuck (on_fetch_data_response p r s) \<and> ss_gap (on_fetch_data_response p r s) = ss_gap s"
  using assms by (auto simp: snap_stuck_def on_fetch_data_response_def Let_def)

lemma snap_stuck_poll:
  assumes "snap_stuck s" and "snapshot_session_poll ops env s sh = Some (s', sh', r)"
    and "ss_anchor s' = ss_anchor s"
  shows "r = None \<and> snap_stuck s' \<and> ss_gap s' = ss_gap s"
proof -
  obtain a lo n k ch rest where s: "ss_anchor s = Some a" "ss_gap s = Some (lo, n)" "lo < n"
      "ss_fetched s = (k, ch) # rest" "k < lo" using assms(1) by (auto simp: snap_stuck_def)
  have nc: "\<not> is_sync_complete s" using s by (simp add: is_sync_complete_def half_open_is_empty_def)
  then obtain s1 sh1 where 1: "poll_snapshot_request_timeout ops (snap_poll_terminations s) sh = Some (s1, sh1)"
    using assms(2) by (auto simp: snapshot_session_poll_def bind_eq_Some_conv)
  let ?s2 = "snd (try_select_anchor env s1)"
  let ?s3 = "snap_poll_new_bonds sh1 (snap_poll_timeouts (drain_fetched_items env ?s2))"
  have r: "r = None" "s' = fst (snap_schedule_fetches ops env ?s3 sh1)"
    using assms(2) nc 1 by (auto simp: snapshot_session_poll_def Let_def split: prod.splits)
  have s1: "ss_anchor s1 = Some a" "ss_gap s1 = ss_gap s" "ss_fetched s1 = ss_fetched s"
    using s(1) snap_poll_terminations_state [of s] request_timeout_state [OF 1] by simp_all
  have an: "ss_anchor s' = ss_anchor ?s2"
    by (simp add: r snap_schedule_session snap_poll_new_bonds_def snap_poll_timeouts_state drain_anchor)
  have s2: "?s2 = s1" using try_select_anchor_keeps [OF s1(1), of env] an assms(3) s(1) by auto
  have "drain_fetched_items env s1 = s1"
    using s s1 by (cases ch) (simp add: drain_fetched_items_def half_open_is_empty_def Let_def)
  then have "ss_gap s' = ss_gap s \<and> ss_fetched s' = ss_fetched s"
    using s1 s2 by (simp add: r snap_schedule_session snap_poll_new_bonds_def snap_poll_timeouts_state)
  then show ?thesis using r(1) an s s1 s2 by (simp add: snap_stuck_def)
qed

text \<open>Messages and polls that leave the anchor of a session as it is.\<close>

inductive same_anchor_run ::
  "('c, 'd, 's, 'i, 'q, 'r) snapshot_machine_ops \<Rightarrow> ('c, 'd, 's, 'i) snapshot_env \<Rightarrow> ('c, 's, 'i) snapshot_session
    \<Rightarrow> ('c, 's, 'i) snapshot_session \<Rightarrow> bool" for ops env s where
  start: "same_anchor_run ops env s s"
| received: "same_anchor_run ops env s s1 \<Longrightarrow> snapshot_session_receive env s1 msg sender = Some s2 \<Longrightarrow>
    ss_anchor s2 = ss_anchor s \<Longrightarrow> same_anchor_run ops env s s2"
| polled: "same_anchor_run ops env s s1 \<Longrightarrow> snapshot_session_poll ops env s1 sh = Some (s2, sh', result) \<Longrightarrow>
    ss_anchor s2 = ss_anchor s \<Longrightarrow> same_anchor_run ops env s s2"

lemma snap_stuck_offer:
  assumes "snap_stuck s" and "ss_anchor (on_snapshot_ready env p info s) = ss_anchor s"
  shows "snap_stuck (on_snapshot_ready env p info s) \<and> ss_gap (on_snapshot_ready env p info s) = ss_gap s"
proof -
  obtain a where a: "ss_anchor s = Some a" using assms(1) by (auto simp: snap_stuck_def)
  obtain s1 where r: "on_snapshot_ready env p info s = snd (try_select_anchor env s1)"
      "ss_anchor s1 = ss_anchor s" "ss_gap s1 = ss_gap s" "ss_fetched s1 = ss_fetched s"
    by (auto simp: on_snapshot_ready_def Let_def split: if_splits)
  from a r(2) have "ss_anchor s1 = Some a" by simp
  from try_select_anchor_keeps [OF this, of env] have "on_snapshot_ready env p info s = s1"
    using assms(2) a r by auto
  then show ?thesis using assms(1) r by (simp add: snap_stuck_def)
qed

lemma same_anchor_run_stuck:
  "same_anchor_run ops env s s' \<Longrightarrow> snap_stuck s \<Longrightarrow>
    snap_stuck s' \<and> ss_gap s' = ss_gap s \<and> ss_anchor s' = ss_anchor s"
proof (induction rule: same_anchor_run.induct)
  case (received s1 msg sender s2)
  then show ?case by (cases msg) (auto dest: snap_stuck_offer snap_stuck_receive)
next
  case (polled s1 sh s2 sh' result)
  then show ?case using snap_stuck_poll [of s1 ops env sh s2 sh' result] by auto
qed simp

lemma snap_stuck_incomplete: "snap_stuck s \<Longrightarrow> \<not> is_sync_complete s"
  by (auto simp: snap_stuck_def is_sync_complete_def half_open_is_empty_def)

end
