(* ===== verification/Map_Machine.thy ===== *)
theory Map_Machine
  imports State_Machine
begin

text \<open>
  \<open>collections/map.rs\<close>: the state machine behind \<open>Map\<close>. The data is an \<open>im::HashMap\<close>, a finite
  map here. Two things come from outside the repository and are parameters: \<open>encode\<close>, the
  serialisation of values that \<open>CompareExchange\<close> compares by (\<open>None\<close> where encoding fails), and
  \<open>iter\<close>, the iteration order of a hash map, of which the snapshot code relies on one thing only
  (\<open>hash_iter\<close>): it visits every entry exactly once.
\<close>

section \<open>Commands and the state machine\<close>

datatype ('k, 'v) map_command =
    MapClear
  | MapInsert 'k 'v
  | MapCompareExchange 'k "'v option" "'v option"
  | MapRemoveMany "'k list"
  | MapExtend "('k \<times> 'v) list"
  | MapTakeSnapshot snapshot_request

type_synonym ('k, 'v) map_machine = "('k \<rightharpoonup> 'v, 'k \<rightharpoonup> 'v) collection"

definition map_new :: "bool \<Rightarrow> sync_config \<Rightarrow> peer_id \<Rightarrow> ('k, 'v) map_machine" where
  "map_new is_writer cfg local_id = collection_new Map.empty is_writer cfg local_id"

fun map_remove_many :: "('k \<rightharpoonup> 'v) \<Rightarrow> 'k list \<Rightarrow> ('k \<rightharpoonup> 'v)" where
  "map_remove_many d [] = d"
| "map_remove_many d (k # ks) = map_remove_many (d(k := None)) ks"

fun map_extend :: "('k \<rightharpoonup> 'v) \<Rightarrow> ('k \<times> 'v) list \<Rightarrow> ('k \<rightharpoonup> 'v)" where
  "map_extend d [] = d"
| "map_extend d ((k, v) # es) = map_extend (d(k \<mapsto> v)) es"

definition map_compare_exchange ::
  "('v \<Rightarrow> 'b option) \<Rightarrow> ('k \<rightharpoonup> 'v) \<Rightarrow> 'k \<Rightarrow> 'v option \<Rightarrow> 'v option \<Rightarrow> ('k \<rightharpoonup> 'v)" where
  "map_compare_exchange encode d key expected new =
    (case (d key, expected) of
      (Some current, Some exp) \<Rightarrow>
        if encode current = encode exp
        then (case new of Some v \<Rightarrow> d(key \<mapsto> v) | None \<Rightarrow> d(key := None))
        else d
    | (None, None) \<Rightarrow> (case new of Some v \<Rightarrow> d(key \<mapsto> v) | None \<Rightarrow> d)
    | _ \<Rightarrow> d)"

fun map_step ::
  "('v \<Rightarrow> 'b option) \<Rightarrow> ('k, 'v) map_machine \<Rightarrow> int \<Rightarrow> ('k \<rightharpoonup> 'v) batch \<Rightarrow> ('k, 'v) map_command
    \<Rightarrow> ('k \<rightharpoonup> 'v) batch" where
  "map_step encode m now b MapClear = count_command (b\<lparr>batch_data := Map.empty\<rparr>)"
| "map_step encode m now b (MapInsert key value) =
    count_command (b\<lparr>batch_data := (batch_data b)(key \<mapsto> value)\<rparr>)"
| "map_step encode m now b (MapCompareExchange key expected new) =
    count_command (b\<lparr>batch_data := map_compare_exchange encode (batch_data b) key expected new\<rparr>)"
| "map_step encode m now b (MapRemoveMany keys) =
    count_command (b\<lparr>batch_data := map_remove_many (batch_data b) keys\<rparr>)"
| "map_step encode m now b (MapExtend entries) =
    count_command (b\<lparr>batch_data := map_extend (batch_data b) entries\<rparr>)"
| "map_step encode m now b (MapTakeSnapshot request) =
    count_command (take_snapshot m now request b)"

definition map_create_snapshot :: "('k \<rightharpoonup> 'v) \<Rightarrow> ('k \<rightharpoonup> 'v)" where
  "map_create_snapshot data = data"

definition map_install_snapshot ::
  "('k, 'v) map_machine \<Rightarrow> ('k \<rightharpoonup> 'v) \<Rightarrow> ('k, 'v) map_machine" where
  "map_install_snapshot m snapshot = m\<lparr>coll_data := snapshot, coll_latest := snapshot\<rparr>"

definition map_apply_batch ::
  "('v \<Rightarrow> 'b option) \<Rightarrow> ('k, 'v) map_command list \<Rightarrow> apply_context \<Rightarrow> int \<Rightarrow> ('k, 'v) map_machine
    \<Rightarrow> ('k, 'v) map_machine option" where
  "map_apply_batch encode cs ctx now m =
    Some (finish_batch map_create_snapshot ctx m (foldl (map_step encode m now) (batch_start m) cs))"

definition map_apply ::
  "('v \<Rightarrow> 'b option) \<Rightarrow> ('k, 'v) map_command \<Rightarrow> apply_context \<Rightarrow> int \<Rightarrow> ('k, 'v) map_machine
    \<Rightarrow> ('k, 'v) map_machine option" where
  "map_apply encode c ctx now m = map_apply_batch encode [c] ctx now m"

section \<open>Snapshots\<close>

definition map_snap_len :: "('k \<rightharpoonup> 'v) \<Rightarrow> nat" where
  "map_snap_len s = map_size s"

definition map_iter_range ::
  "(('k \<rightharpoonup> 'v) \<Rightarrow> ('k \<times> 'v) list) \<Rightarrow> ('k \<rightharpoonup> 'v) \<Rightarrow> nat \<times> nat \<Rightarrow> ('k \<times> 'v) list option" where
  "map_iter_range iter s rng =
    (if snd rng > map_snap_len s then None
     else Some (take (snd rng - fst rng) (drop (fst rng) (iter s))))"

definition map_snap_append :: "('k \<rightharpoonup> 'v) \<Rightarrow> ('k \<times> 'v) list \<Rightarrow> ('k \<rightharpoonup> 'v)" where
  "map_snap_append s is = map_extend s is"

text \<open>What iterating over a hash map promises: each entry once.\<close>

definition hash_iter :: "(('k \<rightharpoonup> 'v) \<Rightarrow> ('k \<times> 'v) list) \<Rightarrow> bool" where
  "hash_iter iter \<longleftrightarrow>
    (\<forall>m. finite (dom m) \<longrightarrow> distinct (map fst (iter m)) \<and> map_of (iter m) = m)"

section \<open>What a command does to the data\<close>

fun map_effect :: "('v \<Rightarrow> 'b option) \<Rightarrow> ('k \<rightharpoonup> 'v) \<Rightarrow> ('k, 'v) map_command \<Rightarrow> ('k \<rightharpoonup> 'v)" where
  "map_effect encode d MapClear = Map.empty"
| "map_effect encode d (MapInsert k v) = d(k \<mapsto> v)"
| "map_effect encode d (MapCompareExchange k e n) =
    (if map_option encode (d k) = map_option encode e then d(k := n) else d)"
| "map_effect encode d (MapRemoveMany ks) = d |` (- set ks)"
| "map_effect encode d (MapExtend es) = d ++ map_of (rev es)"
| "map_effect encode d (MapTakeSnapshot r) = d"

lemma map_remove_many_eq: "map_remove_many d ks = d |` (- set ks)"
proof (induction ks arbitrary: d)
  case Nil
  then show ?case by (simp add: restrict_map_def)
next
  case (Cons k ks)
  then show ?case by (auto simp: restrict_map_def fun_eq_iff)
qed

lemma map_extend_eq: "map_extend d es = d ++ map_of (rev es)"
proof (induction es arbitrary: d)
  case Nil
  then show ?case by simp
next
  case (Cons e es)
  then show ?case by (cases e) (auto simp: fun_eq_iff map_add_def split: option.splits)
qed

lemma map_compare_exchange_eq:
  "map_compare_exchange encode d k e n =
    (if map_option encode (d k) = map_option encode e then d(k := n) else d)"
  by (auto simp: map_compare_exchange_def fun_upd_idem split: option.splits)

lemma map_step_data: "batch_data (map_step encode m now b c) = map_effect encode (batch_data b) c"
  by (cases c) (simp_all add: map_remove_many_eq map_extend_eq map_compare_exchange_eq)

lemma map_loop_data:
  "batch_data (foldl (map_step encode m now) b cs) = foldl (map_effect encode) (batch_data b) cs"
  by (induction cs arbitrary: b) (simp_all add: map_step_data)

lemma map_loop_len:
  "commands_len (foldl (map_step encode m now) b cs) = commands_len b + length cs"
proof (induction cs arbitrary: b)
  case Nil
  then show ?case by simp
next
  case (Cons c cs)
  have "commands_len (map_step encode m now b c) = Suc (commands_len b)" by (cases c) simp_all
  with Cons show ?case by simp
qed

lemma map_effect_finite:
  assumes "finite (dom d)"
  shows "finite (dom (map_effect encode d c))"
proof (cases c)
  case (MapCompareExchange k e n)
  have "dom (d(k := n)) \<subseteq> insert k (dom d)" by (auto simp: domIff split: if_splits)
  then have "finite (dom (d(k := n)))" by (rule finite_subset) (use assms in simp)
  with assms MapCompareExchange show ?thesis by simp
qed (use assms in \<open>auto simp: finite_dom_map_of\<close>)

interpretation mp: batch_machine "map_apply_batch encode" coll_data
  "\<lambda>d c. Some (map_effect encode d c)" for encode
  by unfold_locales (simp add: map_apply_batch_def map_loop_data foldM_total)

text \<open>The snapshot contract, for any iteration order.\<close>

locale hash_map_iter =
  fixes iter :: "('k \<rightharpoonup> 'v) \<Rightarrow> ('k \<times> 'v) list"
  assumes iter: "hash_iter iter"
begin

lemma iter_map_of: "finite (dom m) \<Longrightarrow> map_of (iter m) = m"
  using iter by (simp add: hash_iter_def)

lemma iter_distinct: "finite (dom m) \<Longrightarrow> distinct (map fst (iter m))"
  using iter by (simp add: hash_iter_def)

lemma iter_length: "finite (dom m) \<Longrightarrow> length (iter m) = map_size m"
proof -
  assume fin: "finite (dom m)"
  then have "dom m = set (map fst (iter m))"
    by (metis iter_map_of dom_map_of_conv_image_fst set_map)
  with iter_distinct [OF fin] show ?thesis
    by (metis map_size_def distinct_card length_map)
qed

lemma iter_extend: "finite (dom m) \<Longrightarrow> map_extend Map.empty (iter m) = m"
proof -
  assume fin: "finite (dom m)"
  have "distinct (map fst (rev (iter m)))"
    using iter_distinct [OF fin] by (simp flip: rev_map)
  then have "map_of (rev (iter m)) = map_of (iter m)"
    using iter_distinct [OF fin] by (metis map_of_inject_set set_rev)
  with iter_map_of [OF fin] show ?thesis by (simp add: map_extend_eq)
qed

end

sublocale hash_map_iter \<subseteq> ms: snapshot_machine
  "\<lambda>d. finite (dom d)" map_create_snapshot "\<lambda>s. s" Map.empty map_snap_len
  "map_iter_range iter" map_snap_append iter
proof (unfold_locales, goal_cases)
  case (1 d) then show ?case by (simp add: map_snap_len_def map_create_snapshot_def iter_length)
next
  case (2 d a b) then show ?case by (simp add: map_iter_range_def)
next
  case (3 s) show ?case by (simp add: map_snap_append_def)
next
  case (4 s xs ys) show ?case by (simp add: map_snap_append_def map_extend_eq)
next
  case (5 d) then show ?case
    by (simp add: map_snap_append_def map_create_snapshot_def iter_extend)
qed

context hash_map_iter
begin

lemma map_restores:
  assumes "finite (dom d)" and "sorted_wrt (<) (0 # bs)" and "last (0 # bs) = map_snap_len (map_create_snapshot d)"
  shows "fetch_chunks (map_iter_range iter) map_snap_append (map_create_snapshot d) 0 bs Map.empty = Some d"
  using ms.transfer_restores [OF assms] by (simp add: option.map_ident)

end

text \<open>
  Some order satisfies the hypothesis: for ordered keys, iterating in key order.
\<close>

definition iter_by_key :: "('k::linorder \<rightharpoonup> 'v) \<Rightarrow> ('k \<times> 'v) list" where
  "iter_by_key m = map (\<lambda>k. (k, the (m k))) (sorted_list_of_set (dom m))"

lemma hash_iter_by_key: "hash_iter iter_by_key"
proof -
  have "map_of (iter_by_key m) k = m k" if "finite (dom m)" for m :: "'a \<rightharpoonup> 'b" and k
    using that by (auto simp: iter_by_key_def map_of_map_keys domIff)
  then show ?thesis
    by (auto simp: hash_iter_def iter_by_key_def comp_def fun_eq_iff)
qed

interpretation by_key: hash_map_iter iter_by_key
  by unfold_locales (rule hash_iter_by_key)

end
