(* ===== verification/Set_Machine.thy ===== *)
theory Set_Machine
  imports State_Machine
begin

text \<open>
  \<open>collections/set.rs\<close>: the state machine behind \<open>Set\<close>, over a finite set. As for the map, the
  iteration order of the hash set is a parameter of the snapshot operations.
\<close>

datatype 'a set_command =
    SetClear
  | SetInsert 'a
  | SetRemoveMany "'a list"
  | SetExtend "'a list"
  | SetTakeSnapshot snapshot_request

type_synonym 'a set_machine = "('a set, 'a set) collection"

definition set_new :: "bool \<Rightarrow> sync_config \<Rightarrow> peer_id \<Rightarrow> 'a set_machine" where
  "set_new is_writer cfg local_id = collection_new {} is_writer cfg local_id"

fun set_remove_many :: "'a set \<Rightarrow> 'a list \<Rightarrow> 'a set" where
  "set_remove_many d [] = d"
| "set_remove_many d (v # vs) = set_remove_many (Set.remove v d) vs"

fun set_extend :: "'a set \<Rightarrow> 'a list \<Rightarrow> 'a set" where
  "set_extend d [] = d"
| "set_extend d (v # vs) = set_extend (insert v d) vs"

fun set_step :: "'a set_machine \<Rightarrow> int \<Rightarrow> 'a set batch \<Rightarrow> 'a set_command \<Rightarrow> 'a set batch" where
  "set_step m now b SetClear = count_command (b\<lparr>batch_data := {}\<rparr>)"
| "set_step m now b (SetInsert value) =
    count_command (b\<lparr>batch_data := insert value (batch_data b)\<rparr>)"
| "set_step m now b (SetRemoveMany values) =
    count_command (b\<lparr>batch_data := set_remove_many (batch_data b) values\<rparr>)"
| "set_step m now b (SetExtend entries) =
    count_command (b\<lparr>batch_data := set_extend (batch_data b) entries\<rparr>)"
| "set_step m now b (SetTakeSnapshot request) = count_command (take_snapshot m now request b)"

definition set_create_snapshot :: "'a set \<Rightarrow> 'a set" where
  "set_create_snapshot data = data"

definition set_install_snapshot :: "'a set_machine \<Rightarrow> 'a set \<Rightarrow> 'a set_machine" where
  "set_install_snapshot m snapshot = m\<lparr>coll_data := snapshot, coll_latest := snapshot\<rparr>"

definition set_apply_batch ::
  "'a set_command list \<Rightarrow> apply_context \<Rightarrow> int \<Rightarrow> 'a set_machine \<Rightarrow> 'a set_machine option" where
  "set_apply_batch cs ctx now m =
    Some (finish_batch set_create_snapshot ctx m (foldl (set_step m now) (batch_start m) cs))"

section \<open>Snapshots\<close>

definition set_snap_len :: "'a set \<Rightarrow> nat" where
  "set_snap_len s = card s"

definition set_iter_range ::
  "('a set \<Rightarrow> 'a list) \<Rightarrow> 'a set \<Rightarrow> nat \<times> nat \<Rightarrow> 'a list option" where
  "set_iter_range iter s rng =
    (if snd rng > set_snap_len s then None
     else Some (take (snd rng - fst rng) (drop (fst rng) (iter s))))"

definition set_snap_append :: "'a set \<Rightarrow> 'a list \<Rightarrow> 'a set" where
  "set_snap_append s is = set_extend s is"

definition hash_set_iter :: "('a set \<Rightarrow> 'a list) \<Rightarrow> bool" where
  "hash_set_iter iter \<longleftrightarrow> (\<forall>s. finite s \<longrightarrow> distinct (iter s) \<and> set (iter s) = s)"

section \<open>What a command does to the data\<close>

fun set_effect :: "'a set \<Rightarrow> 'a set_command \<Rightarrow> 'a set" where
  "set_effect d SetClear = {}"
| "set_effect d (SetInsert v) = insert v d"
| "set_effect d (SetRemoveMany vs) = d - set vs"
| "set_effect d (SetExtend vs) = d \<union> set vs"
| "set_effect d (SetTakeSnapshot r) = d"

lemma set_remove_many_eq: "set_remove_many d vs = d - set vs"
  by (induction vs arbitrary: d) auto

lemma set_extend_eq: "set_extend d vs = d \<union> set vs"
  by (induction vs arbitrary: d) auto

lemma set_step_data: "batch_data (set_step m now b c) = set_effect (batch_data b) c"
  by (cases c) (simp_all add: set_remove_many_eq set_extend_eq)

lemma set_loop_data:
  "batch_data (foldl (set_step m now) b cs) = foldl set_effect (batch_data b) cs"
  by (induction cs arbitrary: b) (simp_all add: set_step_data)

lemma set_effect_finite: "finite d \<Longrightarrow> finite (set_effect d c)"
  by (cases c) simp_all

interpretation st: batch_machine set_apply_batch coll_data "\<lambda>d c. Some (set_effect d c)"
  by unfold_locales (simp add: set_apply_batch_def set_loop_data foldM_total)

locale hash_set_order =
  fixes iter :: "'a set \<Rightarrow> 'a list"
  assumes iter: "hash_set_iter iter"

sublocale hash_set_order \<subseteq> ss: snapshot_machine
  finite set_create_snapshot "\<lambda>s. s" "{}" set_snap_len "set_iter_range iter" set_snap_append iter
proof (unfold_locales, goal_cases)
  case (1 d) then show ?case
    using iter by (metis hash_set_iter_def set_snap_len_def set_create_snapshot_def distinct_card)
next
  case (2 d a b) then show ?case by (simp add: set_iter_range_def)
next
  case (3 s) show ?case by (simp add: set_snap_append_def)
next
  case (4 s xs ys) show ?case by (auto simp: set_snap_append_def set_extend_eq)
next
  case (5 d) then show ?case
    using iter by (simp add: hash_set_iter_def set_snap_append_def set_create_snapshot_def set_extend_eq)
qed

context hash_set_order
begin

lemma set_restores:
  assumes "finite d" and "sorted_wrt (<) (0 # bs)" and "last (0 # bs) = set_snap_len (set_create_snapshot d)"
  shows "fetch_chunks (set_iter_range iter) set_snap_append (set_create_snapshot d) 0 bs {} = Some d"
  using ss.transfer_restores [OF assms] by (simp add: option.map_ident)

end

interpretation sorted_order: hash_set_order "sorted_list_of_set :: 'a::linorder set \<Rightarrow> 'a list"
  by unfold_locales (simp add: hash_set_iter_def)

end
