(* ===== verification/Vec_Machine.thy ===== *)
theory Vec_Machine
  imports State_Machine
begin

text \<open>
  \<open>collections/vec.rs\<close>: the state machine behind \<open>Vec\<close>, over a list for \<open>im::Vector\<close>. Every arm
  that takes a position checks it against the length first, except \<open>Insert\<close>, which hands it to
  \<open>im::Vector::insert\<close>: an index past the end panics there, so the step is an \<open>option\<close>.
\<close>

datatype 'a vec_command =
    VecClear
  | VecSwap nat nat
  | VecInsert nat 'a
  | VecPushBack 'a
  | VecPushFront 'a
  | VecPopBack
  | VecPopFront
  | VecRemove nat
  | VecTruncate nat
  | VecExtend "'a list"
  | VecTakeSnapshot snapshot_request

type_synonym 'a vec_machine = "('a list, 'a list) collection"

definition vec_new :: "bool \<Rightarrow> sync_config \<Rightarrow> peer_id \<Rightarrow> 'a vec_machine" where
  "vec_new is_writer cfg local_id = collection_new [] is_writer cfg local_id"

definition vec_swap :: "'a list \<Rightarrow> nat \<Rightarrow> nat \<Rightarrow> 'a list" where
  "vec_swap d i j = d[i := d ! j, j := d ! i]"

text \<open>\<open>im::Vector::insert\<close>, which panics when the index is past the end.\<close>

definition vec_insert :: "'a list \<Rightarrow> nat \<Rightarrow> 'a \<Rightarrow> 'a list option" where
  "vec_insert d index value =
    (if index > length d then None else Some (take index d @ value # drop index d))"

definition vec_remove :: "'a list \<Rightarrow> nat \<Rightarrow> 'a list" where
  "vec_remove d index = take index d @ drop (Suc index) d"

fun vec_effect :: "'a list \<Rightarrow> 'a vec_command \<Rightarrow> 'a list option" where
  "vec_effect d VecClear = Some []"
| "vec_effect d (VecSwap i j) =
    (if i < length d \<and> j < length d then Some (vec_swap d i j) else Some d)"
| "vec_effect d (VecInsert index value) = vec_insert d index value"
| "vec_effect d (VecPushBack value) = Some (d @ [value])"
| "vec_effect d (VecPushFront value) = Some (value # d)"
| "vec_effect d VecPopBack = Some (butlast d)"
| "vec_effect d VecPopFront = Some (tl d)"
| "vec_effect d (VecRemove index) = (if index < length d then Some (vec_remove d index) else Some d)"
| "vec_effect d (VecTruncate len) = (let len = min len (length d) in Some (take len d))"
| "vec_effect d (VecExtend entries) = Some (d @ entries)"
| "vec_effect d (VecTakeSnapshot request) = Some d"

definition vec_step ::
  "'a vec_machine \<Rightarrow> int \<Rightarrow> 'a list batch \<Rightarrow> 'a vec_command \<Rightarrow> 'a list batch option" where
  "vec_step m now b c =
    (case c of
      VecTakeSnapshot request \<Rightarrow> Some (count_command (take_snapshot m now request b))
    | _ \<Rightarrow> map_option (\<lambda>d. count_command (b\<lparr>batch_data := d\<rparr>)) (vec_effect (batch_data b) c))"

definition vec_create_snapshot :: "'a list \<Rightarrow> 'a list" where
  "vec_create_snapshot data = data"

definition vec_install_snapshot :: "'a vec_machine \<Rightarrow> 'a list \<Rightarrow> 'a vec_machine" where
  "vec_install_snapshot m snapshot = m\<lparr>coll_data := snapshot, coll_latest := snapshot\<rparr>"

definition vec_apply_batch ::
  "'a vec_command list \<Rightarrow> apply_context \<Rightarrow> int \<Rightarrow> 'a vec_machine \<Rightarrow> 'a vec_machine option" where
  "vec_apply_batch cs ctx now m =
    map_option (finish_batch vec_create_snapshot ctx m) (foldM (vec_step m now) (batch_start m) cs)"

section \<open>Snapshots\<close>

definition vec_snap_len :: "'a list \<Rightarrow> nat" where
  "vec_snap_len s = length s"

text \<open>The provider never asks for an empty range, so \<open>range.end - range.start\<close> does not underflow.\<close>

definition vec_iter_range :: "'a list \<Rightarrow> nat \<times> nat \<Rightarrow> 'a list option" where
  "vec_iter_range s rng =
    (let skip_n = fst rng; take_n = snd rng - fst rng
     in if skip_n + take_n > length s then None else Some (take take_n (drop skip_n s)))"

definition vec_snap_append :: "'a list \<Rightarrow> 'a list \<Rightarrow> 'a list" where
  "vec_snap_append s is = s @ is"

section \<open>Lemmas\<close>

lemma vec_step_data: "map_option batch_data (vec_step m now b c) = vec_effect (batch_data b) c"
  by (cases c) (auto simp: vec_step_def option.map_comp comp_def option.map_ident)

lemma vec_loop_data:
  "map_option batch_data (foldM (vec_step m now) b cs) = foldM vec_effect (batch_data b) cs"
proof (induction cs arbitrary: b)
  case Nil
  then show ?case by simp
next
  case (Cons c cs)
  show ?case using vec_step_data [of m now b c] Cons.IH
    by (cases "vec_step m now b c") (auto dest: sym)
qed

lemma vec_effect_length:
  assumes "vec_effect d c = Some d'"
  shows "length d' \<le> length d + (case c of VecExtend es \<Rightarrow> length es | _ \<Rightarrow> 1)"
  using assms
  by (cases c) (auto simp: vec_swap_def vec_insert_def vec_remove_def Let_def split: if_splits)

lemma vec_effect_None_iff:
  "vec_effect d c = None \<longleftrightarrow> (\<exists>i v. c = VecInsert i v \<and> length d < i)"
  by (cases c) (auto simp: vec_insert_def Let_def)

interpretation vc: batch_machine vec_apply_batch coll_data vec_effect
proof
  fix cs :: "'a vec_command list" and ctx now and m :: "'a vec_machine"
  have "map_option coll_data (vec_apply_batch cs ctx now m) =
      map_option batch_data (foldM (vec_step m now) (batch_start m) cs)"
    by (simp add: vec_apply_batch_def option.map_comp comp_def)
  then show "map_option coll_data (vec_apply_batch cs ctx now m) = foldM vec_effect (coll_data m) cs"
    by (simp add: vec_loop_data)
qed

interpretation vs: snapshot_machine "\<lambda>_. True" vec_create_snapshot "\<lambda>s. s" "[]" vec_snap_len
  vec_iter_range vec_snap_append "\<lambda>s. s"
  by unfold_locales
    (auto simp: vec_create_snapshot_def vec_snap_len_def vec_iter_range_def vec_snap_append_def)

end
