(* ===== verification/Cell_Machine.thy ===== *)
theory Cell_Machine
  imports State_Machine
begin

text \<open>
  \<open>collections/cell.rs\<close> and \<open>collections/once.rs\<close>: a replicated optional value, and one that can be
  written a single time. Their snapshots hold at most one item.
\<close>

section \<open>Cell\<close>

datatype 'a cell_command =
    CellWrite 'a
  | CellCompareExchange "'a option" "'a option"
  | CellClear
  | CellTakeSnapshot snapshot_request

type_synonym 'a cell_machine = "('a option, 'a option) collection"

definition cell_new :: "bool \<Rightarrow> sync_config \<Rightarrow> peer_id \<Rightarrow> 'a cell_machine" where
  "cell_new is_writer cfg local_id = collection_new None is_writer cfg local_id"

fun cell_effect :: "('a \<Rightarrow> 'b option) \<Rightarrow> 'a option \<Rightarrow> 'a cell_command \<Rightarrow> 'a option" where
  "cell_effect encode d (CellWrite value) = Some value"
| "cell_effect encode d (CellCompareExchange current new) =
    (if map_option encode d = map_option encode current then new else d)"
| "cell_effect encode d CellClear = None"
| "cell_effect encode d (CellTakeSnapshot request) = d"

fun cell_step ::
  "('a \<Rightarrow> 'b option) \<Rightarrow> 'a cell_machine \<Rightarrow> int \<Rightarrow> 'a option batch \<Rightarrow> 'a cell_command
    \<Rightarrow> 'a option batch" where
  "cell_step encode m now b (CellTakeSnapshot request) = count_command (take_snapshot m now request b)"
| "cell_step encode m now b c =
    count_command (b\<lparr>batch_data := cell_effect encode (batch_data b) c\<rparr>)"

definition cell_create_snapshot :: "'a option \<Rightarrow> 'a option" where
  "cell_create_snapshot data = data"

definition cell_install_snapshot :: "'a cell_machine \<Rightarrow> 'a option \<Rightarrow> 'a cell_machine" where
  "cell_install_snapshot m snapshot = m\<lparr>coll_data := snapshot, coll_latest := snapshot\<rparr>"

definition cell_apply_batch ::
  "('a \<Rightarrow> 'b option) \<Rightarrow> 'a cell_command list \<Rightarrow> apply_context \<Rightarrow> int \<Rightarrow> 'a cell_machine
    \<Rightarrow> 'a cell_machine option" where
  "cell_apply_batch encode cs ctx now m =
    Some (finish_batch cell_create_snapshot ctx m (foldl (cell_step encode m now) (batch_start m) cs))"

definition cell_snap_len :: "'a option \<Rightarrow> nat" where
  "cell_snap_len s = (if s \<noteq> None then 1 else 0)"

definition cell_iter_range :: "'a option \<Rightarrow> nat \<times> nat \<Rightarrow> 'a list option" where
  "cell_iter_range s rng =
    (if fst rng \<le> 0 \<and> 0 < snd rng
     then Some (case s of None \<Rightarrow> [] | Some x \<Rightarrow> [x]) else None)"

fun cell_snap_append :: "'a option \<Rightarrow> 'a list \<Rightarrow> 'a option" where
  "cell_snap_append s [] = s"
| "cell_snap_append s (x # xs) = cell_snap_append (Some x) xs"

lemma cell_loop_data:
  "batch_data (foldl (cell_step encode m now) b cs) = foldl (cell_effect encode) (batch_data b) cs"
proof (induction cs arbitrary: b)
  case Nil
  then show ?case by simp
next
  case (Cons c cs)
  have "batch_data (cell_step encode m now b c) = cell_effect encode (batch_data b) c"
    by (cases c) simp_all
  with Cons show ?case by simp
qed

interpretation cl: batch_machine "cell_apply_batch encode" coll_data
  "\<lambda>d c. Some (cell_effect encode d c)" for encode
  by unfold_locales (simp add: cell_apply_batch_def cell_loop_data foldM_total)

section \<open>Once\<close>

datatype 'a once_command = OnceWrite 'a | OnceTakeSnapshot snapshot_request

type_synonym 'a once_machine = "('a option, 'a option) collection"

definition once_new :: "bool \<Rightarrow> sync_config \<Rightarrow> peer_id \<Rightarrow> 'a once_machine" where
  "once_new is_writer cfg local_id = collection_new None is_writer cfg local_id"

fun once_effect :: "'a option \<Rightarrow> 'a once_command \<Rightarrow> 'a option" where
  "once_effect d (OnceWrite value) = (if d = None then Some value else d)"
| "once_effect d (OnceTakeSnapshot request) = d"

fun once_step ::
  "'a once_machine \<Rightarrow> int \<Rightarrow> 'a option batch \<Rightarrow> 'a once_command \<Rightarrow> 'a option batch" where
  "once_step m now b (OnceWrite value) =
    count_command (b\<lparr>batch_data := once_effect (batch_data b) (OnceWrite value)\<rparr>)"
| "once_step m now b (OnceTakeSnapshot request) = count_command (take_snapshot m now request b)"

definition once_create_snapshot :: "'a option \<Rightarrow> 'a option" where
  "once_create_snapshot data = data"

definition once_install_snapshot :: "'a once_machine \<Rightarrow> 'a option \<Rightarrow> 'a once_machine" where
  "once_install_snapshot m snapshot = m\<lparr>coll_data := snapshot, coll_latest := snapshot\<rparr>"

definition once_apply_batch ::
  "'a once_command list \<Rightarrow> apply_context \<Rightarrow> int \<Rightarrow> 'a once_machine \<Rightarrow> 'a once_machine option" where
  "once_apply_batch cs ctx now m =
    Some (finish_batch once_create_snapshot ctx m (foldl (once_step m now) (batch_start m) cs))"

definition once_iter_range :: "'a option \<Rightarrow> nat \<times> nat \<Rightarrow> 'a list option" where
  "once_iter_range s rng =
    (if fst rng \<le> 0 \<and> 0 < snd rng
     then Some (case s of None \<Rightarrow> [] | Some x \<Rightarrow> [x]) else None)"

definition once_snap_len :: "'a option \<Rightarrow> nat" where
  "once_snap_len s = (if s \<noteq> None then 1 else 0)"

fun once_snap_append :: "'a option \<Rightarrow> 'a list \<Rightarrow> 'a option" where
  "once_snap_append s [] = s"
| "once_snap_append s (x # xs) = once_snap_append (Some x) xs"

lemma once_step_data: "batch_data (once_step m now b c) = once_effect (batch_data b) c"
  by (cases c) simp_all

lemma once_loop_data:
  "batch_data (foldl (once_step m now) b cs) = foldl once_effect (batch_data b) cs"
  by (induction cs arbitrary: b) (simp_all add: once_step_data)

lemma once_effect_stable: "foldl once_effect (Some v) cs = Some v"
proof (induction cs)
  case Nil
  then show ?case by simp
next
  case (Cons c cs)
  have "once_effect (Some v) c = Some v" by (cases c) simp_all
  with Cons show ?case by simp
qed

text \<open>The first write of a log decides the value.\<close>

fun first_write :: "'a once_command list \<Rightarrow> 'a option" where
  "first_write [] = None"
| "first_write (OnceWrite v # cs) = Some v"
| "first_write (OnceTakeSnapshot r # cs) = first_write cs"

lemma once_effect_first: "foldl once_effect None cs = first_write cs"
  by (induction cs rule: first_write.induct) (simp_all add: once_effect_stable)

interpretation oc: batch_machine once_apply_batch coll_data "\<lambda>d c. Some (once_effect d c)"
  by unfold_locales (simp add: once_apply_batch_def once_loop_data foldM_total)

section \<open>Snapshots of a single value\<close>

definition option_items :: "'a option \<Rightarrow> 'a list" where
  "option_items s = (case s of None \<Rightarrow> [] | Some x \<Rightarrow> [x])"

lemma cell_snap_append_append:
  "cell_snap_append s (xs @ ys) = cell_snap_append (cell_snap_append s xs) ys"
  by (induction xs arbitrary: s) simp_all

lemma once_snap_append_append:
  "once_snap_append s (xs @ ys) = once_snap_append (once_snap_append s xs) ys"
  by (induction xs arbitrary: s) simp_all

interpretation cs: snapshot_machine "\<lambda>_. True" cell_create_snapshot "\<lambda>s. s" None cell_snap_len
  cell_iter_range cell_snap_append option_items
  by unfold_locales
    (auto simp: cell_create_snapshot_def cell_snap_len_def cell_iter_range_def option_items_def
      cell_snap_append_append split: option.splits if_splits)

interpretation os: snapshot_machine "\<lambda>_. True" once_create_snapshot "\<lambda>s. s" None once_snap_len
  once_iter_range once_snap_append option_items
  by unfold_locales
    (auto simp: once_create_snapshot_def once_snap_len_def once_iter_range_def option_items_def
      once_snap_append_append split: option.splits if_splits)

end
