(* ===== verification/Depq_Machine.thy ===== *)
theory Depq_Machine
  imports Map_Machine
begin

text \<open>
  \<open>collections/depq.rs\<close>: the state machine behind \<open>PriorityQueue\<close>, a double-ended priority queue
  with an optional capacity. It keeps two indexes, \<open>by_key\<close> and \<open>by_priority\<close> (an ordered map of
  buckets), and every operation updates both. The invariant \<open>depq_ok\<close> says that the second is
  determined by the first: \<open>by_priority = buckets by_key\<close>.

  The iteration orders of the hash maps are parameters: \<open>iter_b\<close> for a bucket, \<open>iter_k\<close> for
  \<open>by_key\<close>. The eviction loop of \<open>apply_insert\<close> is a \<open>partial_function\<close>: \<open>None\<close> would be a loop
  that does not end, and \<open>depq_evict_ok\<close> shows that it ends.
\<close>

section \<open>The two indexes\<close>

record ('p, 'k, 'v) depq =
  by_key :: "'k \<rightharpoonup> 'p \<times> 'v"
  by_priority :: "'p \<rightharpoonup> ('k \<rightharpoonup> 'v)"

definition depq_empty :: "('p, 'k, 'v) depq" where
  "depq_empty = \<lparr>by_key = Map.empty, by_priority = Map.empty\<rparr>"

text \<open>Taking a key out of a bucket; a bucket that becomes empty is removed.\<close>

definition bucket_unlink :: "('p \<rightharpoonup> ('k \<rightharpoonup> 'v)) \<Rightarrow> 'p \<Rightarrow> 'k \<Rightarrow> ('p \<rightharpoonup> ('k \<rightharpoonup> 'v))" where
  "bucket_unlink bp p key =
    (case bp p of
      None \<Rightarrow> bp
    | Some bucket \<Rightarrow>
        let bucket = bucket(key := None)
        in if dom bucket = {} then bp(p := None) else bp(p \<mapsto> bucket))"

definition bucket_link :: "('p \<rightharpoonup> ('k \<rightharpoonup> 'v)) \<Rightarrow> 'p \<Rightarrow> 'k \<Rightarrow> 'v \<Rightarrow> ('p \<rightharpoonup> ('k \<rightharpoonup> 'v))" where
  "bucket_link bp p key value =
    (let bucket = (case bp p of None \<Rightarrow> Map.empty | Some b \<Rightarrow> b)
     in bp(p \<mapsto> bucket(key \<mapsto> value)))"

definition depq_remove :: "('p, 'k, 'v) depq \<Rightarrow> 'k \<Rightarrow> ('p, 'k, 'v) depq" where
  "depq_remove d key =
    (case by_key d key of
      None \<Rightarrow> d
    | Some (p, _) \<Rightarrow>
        d\<lparr>by_key := (by_key d)(key := None), by_priority := bucket_unlink (by_priority d) p key\<rparr>)"

text \<open>\<open>OrdMap::get_min\<close> and \<open>get_max\<close>.\<close>

definition ord_get_min :: "('p::linorder \<rightharpoonup> 'b) \<Rightarrow> ('p \<times> 'b) option" where
  "ord_get_min m = (if dom m = {} then None else Some (Min (dom m), the (m (Min (dom m)))))"

definition ord_get_max :: "('p::linorder \<rightharpoonup> 'b) \<Rightarrow> ('p \<times> 'b) option" where
  "ord_get_max m = (if dom m = {} then None else Some (Max (dom m), the (m (Max (dom m)))))"

definition evict_key ::
  "(('k \<rightharpoonup> 'v) \<Rightarrow> ('k \<times> 'v) list) \<Rightarrow> ('p::linorder, 'k, 'v) depq \<Rightarrow> 'k option" where
  "evict_key iter_b d =
    (case ord_get_min (by_priority d) of
      None \<Rightarrow> None
    | Some (min_p, min_bucket) \<Rightarrow>
        (case iter_b min_bucket of [] \<Rightarrow> None | (k, _) # _ \<Rightarrow> Some k))"

partial_function (option) depq_evict ::
  "(('k \<rightharpoonup> 'v) \<Rightarrow> ('k \<times> 'v) list) \<Rightarrow> nat \<Rightarrow> ('p::linorder, 'k, 'v) depq \<Rightarrow> ('p, 'k, 'v) depq option"
  where
  "depq_evict iter_b cap d =
    (if map_size (by_key d) > cap
     then (case evict_key iter_b d of
             None \<Rightarrow> Some d
           | Some k \<Rightarrow> depq_evict iter_b cap (depq_remove d k))
     else Some d)"

definition depq_put :: "('p, 'k, 'v) depq \<Rightarrow> 'p \<Rightarrow> 'k \<Rightarrow> 'v \<Rightarrow> ('p, 'k, 'v) depq" where
  "depq_put d priority key value =
    (let bp = (case by_key d key of
                 None \<Rightarrow> by_priority d
               | Some (old_p, _) \<Rightarrow> bucket_unlink (by_priority d) old_p key)
     in d\<lparr>by_key := (by_key d)(key \<mapsto> (priority, value)),
          by_priority := bucket_link bp priority key value\<rparr>)"

definition depq_insert ::
  "(('k \<rightharpoonup> 'v) \<Rightarrow> ('k \<times> 'v) list) \<Rightarrow> nat \<Rightarrow> ('p::linorder, 'k, 'v) depq \<Rightarrow> 'p \<Rightarrow> 'k \<Rightarrow> 'v
    \<Rightarrow> ('p, 'k, 'v) depq option" where
  "depq_insert iter_b cap d priority key value =
    depq_evict iter_b cap (depq_put d priority key value)"

section \<open>Commands\<close>

datatype 'p bound = Included 'p | Excluded 'p | Unbounded

definition range_contains :: "'p::linorder bound \<Rightarrow> 'p bound \<Rightarrow> 'p \<Rightarrow> bool" where
  "range_contains lower upper p \<longleftrightarrow>
    (case lower of Included s \<Rightarrow> s \<le> p | Excluded s \<Rightarrow> s < p | Unbounded \<Rightarrow> True) \<and>
    (case upper of Included e \<Rightarrow> p \<le> e | Excluded e \<Rightarrow> p < e | Unbounded \<Rightarrow> True)"

datatype ('p, 'k, 'v) depq_command =
    DepqClear
  | DepqInsert 'p 'k 'v
  | DepqExtend "('p \<times> 'k \<times> 'v) list"
  | DepqUpdatePriority 'k 'p
  | DepqUpdateValue 'k 'v
  | DepqCompareExchangeValue 'k 'v "'v option"
  | DepqRemoveKeys "'k list"
  | DepqRemoveRange "'p bound" "'p bound"
  | DepqTakeSnapshot snapshot_request

type_synonym ('p, 'k, 'v) depq_machine = "(('p, 'k, 'v) depq, ('p, 'k, 'v) depq) collection"

definition depq_new :: "bool \<Rightarrow> sync_config \<Rightarrow> peer_id \<Rightarrow> ('p, 'k, 'v) depq_machine" where
  "depq_new is_writer cfg local_id = collection_new depq_empty is_writer cfg local_id"

text \<open>
  The parameters of the machine: the two iteration orders, the value encoding that
  \<open>CompareExchangeValue\<close> compares by, and the capacity \<open>CAP\<close>.
\<close>

record ('p, 'k, 'v, 'b) depq_env =
  iter_bucket :: "('k \<rightharpoonup> 'v) \<Rightarrow> ('k \<times> 'v) list"
  iter_keys :: "('k \<rightharpoonup> 'p \<times> 'v) \<Rightarrow> ('k \<times> ('p \<times> 'v)) list"
  encode_value :: "'v \<Rightarrow> 'b option"
  capacity :: nat

text \<open>Whether \<open>CompareExchangeValue\<close> takes the \<open>continue\<close>, which skips the command count.\<close>

fun depq_continues ::
  "('p, 'k, 'v, 'b) depq_env \<Rightarrow> ('p, 'k, 'v) depq \<Rightarrow> ('p, 'k, 'v) depq_command \<Rightarrow> bool" where
  "depq_continues env d (DepqCompareExchangeValue key expected new) =
    (case by_key d key of
      None \<Rightarrow> False
    | Some (p, old_v) \<Rightarrow> encode_value env old_v \<noteq> encode_value env expected)"
| "depq_continues env d _ = False"

fun depq_effect ::
  "('p::linorder, 'k, 'v, 'b) depq_env \<Rightarrow> ('p, 'k, 'v) depq \<Rightarrow> ('p, 'k, 'v) depq_command
    \<Rightarrow> ('p, 'k, 'v) depq option" where
  "depq_effect env d DepqClear = Some depq_empty"
| "depq_effect env d (DepqInsert priority key value) =
    depq_insert (iter_bucket env) (capacity env) d priority key value"
| "depq_effect env d (DepqCompareExchangeValue key expected new) =
    (case by_key d key of
      None \<Rightarrow> Some d
    | Some (p, old_v) \<Rightarrow>
        if encode_value env old_v \<noteq> encode_value env expected then Some d
        else (case new of
                Some v \<Rightarrow> depq_insert (iter_bucket env) (capacity env) d p key v
              | None \<Rightarrow> Some (depq_remove d key)))"
| "depq_effect env d (DepqExtend entries) =
    foldM (\<lambda>d (priority, key, value).
      depq_insert (iter_bucket env) (capacity env) d priority key value) d entries"
| "depq_effect env d (DepqUpdatePriority key priority) =
    (case by_key d key of
      None \<Rightarrow> Some d
    | Some (_, old_v) \<Rightarrow> depq_insert (iter_bucket env) (capacity env) d priority key old_v)"
| "depq_effect env d (DepqUpdateValue key value) =
    (case by_key d key of
      None \<Rightarrow> Some d
    | Some (p, _) \<Rightarrow> depq_insert (iter_bucket env) (capacity env) d p key value)"
| "depq_effect env d (DepqRemoveKeys keys) = Some (foldl depq_remove d keys)"
| "depq_effect env d (DepqRemoveRange lower upper) =
    (let keys_to_remove =
       map fst (filter (\<lambda>(_, (p, _)). range_contains lower upper p) (iter_keys env (by_key d)))
     in Some (foldl depq_remove d keys_to_remove))"
| "depq_effect env d (DepqTakeSnapshot request) = Some d"

definition depq_step ::
  "('p::linorder, 'k, 'v, 'b) depq_env \<Rightarrow> ('p, 'k, 'v) depq_machine \<Rightarrow> int \<Rightarrow> ('p, 'k, 'v) depq batch
    \<Rightarrow> ('p, 'k, 'v) depq_command \<Rightarrow> ('p, 'k, 'v) depq batch option" where
  "depq_step env m now b c =
    (case c of
      DepqTakeSnapshot request \<Rightarrow> Some (count_command (take_snapshot m now request b))
    | _ \<Rightarrow>
        map_option
          (\<lambda>d. let b' = b\<lparr>batch_data := d\<rparr>
               in if depq_continues env (batch_data b) c then b' else count_command b')
          (depq_effect env (batch_data b) c))"

definition depq_create_snapshot :: "('p, 'k, 'v) depq \<Rightarrow> ('p, 'k, 'v) depq" where
  "depq_create_snapshot data = \<lparr>by_key = by_key data, by_priority = by_priority data\<rparr>"

definition depq_install_snapshot ::
  "('p, 'k, 'v) depq_machine \<Rightarrow> ('p, 'k, 'v) depq \<Rightarrow> ('p, 'k, 'v) depq_machine" where
  "depq_install_snapshot m snapshot = m\<lparr>coll_data := snapshot, coll_latest := snapshot\<rparr>"

definition depq_apply_batch ::
  "('p::linorder, 'k, 'v, 'b) depq_env \<Rightarrow> ('p, 'k, 'v) depq_command list \<Rightarrow> apply_context \<Rightarrow> int
    \<Rightarrow> ('p, 'k, 'v) depq_machine \<Rightarrow> ('p, 'k, 'v) depq_machine option" where
  "depq_apply_batch env cs ctx now m =
    map_option (finish_batch depq_create_snapshot ctx m) (foldM (depq_step env m now) (batch_start m) cs)"

section \<open>Reads\<close>

definition depq_get :: "('p, 'k, 'v) depq \<Rightarrow> 'k \<Rightarrow> 'v option" where
  "depq_get d key = map_option snd (by_key d key)"

definition depq_get_priority :: "('p, 'k, 'v) depq \<Rightarrow> 'k \<Rightarrow> 'p option" where
  "depq_get_priority d key = map_option fst (by_key d key)"

definition depq_get_min ::
  "(('k \<rightharpoonup> 'v) \<Rightarrow> ('k \<times> 'v) list) \<Rightarrow> ('p::linorder, 'k, 'v) depq \<Rightarrow> ('p \<times> 'k \<times> 'v) option" where
  "depq_get_min iter_b d =
    Option.bind (ord_get_min (by_priority d))
      (\<lambda>(p, bucket). case iter_b bucket of [] \<Rightarrow> None | (k, v) # _ \<Rightarrow> Some (p, k, v))"

definition depq_get_max ::
  "(('k \<rightharpoonup> 'v) \<Rightarrow> ('k \<times> 'v) list) \<Rightarrow> ('p::linorder, 'k, 'v) depq \<Rightarrow> ('p \<times> 'k \<times> 'v) option" where
  "depq_get_max iter_b d =
    Option.bind (ord_get_max (by_priority d))
      (\<lambda>(p, bucket). case iter_b bucket of [] \<Rightarrow> None | (k, v) # _ \<Rightarrow> Some (p, k, v))"

text \<open>The ordered map iterates in key order.\<close>

definition depq_iter_asc ::
  "(('k \<rightharpoonup> 'v) \<Rightarrow> ('k \<times> 'v) list) \<Rightarrow> ('p::linorder, 'k, 'v) depq \<Rightarrow> ('p \<times> 'k \<times> 'v) list" where
  "depq_iter_asc iter_b d =
    concat (map (\<lambda>p. map (\<lambda>(k, v). (p, k, v)) (iter_b (the (by_priority d p))))
      (sorted_list_of_set (dom (by_priority d))))"

definition depq_iter_desc ::
  "(('k \<rightharpoonup> 'v) \<Rightarrow> ('k \<times> 'v) list) \<Rightarrow> ('p::linorder, 'k, 'v) depq \<Rightarrow> ('p \<times> 'k \<times> 'v) list" where
  "depq_iter_desc iter_b d =
    concat (map (\<lambda>p. map (\<lambda>(k, v). (p, k, v)) (iter_b (the (by_priority d p))))
      (rev (sorted_list_of_set (dom (by_priority d)))))"

section \<open>Snapshots\<close>

definition depq_snap_len :: "('p, 'k, 'v) depq \<Rightarrow> nat" where
  "depq_snap_len s = map_size (by_key s)"

definition depq_items ::
  "(('k \<rightharpoonup> 'p \<times> 'v) \<Rightarrow> ('k \<times> ('p \<times> 'v)) list) \<Rightarrow> ('p, 'k, 'v) depq \<Rightarrow> ('p \<times> 'k \<times> 'v) list" where
  "depq_items iter_k s = map (\<lambda>(k, (p, v)). (p, k, v)) (iter_k (by_key s))"

definition depq_iter_range ::
  "(('k \<rightharpoonup> 'p \<times> 'v) \<Rightarrow> ('k \<times> ('p \<times> 'v)) list) \<Rightarrow> ('p, 'k, 'v) depq \<Rightarrow> nat \<times> nat
    \<Rightarrow> ('p \<times> 'k \<times> 'v) list option" where
  "depq_iter_range iter_k s rng =
    (if snd rng > map_size (by_key s) then None
     else Some (take (snd rng - fst rng) (drop (fst rng) (depq_items iter_k s))))"

fun depq_snap_append :: "('p, 'k, 'v) depq \<Rightarrow> ('p \<times> 'k \<times> 'v) list \<Rightarrow> ('p, 'k, 'v) depq" where
  "depq_snap_append s [] = s"
| "depq_snap_append s ((priority, key, value) # is) =
    depq_snap_append
      (s\<lparr>by_key := (by_key s)(key \<mapsto> (priority, value)),
         by_priority := bucket_link (by_priority s) priority key value\<rparr>) is"


section \<open>The index invariant\<close>

definition bucket_of :: "('k \<rightharpoonup> 'p \<times> 'v) \<Rightarrow> 'p \<Rightarrow> ('k \<rightharpoonup> 'v)" where
  "bucket_of m p = (\<lambda>k. case m k of None \<Rightarrow> None | Some (q, v) \<Rightarrow> if q = p then Some v else None)"

definition buckets :: "('k \<rightharpoonup> 'p \<times> 'v) \<Rightarrow> ('p \<rightharpoonup> ('k \<rightharpoonup> 'v))" where
  "buckets m = (\<lambda>p. if dom (bucket_of m p) = {} then None else Some (bucket_of m p))"

definition depq_ok :: "('p, 'k, 'v) depq \<Rightarrow> bool" where
  "depq_ok d \<longleftrightarrow> finite (dom (by_key d)) \<and> by_priority d = buckets (by_key d)"

lemma bucket_of_Some_iff: "bucket_of m p k = Some v \<longleftrightarrow> m k = Some (p, v)"
  by (auto simp: bucket_of_def split: option.splits if_splits)

lemma bucket_of_delete: "bucket_of (m(k := None)) p = (bucket_of m p)(k := None)"
  by (auto simp: bucket_of_def fun_eq_iff)

lemma bucket_of_delete_other: "m k = Some (p, v) \<Longrightarrow> q \<noteq> p \<Longrightarrow> bucket_of (m(k := None)) q = bucket_of m q"
  by (auto simp: bucket_of_def fun_eq_iff)

lemma bucket_of_put:
  "m k = None \<Longrightarrow> bucket_of (m(k \<mapsto> (p, v))) q =
    (if q = p then (bucket_of m p)(k \<mapsto> v) else bucket_of m q)"
  by (auto simp: bucket_of_def fun_eq_iff)

lemma bucket_unlink_buckets:
  assumes "m k = Some (p, v)"
  shows "bucket_unlink (buckets m) p k = buckets (m(k := None))"
proof -
  have "bucket_of m p k = Some v" using assms by (simp add: bucket_of_Some_iff)
  then have ne: "dom (bucket_of m p) \<noteq> {}" by auto
  show ?thesis
  proof
    fix q
    show "bucket_unlink (buckets m) p k q = buckets (m(k := None)) q"
    proof (cases "q = p")
      case True
      then show ?thesis using ne
        by (simp add: bucket_unlink_def buckets_def bucket_of_delete Let_def
            del: dom_eq_empty_conv dom_fun_upd)
    next
      case False
      then show ?thesis using ne bucket_of_delete_other [of m k p v q, OF assms False]
        by (simp add: bucket_unlink_def buckets_def Let_def)
    qed
  qed
qed

lemma bucket_link_buckets:
  assumes "m k = None"
  shows "bucket_link (buckets m) p k v = buckets (m(k \<mapsto> (p, v)))"
proof
  fix q
  have "dom (bucket_of m p) = {} \<Longrightarrow> bucket_of m p = Map.empty" by simp
  then show "bucket_link (buckets m) p k v q = buckets (m(k \<mapsto> (p, v))) q"
    using assms by (auto simp: bucket_link_def buckets_def bucket_of_put Let_def)
qed

lemma depq_ok_empty [simp]: "depq_ok depq_empty"
  by (simp add: depq_ok_def depq_empty_def buckets_def bucket_of_def fun_eq_iff)

lemma depq_remove_by_key [machine_simps]:
  "by_key (depq_remove d k) = (by_key d)(k := None)"
  by (auto simp: depq_remove_def fun_upd_idem split: option.splits)

lemma depq_remove_ok: "depq_ok d \<Longrightarrow> depq_ok (depq_remove d k)"
  by (auto simp: depq_ok_def depq_remove_def bucket_unlink_buckets split: option.splits)

lemma depq_removes_by_key: "by_key (foldl depq_remove d ks) = by_key d |` (- set ks)"
proof (induction ks arbitrary: d)
  case Nil
  then show ?case by (simp add: restrict_map_def)
next
  case (Cons k ks)
  then show ?case by (auto simp: machine_simps restrict_map_def fun_eq_iff)
qed

lemma depq_removes_ok: "depq_ok d \<Longrightarrow> depq_ok (foldl depq_remove d ks)"
  by (induction ks arbitrary: d) (simp_all add: depq_remove_ok)

lemma depq_put_by_key [machine_simps]:
  "by_key (depq_put d p k v) = (by_key d)(k \<mapsto> (p, v))"
  by (simp add: depq_put_def Let_def)

lemma depq_put_ok:
  assumes "depq_ok d"
  shows "depq_ok (depq_put d p k v)"
proof -
  have "bucket_link (buckets ((by_key d)(k := None))) p k v = buckets ((by_key d)(k \<mapsto> (p, v)))"
    using bucket_link_buckets [of "(by_key d)(k := None)" k p v] by simp
  moreover have "by_key d k = None \<Longrightarrow> (by_key d)(k := None) = by_key d"
    by (simp add: fun_upd_idem)
  ultimately show ?thesis
    using assms
    by (auto simp: depq_ok_def depq_put_def Let_def bucket_unlink_buckets split: option.splits)
qed

lemma depq_dom_by_priority: "depq_ok d \<Longrightarrow> dom (by_priority d) = fst ` ran (by_key d)"
proof
  assume ok: "depq_ok d"
  show "dom (by_priority d) \<subseteq> fst ` ran (by_key d)"
  proof
    fix p assume "p \<in> dom (by_priority d)"
    then have "dom (bucket_of (by_key d) p) \<noteq> {}"
      using ok by (auto simp: depq_ok_def buckets_def split: if_splits)
    then obtain k v where "bucket_of (by_key d) p k = Some v" by fast
    then show "p \<in> fst ` ran (by_key d)"
      by (auto simp: bucket_of_Some_iff intro!: image_eqI [of _ _ "(p, v)"] ranI)
  qed
  show "fst ` ran (by_key d) \<subseteq> dom (by_priority d)"
  proof
    fix p assume "p \<in> fst ` ran (by_key d)"
    then obtain k v where "by_key d k = Some (p, v)" by (auto simp: ran_def)
    then have "bucket_of (by_key d) p k = Some v" by (simp add: bucket_of_Some_iff)
    then show "p \<in> dom (by_priority d)"
      using ok by (auto simp: depq_ok_def buckets_def)
  qed
qed

lemma depq_finite_by_priority: "depq_ok d \<Longrightarrow> finite (dom (by_priority d))"
  by (subst depq_dom_by_priority) (simp_all add: finite_ran depq_ok_def)

lemma depq_bucket:
  assumes "depq_ok d" and "by_priority d p = Some b"
  shows "b = bucket_of (by_key d) p" and "dom b \<noteq> {}" and "finite (dom b)"
proof -
  show b: "b = bucket_of (by_key d) p" and "dom b \<noteq> {}"
    using assms by (auto simp: depq_ok_def buckets_def split: if_splits)
  have "dom b \<subseteq> dom (by_key d)" by (auto simp: b bucket_of_Some_iff)
  then show "finite (dom b)" using assms(1) by (auto simp: depq_ok_def intro: finite_subset)
qed

section \<open>Eviction\<close>

lemma hash_iter_Nil_iff: "hash_iter iter \<Longrightarrow> finite (dom b) \<Longrightarrow> iter b = [] \<longleftrightarrow> b = Map.empty"
  by (metis hash_iter_def map_of.simps(1) map_of_eq_empty_iff)

lemma hash_iter_Cons: "hash_iter iter \<Longrightarrow> finite (dom b) \<Longrightarrow> iter b = (k, v) # es \<Longrightarrow> b k = Some v"
  by (metis hash_iter_def map_of_Cons_code(2))

lemma hash_iter_set: "hash_iter iter \<Longrightarrow> finite (dom b) \<Longrightarrow> (k, v) \<in> set (iter b) \<longleftrightarrow> b k = Some v"
  by (metis hash_iter_def map_of_eq_Some_iff)

text \<open>The evicted key has the least priority of all.\<close>

lemma evict_key_Some:
  assumes "depq_ok d" and "hash_iter iter_b" and "evict_key iter_b d = Some k"
  shows "\<exists>p v. by_key d k = Some (p, v) \<and> (\<forall>q \<in> fst ` ran (by_key d). p \<le> q)"
proof -
  let ?p = "Min (dom (by_priority d))"
  from assms(3) obtain v es where ne: "dom (by_priority d) \<noteq> {}"
    and it: "iter_b (the (by_priority d ?p)) = (k, v) # es"
    by (auto simp: evict_key_def ord_get_min_def split: if_splits list.splits)
  have fin: "finite (dom (by_priority d))" by (rule depq_finite_by_priority [OF assms(1)])
  then have "?p \<in> dom (by_priority d)" using ne by (rule Min_in)
  then obtain b where b: "by_priority d ?p = Some b" by auto
  have "b k = Some v"
    by (rule hash_iter_Cons [OF assms(2) depq_bucket(3) [OF assms(1) b]]) (use it b in simp)
  then have "by_key d k = Some (?p, v)"
    using depq_bucket(1) [OF assms(1) b] by (simp add: bucket_of_Some_iff)
  moreover have "\<forall>q \<in> fst ` ran (by_key d). ?p \<le> q"
    using fin depq_dom_by_priority [OF assms(1)] by simp
  ultimately show ?thesis by blast
qed

lemma evict_key_None:
  assumes "depq_ok d" and "hash_iter iter_b" and "evict_key iter_b d = None"
  shows "by_key d = Map.empty"
proof (rule ccontr)
  assume "by_key d \<noteq> Map.empty"
  then have ne: "dom (by_priority d) \<noteq> {}"
    using depq_dom_by_priority [OF assms(1)] by (auto simp: ran_def fun_eq_iff)
  have "Min (dom (by_priority d)) \<in> dom (by_priority d)"
    using depq_finite_by_priority [OF assms(1)] ne by (rule Min_in)
  then obtain b where b: "by_priority d (Min (dom (by_priority d))) = Some b" by auto
  from assms(3) ne b have "iter_b b = []"
    by (auto simp: evict_key_def ord_get_min_def split: if_splits list.splits)
  then show False
    using hash_iter_Nil_iff [OF assms(2) depq_bucket(3) [OF assms(1) b]] depq_bucket(2) [OF assms(1) b]
    by simp
qed

text \<open>
  The eviction loop ends. What it leaves is the queue restricted to a set of keys, of the largest
  size the capacity allows, and every evicted key has a priority no greater than a kept one.
\<close>

lemma depq_evict_ok:
  assumes "depq_ok d" and "hash_iter iter_b"
  shows "\<exists>d'. depq_evict iter_b cap d = Some d' \<and> depq_ok d' \<and>
    map_size (by_key d') = min cap (map_size (by_key d)) \<and>
    (\<exists>S. by_key d' = by_key d |` S) \<and>
    (\<forall>k p v k' p' v'. by_key d k = Some (p, v) \<longrightarrow> by_key d' k = None \<longrightarrow>
      by_key d' k' = Some (p', v') \<longrightarrow> p \<le> p')"
  using assms(1)
proof (induction "map_size (by_key d)" arbitrary: d rule: less_induct)
  case less
  have fin: "finite (dom (by_key d))" using less.prems by (simp add: depq_ok_def)
  show ?case
  proof (cases "map_size (by_key d) > cap")
    case False
    then have "depq_evict iter_b cap d = Some d" by (simp add: depq_evict.simps)
    moreover have "by_key d = by_key d |` UNIV" by (simp add: restrict_map_def)
    ultimately show ?thesis using less.prems False by (auto intro: exI [of _ UNIV])
  next
    case True
    then have ne: "by_key d \<noteq> Map.empty" by auto
    then obtain k where k: "evict_key iter_b d = Some k"
      using evict_key_None [OF less.prems assms(2)] by (cases "evict_key iter_b d") auto
    obtain p v where kv: "by_key d k = Some (p, v)" and least: "\<forall>q \<in> fst ` ran (by_key d). p \<le> q"
      using evict_key_Some [OF less.prems assms(2) k] by blast
    let ?d = "depq_remove d k"
    have size: "map_size (by_key ?d) = map_size (by_key d) - 1"
      using kv map_size_delete [OF fin, of k] by (auto simp: machine_simps)
    have smaller: "map_size (by_key ?d) < map_size (by_key d)" using size True by simp
    obtain d' S where run: "depq_evict iter_b cap ?d = Some d'" and ok: "depq_ok d'"
      and size': "map_size (by_key d') = min cap (map_size (by_key ?d))"
      and restr: "by_key d' = by_key ?d |` S"
      and ord: "\<forall>k p v k' p' v'. by_key ?d k = Some (p, v) \<longrightarrow> by_key d' k = None \<longrightarrow>
        by_key d' k' = Some (p', v') \<longrightarrow> p \<le> p'"
      using less.hyps [OF smaller depq_remove_ok [OF less.prems]] by blast
    have eq: "depq_evict iter_b cap d = Some d'"
      using True k run by (simp add: depq_evict.simps)
    have restr': "by_key d' = by_key d |` (S - {k})"
      using restr by (auto simp: machine_simps restrict_map_def fun_eq_iff)
    have "\<forall>k1 p1 v1 k' p' v'. by_key d k1 = Some (p1, v1) \<longrightarrow> by_key d' k1 = None \<longrightarrow>
        by_key d' k' = Some (p', v') \<longrightarrow> p1 \<le> p'"
    proof (intro allI impI)
      fix k1 p1 v1 k' p' v'
      assume a: "by_key d k1 = Some (p1, v1)" "by_key d' k1 = None" "by_key d' k' = Some (p', v')"
      show "p1 \<le> p'"
      proof (cases "k1 = k")
        case True
        have "by_key d k' = Some (p', v')"
          using a(3) restr' by (simp add: restrict_map_def split: if_splits)
        then have "p' \<in> fst ` ran (by_key d)" by (force intro: ranI)
        with least have "p \<le> p'" by blast
        with True a(1) kv show ?thesis by simp
      next
        case False
        then have "by_key ?d k1 = Some (p1, v1)" using a(1) by (simp add: machine_simps)
        with a ord show ?thesis by blast
      qed
    qed
    moreover have "map_size (by_key d') = min cap (map_size (by_key d))"
      using size size' True by simp
    ultimately show ?thesis using eq ok restr' by blast
  qed
qed

lemma depq_insert_ok:
  assumes "depq_ok d" and "hash_iter iter_b"
  shows "\<exists>d'. depq_insert iter_b cap d p k v = Some d' \<and> depq_ok d' \<and> map_size (by_key d') \<le> cap"
proof -
  from depq_evict_ok [OF depq_put_ok [OF assms(1)] assms(2), of cap p k v]
  show ?thesis unfolding depq_insert_def by fastforce
qed

section \<open>Every command keeps the invariant and the capacity\<close>

definition depq_bounded :: "nat \<Rightarrow> ('p, 'k, 'v) depq \<Rightarrow> bool" where
  "depq_bounded cap d \<longleftrightarrow> depq_ok d \<and> map_size (by_key d) \<le> cap"

lemma depq_bounded_remove: "depq_bounded cap d \<Longrightarrow> depq_bounded cap (depq_remove d k)"
proof -
  assume b: "depq_bounded cap d"
  then have "map_size (by_key (depq_remove d k)) \<le> cap"
    by (auto simp: depq_bounded_def depq_ok_def machine_simps map_size_delete)
  with b show ?thesis by (simp add: depq_bounded_def depq_remove_ok)
qed

lemma depq_bounded_removes: "depq_bounded cap d \<Longrightarrow> depq_bounded cap (foldl depq_remove d ks)"
  by (rule foldl_invariant) (simp_all add: depq_bounded_remove)

lemma depq_bounded_insert:
  assumes "depq_bounded cap d" and "hash_iter iter_b"
  shows "\<exists>d'. depq_insert iter_b cap d p k v = Some d' \<and> depq_bounded cap d'"
  using depq_insert_ok [of d iter_b cap p k v] assms by (auto simp: depq_bounded_def)

lemma depq_bounded_extend:
  assumes "depq_bounded cap d" and "hash_iter iter_b"
  shows "\<exists>d'. foldM (\<lambda>d (p, k, v). depq_insert iter_b cap d p k v) d es = Some d' \<and> depq_bounded cap d'"
  using assms(1)
proof (induction es arbitrary: d)
  case Nil
  then show ?case by simp
next
  case (Cons e es)
  obtain p k v where e: "e = (p, k, v)" by (cases e)
  from depq_bounded_insert [OF Cons.prems assms(2), of p k v]
  obtain d1 where "depq_insert iter_b cap d p k v = Some d1" and "depq_bounded cap d1" by blast
  with Cons.IH [of d1] e show ?case by simp
qed

lemma depq_effect_bounded:
  assumes "depq_bounded (capacity env) d" and "hash_iter (iter_bucket env)"
  shows "\<exists>d'. depq_effect env d c = Some d' \<and> depq_bounded (capacity env) d'"
proof (cases c)
  case DepqClear
  then show ?thesis by (simp add: depq_bounded_def) (simp add: depq_empty_def)
next
  case (DepqExtend es)
  then show ?thesis using depq_bounded_extend [OF assms] by simp
qed (use assms depq_bounded_insert [OF assms] in
    \<open>auto simp: depq_bounded_remove depq_bounded_removes Let_def split: option.splits\<close>)

section \<open>Interpretations\<close>

lemma depq_step_data: "map_option batch_data (depq_step env m now b c) = depq_effect env (batch_data b) c"
proof -
  have "batch_data (let b' = b\<lparr>batch_data := d\<rparr>
      in if depq_continues env (batch_data b) c then b' else count_command b') = d" for d
    by (simp add: Let_def)
  then show ?thesis
    by (cases c) (simp_all add: depq_step_def option.map_comp comp_def option.map_ident)
qed

lemma depq_loop_data:
  "map_option batch_data (foldM (depq_step env m now) b cs) = foldM (depq_effect env) (batch_data b) cs"
proof (induction cs arbitrary: b)
  case Nil
  then show ?case by simp
next
  case (Cons c cs)
  show ?case using depq_step_data [of env m now b c] Cons.IH
    by (cases "depq_step env m now b c") (auto dest: sym)
qed

interpretation dq: batch_machine "depq_apply_batch env" coll_data "depq_effect env" for env
proof
  fix cs ctx now m
  have "map_option coll_data (depq_apply_batch env cs ctx now m) =
      map_option batch_data (foldM (depq_step env m now) (batch_start m) cs)"
    by (simp add: depq_apply_batch_def option.map_comp comp_def)
  then show "map_option coll_data (depq_apply_batch env cs ctx now m) =
      foldM (depq_effect env) (coll_data m) cs"
    by (simp add: depq_loop_data)
qed


lemma depq_create_snapshot_id: "depq_create_snapshot d = d"
  by (cases d) (simp add: depq_create_snapshot_def)

lemma depq_eqI: "depq_ok d1 \<Longrightarrow> depq_ok d2 \<Longrightarrow> by_key d1 = by_key d2 \<Longrightarrow> d1 = d2"
  by (simp add: depq_ok_def)

lemma depq_snap_append_append:
  "depq_snap_append s (xs @ ys) = depq_snap_append (depq_snap_append s xs) ys"
  by (induction s xs rule: depq_snap_append.induct) simp_all

lemma depq_snap_append_ok:
  assumes "depq_ok s" and "distinct (map fst es)" and "fst ` set es \<inter> dom (by_key s) = {}"
  shows "depq_ok (depq_snap_append s (map (\<lambda>(k, (p, v)). (p, k, v)) es)) \<and>
    by_key (depq_snap_append s (map (\<lambda>(k, (p, v)). (p, k, v)) es)) = by_key s ++ map_of es"
  using assms
proof (induction es arbitrary: s)
  case Nil
  then show ?case by simp
next
  case (Cons e es)
  obtain k p v where e: "e = (k, p, v)" by (cases e)
  let ?s = "s\<lparr>by_key := (by_key s)(k \<mapsto> (p, v)), by_priority := bucket_link (by_priority s) p k v\<rparr>"
  have new: "by_key s k = None" using Cons.prems(3) e by (auto simp: domIff)
  have ok: "depq_ok ?s"
    using Cons.prems(1) bucket_link_buckets [of "by_key s" k p v, OF new] by (simp add: depq_ok_def)
  have disj: "fst ` set es \<inter> dom (by_key ?s) = {}" using Cons.prems(2,3) e by force
  have IH: "depq_ok (depq_snap_append ?s (map (\<lambda>(k, (p, v)). (p, k, v)) es)) \<and>
    by_key (depq_snap_append ?s (map (\<lambda>(k, (p, v)). (p, k, v)) es)) = by_key ?s ++ map_of es"
    by (rule Cons.IH [OF ok _ disj]) (use Cons.prems(2) in simp)
  have "by_key ?s ++ map_of es = by_key s ++ map_of (e # es)"
  proof -
    have "map_of es k = None" using Cons.prems(2) e by (simp add: map_of_eq_None_iff)
    then show ?thesis using e by (auto simp: fun_eq_iff map_add_def split: option.splits)
  qed
  with IH e show ?case by (simp add: fun_upd_def)
qed

locale depq_key_iter = hash_map_iter iter for iter :: "('k \<rightharpoonup> 'p \<times> 'v) \<Rightarrow> ('k \<times> 'p \<times> 'v) list"

sublocale depq_key_iter \<subseteq> ds: snapshot_machine
  depq_ok depq_create_snapshot "\<lambda>s. s" depq_empty depq_snap_len "depq_iter_range iter"
  depq_snap_append "depq_items iter"
proof (unfold_locales, goal_cases)
  case (1 d) then show ?case
    by (simp add: depq_snap_len_def depq_create_snapshot_def depq_items_def iter_length depq_ok_def)
next
  case (2 d a b) then show ?case by (simp add: depq_iter_range_def depq_snap_len_def)
next
  case (3 s) show ?case by simp
next
  case (4 s xs ys) show ?case by (rule depq_snap_append_append)
next
  case (5 d)
  then have fin: "finite (dom (by_key d))" by (simp add: depq_ok_def)
  have "depq_ok (depq_snap_append depq_empty (depq_items iter d)) \<and>
      by_key (depq_snap_append depq_empty (depq_items iter d)) = by_key depq_empty ++ map_of (iter (by_key d))"
    unfolding depq_items_def
    by (rule depq_snap_append_ok) (simp_all add: iter_distinct [OF fin], simp add: depq_empty_def)
  then have "depq_snap_append depq_empty (depq_items iter d) = d"
    using 5 iter_map_of [OF fin] by (intro depq_eqI) (simp_all add: depq_empty_def)
  then show ?case by (simp only: depq_create_snapshot_id)
qed

context depq_key_iter
begin

lemma depq_restores:
  assumes "depq_ok d" and "sorted_wrt (<) (0 # bs)" and "last (0 # bs) = depq_snap_len (depq_create_snapshot d)"
  shows "fetch_chunks (depq_iter_range iter) depq_snap_append (depq_create_snapshot d) 0 bs depq_empty = Some d"
  using ds.transfer_restores [OF assms] by (simp add: option.map_ident)

end

interpretation pq_by_key: depq_key_iter "iter_by_key :: ('k::linorder \<rightharpoonup> 'p \<times> 'v) \<Rightarrow> _"
  by unfold_locales

section \<open>Reads see the two indexes as one\<close>

lemma depq_iter_asc_set:
  assumes "depq_ok d" and "hash_iter iter_b"
  shows "(p, k, v) \<in> set (depq_iter_asc iter_b d) \<longleftrightarrow> by_key d k = Some (p, v)"
proof -
  have fin: "finite (dom (by_priority d))" by (rule depq_finite_by_priority [OF assms(1)])
  have "(p, k, v) \<in> set (depq_iter_asc iter_b d) \<longleftrightarrow>
      (\<exists>b. by_priority d p = Some b \<and> (k, v) \<in> set (iter_b b))"
    using fin by (force simp: depq_iter_asc_def)
  also have "\<dots> \<longleftrightarrow> (\<exists>b. by_priority d p = Some b \<and> b k = Some v)"
    using hash_iter_set [OF assms(2) depq_bucket(3) [OF assms(1)]] by blast
  also have "\<dots> \<longleftrightarrow> bucket_of (by_key d) p k = Some v"
    using assms(1) by (auto simp: depq_ok_def buckets_def)
  finally show ?thesis by (simp add: bucket_of_Some_iff)
qed

lemma sorted_concat_buckets:
  "sorted ps \<Longrightarrow> sorted (map fst (concat (map (\<lambda>p. map (\<lambda>(k, v). (p, k, v)) (f p)) ps)))"
proof (induction ps)
  case Nil
  then show ?case by simp
next
  case (Cons p ps)
  have "map fst (map (\<lambda>(k, v). (p, k, v)) (f p)) = replicate (length (f p)) p"
    by (simp add: split_beta comp_def map_replicate_const)
  then show ?case using Cons by (auto simp: sorted_append simp del: map_map)
qed

end
