(* ===== verification/Replicated.thy ===== *)
theory Replicated
  imports Snapshot_Sync Map_Machine Set_Machine Vec_Machine Cell_Machine Depq_Machine
begin

text \<open>
  The state machines as parameters of raft: the dictionary of the no-op machine
  (\<open>groups/machine/noop.rs\<close>) and the one of a collection (their queries return the unit value).
  Each dictionary is a \<open>replica\<close>, so that the facts on commits hold for it.
\<close>

text \<open>The no-op machine: \<open>apply_batch\<close> is the default loop over \<open>apply\<close>, which does nothing.\<close>

definition noop_apply_batch :: "unit list \<Rightarrow> apply_context \<Rightarrow> int \<Rightarrow> unit \<Rightarrow> unit option" where
  "noop_apply_batch cs ctx now m = Some (foldl (\<lambda>m c. m) m cs)"

definition noop_ops ::
  "((unit, unit, unit, unit replay_message) message \<Rightarrow> bool)
    \<Rightarrow> (unit, unit, unit, unit, unit replay_message) machine_ops" where
  "noop_ops encodable =
    \<lparr>m_apply_batch = noop_apply_batch, m_query = (\<lambda>m q. ()), m_preference = (\<lambda>m. Normal),
     m_encodable = encodable\<rparr>"

definition collection_ops ::
  "('c list \<Rightarrow> apply_context \<Rightarrow> int \<Rightarrow> ('d, 's) collection \<Rightarrow> ('d, 's) collection option)
    \<Rightarrow> (('c, unit, unit, 'y) message \<Rightarrow> bool)
    \<Rightarrow> ('c, ('d, 's) collection, unit, unit, 'y) machine_ops" where
  "collection_ops apply_batch encodable =
    \<lparr>m_apply_batch = apply_batch, m_query = (\<lambda>m q. ()), m_preference = coll_leadership_preference,
     m_encodable = encodable\<rparr>"

lemma collection_ops_simps [simp]:
  "m_apply_batch (collection_ops ab enc) = ab"
  "m_preference (collection_ops ab enc) = coll_leadership_preference"
  "m_encodable (collection_ops ab enc) = enc"
  by (simp_all add: collection_ops_def)

lemma noop_ops_simps [simp]:
  "m_apply_batch (noop_ops enc) = noop_apply_batch"
  "m_preference (noop_ops enc) = (\<lambda>m. Normal)"
  "m_encodable (noop_ops enc) = enc"
  by (simp_all add: noop_ops_def)

lemma collection_replica: "batch_machine ab view f \<Longrightarrow> replica (collection_ops ab enc) view f"
  by (simp add: replica_def)

interpretation rmap: replica "collection_ops (map_apply_batch encode) enc" coll_data
  "\<lambda>d c. Some (map_effect encode d c)" for encode enc
  by (rule collection_replica) unfold_locales

interpretation rset: replica "collection_ops set_apply_batch enc" coll_data
  "\<lambda>d c. Some (set_effect d c)" for enc
  by (rule collection_replica) unfold_locales

interpretation rvec: replica "collection_ops vec_apply_batch enc" coll_data vec_effect for enc
  by (rule collection_replica) unfold_locales

interpretation rcell: replica "collection_ops (cell_apply_batch encode) enc" coll_data
  "\<lambda>d c. Some (cell_effect encode d c)" for encode enc
  by (rule collection_replica) unfold_locales

interpretation ronce: replica "collection_ops once_apply_batch enc" coll_data
  "\<lambda>d c. Some (once_effect d c)" for enc
  by (rule collection_replica) unfold_locales

interpretation rdepq: replica "collection_ops (depq_apply_batch env) enc" coll_data "depq_effect env"
  for env enc
  by (rule collection_replica) unfold_locales

section \<open>Snapshot sync of the collections\<close>

text \<open>
  What each collection passes to \<open>SnapshotSync::new\<close> (its marker command), with the operations of
  its snapshot type.
\<close>

definition map_env ::
  "(('k \<rightharpoonup> 'v) \<Rightarrow> ('k \<times> 'v) list) \<Rightarrow> sync_config
    \<Rightarrow> (('k, 'v) map_command, 'k \<rightharpoonup> 'v, 'k \<rightharpoonup> 'v, 'k \<times> 'v) snapshot_env" where
  "map_env iter cfg =
    \<lparr>se_config = cfg, se_to_command = MapTakeSnapshot, se_empty = Map.empty, se_len = map_snap_len,
     se_iter_range = map_iter_range iter, se_append = map_snap_append, se_install = map_install_snapshot\<rparr>"

definition set_env ::
  "('a set \<Rightarrow> 'a list) \<Rightarrow> sync_config \<Rightarrow> ('a set_command, 'a set, 'a set, 'a) snapshot_env" where
  "set_env iter cfg =
    \<lparr>se_config = cfg, se_to_command = SetTakeSnapshot, se_empty = {}, se_len = set_snap_len,
     se_iter_range = set_iter_range iter, se_append = set_snap_append, se_install = set_install_snapshot\<rparr>"

definition vec_env :: "sync_config \<Rightarrow> ('a vec_command, 'a list, 'a list, 'a) snapshot_env" where
  "vec_env cfg =
    \<lparr>se_config = cfg, se_to_command = VecTakeSnapshot, se_empty = [], se_len = vec_snap_len,
     se_iter_range = vec_iter_range, se_append = vec_snap_append, se_install = vec_install_snapshot\<rparr>"

definition cell_env :: "sync_config \<Rightarrow> ('a cell_command, 'a option, 'a option, 'a) snapshot_env" where
  "cell_env cfg =
    \<lparr>se_config = cfg, se_to_command = CellTakeSnapshot, se_empty = None, se_len = cell_snap_len,
     se_iter_range = cell_iter_range, se_append = cell_snap_append, se_install = cell_install_snapshot\<rparr>"

definition once_env :: "sync_config \<Rightarrow> ('a once_command, 'a option, 'a option, 'a) snapshot_env" where
  "once_env cfg =
    \<lparr>se_config = cfg, se_to_command = OnceTakeSnapshot, se_empty = None, se_len = once_snap_len,
     se_iter_range = once_iter_range, se_append = once_snap_append, se_install = once_install_snapshot\<rparr>"

definition depq_snap_env ::
  "(('k \<rightharpoonup> 'p \<times> 'v) \<Rightarrow> ('k \<times> 'p \<times> 'v) list) \<Rightarrow> sync_config
    \<Rightarrow> (('p, 'k, 'v) depq_command, ('p, 'k, 'v) depq, ('p, 'k, 'v) depq, 'p \<times> 'k \<times> 'v) snapshot_env" where
  "depq_snap_env iter cfg =
    \<lparr>se_config = cfg, se_to_command = DepqTakeSnapshot, se_empty = depq_empty, se_len = depq_snap_len,
     se_iter_range = depq_iter_range iter, se_append = depq_snap_append, se_install = depq_install_snapshot\<rparr>"

text \<open>Each of them is a \<open>snapshot_transfer\<close>, for every iteration order of the hash maps and sets.\<close>

context hash_map_iter
begin

lemma map_transfer:
  "snapshot_transfer (\<lambda>d. finite (dom d)) map_create_snapshot (\<lambda>s. s) Map.empty map_snap_len
    (map_iter_range iter) map_snap_append iter (map_env iter cfg)"
  by unfold_locales (simp_all add: map_env_def map_install_snapshot_def)

end

context hash_set_order
begin

lemma set_transfer:
  "snapshot_transfer finite set_create_snapshot (\<lambda>s. s) {} set_snap_len (set_iter_range iter) set_snap_append
    iter (set_env iter cfg)"
  by unfold_locales (simp_all add: set_env_def set_install_snapshot_def)

end

context depq_key_iter
begin

lemma depq_transfer:
  "snapshot_transfer depq_ok depq_create_snapshot (\<lambda>s. s) depq_empty depq_snap_len (depq_iter_range iter)
    depq_snap_append (depq_items iter) (depq_snap_env iter cfg)"
  by unfold_locales (simp_all add: depq_snap_env_def depq_install_snapshot_def)

end

interpretation vt: snapshot_transfer "\<lambda>_. True" vec_create_snapshot "\<lambda>s. s" "[]" vec_snap_len
  vec_iter_range vec_snap_append "\<lambda>s. s" "vec_env cfg" for cfg
  by unfold_locales (simp_all add: vec_env_def vec_install_snapshot_def)

interpretation ct: snapshot_transfer "\<lambda>_. True" cell_create_snapshot "\<lambda>s. s" None cell_snap_len
  cell_iter_range cell_snap_append option_items "cell_env cfg" for cfg
  by unfold_locales (simp_all add: cell_env_def cell_install_snapshot_def)

interpretation ot: snapshot_transfer "\<lambda>_. True" once_create_snapshot "\<lambda>s. s" None once_snap_len
  once_iter_range once_snap_append option_items "once_env cfg" for cfg
  by unfold_locales (simp_all add: once_env_def once_install_snapshot_def)

lemmas map_sync = hash_map_iter.map_transfer [OF hash_map_iter.intro]
lemmas set_sync = hash_set_order.set_transfer [OF hash_set_order.intro]
lemmas depq_sync = depq_key_iter.depq_transfer [OF depq_key_iter.intro, OF hash_map_iter.intro]

section \<open>Positions of snapshots\<close>

text \<open>
  The snapshots a batch of map commands leaves for the provider: one for each fresh request of
  another node, of the data after the batch and under the position of its last command.
\<close>

fun map_snapshot_requests ::
  "('k, 'v) map_machine \<Rightarrow> int \<Rightarrow> ('k, 'v) map_command list \<Rightarrow> snapshot_request list" where
  "map_snapshot_requests m now [] = []"
| "map_snapshot_requests m now (MapTakeSnapshot r # cs) =
    (if requested_by r \<noteq> coll_local_id m \<and> \<not> is_expired (coll_config m) now r then [r] else []) @
    map_snapshot_requests m now cs"
| "map_snapshot_requests m now (c # cs) = map_snapshot_requests m now cs"

lemma map_loop_requests:
  "sync_requests (foldl (map_step encode m now) b cs) = sync_requests b @ map_snapshot_requests m now cs"
  by (induction m now cs arbitrary: b rule: map_snapshot_requests.induct)
    (simp_all add: take_snapshot_def count_command_def)

lemma map_batch_snapshots:
  assumes "map_apply_batch encode cs ctx now m = Some m'"
  shows "coll_requests_tx m' = coll_requests_tx m @
    map (\<lambda>r. \<lparr>pending_request = r,
          pending_position = Cursor (ctx_current_term ctx) (pos_add (cursor_index (ctx_committed ctx)) (length cs)),
          pending_snapshot = map_create_snapshot (coll_data m')\<rparr>) (map_snapshot_requests m now cs)"
  using assms
  by (auto simp: map_apply_batch_def finish_batch_eq map_loop_len map_loop_requests)

end
