(* ===== verification/Sync_Properties.thy ===== *)
theory Sync_Properties
  imports Replicated
begin

text \<open>
  Properties of the snapshot sync of the collections, with an example: a replica of a map that missed
  the first two commands of the group, buffers the next two, and catches up from a snapshot of its leader.
\<close>

section \<open>An example session\<close>

abbreviation ex_snap_env ::
  "((nat, nat) map_command, nat \<rightharpoonup> nat, nat \<rightharpoonup> nat, nat \<times> nat) snapshot_env" where
  "ex_snap_env \<equiv> map_env iter_by_key sync_config_default"

abbreviation ex_snap_ops ::
  "((nat, nat) map_command, nat \<rightharpoonup> nat, nat \<rightharpoonup> nat, nat \<times> nat, unit, unit) snapshot_machine_ops" where
  "ex_snap_ops \<equiv> collection_ops (map_apply_batch Some) (\<lambda>_. True)"

definition ex_lagging :: "((nat, nat) map_command, nat \<rightharpoonup> nat, nat \<rightharpoonup> nat, nat \<times> nat, unit, unit) snapshot_shared" where
  "ex_lagging = (shared_new log_default (map_new True sync_config_default 2) (snapshot_provider_new 0) 2)
    \<lparr>when_leader := Some 1, sh_bonds := [1]\<rparr>"

text \<open>The data of the group at its third position.\<close>

definition ex_group_data :: "cursor \<Rightarrow> nat \<rightharpoonup> nat" where
  "ex_group_data c = (if c = Cursor 1 3 then [1 \<mapsto> 10, 2 \<mapsto> 20, 3 \<mapsto> 30] else Map.empty)"

abbreviation ex_truth :: "cursor \<Rightarrow> (nat \<times> nat) list" where
  "ex_truth \<equiv> (\<lambda>c. iter_by_key (map_create_snapshot (ex_group_data c)))"

definition ex_created :: "((nat, nat) map_command, nat \<rightharpoonup> nat, nat \<times> nat) snapshot_session" where
  "ex_created = fst (the (snapshot_session_new ex_snap_ops ex_snap_env ex_lagging (Cursor 1 2) [(MapInsert 3 30, 1), (MapInsert 1 11, 1)]))"

definition ex_offered :: "((nat, nat) map_command, nat \<rightharpoonup> nat, nat \<times> nat) snapshot_session" where
  "ex_offered = on_snapshot_ready ex_snap_env 1 \<lparr>si_anchor = Cursor 1 3, si_items_count = 3\<rparr> ex_created"

definition ex_fetched :: "((nat, nat) map_command, nat \<rightharpoonup> nat, nat \<times> nat) snapshot_session" where
  "ex_fetched = on_fetch_data_response 1
    \<lparr>fr_anchor = Cursor 1 3, fr_offset = 0, fr_items = [(1, 10), (2, 20), (3, 30)]\<rparr> ex_offered"

definition ex_drained :: "((nat, nat) map_command, nat \<rightharpoonup> nat, nat \<times> nat) snapshot_session" where
  "ex_drained = fst (the (snapshot_session_poll ex_snap_ops ex_snap_env ex_fetched ex_lagging))"

lemma ex_created_eq: "ex_created =
  \<lparr>ss_leader = 1, ss_trigger_position = 2, ss_anchor = None, ss_snapshot_len = 0, ss_gap = None,
   ss_anchor_candidates = [], ss_buffered = [(3, 1, MapInsert 3 30), (4, 1, MapInsert 1 11)], ss_terminations = [], ss_known_bonds = {},
   ss_available_peers = [], ss_inflight = [], ss_fetched = [], ss_accumulated = Map.empty, ss_request_timer = Some False\<rparr>"
  by (simp add: ex_created_def snapshot_session_new_def ex_lagging_def shared_new_def index_entries_def
      pos_next_def pos_add_def saturating_add_def wrapping_add_def u64_max_def map_env_def)

lemma ex_offered_eq: "ex_offered =
  \<lparr>ss_leader = 1, ss_trigger_position = 2, ss_anchor = Some (Cursor 1 3), ss_snapshot_len = 3, ss_gap = Some (0, 3),
   ss_anchor_candidates = [(Cursor 1 3, \<lparr>si_anchor = Cursor 1 3, si_items_count = 3\<rparr>, [1])], ss_buffered = [(3, 1, MapInsert 3 30), (4, 1, MapInsert 1 11)], ss_terminations = [], ss_known_bonds = {},
   ss_available_peers = [1], ss_inflight = [], ss_fetched = [], ss_accumulated = Map.empty, ss_request_timer = None\<rparr>"
  by (simp add: ex_offered_def ex_created_eq on_snapshot_ready_def Let_def try_select_anchor_def anchor_usable_def
     earliest_buffered_def map_env_def)

lemma ex_fetched_eq: "ex_fetched = ex_offered\<lparr>ss_fetched := [(0, 3, [(1, 10), (2, 20), (3, 30)])]\<rparr>"
  by (simp add: ex_fetched_def ex_offered_eq on_fetch_data_response_def wrapping_add_def)

lemma ex_drained_eq: "snapshot_session_poll ex_snap_ops ex_snap_env ex_fetched ex_lagging =
  Some (ex_offered\<lparr>ss_gap := Some (3, 3), ss_accumulated := [1 \<mapsto> 10, 2 \<mapsto> 20, 3 \<mapsto> 30], ss_known_bonds := {1}\<rparr>, ex_lagging, None)"
  by (simp add: ex_fetched_eq ex_offered_eq snapshot_session_poll_def is_sync_complete_def half_open_is_empty_def
      snap_poll_terminations_def poll_snapshot_request_timeout_def try_select_anchor_def try_upgrade_anchor_def
      drain_fetched_items_def Let_def snap_poll_timeouts_def snap_poll_new_bonds_def snap_schedule_fetches_def
      map_env_def map_snap_append_def ex_lagging_def shared_new_def)

lemma ex_iter: "iter_by_key [Suc 0 \<mapsto> 10, 2 \<mapsto> 20, 3 \<mapsto> 30] = [(1, 10), (2, 20), (3 :: nat, 30 :: nat)]"
  by (simp add: iter_by_key_def insert_commute)

lemma ex_session_run: "session_run ex_snap_ops ex_snap_env ex_truth ex_drained"
proof -
  have "session_run ex_snap_ops ex_snap_env ex_truth ex_created"
    by (rule session_run.created [of _ _ ex_lagging "Cursor 1 2" "[(MapInsert 3 30, 1), (MapInsert 1 11, 1)]"])
      (simp add: ex_created_def snapshot_session_new_def ex_lagging_def shared_new_def)
  then have "session_run ex_snap_ops ex_snap_env ex_truth ex_offered"
    by (rule session_run.received [where msg = "SnapshotOffer _"])
      (simp_all add: ex_offered_def honest_offer_def ex_group_data_def map_create_snapshot_def ex_iter)
  then have "session_run ex_snap_ops ex_snap_env ex_truth ex_fetched"
    by (rule session_run.received [where msg = "FetchDataResponse _"])
      (simp_all add: ex_fetched_def honest_response_def honest_chunk_of_def ex_group_data_def map_create_snapshot_def ex_iter)
  then show ?thesis by (rule session_run.polled [where sh = ex_lagging]) (simp add: ex_drained_def ex_drained_eq)
qed

lemma ex_truth_small: "length (ex_truth a) \<le> u64_max"
  by (simp add: ex_group_data_def map_create_snapshot_def ex_iter iter_by_key_def u64_max_def)

section \<open>Catching up\<close>

text \<open>
  Whatever honest offers and chunks a session of a map receives, in any order and interleaved
  with polls and new entries, what it has accumulated is a prefix of the snapshot at its anchor, its
  gap is exactly the rest, and every chunk it keeps belongs to that snapshot.
\<close>

theorem map_session_stays_honest:
  assumes "hash_iter iter" and "\<And>a. length (truth a) \<le> u64_max" and "session_run ops (map_env iter cfg) truth s"
  shows "snap_ok (map_env iter cfg) truth s"
  using snapshot_transfer.run_ok [OF map_sync [OF assms(1)] assms(2,3)] .

theorem map_session_stays_honest_witness: "snap_ok ex_snap_env ex_truth ex_drained"
  using map_session_stays_honest [OF hash_iter_by_key ex_truth_small ex_session_run] .



text \<open>
  Progress: once the chunks a session of a vector holds tile the rest of the snapshot, two polls
  finish it, and the data is the one of the group at the anchor.
\<close>

theorem vec_session_two_polls:
  assumes "\<And>a. length (state a) \<le> u64_max" and "session_run ops (vec_env cfg) (\<lambda>a. vec_create_snapshot (state a)) s"
    and "ss_anchor s = Some a" and "ss_gap s = Some (lo, length (state a))" and "lo < length (state a)"
    and "\<forall>c \<in> fst ` set (ss_anchor_candidates s). cursor_index c \<le> cursor_index a"
    and "tiles lo (length (state a)) (ss_fetched s)" and "ss_request_timer s \<noteq> Some True"
    and "ss_buffered s = index_entries start es" and "start \<le> Suc (cursor_index a)"
    and "start + length es \<le> u64_max" and "Suc (cursor_index a) \<le> u64_max"
  shows "\<exists>s1 sh1 s2 sh2. snapshot_session_poll ops (vec_env cfg) s sh = Some (s1, sh1, None) \<and>
    snapshot_session_poll ops (vec_env cfg) s1 sh1 = Some (s2, sh2, Some (log_last (storage sh2))) \<and>
    coll_data (state_machine sh2) = state a \<and> committed sh2 = a"
proof -
  have truth: "length (vec_create_snapshot (state b)) \<le> u64_max" for b
    using assms(1) by (simp add: vec_create_snapshot_def)
  obtain s1 sh1 where 1: "snapshot_session_poll ops (vec_env cfg) s sh = Some (s1, sh1, None)" "is_sync_complete s1"
      "ss_anchor s1 = Some a" "ss_buffered s1 = ss_buffered s"
    using vt.poll_drains [OF assms(3-8)] by blast
  have "session_run ops (vec_env cfg) (\<lambda>a. vec_create_snapshot (state a)) s1" using assms(2) 1(1) by (rule session_run.polled)
  from vt.run_ok [OF truth this] have ok: "snap_ok (vec_env cfg) (\<lambda>a. vec_create_snapshot (state a)) s1" .
  from vt.poll_finishes [OF ok 1(3) TrueI 1(2)] 1 assms(9-12) show ?thesis by metis
qed

text \<open>A session of a vector with two items.\<close>

abbreviation ex_vec_env :: "(nat vec_command, nat list, nat list, nat) snapshot_env" where
  "ex_vec_env \<equiv> vec_env sync_config_default"

abbreviation ex_vec_ops :: "(nat vec_command, nat list, nat list, nat, unit, unit) snapshot_machine_ops" where
  "ex_vec_ops \<equiv> collection_ops vec_apply_batch (\<lambda>_. True)"

definition ex_vec_node :: "(nat vec_command, nat list, nat list, nat, unit, unit) snapshot_shared" where
  "ex_vec_node = (shared_new log_default (vec_new True sync_config_default 2) (snapshot_provider_new 0) 2)
    \<lparr>when_leader := Some 1, sh_bonds := [1]\<rparr>"

definition ex_vec_data :: "cursor \<Rightarrow> nat list" where
  "ex_vec_data c = (if c = Cursor 1 5 then [7, 8] else [])"

definition ex_vec_session :: "(nat vec_command, nat list, nat) snapshot_session" where
  "ex_vec_session =
    on_fetch_data_response 1 \<lparr>fr_anchor = Cursor 1 5, fr_offset = 0, fr_items = [7]\<rparr>
      (on_fetch_data_response 1 \<lparr>fr_anchor = Cursor 1 5, fr_offset = 1, fr_items = [8]\<rparr>
        (on_snapshot_ready ex_vec_env 1 \<lparr>si_anchor = Cursor 1 5, si_items_count = 2\<rparr>
          (fst (the (snapshot_session_new ex_vec_ops ex_vec_env ex_vec_node (Cursor 1 4) [])))))"

lemma ex_vec_session_eq: "ex_vec_session =
  \<lparr>ss_leader = 1, ss_trigger_position = 4, ss_anchor = Some (Cursor 1 5), ss_snapshot_len = 2, ss_gap = Some (0, 2),
   ss_anchor_candidates = [(Cursor 1 5, \<lparr>si_anchor = Cursor 1 5, si_items_count = 2\<rparr>, [1])], ss_buffered = [],
   ss_terminations = [], ss_known_bonds = {}, ss_available_peers = [1], ss_inflight = [],
   ss_fetched = [(0, 1, [7]), (1, 2, [8])], ss_accumulated = [], ss_request_timer = None\<rparr>"
  by (simp add: ex_vec_session_def on_fetch_data_response_def on_snapshot_ready_def Let_def try_select_anchor_def
      anchor_usable_def earliest_buffered_def snapshot_session_new_def ex_vec_node_def shared_new_def index_entries_def
      wrapping_add_def vec_env_def)

lemma ex_vec_session_run: "session_run ex_vec_ops ex_vec_env (\<lambda>a. vec_create_snapshot (ex_vec_data a)) ex_vec_session"
  unfolding ex_vec_session_def
proof (rule session_run.received [where msg = "FetchDataResponse _"],
    rule session_run.received [where msg = "FetchDataResponse _"],
    rule session_run.received [where msg = "SnapshotOffer _"])
  show "session_run ex_vec_ops ex_vec_env (\<lambda>a. vec_create_snapshot (ex_vec_data a))
      (fst (the (snapshot_session_new ex_vec_ops ex_vec_env ex_vec_node (Cursor 1 4) [])))"
    by (rule session_run.created [of _ _ ex_vec_node "Cursor 1 4" "[]"])
      (simp add: snapshot_session_new_def ex_vec_node_def shared_new_def)
qed (auto simp: honest_offer_def honest_response_def honest_chunk_of_def ex_vec_data_def vec_create_snapshot_def)

theorem vec_session_two_polls_witness:
  "\<exists>s1 sh1 s2 sh2. snapshot_session_poll ex_vec_ops ex_vec_env ex_vec_session ex_vec_node = Some (s1, sh1, None) \<and>
    snapshot_session_poll ex_vec_ops ex_vec_env s1 sh1 = Some (s2, sh2, Some (log_last (storage sh2))) \<and>
    coll_data (state_machine sh2) = [7, 8] \<and> committed sh2 = Cursor 1 5"
  using vec_session_two_polls [OF _ ex_vec_session_run, where a = "Cursor 1 5" and lo = 0 and start = 0 and es = "[]" and sh = ex_vec_node]
  by (simp add: ex_vec_session_eq ex_vec_data_def u64_max_def index_entries_def)

text \<open>
  The position stored with a snapshot of a map is the position of its data: the batch that asked
  for it is applied completely, and the position counts every command of the batch.
\<close>

theorem map_snapshot_position:
  assumes "map_apply_batch encode cs ctx now m = Some m'"
  shows "coll_requests_tx m' = coll_requests_tx m @
    map (\<lambda>r. \<lparr>pending_request = r,
          pending_position = Cursor (ctx_current_term ctx) (pos_add (cursor_index (ctx_committed ctx)) (length cs)),
          pending_snapshot = map_create_snapshot (foldl (map_effect encode) (coll_data m) cs)\<rparr>)
      (map_snapshot_requests m now cs)"
proof -
  have "coll_data m' = foldl (map_effect encode) (coll_data m) cs"
    using mp.view_apply_batch [of encode cs ctx now m] assms by (simp add: foldM_total)
  then show ?thesis using map_batch_snapshots [OF assms] by simp
qed

theorem map_snapshot_position_witness:
  "coll_requests_tx (the (map_apply_batch Some [MapTakeSnapshot \<lparr>requested_by = 3, requested_at = 0\<rparr>, MapInsert 1 10]
      \<lparr>ctx_committed = Cursor 4 6, ctx_log_position = Cursor 5 8, ctx_current_term = 5\<rparr> 0
      (map_new True sync_config_default 2))) =
    [\<lparr>pending_request = \<lparr>requested_by = 3, requested_at = 0\<rparr>, pending_position = Cursor 5 8,
      pending_snapshot = [1 \<mapsto> (10 :: nat)] :: nat \<rightharpoonup> nat\<rparr>]"
proof -
  let ?cs = "[MapTakeSnapshot \<lparr>requested_by = 3, requested_at = 0\<rparr>, MapInsert 1 10] :: (nat, nat) map_command list"
  let ?ctx = "\<lparr>ctx_committed = Cursor 4 6, ctx_log_position = Cursor 5 8, ctx_current_term = 5\<rparr>"
  let ?m = "map_new True sync_config_default 2 :: (nat, nat) map_machine"
  obtain m' where m': "map_apply_batch Some ?cs ?ctx 0 ?m = Some m'" by (simp add: map_apply_batch_def)
  from map_snapshot_position [OF m'] m' show ?thesis
    by (simp add: map_new_def collection_new_def is_expired_def sync_config_default_def map_create_snapshot_def
        pos_add_def wrapping_add_def saturating_add_def u64_max_def)
qed

text \<open>
  An answer that arrives for a range the session has drained already blocks it: however many
  messages and polls follow, as long as the anchor stays the same the gap does not shrink and the
  session does not finish.
\<close>

theorem late_answer_blocks_session:
  assumes "ss_anchor s = Some (fr_anchor r)" and "ss_gap s = Some (lo, n)" and "lo < n" and "fr_offset r < lo"
    and "same_anchor_run ops env (on_fetch_data_response p r s) s'"
  shows "ss_gap s' = Some (lo, n) \<and> \<not> is_sync_complete s'"
  using late_response_stuck [OF assms(1-4), of p] same_anchor_run_stuck [OF assms(5)] assms(2) snap_stuck_incomplete
  by metis

theorem late_answer_blocks_session_witness:
  "ss_gap (on_fetch_data_response 1 \<lparr>fr_anchor = Cursor 1 5, fr_offset = 0, fr_items = [7]\<rparr>
      (ex_vec_session\<lparr>ss_gap := Some (1, 2), ss_fetched := [], ss_accumulated := [7]\<rparr>)) = Some (1, 2) \<and>
    \<not> is_sync_complete (on_fetch_data_response 1 \<lparr>fr_anchor = Cursor 1 5, fr_offset = 0, fr_items = [7]\<rparr>
      (ex_vec_session\<lparr>ss_gap := Some (1, 2), ss_fetched := [], ss_accumulated := [7]\<rparr>))"
  by (rule late_answer_blocks_session [OF _ _ _ _ same_anchor_run.start [of ex_vec_ops ex_vec_env]])
    (simp_all add: ex_vec_session_eq)

end
