(* ===== verification/Tickets.thy ===== *)
theory Tickets
  imports Prelude
begin

text \<open>
  \<open>tickets/ticket.rs\<close>: tickets, their expiration, and what a validator is. A validator is a class and
  a function from the ticket's bytes and the peer to an expiration (\<open>None\<close> is \<open>InvalidTicket\<close>).
  Byte strings are \<open>string\<close>s (a \<open>char\<close> is an octet), points in time are integers in nanoseconds since
  the epoch, the reading of the clock is an argument.
\<close>

type_synonym unique_id = nat

record ticket =
  tk_class :: unique_id
  tk_data :: string

text \<open>\<open>UniqueId::derive\<close> hashes with blake3 and is a parameter.\<close>

definition ticket_id :: "(unique_id \<Rightarrow> string \<Rightarrow> unique_id) \<Rightarrow> ticket \<Rightarrow> unique_id" where
  "ticket_id derive t = derive (tk_class t) (tk_data t)"

section \<open>Expiration\<close>

datatype expiration = Never | At int

text \<open>The order of the \<open>Ord\<close> implementation: \<open>Never\<close> is the latest.\<close>

instantiation expiration :: linorder
begin

fun less_eq_expiration :: "expiration \<Rightarrow> expiration \<Rightarrow> bool" where
  "less_eq_expiration _ Never = True"
| "less_eq_expiration Never (At _) = False"
| "less_eq_expiration (At a) (At b) = (a \<le> b)"

definition less_expiration :: "expiration \<Rightarrow> expiration \<Rightarrow> bool" where
  "less_expiration x y \<longleftrightarrow> x \<le> y \<and> \<not> y \<le> x"

instance
proof
  fix x y z :: expiration
  show "x < y \<longleftrightarrow> x \<le> y \<and> \<not> y \<le> x" by (rule less_expiration_def)
  show "x \<le> x" by (cases x) simp_all
  show "x \<le> y \<Longrightarrow> y \<le> z \<Longrightarrow> x \<le> z" by (cases x; cases y; cases z) simp_all
  show "x \<le> y \<Longrightarrow> y \<le> x \<Longrightarrow> x = y" by (cases x; cases y) simp_all
  show "x \<le> y \<or> y \<le> x" by (cases x; cases y) auto
qed

end

fun exp_is_expired :: "int \<Rightarrow> expiration \<Rightarrow> bool" where
  "exp_is_expired now Never = False"
| "exp_is_expired now (At t) = (t < now)"

fun exp_remaining :: "int \<Rightarrow> expiration \<Rightarrow> int option" where
  "exp_remaining now Never = None"
| "exp_remaining now (At t) = (if t - now < 0 then None else Some (t - now))"

definition exp_after :: "int \<Rightarrow> int \<Rightarrow> expiration" where
  "exp_after now duration = At (now + duration)"

lemma exp_is_expired_iff: "exp_is_expired now e \<longleftrightarrow> e < At now"
  by (cases e) (auto simp: less_expiration_def)

text \<open>A live expiration stays live as long as \<open>remaining\<close> says.\<close>

lemma exp_remaining_live:
  "exp_remaining now e = Some d \<Longrightarrow> \<not> exp_is_expired (now + d) e \<and> exp_is_expired (now + d + 1) e"
  by (cases e) (auto split: if_splits)

section \<open>Validators\<close>

record 'p ticket_validator =
  tv_class :: unique_id
  tv_validate :: "string \<Rightarrow> 'p \<Rightarrow> expiration option"

end
