(* ===== verification/Peer_Entry.thy ===== *)
theory Peer_Entry
  imports Tickets "HOL-Library.FSet"
begin

text \<open>
  \<open>discovery/entry.rs\<close>: what a peer publishes about itself. The version is the start time of the
  process and a counter that follows the clock; every change of the content moves it up, so that
  other peers can tell which of two entries is newer.

  Ordered sets are finite sets, the ordered map of tickets is a list sorted by key. Transport
  addresses, hashing and signing come from outside: the address book is a type parameter, \<open>disc_env\<close>
  holds the digests of an entry and of a departure, the signature scheme, and which points in time
  (nanoseconds since the epoch) \<open>chrono\<close> can represent. Versions count milliseconds.
\<close>

definition i64_max :: int where
  "i64_max = 2 ^ 63 - 1"

section \<open>Versions\<close>

datatype peer_version = Version (version_started: int) (version_updated: int)

text \<open>The derived \<open>Ord\<close> is lexicographic.\<close>

instantiation peer_version :: linorder
begin

definition less_eq_peer_version :: "peer_version \<Rightarrow> peer_version \<Rightarrow> bool" where
  "less_eq_peer_version v w \<longleftrightarrow> version_started v < version_started w \<or>
    version_started v = version_started w \<and> version_updated v \<le> version_updated w"

definition less_peer_version :: "peer_version \<Rightarrow> peer_version \<Rightarrow> bool" where
  "less_peer_version v w \<longleftrightarrow> version_started v < version_started w \<or>
    version_started v = version_started w \<and> version_updated v < version_updated w"

instance
  by standard (auto simp: less_eq_peer_version_def less_peer_version_def intro: peer_version.expand)

end

definition version_default :: "int \<Rightarrow> int \<Rightarrow> peer_version" where
  "version_default now1 now2 = Version now1 now2"

definition version_increment :: "int \<Rightarrow> peer_version \<Rightarrow> peer_version" where
  "version_increment now v =
    (let last_version = max (version_updated v) now
     in Version (version_started v) (min (last_version + 1) i64_max))"

text \<open>The counter is strictly increasing until it is saturated.\<close>

lemma version_increment_greater: "version_updated v < i64_max \<Longrightarrow> v < version_increment now v"
  by (auto simp: version_increment_def less_peer_version_def Let_def)

lemma version_increment_started [simp]: "version_started (version_increment now v) = version_started v"
  by (simp add: version_increment_def Let_def)

lemma version_increment_ge: "version_updated v \<le> i64_max \<Longrightarrow> v \<le> version_increment now v"
  by (auto simp: version_increment_def less_eq_peer_version_def Let_def)

lemma version_increment_now: "now < i64_max \<Longrightarrow> now < version_updated (version_increment now v)"
  by (auto simp: version_increment_def Let_def)

section \<open>Entries\<close>

record 'a peer_entry =
  pe_protocol :: string
  pe_network :: nat
  pe_version :: peer_version
  pe_id :: peer_id
  pe_addrs :: 'a
  pe_tags :: "nat fset"
  pe_streams :: "nat fset"
  pe_groups :: "nat fset"
  pe_tickets :: "(unique_id \<times> ticket) list"

record ('a, 'k, 'g) disc_env =
  de_derive :: "unique_id \<Rightarrow> string \<Rightarrow> unique_id"
  de_digest :: "'a peer_entry \<Rightarrow> string"
  de_departure_digest :: "peer_id \<Rightarrow> peer_version \<Rightarrow> int \<Rightarrow> string"
  de_public :: "'k \<Rightarrow> peer_id"
  de_sign :: "'k \<Rightarrow> string \<Rightarrow> 'g"
  de_verify :: "peer_id \<Rightarrow> string \<Rightarrow> 'g \<Rightarrow> bool"
  de_time_ok :: "int \<Rightarrow> bool"

definition from_millis :: "('a, 'k, 'g) disc_env \<Rightarrow> int \<Rightarrow> int" where
  "from_millis env t = (if de_time_ok env (1000000 * t) then 1000000 * t else 0)"

definition to_millis :: "int \<Rightarrow> int" where
  "to_millis t = t div 1000000"

definition updated_at :: "('a, 'k, 'g) disc_env \<Rightarrow> 'a peer_entry \<Rightarrow> int" where
  "updated_at env e = from_millis env (version_updated (pe_version e))"

definition started_at :: "('a, 'k, 'g) disc_env \<Rightarrow> 'a peer_entry \<Rightarrow> int" where
  "started_at env e = from_millis env (version_started (pe_version e))"

definition is_newer_than :: "'a peer_entry \<Rightarrow> 'a peer_entry \<Rightarrow> bool" where
  "is_newer_than e other \<longleftrightarrow> pe_version e > pe_version other"

definition peer_entry_new :: "string \<Rightarrow> int \<Rightarrow> int \<Rightarrow> nat \<Rightarrow> peer_id \<Rightarrow> 'a \<Rightarrow> 'a peer_entry" where
  "peer_entry_new protocol now1 now2 network pid addrs =
    \<lparr>pe_protocol = protocol, pe_network = network, pe_version = version_default now1 now2, pe_id = pid,
     pe_addrs = addrs, pe_tags = {||}, pe_streams = {||}, pe_groups = {||}, pe_tickets = []\<rparr>"

definition increment_version :: "int \<Rightarrow> 'a peer_entry \<Rightarrow> 'a peer_entry" where
  "increment_version now e = e\<lparr>pe_version := version_increment now (pe_version e)\<rparr>"

text \<open>\<open>Inl\<close> is the error \<open>PeerIdChanged\<close>.\<close>

definition update_address :: "int \<Rightarrow> peer_id \<times> 'a \<Rightarrow> 'a peer_entry \<Rightarrow> (peer_id \<times> peer_id) + 'a peer_entry" where
  "update_address now address e =
    (if fst address \<noteq> pe_id e then Inl (pe_id e, fst address)
     else Inr (increment_version now (e\<lparr>pe_addrs := snd address\<rparr>)))"

text \<open>
  Adding to a set bumps the version if the set grew, removing if one of the elements was there.
\<close>

definition extend_set :: "nat list \<Rightarrow> nat fset \<Rightarrow> bool \<times> nat fset" where
  "extend_set xs s = (let s1 = s |\<union>| fset_of_list xs in (fcard s \<noteq> fcard s1, s1))"

fun remove_from_set :: "nat list \<Rightarrow> bool \<times> nat fset \<Rightarrow> bool \<times> nat fset" where
  "remove_from_set [] ps = ps"
| "remove_from_set (x # xs) (was_present, s) = remove_from_set xs (was_present \<or> x |\<in>| s, s |-| {|x|})"

definition bump_if :: "int \<Rightarrow> bool \<Rightarrow> 'a peer_entry \<Rightarrow> 'a peer_entry" where
  "bump_if now changed e = (if changed then increment_version now e else e)"

definition add_streams :: "int \<Rightarrow> nat list \<Rightarrow> 'a peer_entry \<Rightarrow> 'a peer_entry" where
  "add_streams now xs e = (let (changed, s) = extend_set xs (pe_streams e) in bump_if now changed (e\<lparr>pe_streams := s\<rparr>))"

definition remove_streams :: "int \<Rightarrow> nat list \<Rightarrow> 'a peer_entry \<Rightarrow> 'a peer_entry" where
  "remove_streams now xs e =
    (let (changed, s) = remove_from_set xs (False, pe_streams e) in bump_if now changed (e\<lparr>pe_streams := s\<rparr>))"

definition add_groups :: "int \<Rightarrow> nat list \<Rightarrow> 'a peer_entry \<Rightarrow> 'a peer_entry" where
  "add_groups now xs e = (let (changed, s) = extend_set xs (pe_groups e) in bump_if now changed (e\<lparr>pe_groups := s\<rparr>))"

definition remove_groups :: "int \<Rightarrow> nat list \<Rightarrow> 'a peer_entry \<Rightarrow> 'a peer_entry" where
  "remove_groups now xs e =
    (let (changed, s) = remove_from_set xs (False, pe_groups e) in bump_if now changed (e\<lparr>pe_groups := s\<rparr>))"

definition add_tags :: "int \<Rightarrow> nat list \<Rightarrow> 'a peer_entry \<Rightarrow> 'a peer_entry" where
  "add_tags now xs e = (let (changed, s) = extend_set xs (pe_tags e) in bump_if now changed (e\<lparr>pe_tags := s\<rparr>))"

definition remove_tags :: "int \<Rightarrow> nat list \<Rightarrow> 'a peer_entry \<Rightarrow> 'a peer_entry" where
  "remove_tags now xs e =
    (let (changed, s) = remove_from_set xs (False, pe_tags e) in bump_if now changed (e\<lparr>pe_tags := s\<rparr>))"

definition add_ticket :: "('a, 'k, 'g) disc_env \<Rightarrow> int \<Rightarrow> ticket \<Rightarrow> 'a peer_entry \<Rightarrow> 'a peer_entry" where
  "add_ticket env now t e =
    (let i = ticket_id (de_derive env) t
     in bump_if now (map_of (pe_tickets e) i = None) (e\<lparr>pe_tickets := btree_insert i t (pe_tickets e)\<rparr>))"

definition remove_ticket :: "int \<Rightarrow> unique_id \<Rightarrow> 'a peer_entry \<Rightarrow> 'a peer_entry" where
  "remove_ticket now i e =
    bump_if now (map_of (pe_tickets e) i \<noteq> None) (e\<lparr>pe_tickets := AList.delete i (pe_tickets e)\<rparr>)"

definition remove_tickets_of :: "int \<Rightarrow> unique_id \<Rightarrow> 'a peer_entry \<Rightarrow> 'a peer_entry" where
  "remove_tickets_of now c e =
    bump_if now (\<exists>x \<in> set (pe_tickets e). tk_class (snd x) = c)
      (e\<lparr>pe_tickets := filter (\<lambda>(_, t). tk_class t \<noteq> c) (pe_tickets e)\<rparr>)"

section \<open>Tickets of a peer\<close>

definition tickets_of :: "unique_id \<Rightarrow> 'a peer_entry \<Rightarrow> ticket list" where
  "tickets_of c e = map snd (filter (\<lambda>(_, t). tk_class t = c) (pe_tickets e))"

definition has_valid_ticket :: "unique_id \<Rightarrow> (string \<Rightarrow> bool) \<Rightarrow> 'a peer_entry \<Rightarrow> bool" where
  "has_valid_ticket c validator e = list_ex (\<lambda>t. validator (tk_data t)) (tickets_of c e)"

definition validate_ticket :: "'a peer_entry ticket_validator \<Rightarrow> 'a peer_entry \<Rightarrow> expiration option" where
  "validate_ticket v e =
    (case List.map_filter (\<lambda>t. tv_validate v (tk_data t) e) (tickets_of (tv_class v) e) of
       [] \<Rightarrow> None
     | x # xs \<Rightarrow> Some (foldl max x xs))"

text \<open>The outer \<open>None\<close> is \<open>InvalidTicket\<close>, the inner one the answer for an empty list of validators.\<close>

fun earliest_expiration ::
  "'a peer_entry \<Rightarrow> expiration \<Rightarrow> 'a peer_entry ticket_validator list \<Rightarrow> expiration option" where
  "earliest_expiration e earliest [] = Some earliest"
| "earliest_expiration e earliest (v # vs) =
    (case validate_ticket v e of
       None \<Rightarrow> None
     | Some x \<Rightarrow> earliest_expiration e (min earliest x) vs)"

definition validate_tickets ::
  "'a peer_entry ticket_validator list \<Rightarrow> 'a peer_entry \<Rightarrow> expiration option option" where
  "validate_tickets vs e =
    (if vs = [] then Some None else map_option Some (earliest_expiration e Never vs))"

section \<open>Signatures\<close>

type_synonym ('a, 'g) signed_entry = "'a peer_entry \<times> 'g"

text \<open>\<open>Inl\<close> is the error \<open>InvalidSecretKey\<close>.\<close>

definition sign_entry ::
  "('a, 'k, 'g) disc_env \<Rightarrow> 'k \<Rightarrow> 'a peer_entry \<Rightarrow> (peer_id \<times> peer_id) + ('a, 'g) signed_entry" where
  "sign_entry env secret e =
    (let actual_id = pe_id e; expected_id = de_public env secret
     in if actual_id \<noteq> expected_id then Inl (expected_id, actual_id)
        else Inr (e, de_sign env secret (de_digest env e)))"

definition is_signature_valid :: "('a, 'k, 'g) disc_env \<Rightarrow> ('a, 'g) signed_entry \<Rightarrow> bool" where
  "is_signature_valid env s = de_verify env (pe_id (fst s)) (de_digest env (fst s)) (snd s)"

text \<open>Deserialisation of a signed entry refuses a bad signature.\<close>

definition deserialize_signed ::
  "('a, 'k, 'g) disc_env \<Rightarrow> 'a peer_entry \<Rightarrow> 'g \<Rightarrow> ('a, 'g) signed_entry option" where
  "deserialize_signed env e sig = (if is_signature_valid env (e, sig) then Some (e, sig) else None)"

section \<open>Every change is visible in the version\<close>

lemma extend_set_iff: "fst (extend_set xs s) \<longleftrightarrow> snd (extend_set xs s) \<noteq> s"
proof -
  have "fcard s = fcard (s |\<union>| fset_of_list xs) \<Longrightarrow> s = s |\<union>| fset_of_list xs"
    by (metis fcard_seteq le_refl sup.cobounded1)
  then show ?thesis by (auto simp: extend_set_def Let_def)
qed

lemma remove_from_set_spec:
  "snd (remove_from_set xs (b, s)) = s |-| fset_of_list xs \<and>
    (fst (remove_from_set xs (b, s)) \<longleftrightarrow> b \<or> s |-| fset_of_list xs \<noteq> s)"
proof (induction xs arbitrary: b s)
  case Nil
  then show ?case by simp
next
  case (Cons x xs)
  have "s |-| {|x|} |-| fset_of_list xs = s |-| fset_of_list (x # xs)" by auto
  with Cons [of "b \<or> x |\<in>| s" "s |-| {|x|}"] show ?case by (auto simp: fset_eq_iff)
qed

text \<open>The operations a peer changes its own entry with.\<close>

datatype 'a entry_update =
    UpdateAddress peer_id 'a
  | AddStreams "nat list"
  | RemoveStreams "nat list"
  | AddGroups "nat list"
  | RemoveGroups "nat list"
  | AddTags "nat list"
  | RemoveTags "nat list"
  | AddTicket ticket
  | RemoveTicket unique_id
  | RemoveTicketsOf unique_id
  | IncrementVersion

fun apply_update :: "('a, 'k, 'g) disc_env \<Rightarrow> int \<Rightarrow> 'a entry_update \<Rightarrow> 'a peer_entry \<Rightarrow> 'a peer_entry" where
  "apply_update env now (UpdateAddress pid a) e = (case update_address now (pid, a) e of Inl _ \<Rightarrow> e | Inr e' \<Rightarrow> e')"
| "apply_update env now (AddStreams xs) e = add_streams now xs e"
| "apply_update env now (RemoveStreams xs) e = remove_streams now xs e"
| "apply_update env now (AddGroups xs) e = add_groups now xs e"
| "apply_update env now (RemoveGroups xs) e = remove_groups now xs e"
| "apply_update env now (AddTags xs) e = add_tags now xs e"
| "apply_update env now (RemoveTags xs) e = remove_tags now xs e"
| "apply_update env now (AddTicket t) e = add_ticket env now t e"
| "apply_update env now (RemoveTicket i) e = remove_ticket now i e"
| "apply_update env now (RemoveTicketsOf c) e = remove_tickets_of now c e"
| "apply_update env now IncrementVersion e = increment_version now e"

text \<open>Tickets are stored under their identifiers, in order.\<close>

definition tickets_wf :: "('a, 'k, 'g) disc_env \<Rightarrow> 'a peer_entry \<Rightarrow> bool" where
  "tickets_wf env e \<longleftrightarrow> sorted_wrt (<) (map fst (pe_tickets e)) \<and>
    (\<forall>x \<in> set (pe_tickets e). fst x = ticket_id (de_derive env) (snd x))"

lemma btree_insert_same:
  "sorted_wrt (<) (map fst xs) \<Longrightarrow> map_of xs k = Some v \<Longrightarrow> btree_insert k v xs = xs"
proof (induction k v xs rule: btree_insert.induct)
  case (2 k v k' v' xs)
  have "k' < k" if "k \<noteq> k'"
    using that 2 by (auto dest!: map_of_SomeD simp: rev_image_eqI)
  then show ?case using 2 by (auto split: if_splits)
qed simp

lemma bump_if_version:
  assumes "version_updated (pe_version e) < i64_max" and "pe_version e' = pe_version e" and "e' \<noteq> e \<longrightarrow> changed"
  shows "bump_if now changed e' = e \<or> pe_version e < pe_version (bump_if now changed e')"
  using assms version_increment_greater [of "pe_version e" now] by (auto simp: bump_if_def increment_version_def)

lemma fset_update_version:
  assumes "version_updated (pe_version e) < i64_max" and "pe_version (upd s) = pe_version e"
    and "fst r \<longleftrightarrow> snd r \<noteq> old" and "upd old = e" and "s = snd r"
  shows "bump_if now (fst r) (upd s) = e \<or> pe_version e < pe_version (bump_if now (fst r) (upd s))"
  using assms by (intro bump_if_version) auto

text \<open>An update either leaves the entry as it is or makes it newer.\<close>

lemma apply_update_version:
  assumes "version_updated (pe_version e) < i64_max" and "tickets_wf env e" and "inj (ticket_id (de_derive env))"
  shows "apply_update env now u e = e \<or> pe_version e < pe_version (apply_update env now u e)"
proof (cases u)
  case (UpdateAddress pid a)
  then show ?thesis using version_increment_greater [OF assms(1), of now]
    by (simp add: update_address_def increment_version_def)
next
  case (AddStreams xs)
  show ?thesis using fset_update_version [OF assms(1) _ extend_set_iff [of xs "pe_streams e"], of "\<lambda>s. e\<lparr>pe_streams := s\<rparr>"]
    by (simp add: AddStreams add_streams_def case_prod_beta)
next
  case (RemoveStreams xs)
  show ?thesis using fset_update_version [OF assms(1), of "\<lambda>s. e\<lparr>pe_streams := s\<rparr>" _ "remove_from_set xs (False, pe_streams e)"]
      remove_from_set_spec [of xs False "pe_streams e"]
    by (simp add: RemoveStreams remove_streams_def case_prod_beta)
next
  case (AddGroups xs)
  show ?thesis using fset_update_version [OF assms(1) _ extend_set_iff [of xs "pe_groups e"], of "\<lambda>s. e\<lparr>pe_groups := s\<rparr>"]
    by (simp add: AddGroups add_groups_def case_prod_beta)
next
  case (RemoveGroups xs)
  show ?thesis using fset_update_version [OF assms(1), of "\<lambda>s. e\<lparr>pe_groups := s\<rparr>" _ "remove_from_set xs (False, pe_groups e)"]
      remove_from_set_spec [of xs False "pe_groups e"]
    by (simp add: RemoveGroups remove_groups_def case_prod_beta)
next
  case (AddTags xs)
  show ?thesis using fset_update_version [OF assms(1) _ extend_set_iff [of xs "pe_tags e"], of "\<lambda>s. e\<lparr>pe_tags := s\<rparr>"]
    by (simp add: AddTags add_tags_def case_prod_beta)
next
  case (RemoveTags xs)
  show ?thesis using fset_update_version [OF assms(1), of "\<lambda>s. e\<lparr>pe_tags := s\<rparr>" _ "remove_from_set xs (False, pe_tags e)"]
      remove_from_set_spec [of xs False "pe_tags e"]
    by (simp add: RemoveTags remove_tags_def case_prod_beta)
next
  case (AddTicket t)
  let ?i = "ticket_id (de_derive env) t"
  have "btree_insert ?i t (pe_tickets e) = pe_tickets e" if "map_of (pe_tickets e) ?i \<noteq> None"
  proof -
    obtain t' where t': "map_of (pe_tickets e) ?i = Some t'" using \<open>map_of (pe_tickets e) ?i \<noteq> None\<close> by auto
    then have "ticket_id (de_derive env) t' = ?i" using assms(2) by (fastforce simp: tickets_wf_def dest: map_of_SomeD)
    then have "t' = t" using assms(3) by (auto dest: injD)
    then show ?thesis using t' assms(2) by (simp add: tickets_wf_def btree_insert_same)
  qed
  then show ?thesis unfolding AddTicket apply_update.simps add_ticket_def Let_def
    by (cases "map_of (pe_tickets e) ?i = None") (intro bump_if_version [OF assms(1)], auto simp: bump_if_def)
next
  case (RemoveTicket i)
  have "AList.delete i (pe_tickets e) = pe_tickets e" if "map_of (pe_tickets e) i = None"
    using that by (auto simp: AList.delete_eq filter_id_conv map_of_eq_None_iff rev_image_eqI)
  then show ?thesis using version_increment_greater [OF assms(1), of now]
    unfolding RemoveTicket apply_update.simps remove_ticket_def
    by (cases "map_of (pe_tickets e) i = None") (auto simp: bump_if_def increment_version_def)
next
  case (RemoveTicketsOf c)
  have "filter (\<lambda>(_, t). tk_class t \<noteq> c) (pe_tickets e) = pe_tickets e"
    if "\<not> (\<exists>x \<in> set (pe_tickets e). tk_class (snd x) = c)"
    using that by (auto simp: filter_id_conv)
  then show ?thesis using version_increment_greater [OF assms(1), of now]
    unfolding RemoveTicketsOf apply_update.simps remove_tickets_of_def
    by (cases "\<exists>x \<in> set (pe_tickets e). tk_class (snd x) = c") (simp_all add: bump_if_def increment_version_def)
next
  case IncrementVersion
  then show ?thesis using version_increment_greater [OF assms(1), of now] by (simp add: increment_version_def)
qed

section \<open>Which expiration a peer gets\<close>

lemma foldl_max: "foldl max x xs = Max (set (x # xs))" for x :: "'b::linorder"
proof (induction xs arbitrary: x)
  case Nil
  then show ?case by simp
next
  case (Cons y ys)
  have "Max (insert (max x y) (set ys)) = Max (insert x (insert y (set ys)))"
    by (cases "ys = []") (simp_all add: max.assoc)
  with Cons show ?case by simp
qed

lemma validate_ticket_eq:
  "validate_ticket v e = Some x \<longleftrightarrow>
    (\<exists>t \<in> set (tickets_of (tv_class v) e). tv_validate v (tk_data t) e = Some x) \<and>
    (\<forall>t \<in> set (tickets_of (tv_class v) e). \<forall>y. tv_validate v (tk_data t) e = Some y \<longrightarrow> y \<le> x)"
proof -
  let ?l = "List.map_filter (\<lambda>t. tv_validate v (tk_data t) e) (tickets_of (tv_class v) e)"
  have mem: "y \<in> set ?l \<longleftrightarrow> (\<exists>t \<in> set (tickets_of (tv_class v) e). tv_validate v (tk_data t) e = Some y)" for y
    by (force simp: List.map_filter_def)
  have "validate_ticket v e = (if ?l = [] then None else Some (Max (set ?l)))"
    by (auto simp: validate_ticket_def foldl_max split: list.splits)
  then have "validate_ticket v e = Some x \<longleftrightarrow> ?l \<noteq> [] \<and> Max (set ?l) = x" by auto
  also have "\<dots> \<longleftrightarrow> x \<in> set ?l \<and> (\<forall>y \<in> set ?l. y \<le> x)"
    by (metis List.finite_set Max_eq_iff empty_iff set_empty)
  finally show ?thesis using mem by blast
qed

lemma earliest_expiration_eq:
  "earliest_expiration e x vs = Some y \<longleftrightarrow>
    (\<forall>v \<in> set vs. validate_ticket v e \<noteq> None) \<and> y = Min (insert x ((\<lambda>v. the (validate_ticket v e)) ` set vs))"
proof (induction vs arbitrary: x)
  case Nil
  then show ?case by auto
next
  case (Cons v vs)
  have "Min (insert (min x a) A) = Min (insert x (insert a A))" if "finite A" for a :: expiration and A
    using that by (cases "A = {}") (simp_all add: min.assoc)
  then show ?case by (auto simp: Cons.IH split: option.splits)
qed

lemma validate_tickets_eq:
  assumes "vs \<noteq> []"
  shows "validate_tickets vs e = Some (Some x) \<longleftrightarrow>
    (\<forall>v \<in> set vs. validate_ticket v e \<noteq> None) \<and> x = Min ((\<lambda>v. the (validate_ticket v e)) ` set vs)"
proof -
  have "min Never y = y" for y by (cases y) (auto simp: min_def)
  then have "Min (insert Never A) = Min A" if "finite A" "A \<noteq> {}" for A using that by simp
  then show ?thesis using assms by (auto simp: validate_tickets_def earliest_expiration_eq)
qed

lemma validate_tickets_result: "validate_tickets vs e = Some None \<longleftrightarrow> vs = []"
  by (auto simp: validate_tickets_def)

section \<open>Signing and reading back\<close>

lemma sign_then_read:
  assumes "\<And>k d. de_verify env (de_public env k) d (de_sign env k d)" and "sign_entry env secret e = Inr s"
  shows "deserialize_signed env (fst s) (snd s) = Some s \<and> fst s = e \<and> pe_id e = de_public env secret"
  using assms by (auto simp: sign_entry_def deserialize_signed_def is_signature_valid_def Let_def split: if_splits)

end
