(* ===== verification/Catalog.thy ===== *)
theory Catalog
  imports Peer_Entry
begin

text \<open>
  \<open>discovery/catalog.rs\<close>: the entries a node knows, signed ones (which are synchronised between
  peers) and unsigned ones (local only), both as lists sorted by peer id. The configuration
  (\<open>discovery/config.rs\<close>), the reading of the clock (one per operation) and the lookup of the RTT
  tracker are arguments where the code reads them; durations and times are in nanoseconds.
\<close>

record disc_config =
  dc_purge_after :: int
  dc_max_time_drift :: int
  dc_max_rtt :: "nat option"

record ('a, 'g) catalog =
  cat_local_id :: peer_id
  cat_network :: nat
  cat_signed :: "(peer_id \<times> ('a, 'g) signed_entry) list"
  cat_unsigned :: "(peer_id \<times> 'a peer_entry) list"

text \<open>\<open>None\<close> is the failed \<open>expect\<close> on signing.\<close>

definition catalog_new ::
  "('a, 'k, 'g) disc_env \<Rightarrow> string \<Rightarrow> int \<Rightarrow> 'k \<Rightarrow> nat \<Rightarrow> peer_id \<Rightarrow> 'a \<Rightarrow> nat list
    \<Rightarrow> ('a, 'g) catalog option" where
  "catalog_new env protocol now_ms secret network pid addrs tags =
    (case sign_entry env secret (add_tags now_ms tags (peer_entry_new protocol now_ms now_ms network pid addrs)) of
       Inl _ \<Rightarrow> None
     | Inr local_entry \<Rightarrow>
         Some \<lparr>cat_local_id = pid, cat_network = network, cat_signed = [(pid, local_entry)], cat_unsigned = []\<rparr>)"

section \<open>Reading\<close>

definition fresh :: "('a, 'k, 'g) disc_env \<Rightarrow> disc_config \<Rightarrow> int \<Rightarrow> 'a peer_entry \<Rightarrow> bool" where
  "fresh env cfg now e \<longleftrightarrow> updated_at env e \<ge> now - dc_purge_after cfg"

definition rtt_ok :: "disc_config \<Rightarrow> (peer_id \<Rightarrow> nat option) \<Rightarrow> peer_id \<Rightarrow> bool" where
  "rtt_ok cfg rtt p =
    (case dc_max_rtt cfg of None \<Rightarrow> True
     | Some mx \<Rightarrow> (case rtt p of None \<Rightarrow> True | Some r \<Rightarrow> r \<le> mx))"

definition cat_peers ::
  "('a, 'k, 'g) disc_env \<Rightarrow> disc_config \<Rightarrow> (peer_id \<Rightarrow> nat option) \<Rightarrow> int \<Rightarrow> ('a, 'g) catalog \<Rightarrow> 'a peer_entry list" where
  "cat_peers env cfg rtt now c =
    filter (\<lambda>p. pe_id p \<noteq> cat_local_id c \<and> fresh env cfg now p \<and> rtt_ok cfg rtt (pe_id p))
      (map (fst \<circ> snd) (cat_signed c) @ map snd (cat_unsigned c))"

definition signed_peers ::
  "('a, 'k, 'g) disc_env \<Rightarrow> disc_config \<Rightarrow> int \<Rightarrow> ('a, 'g) catalog \<Rightarrow> ('a, 'g) signed_entry list" where
  "signed_peers env cfg now c =
    filter (\<lambda>p. pe_id (fst p) \<noteq> cat_local_id c \<and> fresh env cfg now (fst p)) (map snd (cat_signed c))"

definition unsigned_peers :: "('a, 'g) catalog \<Rightarrow> 'a peer_entry list" where
  "unsigned_peers c = filter (\<lambda>p. pe_id p \<noteq> cat_local_id c) (map snd (cat_unsigned c))"

definition cat_iter ::
  "('a, 'k, 'g) disc_env \<Rightarrow> disc_config \<Rightarrow> int \<Rightarrow> ('a, 'g) catalog \<Rightarrow> 'a peer_entry list" where
  "cat_iter env cfg now c =
    filter (fresh env cfg now) (map (fst \<circ> snd) (cat_signed c)) @ map snd (cat_unsigned c)"

definition iter_signed ::
  "('a, 'k, 'g) disc_env \<Rightarrow> disc_config \<Rightarrow> int \<Rightarrow> ('a, 'g) catalog \<Rightarrow> ('a, 'g) signed_entry list" where
  "iter_signed env cfg now c = filter (\<lambda>p. fresh env cfg now (fst p)) (map snd (cat_signed c))"

definition get_signed ::
  "('a, 'k, 'g) disc_env \<Rightarrow> disc_config \<Rightarrow> int \<Rightarrow> ('a, 'g) catalog \<Rightarrow> peer_id \<Rightarrow> ('a, 'g) signed_entry option" where
  "get_signed env cfg now c p =
    (case map_of (cat_signed c) p of
       Some s \<Rightarrow> if fresh env cfg now (fst s) then Some s else None
     | None \<Rightarrow> None)"

definition cat_get ::
  "('a, 'k, 'g) disc_env \<Rightarrow> disc_config \<Rightarrow> (peer_id \<Rightarrow> nat option) \<Rightarrow> int \<Rightarrow> ('a, 'g) catalog \<Rightarrow> peer_id
    \<Rightarrow> 'a peer_entry option" where
  "cat_get env cfg rtt now c p =
    (if \<not> rtt_ok cfg rtt p then None
     else case get_signed env cfg now c p of
            Some s \<Rightarrow> Some (fst s)
          | None \<Rightarrow> map_of (cat_unsigned c) p)"

text \<open>\<open>None\<close> is the failed \<open>expect\<close>.\<close>

definition cat_local :: "('a, 'g) catalog \<Rightarrow> ('a, 'g) signed_entry option" where
  "cat_local c = map_of (cat_signed c) (cat_local_id c)"

definition signed_peers_count :: "('a, 'k, 'g) disc_env \<Rightarrow> disc_config \<Rightarrow> int \<Rightarrow> ('a, 'g) catalog \<Rightarrow> nat" where
  "signed_peers_count env cfg now c = length (signed_peers env cfg now c)"

definition peers_count :: "('a, 'k, 'g) disc_env \<Rightarrow> disc_config \<Rightarrow> int \<Rightarrow> ('a, 'g) catalog \<Rightarrow> nat" where
  "peers_count env cfg now c = saturating_sub (length (cat_iter env cfg now c)) 1"

section \<open>Changing\<close>

definition insert_unsigned :: "'a peer_entry \<Rightarrow> ('a, 'g) catalog \<Rightarrow> bool \<times> ('a, 'g) catalog" where
  "insert_unsigned e c =
    (if pe_id e = cat_local_id c then (False, c)
     else if pe_network e \<noteq> cat_network c then (False, c)
     else if map_of (cat_signed c) (pe_id e) = None
     then (True, c\<lparr>cat_unsigned := btree_insert (pe_id e) e (cat_unsigned c)\<rparr>)
     else (False, c))"

definition remove_unsigned :: "peer_id \<Rightarrow> ('a, 'g) catalog \<Rightarrow> 'a peer_entry option \<times> ('a, 'g) catalog" where
  "remove_unsigned p c =
    (map_of (cat_unsigned c) p, c\<lparr>cat_unsigned := AList.delete p (cat_unsigned c)\<rparr>)"

definition clear_unsigned :: "('a, 'g) catalog \<Rightarrow> bool \<times> ('a, 'g) catalog" where
  "clear_unsigned c = (cat_unsigned c \<noteq> [], c\<lparr>cat_unsigned := []\<rparr>)"

datatype ('a, 'g) upsert_result =
    UpsertNew "('a, 'g) signed_entry"
  | UpsertUpdated "('a, 'g) signed_entry"
  | UpsertRejected "('a, 'g) signed_entry" "('a, 'g) signed_entry"
  | UpsertOutdated "('a, 'g) signed_entry"
  | UpsertDifferentNetwork nat

fun upsert_is_ok :: "('a, 'g) upsert_result \<Rightarrow> bool" where
  "upsert_is_ok (UpsertNew _) = True"
| "upsert_is_ok (UpsertUpdated _) = True"
| "upsert_is_ok _ = False"

definition upsert_signed ::
  "('a, 'k, 'g) disc_env \<Rightarrow> disc_config \<Rightarrow> int \<Rightarrow> ('a, 'g) signed_entry \<Rightarrow> ('a, 'g) catalog
    \<Rightarrow> ('a, 'g) upsert_result \<times> ('a, 'g) catalog" where
  "upsert_signed env cfg now s c =
    (if pe_network (fst s) \<noteq> cat_network c then (UpsertDifferentNetwork (pe_network (fst s)), c)
     else if \<not> fresh env cfg now (fst s) then (UpsertOutdated s, c)
     else let p = pe_id (fst s); c1 = c\<lparr>cat_unsigned := AList.delete p (cat_unsigned c)\<rparr>
          in case map_of (cat_signed c1) p of
               Some existing \<Rightarrow>
                 if is_newer_than (fst s) (fst existing)
                 then (UpsertUpdated s, c1\<lparr>cat_signed := btree_insert p s (cat_signed c1)\<rparr>)
                 else (UpsertRejected s existing, c1)
             | None \<Rightarrow> (UpsertNew s, c1\<lparr>cat_signed := btree_insert p s (cat_signed c1)\<rparr>))"

definition cat_remove :: "peer_id \<Rightarrow> ('a, 'g) catalog \<Rightarrow> 'a peer_entry option \<times> ('a, 'g) catalog" where
  "cat_remove p c =
    (if p = cat_local_id c then (None, c)
     else case map_of (cat_signed c) p of
            Some existing \<Rightarrow> (Some (fst existing), c\<lparr>cat_signed := AList.delete p (cat_signed c)\<rparr>)
          | None \<Rightarrow> remove_unsigned p c)"

definition remove_signed :: "peer_id \<Rightarrow> ('a, 'g) catalog \<Rightarrow> ('a, 'g) signed_entry option \<times> ('a, 'g) catalog" where
  "remove_signed p c =
    (if p = cat_local_id c then (None, c)
     else (map_of (cat_signed c) p, c\<lparr>cat_signed := AList.delete p (cat_signed c)\<rparr>))"

definition cat_clear :: "('a, 'g) catalog \<Rightarrow> ('a, 'g) catalog option" where
  "cat_clear c =
    map_option (\<lambda>local_entry. c\<lparr>cat_signed := [(cat_local_id c, local_entry)], cat_unsigned := []\<rparr>) (cat_local c)"

definition purge_stale_entries ::
  "('a, 'k, 'g) disc_env \<Rightarrow> disc_config \<Rightarrow> int \<Rightarrow> ('a, 'g) catalog \<Rightarrow> 'a peer_entry list \<times> ('a, 'g) catalog" where
  "purge_stale_entries env cfg now c =
    (let stale = map (fst \<circ> snd) (filter (\<lambda>(p, s). p \<noteq> cat_local_id c \<and> \<not> fresh env cfg now (fst s)) (cat_signed c))
     in (stale, c\<lparr>cat_signed := foldl (\<lambda>xs e. AList.delete (pe_id e) xs) (cat_signed c) stale\<rparr>))"

datatype 'a disc_event = PeerDiscovered "'a peer_entry" | PeerUpdated "'a peer_entry" | PeerDeparted peer_id

fun extend_signed ::
  "('a, 'k, 'g) disc_env \<Rightarrow> disc_config \<Rightarrow> int \<Rightarrow> ('a, 'g) signed_entry list \<Rightarrow> ('a, 'g) catalog
    \<Rightarrow> 'a disc_event list \<times> ('a, 'g) catalog" where
  "extend_signed env cfg now [] c = ([], c)"
| "extend_signed env cfg now (s # ss) c =
    (if pe_id (fst s) \<noteq> cat_local_id c
     then let (r, c1) = upsert_signed env cfg now s c;
              (evs, c2) = extend_signed env cfg now ss c1
          in ((case r of UpsertNew e \<Rightarrow> [PeerDiscovered (fst e)] | UpsertUpdated e \<Rightarrow> [PeerUpdated (fst e)] | _ \<Rightarrow> []) @ evs, c2)
     else extend_signed env cfg now ss c)"

section \<open>Invariant\<close>

definition catalog_wf :: "('a, 'k, 'g) disc_env \<Rightarrow> ('a, 'g) catalog \<Rightarrow> bool" where
  "catalog_wf env c \<longleftrightarrow>
    sorted_wrt (<) (map fst (cat_signed c)) \<and> sorted_wrt (<) (map fst (cat_unsigned c)) \<and>
    (\<forall>p s. map_of (cat_signed c) p = Some s \<longrightarrow>
      pe_id (fst s) = p \<and> pe_network (fst s) = cat_network c \<and> is_signature_valid env s) \<and>
    (\<forall>p e. map_of (cat_unsigned c) p = Some e \<longrightarrow>
      pe_id e = p \<and> pe_network e = cat_network c \<and> p \<noteq> cat_local_id c \<and> map_of (cat_signed c) p = None) \<and>
    cat_local c \<noteq> None"

lemma catalog_wf_signed:
  "catalog_wf env c \<Longrightarrow> map_of (cat_signed c) p = Some s \<Longrightarrow>
    pe_id (fst s) = p \<and> pe_network (fst s) = cat_network c \<and> is_signature_valid env s"
  by (cases s) (simp add: catalog_wf_def)

lemma sorted_delete: "sorted_wrt (<) (map fst xs) \<Longrightarrow> sorted_wrt (<) (map fst (AList.delete k xs))"
  by (induction xs) (auto simp: AList.delete_eq)

lemma map_of_delete_iff: "map_of (AList.delete k xs) p = (if p = k then None else map_of xs p)"
  by (simp add: delete_conv')

lemmas catalog_op_defs = insert_unsigned_def remove_unsigned_def clear_unsigned_def upsert_signed_def
  cat_remove_def remove_signed_def cat_clear_def cat_local_def

lemma insert_unsigned_wf: "catalog_wf env c \<Longrightarrow> catalog_wf env (snd (insert_unsigned e c))"
  by (auto simp: catalog_wf_def insert_unsigned_def cat_local_def btree_insert_sorted)

lemma remove_unsigned_wf: "catalog_wf env c \<Longrightarrow> catalog_wf env (snd (remove_unsigned p c))"
  by (auto simp: catalog_wf_def remove_unsigned_def cat_local_def sorted_delete delete_conv')

lemma clear_unsigned_wf: "catalog_wf env c \<Longrightarrow> catalog_wf env (snd (clear_unsigned c))"
  by (simp add: catalog_wf_def clear_unsigned_def cat_local_def)

lemma upsert_signed_wf:
  assumes "catalog_wf env c" and "is_signature_valid env s"
  shows "catalog_wf env (snd (upsert_signed env cfg now s c))"
  using assms
  by (auto simp: catalog_wf_def upsert_signed_def cat_local_def Let_def btree_insert_sorted sorted_delete delete_conv'
      split: option.splits)

lemma remove_signed_wf: "catalog_wf env c \<Longrightarrow> catalog_wf env (snd (remove_signed p c))"
  by (auto simp: catalog_wf_def remove_signed_def cat_local_def sorted_delete map_of_delete_iff)

lemma cat_remove_wf: "catalog_wf env c \<Longrightarrow> catalog_wf env (snd (cat_remove p c))"
  by (auto simp: catalog_wf_def cat_remove_def remove_unsigned_def cat_local_def sorted_delete map_of_delete_iff
      split: option.splits)

lemma cat_clear_wf: "catalog_wf env c \<Longrightarrow> \<exists>c'. cat_clear c = Some c' \<and> catalog_wf env c'"
  by (auto simp: catalog_wf_def cat_clear_def cat_local_def)

lemma foldl_delete: "foldl (\<lambda>xs e. AList.delete (f e) xs) xs es = filter (\<lambda>x. fst x \<notin> f ` set es) xs"
proof (induction es arbitrary: xs)
  case (Cons e es)
  have "filter (\<lambda>x. fst x \<notin> f ` set es) (AList.delete (f e) xs) = filter (\<lambda>x. fst x \<notin> f ` set (e # es)) xs"
    unfolding AList.delete_eq filter_filter by (rule filter_cong) auto
  then show ?case using Cons by simp
qed simp

lemma map_of_filter_key: "map_of (filter (\<lambda>x. P (fst x)) xs) k = (if P k then map_of xs k else None)"
  by (induction xs) auto

lemma sorted_filter_key: "sorted_wrt (<) (map fst xs) \<Longrightarrow> sorted_wrt (<) (map fst (filter P xs))"
  by (induction xs) auto

text \<open>A purge takes exactly the stale entries of other peers.\<close>

lemma purge_lookup:
  assumes "catalog_wf env c"
  shows "map_of (cat_signed (snd (purge_stale_entries env cfg now c))) p =
    (case map_of (cat_signed c) p of
       None \<Rightarrow> None
     | Some s \<Rightarrow> if p \<noteq> cat_local_id c \<and> \<not> fresh env cfg now (fst s) then None else Some s)"
proof -
  have distinct: "distinct (map fst (cat_signed c))"
    using assms by (simp add: catalog_wf_def strict_sorted_iff)
  have ids: "pe_id (fst s) = q" if "(q, s) \<in> set (cat_signed c)" for q s
    using catalog_wf_signed [OF assms map_of_is_SomeI [OF distinct that]] by simp
  let ?stale = "{q. \<exists>s. (q, s) \<in> set (cat_signed c) \<and> q \<noteq> cat_local_id c \<and> \<not> fresh env cfg now (fst s)}"
  have "pe_id ` set (fst (purge_stale_entries env cfg now c)) = ?stale"
  proof (intro set_eqI iffI)
    fix q assume "q \<in> pe_id ` set (fst (purge_stale_entries env cfg now c))"
    then show "q \<in> ?stale" using ids by (fastforce simp: purge_stale_entries_def Let_def)
  next
    fix q assume "q \<in> ?stale"
    then obtain s where s: "(q, s) \<in> set (cat_signed c)" "q \<noteq> cat_local_id c" "\<not> fresh env cfg now (fst s)" by blast
    then have "fst s \<in> set (fst (purge_stale_entries env cfg now c))"
      by (force simp: purge_stale_entries_def Let_def)
    then show "q \<in> pe_id ` set (fst (purge_stale_entries env cfg now c))" using ids [OF s(1)] by blast
  qed
  then have "cat_signed (snd (purge_stale_entries env cfg now c)) = filter (\<lambda>x. fst x \<notin> ?stale) (cat_signed c)"
    by (simp add: purge_stale_entries_def Let_def foldl_delete)
  then have "map_of (cat_signed (snd (purge_stale_entries env cfg now c))) p =
      (if p \<notin> ?stale then map_of (cat_signed c) p else None)"
    by (simp only: map_of_filter_key [of "\<lambda>q. q \<notin> ?stale"])
  moreover have "p \<in> ?stale \<longleftrightarrow> (\<exists>s. map_of (cat_signed c) p = Some s \<and> p \<noteq> cat_local_id c \<and> \<not> fresh env cfg now (fst s))"
    using distinct by simp
  ultimately show ?thesis by (cases "map_of (cat_signed c) p") auto
qed

lemma purge_wf: "catalog_wf env c \<Longrightarrow> catalog_wf env (snd (purge_stale_entries env cfg now c))"
  using purge_lookup [of env c cfg now]
  by (auto simp: catalog_wf_def cat_local_def purge_stale_entries_def Let_def foldl_delete sorted_filter_key
      split: option.splits if_splits)

section \<open>What is stored after an operation\<close>

definition newest_of ::
  "('a, 'g) signed_entry option \<Rightarrow> ('a, 'g) signed_entry \<Rightarrow> ('a, 'g) signed_entry option" where
  "newest_of x s = (case x of None \<Rightarrow> Some s | Some t \<Rightarrow> if is_newer_than (fst s) (fst t) then Some s else Some t)"

definition acceptable ::
  "('a, 'k, 'g) disc_env \<Rightarrow> disc_config \<Rightarrow> int \<Rightarrow> ('a, 'g) catalog \<Rightarrow> peer_id \<Rightarrow> ('a, 'g) signed_entry \<Rightarrow> bool" where
  "acceptable env cfg now c p s \<longleftrightarrow>
    pe_id (fst s) = p \<and> pe_network (fst s) = cat_network c \<and> fresh env cfg now (fst s)"

lemma upsert_signed_frame [simp]:
  "cat_local_id (snd (upsert_signed env cfg now s c)) = cat_local_id c"
  "cat_network (snd (upsert_signed env cfg now s c)) = cat_network c"
  by (auto simp: upsert_signed_def Let_def split: option.splits)

lemma acceptable_upsert [simp]:
  "acceptable env cfg now (snd (upsert_signed env cfg' now' s c)) = acceptable env cfg now c"
  by (simp add: acceptable_def fun_eq_iff)

lemma upsert_signed_lookup:
  "map_of (cat_signed (snd (upsert_signed env cfg now s c))) p =
    (if acceptable env cfg now c p s then newest_of (map_of (cat_signed c) p) s else map_of (cat_signed c) p)"
  by (auto simp: upsert_signed_def acceptable_def newest_of_def Let_def split: option.splits)

lemma extend_signed_frame [simp]:
  "cat_local_id (snd (extend_signed env cfg now ss c)) = cat_local_id c"
  "cat_network (snd (extend_signed env cfg now ss c)) = cat_network c"
  by (induction ss arbitrary: c) (simp_all add: case_prod_beta)

lemma extend_signed_Cons:
  "snd (extend_signed env cfg now (s # ss) c) =
    snd (extend_signed env cfg now ss
      (if pe_id (fst s) \<noteq> cat_local_id c then snd (upsert_signed env cfg now s c) else c))"
  by (simp add: case_prod_beta)

lemma extend_signed_lookup:
  "map_of (cat_signed (snd (extend_signed env cfg now ss c))) p =
    (if p = cat_local_id c then map_of (cat_signed c) p
     else foldl newest_of (map_of (cat_signed c) p) (filter (acceptable env cfg now c p) ss))"
proof (induction ss arbitrary: c)
  case (Cons s ss)
  show ?case unfolding extend_signed_Cons
    by (auto simp: Cons.IH upsert_signed_lookup acceptable_def)
qed simp

lemma extend_signed_wf:
  "catalog_wf env c \<Longrightarrow> \<forall>s \<in> set ss. is_signature_valid env s \<Longrightarrow> catalog_wf env (snd (extend_signed env cfg now ss c))"
proof (induction ss arbitrary: c)
  case (Cons s ss)
  then show ?case unfolding extend_signed_Cons by (auto intro!: Cons.IH upsert_signed_wf)
qed simp

text \<open>Merging never replaces an entry by an older one.\<close>

definition at_least :: "('a, 'g) signed_entry option \<Rightarrow> ('a, 'g) signed_entry option \<Rightarrow> bool" where
  "at_least x y \<longleftrightarrow> (case x of None \<Rightarrow> True | Some s \<Rightarrow> (case y of None \<Rightarrow> False | Some t \<Rightarrow> pe_version (fst s) \<le> pe_version (fst t)))"

lemma at_least_refl [simp]: "at_least x x"
  by (simp add: at_least_def split: option.splits)

lemma at_least_trans: "at_least x y \<Longrightarrow> at_least y z \<Longrightarrow> at_least x z"
  by (auto simp: at_least_def split: option.splits)

lemma newest_of_at_least: "at_least x (newest_of x s)"
  by (auto simp: at_least_def newest_of_def is_newer_than_def split: option.splits)

lemma foldl_newest_at_least: "at_least x (foldl newest_of x ss)"
  by (induction ss arbitrary: x) (auto intro: at_least_trans [OF newest_of_at_least])

lemma upsert_signed_at_least:
  "at_least (map_of (cat_signed c) p) (map_of (cat_signed (snd (upsert_signed env cfg now s c))) p)"
  by (simp add: upsert_signed_lookup newest_of_at_least)

lemma extend_signed_at_least:
  "at_least (map_of (cat_signed c) p) (map_of (cat_signed (snd (extend_signed env cfg now ss c))) p)"
  by (simp add: extend_signed_lookup foldl_newest_at_least)

text \<open>An accepted entry is what is read back.\<close>

lemma upsert_is_ok_iff:
  "upsert_is_ok (fst (upsert_signed env cfg now s c)) \<longleftrightarrow>
    acceptable env cfg now c (pe_id (fst s)) s \<and>
    (\<forall>t. map_of (cat_signed c) (pe_id (fst s)) = Some t \<longrightarrow> pe_version (fst t) < pe_version (fst s))"
  by (auto simp: upsert_signed_def acceptable_def Let_def is_newer_than_def split: option.splits)

lemma upsert_then_get:
  "upsert_is_ok (fst (upsert_signed env cfg now s c)) \<Longrightarrow>
    get_signed env cfg now (snd (upsert_signed env cfg now s c)) (pe_id (fst s)) = Some s"
  by (auto simp: upsert_is_ok_iff get_signed_def upsert_signed_lookup newest_of_def is_newer_than_def acceptable_def
      split: option.splits)

end
