(* ===== verification/Catalog_Sync.thy ===== *)
theory Catalog_Sync
  imports Catalog
begin

text \<open>
  \<open>discovery/sync.rs\<close>: two nodes exchange snapshots of their signed entries and each merges what it
  received. The link between them is not modelled; decoding a snapshot checks every signature
  (\<open>deserialize_signed\<close>).
\<close>

definition catalog_snapshot ::
  "('a, 'k, 'g) disc_env \<Rightarrow> disc_config \<Rightarrow> int \<Rightarrow> ('a, 'g) catalog \<Rightarrow> ('a, 'g) signed_entry list" where
  "catalog_snapshot env cfg now c = iter_signed env cfg now c"

text \<open>A snapshot with one bad signature is refused as a whole.\<close>

definition decode_snapshot ::
  "('a, 'k, 'g) disc_env \<Rightarrow> ('a, 'g) signed_entry list \<Rightarrow> ('a, 'g) signed_entry list option" where
  "decode_snapshot env ss = those (map (\<lambda>s. deserialize_signed env (fst s) (snd s)) ss)"

fun is_discovered :: "'a disc_event \<Rightarrow> bool" where
  "is_discovered (PeerDiscovered _) = True"
| "is_discovered _ = False"

fun is_updated :: "'a disc_event \<Rightarrow> bool" where
  "is_updated (PeerUpdated _) = True"
| "is_updated _ = False"

text \<open>The merge of a remote snapshot: whether watchers are notified, the events, the catalog.\<close>

definition sync_merge ::
  "('a, 'k, 'g) disc_env \<Rightarrow> disc_config \<Rightarrow> int \<Rightarrow> ('a, 'g) signed_entry list \<Rightarrow> ('a, 'g) catalog
    \<Rightarrow> bool \<times> 'a disc_event list \<times> ('a, 'g) catalog" where
  "sync_merge env cfg now remote c =
    (let (events, c1) = extend_signed env cfg now remote c;
         insertions = length (filter is_discovered events); updates = length (filter is_updated events)
     in (updates > 0 \<or> insertions > 0, events, c1))"

text \<open>
  \<open>accept\<close>, from the received bytes on: the reply is taken from the catalog before the merge.
  \<open>None\<close> is the failure of \<open>recv\<close>.
\<close>

definition sync_accept ::
  "('a, 'k, 'g) disc_env \<Rightarrow> disc_config \<Rightarrow> int \<Rightarrow> ('a, 'g) signed_entry list \<Rightarrow> ('a, 'g) catalog
    \<Rightarrow> (('a, 'g) signed_entry list \<times> 'a disc_event list \<times> ('a, 'g) catalog) option" where
  "sync_accept env cfg now received c =
    (case decode_snapshot env received of
       None \<Rightarrow> None
     | Some remote \<Rightarrow> Some (catalog_snapshot env cfg now c, snd (sync_merge env cfg now remote c)))"

text \<open>\<open>sync_with\<close>, with the answer of the remote node as an argument (\<open>None\<close>: it did not answer).\<close>

definition sync_with ::
  "('a, 'k, 'g) disc_env \<Rightarrow> disc_config \<Rightarrow> int
    \<Rightarrow> (('a, 'g) signed_entry list \<Rightarrow> ('a, 'g) signed_entry list option) \<Rightarrow> ('a, 'g) catalog
    \<Rightarrow> ('a disc_event list \<times> ('a, 'g) catalog) option" where
  "sync_with env cfg now remote c =
    (case remote (catalog_snapshot env cfg now c) of
       None \<Rightarrow> None
     | Some received \<Rightarrow>
         (case decode_snapshot env received of
            None \<Rightarrow> None
          | Some ss \<Rightarrow> Some (snd (sync_merge env cfg now ss c))))"

text \<open>One synchronisation between an initiator and a responder.\<close>

definition sync_exchange ::
  "('a, 'k, 'g) disc_env \<Rightarrow> disc_config \<Rightarrow> int \<Rightarrow> ('a, 'g) catalog \<Rightarrow> ('a, 'g) catalog
    \<Rightarrow> (('a, 'g) catalog \<times> ('a, 'g) catalog) option" where
  "sync_exchange env cfg now a b =
    (case sync_accept env cfg now (catalog_snapshot env cfg now a) b of
       None \<Rightarrow> None
     | Some (reply, _, b1) \<Rightarrow> map_option (\<lambda>r. (snd r, b1)) (sync_with env cfg now (\<lambda>_. Some reply) a))"

section \<open>Snapshots\<close>

lemma those_map_Some: "\<forall>x \<in> set xs. f x = Some x \<Longrightarrow> those (map f xs) = Some xs"
  by (induction xs) auto

lemma those_Some_iff: "those ys = Some xs \<longleftrightarrow> ys = map Some xs"
  by (induction ys arbitrary: xs) (auto split: option.splits)

lemma decode_snapshot_iff: "decode_snapshot env ss = Some ts \<longleftrightarrow> ts = ss \<and> (\<forall>s \<in> set ss. is_signature_valid env s)"
proof -
  have "map (\<lambda>s. deserialize_signed env (fst s) (snd s)) ss = map Some ts \<longleftrightarrow>
      ts = ss \<and> (\<forall>s \<in> set ss. is_signature_valid env s)"
    by (induction ss arbitrary: ts) (auto simp: deserialize_signed_def)
  then show ?thesis by (simp add: decode_snapshot_def those_Some_iff)
qed

lemma catalog_snapshot_iff:
  assumes "catalog_wf env c"
  shows "s \<in> set (catalog_snapshot env cfg now c) \<longleftrightarrow> get_signed env cfg now c (pe_id (fst s)) = Some s"
proof -
  have distinct: "distinct (map fst (cat_signed c))" using assms by (simp add: catalog_wf_def strict_sorted_iff)
  then have "s \<in> set (map snd (cat_signed c)) \<longleftrightarrow> map_of (cat_signed c) (pe_id (fst s)) = Some s"
    using catalog_wf_signed [OF assms] by (force dest: map_of_SomeD map_of_is_SomeI)
  then show ?thesis
    by (auto simp: catalog_snapshot_def iter_signed_def get_signed_def split: option.splits)
qed

lemma catalog_snapshot_valid:
  "catalog_wf env c \<Longrightarrow> s \<in> set (catalog_snapshot env cfg now c) \<Longrightarrow> is_signature_valid env s"
  by (auto simp: catalog_snapshot_iff get_signed_def dest: catalog_wf_signed split: option.splits if_splits)

lemma sync_exchange_eq:
  assumes "catalog_wf env a" and "catalog_wf env b"
  shows "sync_exchange env cfg now a b =
    Some (snd (extend_signed env cfg now (catalog_snapshot env cfg now b) a),
          snd (extend_signed env cfg now (catalog_snapshot env cfg now a) b))"
proof -
  have "decode_snapshot env (catalog_snapshot env cfg now c) = Some (catalog_snapshot env cfg now c)"
    if "catalog_wf env c" for c
    using catalog_snapshot_valid [OF that] by (simp add: decode_snapshot_iff)
  with assms show ?thesis
    by (simp add: sync_exchange_def sync_accept_def sync_with_def sync_merge_def case_prod_beta)
qed

section \<open>Newest entries\<close>

definition versions_identify :: "('a, 'g) signed_entry set \<Rightarrow> bool" where
  "versions_identify A \<longleftrightarrow> (\<forall>s \<in> A. \<forall>t \<in> A. pe_id (fst s) = pe_id (fst t) \<and> pe_version (fst s) = pe_version (fst t) \<longrightarrow> s = t)"

lemma versions_identify_subset: "versions_identify B \<Longrightarrow> A \<subseteq> B \<Longrightarrow> versions_identify A"
  unfolding versions_identify_def by blast

lemma newest_of_simps [simp]:
  "newest_of None s = Some s"
  "newest_of (Some t) s = Some (if is_newer_than (fst s) (fst t) then s else t)"
  by (simp_all add: newest_of_def)

lemma foldl_newest_Some:
  "foldl newest_of (Some x) ss = Some t \<Longrightarrow>
    t \<in> insert x (set ss) \<and> (\<forall>s \<in> insert x (set ss). pe_version (fst s) \<le> pe_version (fst t))"
proof (induction ss arbitrary: x)
  case (Cons s ss)
  show ?case
  proof (cases "is_newer_than (fst s) (fst x)")
    case True
    then have "foldl newest_of (Some s) ss = Some t" using Cons.prems by simp
    from Cons.IH [OF this] True show ?thesis by (auto simp: is_newer_than_def)
  next
    case False
    then have "foldl newest_of (Some x) ss = Some t" using Cons.prems by simp
    from Cons.IH [OF this] False show ?thesis by (auto simp: is_newer_than_def)
  qed
qed simp

lemma foldl_newest_not_None: "foldl newest_of (Some x) ss \<noteq> None"
  by (induction ss arbitrary: x) (auto simp: newest_of_def)

lemma foldl_newest_order:
  assumes "set ss = set ts" and "\<forall>s \<in> set ss. pe_id (fst s) = p" and "\<forall>t \<in> set_option x. pe_id (fst t) = p"
    and "versions_identify (set_option x \<union> set ss)"
  shows "foldl newest_of x ss = foldl newest_of x ts"
proof -
  have step: "foldl newest_of (Some y) us = foldl newest_of (Some z) vs"
    if "insert y (set us) = insert z (set vs)" "insert y (set us) \<subseteq> set_option x \<union> set ss" for y z us vs
  proof -
    obtain s where s: "foldl newest_of (Some y) us = Some s" using foldl_newest_not_None by blast
    obtain t where t: "foldl newest_of (Some z) vs = Some t" using foldl_newest_not_None by blast
    have mem: "s \<in> set_option x \<union> set ss" "t \<in> set_option x \<union> set ss"
      using foldl_newest_Some [OF s] foldl_newest_Some [OF t] that by auto
    have "pe_version (fst s) = pe_version (fst t)"
      using foldl_newest_Some [OF s] foldl_newest_Some [OF t] that(1) by (metis order_antisym)
    moreover have "pe_id (fst s) = pe_id (fst t)" using mem assms(2,3) by (metis UnE)
    ultimately have "s = t" using mem assms(4) by (simp add: versions_identify_def)
    then show ?thesis using s t by simp
  qed
  show ?thesis
  proof (cases x)
    case None
    show ?thesis
    proof (cases ss)
      case Nil
      then show ?thesis using assms(1) by simp
    next
      case (Cons s us)
      then obtain t vs where "ts = t # vs" using assms(1) by (cases ts) auto
      then show ?thesis using Cons None assms(1) step [of s us t vs] by (simp add: newest_of_def)
    qed
  next
    case (Some y)
    then show ?thesis using assms(1) step [of y ss y ts] by simp
  qed
qed

text \<open>Merging a set of entries does not depend on the order they arrive in.\<close>

lemma extend_signed_order:
  assumes "catalog_wf env c" and "set ss = set ts" and "versions_identify (snd ` set (cat_signed c) \<union> set ss)"
  shows "map_of (cat_signed (snd (extend_signed env cfg now ss c))) p =
    map_of (cat_signed (snd (extend_signed env cfg now ts c))) p"
proof -
  let ?x = "map_of (cat_signed c) p"
  have "\<forall>t \<in> set_option ?x. pe_id (fst t) = p" using catalog_wf_signed [OF assms(1)] by (metis elem_set)
  moreover have "set_option ?x \<subseteq> snd ` set (cat_signed c)"
    by (metis elem_set imageI map_of_SomeD snd_conv subsetI)
  then have "versions_identify (set_option ?x \<union> set (filter (acceptable env cfg now c p) ss))"
    by (intro versions_identify_subset [OF assms(3)]) auto
  ultimately have "foldl newest_of ?x (filter (acceptable env cfg now c p) ss) =
      foldl newest_of ?x (filter (acceptable env cfg now c p) ts)"
    using assms(2) by (intro foldl_newest_order) (auto simp: acceptable_def)
  then show ?thesis by (simp add: extend_signed_lookup)
qed

section \<open>Two nodes agree after an exchange\<close>

lemma filter_key_map_of:
  "distinct (map fst xs) \<Longrightarrow> \<forall>(q, s) \<in> set xs. f s = q \<Longrightarrow>
    filter (\<lambda>s. f s = p) (map snd xs) = (case map_of xs p of None \<Rightarrow> [] | Some s \<Rightarrow> [s])"
proof (induction xs)
  case (Cons x xs)
  obtain q s where x: "x = (q, s)" by (cases x)
  have "map_of xs q = None" using Cons.prems(1) x by (simp add: map_of_eq_None_iff)
  then show ?case using Cons x by auto
qed simp

lemma snapshot_for_peer:
  assumes "catalog_wf env b" and "cat_network a = cat_network b"
  shows "filter (acceptable env cfg now a p) (catalog_snapshot env cfg now b) =
    (case get_signed env cfg now b p of None \<Rightarrow> [] | Some s \<Rightarrow> [s])"
proof -
  have distinct: "distinct (map fst (cat_signed b))" using assms(1) by (simp add: catalog_wf_def strict_sorted_iff)
  have keys: "pe_id (fst s) = q \<and> pe_network (fst s) = cat_network b" if "(q, s) \<in> set (cat_signed b)" for q s
    using catalog_wf_signed [OF assms(1) map_of_is_SomeI [OF distinct that]] by simp
  have "filter (acceptable env cfg now a p) (catalog_snapshot env cfg now b) =
      filter (\<lambda>s. fresh env cfg now (fst s)) (filter (\<lambda>s. pe_id (fst s) = p) (map snd (cat_signed b)))"
    unfolding catalog_snapshot_def iter_signed_def filter_filter
    by (rule filter_cong) (use keys assms(2) in \<open>auto simp: acceptable_def\<close>)
  also have "filter (\<lambda>s. pe_id (fst s) = p) (map snd (cat_signed b)) =
      (case map_of (cat_signed b) p of None \<Rightarrow> [] | Some s \<Rightarrow> [s])"
    using filter_key_map_of [OF distinct, of "\<lambda>s. pe_id (fst s)"] keys by blast
  finally show ?thesis by (simp add: get_signed_def split: option.splits)
qed

text \<open>
  What two nodes know of the same peer: equal versions are the same entry, a newer version has a
  later time of update, and nobody has a newer entry of a node than the node itself.
\<close>

definition coherent :: "('a, 'k, 'g) disc_env \<Rightarrow> ('a, 'g) catalog \<Rightarrow> ('a, 'g) catalog \<Rightarrow> bool" where
  "coherent env a b \<longleftrightarrow>
    (\<forall>x \<in> set (cat_signed a). \<forall>y \<in> set (cat_signed b). fst x = fst y \<longrightarrow>
      (pe_version (fst (snd x)) = pe_version (fst (snd y)) \<longrightarrow> snd x = snd y) \<and>
      (pe_version (fst (snd x)) < pe_version (fst (snd y)) \<longrightarrow>
        updated_at env (fst (snd x)) \<le> updated_at env (fst (snd y)) \<and> fst x \<noteq> cat_local_id a) \<and>
      (pe_version (fst (snd y)) < pe_version (fst (snd x)) \<longrightarrow>
        updated_at env (fst (snd y)) \<le> updated_at env (fst (snd x)) \<and> fst x \<noteq> cat_local_id b))"

lemma coherent_lookup:
  assumes "coherent env a b" and "map_of (cat_signed a) p = Some s" and "map_of (cat_signed b) p = Some t"
  shows "pe_version (fst s) = pe_version (fst t) \<Longrightarrow> s = t"
    and "pe_version (fst s) < pe_version (fst t) \<Longrightarrow> updated_at env (fst s) \<le> updated_at env (fst t) \<and> p \<noteq> cat_local_id a"
    and "pe_version (fst t) < pe_version (fst s) \<Longrightarrow> updated_at env (fst t) \<le> updated_at env (fst s) \<and> p \<noteq> cat_local_id b"
  using assms unfolding coherent_def by (metis fst_conv map_of_SomeD snd_conv)+

text \<open>What a node has for a peer after merging the snapshot of another one.\<close>

lemma merged_lookup:
  assumes "catalog_wf env b" and "cat_network a = cat_network b"
  shows "map_of (cat_signed (snd (extend_signed env cfg now (catalog_snapshot env cfg now b) a))) p =
    (if p = cat_local_id a then map_of (cat_signed a) p
     else case get_signed env cfg now b p of
            None \<Rightarrow> map_of (cat_signed a) p
          | Some s \<Rightarrow> newest_of (map_of (cat_signed a) p) s)"
  by (simp add: extend_signed_lookup snapshot_for_peer [OF assms] split: option.splits)

lemma exchange_agrees:
  assumes "catalog_wf env a" and "catalog_wf env b" and "cat_network a = cat_network b" and "coherent env a b"
  shows "get_signed env cfg now (snd (extend_signed env cfg now (catalog_snapshot env cfg now b) a)) p =
    get_signed env cfg now (snd (extend_signed env cfg now (catalog_snapshot env cfg now a) b)) p"
proof -
  note look = merged_lookup [OF assms(2,3), of cfg now p] merged_lookup [OF assms(1) assms(3) [symmetric], of cfg now p]
  have own: "map_of (cat_signed a) (cat_local_id a) \<noteq> None" "map_of (cat_signed b) (cat_local_id b) \<noteq> None"
    using assms(1,2) by (auto simp: catalog_wf_def cat_local_def)
  show ?thesis
  proof (cases "map_of (cat_signed a) p")
    case None
    then have "p \<noteq> cat_local_id a" using own(1) by auto
    with None show ?thesis by (auto simp: get_signed_def look split: option.splits)
  next
    case (Some s)
    note a = Some
    show ?thesis
    proof (cases "map_of (cat_signed b) p")
      case None
      then have "p \<noteq> cat_local_id b" using own(2) by auto
      with None a show ?thesis by (auto simp: get_signed_def look split: option.splits)
    next
      case (Some t)
      consider "pe_version (fst s) = pe_version (fst t)" | "pe_version (fst s) < pe_version (fst t)"
        | "pe_version (fst t) < pe_version (fst s)" by (metis linorder_less_linear)
      then show ?thesis
        using a Some coherent_lookup [OF assms(4) a Some]
        by cases (auto simp: get_signed_def look is_newer_than_def fresh_def)
    qed
  qed
qed

end
