(* ===== verification/Rtt.thy ===== *)
theory Rtt
  imports Catalog
begin

text \<open>
  \<open>discovery/rtt.rs\<close>: the smoothed round-trip time per peer, in nanoseconds. Multiplying a
  \<open>Duration\<close> panics beyond \<open>2 ^ 64\<close> seconds, which the unbounded numbers here do not show.
\<close>

record rtt_state =
  rs_smoothed :: nat
  rs_variance :: nat
  rs_sample_count :: nat
  rs_last_sample :: int

type_synonym rtt_tracker = "peer_id \<rightharpoonup> rtt_state"

definition rtt_tracker_new :: rtt_tracker where
  "rtt_tracker_new = Map.empty"

definition mul_duration :: "nat \<Rightarrow> nat \<Rightarrow> nat \<Rightarrow> nat" where
  "mul_duration d num den = d * num div den"

definition duration_abs_diff :: "nat \<Rightarrow> nat \<Rightarrow> nat" where
  "duration_abs_diff a b = (if a < b then b - a else a - b)"

definition record_sample :: "int \<Rightarrow> peer_id \<Rightarrow> nat \<Rightarrow> rtt_tracker \<Rightarrow> rtt_tracker" where
  "record_sample now p rtt t =
    (case t p of
       Some st \<Rightarrow>
         let diff = duration_abs_diff (rs_smoothed st) rtt
         in t(p \<mapsto> \<lparr>rs_smoothed = mul_duration (rs_smoothed st) 7 8 + mul_duration rtt 1 8,
                    rs_variance = mul_duration (rs_variance st) 3 4 + mul_duration diff 1 4,
                    rs_sample_count = rs_sample_count st + 1,
                    rs_last_sample = now\<rparr>)
     | None \<Rightarrow> t(p \<mapsto> \<lparr>rs_smoothed = rtt, rs_variance = rtt div 2, rs_sample_count = 1, rs_last_sample = now\<rparr>))"

definition rtt_get :: "rtt_tracker \<Rightarrow> peer_id \<Rightarrow> nat option" where
  "rtt_get t p = map_option rs_smoothed (t p)"

definition rtt_remove :: "peer_id \<Rightarrow> rtt_tracker \<Rightarrow> rtt_tracker" where
  "rtt_remove p t = t(p := None)"

record 'a peer_info =
  pi_entry :: "'a peer_entry"
  pi_rtt :: "nat option"

definition from_tracker :: "'a peer_entry \<Rightarrow> rtt_tracker \<Rightarrow> 'a peer_info" where
  "from_tracker e t = \<lparr>pi_entry = e, pi_rtt = rtt_get t (pe_id e)\<rparr>"

definition rtt_below :: "nat \<Rightarrow> 'a peer_info \<Rightarrow> bool" where
  "rtt_below threshold i = (case pi_rtt i of None \<Rightarrow> True | Some rtt \<Rightarrow> rtt < threshold)"

section \<open>The estimate\<close>

text \<open>Recording a sequence of samples of one peer.\<close>

definition record_samples :: "int \<Rightarrow> peer_id \<Rightarrow> nat list \<Rightarrow> rtt_tracker \<Rightarrow> rtt_tracker" where
  "record_samples now p rs t = fold (record_sample now p) rs t"

lemma record_sample_other [simp]: "q \<noteq> p \<Longrightarrow> record_sample now p rtt t q = t q"
  by (simp add: record_sample_def Let_def split: option.splits)

lemma ewma_upper: "s \<le> m \<Longrightarrow> r \<le> m \<Longrightarrow> s * 7 div 8 + r div 8 \<le> (m :: nat)"
  by linarith

lemma ewma_lower: "m \<le> s + 14 \<Longrightarrow> m \<le> r \<Longrightarrow> (m :: nat) \<le> s * 7 div 8 + r div 8 + 14"
  by linarith

lemma var_upper: "v \<le> m \<Longrightarrow> s \<le> m \<Longrightarrow> r \<le> m \<Longrightarrow> v * 3 div 4 + duration_abs_diff s r div 4 \<le> (m :: nat)"
  unfolding duration_abs_diff_def by (cases "s < r") (simp; linarith)+

definition estimate_within :: "nat \<Rightarrow> nat \<Rightarrow> rtt_state \<Rightarrow> bool" where
  "estimate_within lo hi st \<longleftrightarrow> lo \<le> rs_smoothed st + 14 \<and> rs_smoothed st \<le> hi \<and> rs_variance st \<le> hi"

lemma record_sample_within:
  assumes "\<forall>st. t p = Some st \<longrightarrow> estimate_within lo hi st" and "lo \<le> r" and "r \<le> hi"
  shows "\<exists>st. record_sample now p r t p = Some st \<and> estimate_within lo hi st"
proof (cases "t p")
  case None
  then show ?thesis using assms(2,3) by (simp add: record_sample_def estimate_within_def)
next
  case (Some st)
  then have "lo \<le> rs_smoothed st + 14" "rs_smoothed st \<le> hi" "rs_variance st \<le> hi"
    using assms(1) by (auto simp: estimate_within_def)
  then show ?thesis
    using Some ewma_lower [of lo "rs_smoothed st" r] ewma_upper [of "rs_smoothed st" hi r]
      var_upper [of "rs_variance st" hi "rs_smoothed st" r] assms(2,3)
    by (simp add: record_sample_def estimate_within_def mul_duration_def Let_def)
qed

lemma record_samples_within:
  assumes "rs \<noteq> []" and "\<forall>st. t p = Some st \<longrightarrow> estimate_within lo hi st" and "\<forall>r \<in> set rs. lo \<le> r \<and> r \<le> hi"
  shows "\<exists>st. record_samples now p rs t p = Some st \<and> estimate_within lo hi st"
  using assms
proof (induction rs arbitrary: t rule: list_nonempty_induct)
  case (single r)
  then show ?case using record_sample_within [of t p lo hi r now] by (simp add: record_samples_def)
next
  case (cons r rs)
  have "\<exists>st. record_sample now p r t p = Some st \<and> estimate_within lo hi st"
    using cons.prems by (intro record_sample_within) auto
  then show ?case using cons.IH [of "record_sample now p r t"] cons.prems(2) by (simp add: record_samples_def) auto
qed

text \<open>Equal samples pull the estimate towards them at the rate 7/8, up to 14 ns of rounding.\<close>

lemma ewma_step: "8 * (int r - int (s * 7 div 8 + r div 8) - 14) \<le> 7 * (int r - int s - 14)"
proof -
  have "int (s * 7) \<le> 8 * int (s * 7 div 8) + 7" "int r \<le> 8 * int (r div 8) + 7" by linarith+
  then show ?thesis by simp
qed

lemma record_samples_converge:
  assumes "rtt_get t p = Some s"
  shows "\<exists>s'. rtt_get (record_samples now p (replicate n r) t) p = Some s' \<and>
    8 ^ n * (int r - int s' - 14) \<le> 7 ^ n * (int r - int s - 14)"
  using assms
proof (induction n arbitrary: t s)
  case 0
  then show ?case by (simp add: record_samples_def)
next
  case (Suc n)
  let ?s1 = "s * 7 div 8 + r div 8"
  have "rtt_get (record_sample now p r t) p = Some ?s1"
    using Suc.prems by (auto simp: rtt_get_def record_sample_def mul_duration_def Let_def)
  from Suc.IH [OF this] obtain s' where s': "rtt_get (record_samples now p (replicate n r) (record_sample now p r t)) p = Some s'"
    and le: "8 ^ n * (int r - int s' - 14) \<le> 7 ^ n * (int r - int ?s1 - 14)" by blast
  have "8 ^ Suc n * (int r - int s' - 14) \<le> 7 ^ n * (8 * (int r - int ?s1 - 14))" 
    using mult_left_mono [OF le, of 8] by (simp only: power_Suc mult_ac)
  also have "\<dots> \<le> 7 ^ n * (7 * (int r - int s - 14))" by (intro mult_left_mono ewma_step) simp
  also have "\<dots> = 7 ^ Suc n * (int r - int s - 14)" by (simp only: power_Suc mult_ac)
  finally show ?case using s' by (auto simp: record_samples_def)
qed

end
