(* ===== verification/Discovery.thy ===== *)
theory Discovery
  imports Catalog_Sync Rtt "HOL-Library.Word"
begin

text \<open>
  \<open>discovery/announce.rs\<close>, \<open>discovery/worker.rs\<close>, \<open>discovery/ping.rs\<close> and the catalog operations of
  \<open>discovery/mod.rs\<close>: what a node does with announcements, departures, synchronised entries, its own
  updates and its timers.

  The gossip layer, the connections and the task scheduler are outside: what the handlers ask of
  them is the list of effects in the state, and what they answer is an argument of the handler. A
  handler that can panic returns an option (\<open>None\<close> is the panic). Each handler reads the clock once.
\<close>

type_synonym 'a address = "peer_id \<times> 'a"

definition entry_address :: "'a peer_entry \<Rightarrow> 'a address" where
  "entry_address e = (pe_id e, pe_addrs e)"

section \<open>Announcements\<close>

record 'g departure =
  gd_peer_id :: peer_id
  gd_last_version :: peer_version
  gd_timestamp :: int
  gd_signature :: 'g

datatype ('a, 'g) announcement = OwnEntryUpdate "('a, 'g) signed_entry" | GracefulDeparture "'g departure"

datatype ('a, 'g) announce_event = PeerEntryReceived "('a, 'g) signed_entry" | DepartureReceived peer_id peer_version

definition departure_new :: "('a, 'k, 'g) disc_env \<Rightarrow> int \<Rightarrow> 'k \<Rightarrow> peer_id \<Rightarrow> peer_version \<Rightarrow> 'g departure" where
  "departure_new env now secret pid last_version =
    \<lparr>gd_peer_id = pid, gd_last_version = last_version, gd_timestamp = now,
     gd_signature = de_sign env secret (de_departure_digest env pid last_version (to_millis now))\<rparr>"

definition has_valid_signature :: "('a, 'k, 'g) disc_env \<Rightarrow> 'g departure \<Rightarrow> bool" where
  "has_valid_signature env d =
    de_verify env (gd_peer_id d)
      (de_departure_digest env (gd_peer_id d) (gd_last_version d) (to_millis (gd_timestamp d))) (gd_signature d)"

text \<open>Decoding a signed entry checks its signature; a departure is checked by the handler.\<close>

fun decode_announcement :: "('a, 'k, 'g) disc_env \<Rightarrow> ('a, 'g) announcement \<Rightarrow> ('a, 'g) announcement option" where
  "decode_announcement env (OwnEntryUpdate s) = map_option OwnEntryUpdate (deserialize_signed env (fst s) (snd s))"
| "decode_announcement env (GracefulDeparture d) = Some (GracefulDeparture d)"

fun on_message_received ::
  "('a, 'k, 'g) disc_env \<Rightarrow> disc_config \<Rightarrow> int \<Rightarrow> nat \<Rightarrow> ('a, 'g) announcement \<Rightarrow> ('a, 'g) announce_event option" where
  "on_message_received env cfg now network (OwnEntryUpdate s) =
    (if pe_network (fst s) \<noteq> network then None
     else let time_diff = \<bar>now - updated_at env (fst s)\<bar>
          in if time_diff > dc_max_time_drift cfg then None
             else Some (PeerEntryReceived s))"
| "on_message_received env cfg now network (GracefulDeparture d) =
    (if \<not> has_valid_signature env d then None
     else let time_diff = \<bar>now - gd_timestamp d\<bar>
          in if time_diff > dc_max_time_drift cfg then None
             else Some (DepartureReceived (gd_peer_id d) (gd_last_version d)))"

section \<open>State\<close>

datatype ('a, 'g) disc_effect =
    Observe "'a address"
  | SpawnSync "'a address"
  | SpawnPing "'a address"
  | Publish "'a disc_event"
  | Dial "'a address list"
  | JoinPeers "peer_id list"
  | RejoinTopic "peer_id list"
  | Gossip "('a, 'g) announcement"
  | ResetPurge int

record ('a, 'g) discovery =
  dv_catalog :: "('a, 'g) catalog"
  dv_rtt :: rtt_tracker
  dv_seen :: "peer_id set"
  dv_neighbors :: "64 word"
  dv_last_own_version :: peer_version
  dv_messages_out :: "('a, 'g) announcement list"
  dv_announce_events :: "('a, 'g) announce_event list"
  dv_sync_events :: "'a disc_event list"
  dv_effects :: "('a, 'g) disc_effect list"

definition emit :: "('a, 'g) disc_effect list \<Rightarrow> ('a, 'g) discovery \<Rightarrow> ('a, 'g) discovery" where
  "emit es d = d\<lparr>dv_effects := dv_effects d @ es\<rparr>"

text \<open>\<open>None\<close>: the catalog could not be created.\<close>

definition discovery_new :: "('a, 'g) catalog \<Rightarrow> ('a, 'g) discovery option" where
  "discovery_new c =
    map_option (\<lambda>s. \<lparr>dv_catalog = c, dv_rtt = rtt_tracker_new, dv_seen = {}, dv_neighbors = 0,
                     dv_last_own_version = pe_version (fst s), dv_messages_out = [],
                     dv_announce_events = [], dv_sync_events = [], dv_effects = []\<rparr>)
      (cat_local c)"

section \<open>The announcement worker\<close>

definition broadcast_self_info :: "('a, 'g) discovery \<Rightarrow> ('a, 'g) discovery option" where
  "broadcast_self_info d =
    map_option (\<lambda>s. d\<lparr>dv_messages_out := dv_messages_out d @ [OwnEntryUpdate s]\<rparr>) (cat_local (dv_catalog d))"

definition on_catalog_update :: "('a, 'g) discovery \<Rightarrow> ('a, 'g) discovery option" where
  "on_catalog_update d =
    (case cat_local (dv_catalog d) of
       None \<Rightarrow> None
     | Some s \<Rightarrow>
         if pe_version (fst s) > dv_last_own_version d
         then map_option (\<lambda>d1. d1\<lparr>dv_last_own_version := pe_version (fst s)\<rparr>) (broadcast_self_info d)
         else Some d)"

definition known_peers ::
  "('a, 'k, 'g) disc_env \<Rightarrow> disc_config \<Rightarrow> int \<Rightarrow> ('a, 'g) discovery \<Rightarrow> 'a peer_entry list" where
  "known_peers env cfg now d =
    filter (\<lambda>p. pe_id p \<noteq> cat_local_id (dv_catalog d)) (cat_peers env cfg (rtt_get (dv_rtt d)) now (dv_catalog d))"

definition join_known_peers ::
  "('a, 'k, 'g) disc_env \<Rightarrow> disc_config \<Rightarrow> int \<Rightarrow> ('a, 'g) discovery \<Rightarrow> ('a, 'g) discovery" where
  "join_known_peers env cfg now d =
    (let ps = known_peers env cfg now d
     in emit (map (Observe \<circ> entry_address) ps @ [JoinPeers (map pe_id ps)]) d)"

definition increment_neighbor_count :: "('a, 'g) discovery \<Rightarrow> ('a, 'g) discovery" where
  "increment_neighbor_count d = d\<lparr>dv_neighbors := dv_neighbors d + 1\<rparr>"

definition decrement_neighbor_count ::
  "('a, 'k, 'g) disc_env \<Rightarrow> disc_config \<Rightarrow> int \<Rightarrow> ('a, 'g) discovery \<Rightarrow> ('a, 'g) discovery" where
  "decrement_neighbor_count env cfg now d =
    (let prev = dv_neighbors d; d1 = d\<lparr>dv_neighbors := prev - 1\<rparr>
     in if prev = 1 then join_known_peers env cfg now d1 else d1)"

definition set_neighbor_count ::
  "('a, 'k, 'g) disc_env \<Rightarrow> disc_config \<Rightarrow> int \<Rightarrow> 64 word \<Rightarrow> ('a, 'g) discovery \<Rightarrow> ('a, 'g) discovery" where
  "set_neighbor_count env cfg now count d =
    (let d1 = d\<lparr>dv_neighbors := count\<rparr> in if count = 0 then join_known_peers env cfg now d1 else d1)"

definition rejoin_topic ::
  "('a, 'k, 'g) disc_env \<Rightarrow> disc_config \<Rightarrow> peer_id list \<Rightarrow> int \<Rightarrow> ('a, 'g) discovery \<Rightarrow> ('a, 'g) discovery" where
  "rejoin_topic env cfg bootstrap now d =
    emit [RejoinTopic (bootstrap @ map pe_id (known_peers env cfg now d))] (d\<lparr>dv_neighbors := 0\<rparr>)"

datatype ('a, 'g) gossip_event =
    NeighborUp peer_id
  | NeighborDown peer_id
  | Received "('a, 'g) announcement"
  | Lagged

fun on_gossip_event ::
  "('a, 'k, 'g) disc_env \<Rightarrow> disc_config \<Rightarrow> int \<Rightarrow> ('a, 'g) gossip_event \<Rightarrow> ('a, 'g) discovery
    \<Rightarrow> ('a, 'g) discovery option" where
  "on_gossip_event env cfg now (NeighborUp _) d = broadcast_self_info (increment_neighbor_count d)"
| "on_gossip_event env cfg now (NeighborDown _) d = Some (decrement_neighbor_count env cfg now d)"
| "on_gossip_event env cfg now (Received content) d =
    (case decode_announcement env content of
       None \<Rightarrow> Some d
     | Some m \<Rightarrow>
         (case on_message_received env cfg now (cat_network (dv_catalog d)) m of
            None \<Rightarrow> Some d
          | Some ev \<Rightarrow> Some (d\<lparr>dv_announce_events := dv_announce_events d @ [ev]\<rparr>)))"
| "on_gossip_event env cfg now Lagged d = Some (set_neighbor_count env cfg now 0 d)"

text \<open>The outcome of \<open>GossipSender::broadcast\<close>.\<close>

datatype broadcast_outcome = BroadcastOk "64 word" | BroadcastClosed | BroadcastFailed

definition broadcast_message ::
  "('a, 'k, 'g) disc_env \<Rightarrow> disc_config \<Rightarrow> peer_id list \<Rightarrow> int \<Rightarrow> bool \<Rightarrow> broadcast_outcome
    \<Rightarrow> ('a, 'g) announcement \<Rightarrow> ('a, 'g) discovery \<Rightarrow> ('a, 'g) discovery" where
  "broadcast_message env cfg bootstrap now joined outcome m d =
    (if \<not> joined then d\<lparr>dv_messages_out := dv_messages_out d @ [m]\<rparr>
     else case outcome of
            BroadcastOk neighbors \<Rightarrow> set_neighbor_count env cfg now neighbors (emit [Gossip m] d)
          | BroadcastClosed \<Rightarrow> rejoin_topic env cfg bootstrap now d
          | BroadcastFailed \<Rightarrow> d)"

text \<open>The branch of the loop that sends the next queued message.\<close>

definition send_next ::
  "('a, 'k, 'g) disc_env \<Rightarrow> disc_config \<Rightarrow> peer_id list \<Rightarrow> int \<Rightarrow> bool \<Rightarrow> broadcast_outcome
    \<Rightarrow> ('a, 'g) discovery \<Rightarrow> ('a, 'g) discovery" where
  "send_next env cfg bootstrap now joined outcome d =
    (case dv_messages_out d of
       [] \<Rightarrow> d
     | m # ms \<Rightarrow>
         if joined then broadcast_message env cfg bootstrap now joined outcome m (d\<lparr>dv_messages_out := ms\<rparr>) else d)"

definition announce_observe :: "'a peer_entry \<Rightarrow> ('a, 'g) discovery \<Rightarrow> ('a, 'g) discovery" where
  "announce_observe e d =
    (if pe_network e \<noteq> cat_network (dv_catalog d) then d
     else let d1 = emit [Observe (entry_address e)] d
          in if dv_neighbors d = 0 then emit [Dial [entry_address e]] d1 else d1)"

definition announce_shutdown ::
  "('a, 'k, 'g) disc_env \<Rightarrow> int \<Rightarrow> 'k \<Rightarrow> bool \<Rightarrow> ('a, 'g) discovery \<Rightarrow> ('a, 'g) discovery" where
  "announce_shutdown env now secret joined d =
    (if joined
     then emit [Gossip (GracefulDeparture
       (departure_new env now secret (cat_local_id (dv_catalog d)) (dv_last_own_version d)))] d
     else d)"

section \<open>The discovery worker\<close>

definition on_peer_observed :: "'a address \<Rightarrow> ('a, 'g) discovery \<Rightarrow> bool \<times> ('a, 'g) discovery" where
  "on_peer_observed addr d =
    (if fst addr \<notin> dv_seen d
     then (True, emit [Observe addr, SpawnSync addr] (d\<lparr>dv_seen := insert (fst addr) (dv_seen d)\<rparr>))
     else (False, d))"

text \<open>
  The soonest time an entry of another peer goes stale. Adding \<open>purge_after\<close> to a time that
  \<open>chrono\<close> can represent may leave its range, which panics.
\<close>

fun purge_deadline ::
  "('a, 'k, 'g) disc_env \<Rightarrow> disc_config \<Rightarrow> int \<Rightarrow> int \<Rightarrow> ('a, 'g) signed_entry list \<Rightarrow> int option" where
  "purge_deadline env cfg now deadline [] = Some deadline"
| "purge_deadline env cfg now deadline (s # ss) =
    (let expires_at = updated_at env (fst s) + dc_purge_after cfg
     in if \<not> de_time_ok env expires_at then None
        else let expires_in = max 0 (expires_at - now); deadline1 = min deadline expires_in
             in if deadline1 = 0 then Some deadline1 else purge_deadline env cfg now deadline1 ss)"

definition next_purge_deadline ::
  "('a, 'k, 'g) disc_env \<Rightarrow> disc_config \<Rightarrow> int \<Rightarrow> ('a, 'g) discovery \<Rightarrow> int option" where
  "next_purge_deadline env cfg now d =
    purge_deadline env cfg now (dc_purge_after cfg) (signed_peers env cfg now (dv_catalog d))"

definition reset_purge ::
  "('a, 'k, 'g) disc_env \<Rightarrow> disc_config \<Rightarrow> int \<Rightarrow> ('a, 'g) discovery \<Rightarrow> ('a, 'g) discovery option" where
  "reset_purge env cfg now d = map_option (\<lambda>t. emit [ResetPurge t] d) (next_purge_deadline env cfg now d)"

definition on_peer_entry_received ::
  "('a, 'k, 'g) disc_env \<Rightarrow> disc_config \<Rightarrow> int \<Rightarrow> ('a, 'g) signed_entry \<Rightarrow> ('a, 'g) discovery
    \<Rightarrow> ('a, 'g) discovery option" where
  "on_peer_entry_received env cfg now s d =
    (let d1 = snd (on_peer_observed (entry_address (fst s)) d);
         (r, c) = upsert_signed env cfg now s (dv_catalog d1);
         d2 = d1\<lparr>dv_catalog := c\<rparr>
     in case r of
          UpsertNew e \<Rightarrow>
            reset_purge env cfg now
              (emit [Observe (entry_address (fst e)), SpawnSync (entry_address (fst e)), Publish (PeerDiscovered (fst e))] d2)
        | UpsertUpdated e \<Rightarrow>
            reset_purge env cfg now (emit [Observe (entry_address (fst e)), Publish (PeerUpdated (fst e))] d2)
        | _ \<Rightarrow> Some d2)"

definition on_peer_departed ::
  "('a, 'k, 'g) disc_env \<Rightarrow> disc_config \<Rightarrow> int \<Rightarrow> peer_id \<Rightarrow> peer_version \<Rightarrow> ('a, 'g) discovery
    \<Rightarrow> ('a, 'g) discovery" where
  "on_peer_departed env cfg now p entry_version d =
    (let d1 = d\<lparr>dv_seen := dv_seen d - {p}, dv_rtt := rtt_remove p (dv_rtt d)\<rparr>
     in case get_signed env cfg now (dv_catalog d1) p of
          None \<Rightarrow> d1
        | Some known \<Rightarrow>
            if entry_version < pe_version (fst known) then d1
            else let (removed, c) = remove_signed p (dv_catalog d1); d2 = d1\<lparr>dv_catalog := c\<rparr>
                 in if removed \<noteq> None then emit [Publish (PeerDeparted p)] d2 else d2)"

fun on_announce_event ::
  "('a, 'k, 'g) disc_env \<Rightarrow> disc_config \<Rightarrow> int \<Rightarrow> ('a, 'g) announce_event \<Rightarrow> ('a, 'g) discovery
    \<Rightarrow> ('a, 'g) discovery option" where
  "on_announce_event env cfg now (PeerEntryReceived s) d = on_peer_entry_received env cfg now s d"
| "on_announce_event env cfg now (DepartureReceived p v) d = Some (on_peer_departed env cfg now p v d)"

fun sync_event_effect :: "'a disc_event \<Rightarrow> ('a, 'g) discovery \<Rightarrow> ('a, 'g) discovery" where
  "sync_event_effect (PeerDiscovered e) d = snd (on_peer_observed (entry_address e) (announce_observe e d))"
| "sync_event_effect (PeerUpdated e) d = snd (on_peer_observed (entry_address e) (announce_observe e d))"
| "sync_event_effect (PeerDeparted p) d = d\<lparr>dv_seen := dv_seen d - {p}\<rparr>"

definition on_catalog_sync_event ::
  "('a, 'k, 'g) disc_env \<Rightarrow> disc_config \<Rightarrow> int \<Rightarrow> 'a disc_event \<Rightarrow> ('a, 'g) discovery \<Rightarrow> ('a, 'g) discovery option" where
  "on_catalog_sync_event env cfg now ev d = reset_purge env cfg now (sync_event_effect ev d)"

text \<open>The branch of the loop for an event of the synchronisation.\<close>

definition handle_sync_event ::
  "('a, 'k, 'g) disc_env \<Rightarrow> disc_config \<Rightarrow> int \<Rightarrow> 'a disc_event \<Rightarrow> ('a, 'g) discovery \<Rightarrow> ('a, 'g) discovery option" where
  "handle_sync_event env cfg now ev d = map_option (emit [Publish ev]) (on_catalog_sync_event env cfg now ev d)"

definition on_explicit_sync_request :: "'a address \<Rightarrow> ('a, 'g) discovery \<Rightarrow> ('a, 'g) discovery" where
  "on_explicit_sync_request addr d = emit [Observe addr, SpawnSync addr] d"

fun observe_all :: "'a address list \<Rightarrow> ('a, 'g) discovery \<Rightarrow> ('a, 'g) discovery" where
  "observe_all [] d = d"
| "observe_all (a # as) d = observe_all as (snd (on_peer_observed a d))"

definition dial_peers :: "'a address list \<Rightarrow> ('a, 'g) discovery \<Rightarrow> ('a, 'g) discovery" where
  "dial_peers addrs d = emit [Dial addrs] (observe_all addrs d)"

definition on_rtt_probe_tick ::
  "('a, 'k, 'g) disc_env \<Rightarrow> disc_config \<Rightarrow> int \<Rightarrow> ('a, 'g) discovery \<Rightarrow> ('a, 'g) discovery" where
  "on_rtt_probe_tick env cfg now d =
    emit (map (SpawnPing \<circ> entry_address \<circ> fst) (signed_peers env cfg now (dv_catalog d))) d"

definition on_rtt_probe_done :: "int \<Rightarrow> peer_id \<Rightarrow> nat option \<Rightarrow> ('a, 'g) discovery \<Rightarrow> ('a, 'g) discovery" where
  "on_rtt_probe_done now p rtt d =
    (case rtt of None \<Rightarrow> d | Some r \<Rightarrow> d\<lparr>dv_rtt := record_sample now p r (dv_rtt d)\<rparr>)"

definition on_periodic_catalog_purge_tick ::
  "('a, 'k, 'g) disc_env \<Rightarrow> disc_config \<Rightarrow> int \<Rightarrow> ('a, 'g) discovery \<Rightarrow> ('a, 'g) discovery option" where
  "on_periodic_catalog_purge_tick env cfg now d =
    (let (purged, c) = purge_stale_entries env cfg now (dv_catalog d); d1 = d\<lparr>dv_catalog := c\<rparr>
     in if purged = [] then Some d1
        else reset_purge env cfg now
          (emit (map (Publish \<circ> PeerDeparted \<circ> pe_id) purged)
            (d1\<lparr>dv_rtt := fold (rtt_remove \<circ> pe_id) purged (dv_rtt d1)\<rparr>)))"

section \<open>The local entry\<close>

text \<open>
  \<open>Handle::update_local_entry\<close> signs and stores the entry if the update made it newer.
  \<open>Discovery::update_local_entry\<close> always moves the version up. \<open>None\<close>: one of the \<open>expect\<close>s or
  the assertion fails. The flag says whether the watchers of the catalog are notified.
\<close>

definition store_local ::
  "('a, 'k, 'g) disc_env \<Rightarrow> disc_config \<Rightarrow> int \<Rightarrow> 'k \<Rightarrow> 'a peer_entry \<Rightarrow> ('a, 'g) catalog \<Rightarrow> ('a, 'g) catalog option" where
  "store_local env cfg now secret e c =
    (case sign_entry env secret e of
       Inl _ \<Rightarrow> None
     | Inr s \<Rightarrow> (let (r, c1) = upsert_signed env cfg now s c in if upsert_is_ok r then Some c1 else None))"

definition handle_update_local_entry ::
  "('a, 'k, 'g) disc_env \<Rightarrow> disc_config \<Rightarrow> int \<Rightarrow> 'k \<Rightarrow> ('a peer_entry \<Rightarrow> 'a peer_entry option) \<Rightarrow> ('a, 'g) catalog
    \<Rightarrow> (bool \<times> ('a, 'g) catalog) option" where
  "handle_update_local_entry env cfg now secret update c =
    (case cat_local c of
       None \<Rightarrow> None
     | Some local_entry \<Rightarrow>
         (case update (fst local_entry) of
            None \<Rightarrow> None
          | Some updated \<Rightarrow>
              if pe_version updated > pe_version (fst local_entry)
              then map_option (Pair True) (store_local env cfg now secret updated c)
              else Some (False, c)))"

definition update_local_entry ::
  "('a, 'k, 'g) disc_env \<Rightarrow> disc_config \<Rightarrow> int \<Rightarrow> 'k \<Rightarrow> ('a peer_entry \<Rightarrow> 'a peer_entry) \<Rightarrow> ('a, 'g) catalog
    \<Rightarrow> ('a, 'g) catalog option" where
  "update_local_entry env cfg now secret update c =
    (case cat_local c of
       None \<Rightarrow> None
     | Some local_entry \<Rightarrow>
         store_local env cfg now secret (increment_version (to_millis now) (update (fst local_entry))) c)"

definition on_periodic_announce_tick ::
  "('a, 'k, 'g) disc_env \<Rightarrow> disc_config \<Rightarrow> int \<Rightarrow> 'k \<Rightarrow> ('a, 'g) catalog \<Rightarrow> (bool \<times> ('a, 'g) catalog) option" where
  "on_periodic_announce_tick env cfg now secret c =
    handle_update_local_entry env cfg now secret (\<lambda>e. Some (increment_version (to_millis now) e)) c"

definition on_address_change ::
  "('a, 'k, 'g) disc_env \<Rightarrow> disc_config \<Rightarrow> int \<Rightarrow> 'k \<Rightarrow> 'a address \<Rightarrow> ('a, 'g) catalog
    \<Rightarrow> (bool \<times> ('a, 'g) catalog) option" where
  "on_address_change env cfg now secret addr c =
    handle_update_local_entry env cfg now secret
      (\<lambda>e. case update_address (to_millis now) addr e of Inl _ \<Rightarrow> None | Inr e1 \<Rightarrow> Some e1) c"

text \<open>The answer to a ping: the local entry with a new version, which is not stored.\<close>

definition ping_answer ::
  "('a, 'k, 'g) disc_env \<Rightarrow> int \<Rightarrow> 'k \<Rightarrow> ('a, 'g) catalog \<Rightarrow> ('a, 'g) signed_entry option" where
  "ping_answer env now secret c =
    (case cat_local c of
       None \<Rightarrow> None
     | Some me \<Rightarrow> (case sign_entry env secret (increment_version (to_millis now) (fst me)) of Inl _ \<Rightarrow> None | Inr s \<Rightarrow> Some s))"

definition replace_ticket :: "('a, 'k, 'g) disc_env \<Rightarrow> int \<Rightarrow> ticket \<Rightarrow> 'a peer_entry \<Rightarrow> 'a peer_entry" where
  "replace_ticket env now_ms t e = add_ticket env now_ms t (remove_tickets_of now_ms (tk_class t) e)"

definition feed ::
  "('a, 'k, 'g) disc_env \<Rightarrow> disc_config \<Rightarrow> int \<Rightarrow> ('a, 'g) signed_entry \<Rightarrow> ('a, 'g) catalog \<Rightarrow> bool \<times> ('a, 'g) catalog" where
  "feed env cfg now s c =
    (let (r, c1) = upsert_signed env cfg now s c
     in (case r of UpsertNew _ \<Rightarrow> True | UpsertUpdated _ \<Rightarrow> True | _ \<Rightarrow> False, c1))"

section \<open>Steps\<close>

text \<open>Everything the two workers react to, and the operations of the public interface.\<close>

datatype ('a, 'g) disc_input =
    GossipInput "('a, 'g) gossip_event"
  | SnapshotInput "('a, 'g) signed_entry list"
  | AnnounceEventInput
  | SyncEventInput
  | CatalogChanged
  | SendNext bool broadcast_outcome
  | TopicLost
  | AnnounceTick
  | AddressChange "'a address"
  | LocalUpdate "'a entry_update"
  | PurgeTick
  | ProbeTick
  | ProbeDone peer_id "nat option"
  | DialInput "'a address list"
  | SyncRequest "'a address"
  | SyncDone peer_id 'a
  | FeedInput "('a, 'g) signed_entry"
  | InsertInput "'a peer_entry"
  | RemoveInput peer_id
  | ClearInput

definition with_catalog :: "('a, 'g) catalog \<Rightarrow> ('a, 'g) discovery \<Rightarrow> ('a, 'g) discovery" where
  "with_catalog c d = d\<lparr>dv_catalog := c\<rparr>"

text \<open>
  A synchronisation runs in its own task: it merges the snapshot it received and queues the events.
  The two queues are emptied by the loop of the worker.
\<close>

definition snapshot_step ::
  "('a, 'k, 'g) disc_env \<Rightarrow> disc_config \<Rightarrow> int \<Rightarrow> ('a, 'g) signed_entry list \<Rightarrow> ('a, 'g) discovery \<Rightarrow> ('a, 'g) discovery" where
  "snapshot_step env cfg now received d =
    (case decode_snapshot env received of
       None \<Rightarrow> d
     | Some ss \<Rightarrow>
         (let (_, events, c) = sync_merge env cfg now ss (dv_catalog d)
          in with_catalog c (d\<lparr>dv_sync_events := dv_sync_events d @ events\<rparr>)))"

definition announce_event_step ::
  "('a, 'k, 'g) disc_env \<Rightarrow> disc_config \<Rightarrow> int \<Rightarrow> ('a, 'g) discovery \<Rightarrow> ('a, 'g) discovery option" where
  "announce_event_step env cfg now d =
    (case dv_announce_events d of
       [] \<Rightarrow> Some d
     | ev # evs \<Rightarrow> on_announce_event env cfg now ev (d\<lparr>dv_announce_events := evs\<rparr>))"

definition sync_event_step ::
  "('a, 'k, 'g) disc_env \<Rightarrow> disc_config \<Rightarrow> int \<Rightarrow> ('a, 'g) discovery \<Rightarrow> ('a, 'g) discovery option" where
  "sync_event_step env cfg now d =
    (case dv_sync_events d of
       [] \<Rightarrow> Some d
     | ev # evs \<Rightarrow> handle_sync_event env cfg now ev (d\<lparr>dv_sync_events := evs\<rparr>))"

fun disc_step ::
  "('a, 'k, 'g) disc_env \<Rightarrow> disc_config \<Rightarrow> peer_id list \<Rightarrow> 'k \<Rightarrow> int \<Rightarrow> ('a, 'g) disc_input \<Rightarrow> ('a, 'g) discovery
    \<Rightarrow> ('a, 'g) discovery option" where
  "disc_step env cfg bootstrap secret now (GossipInput g) d = on_gossip_event env cfg now g d"
| "disc_step env cfg bootstrap secret now (SnapshotInput ss) d = Some (snapshot_step env cfg now ss d)"
| "disc_step env cfg bootstrap secret now AnnounceEventInput d = announce_event_step env cfg now d"
| "disc_step env cfg bootstrap secret now SyncEventInput d = sync_event_step env cfg now d"
| "disc_step env cfg bootstrap secret now CatalogChanged d = on_catalog_update d"
| "disc_step env cfg bootstrap secret now (SendNext joined outcome) d =
    Some (send_next env cfg bootstrap now joined outcome d)"
| "disc_step env cfg bootstrap secret now TopicLost d = Some (rejoin_topic env cfg bootstrap now d)"
| "disc_step env cfg bootstrap secret now AnnounceTick d =
    map_option (\<lambda>r. with_catalog (snd r) d) (on_periodic_announce_tick env cfg now secret (dv_catalog d))"
| "disc_step env cfg bootstrap secret now (AddressChange addr) d =
    map_option (\<lambda>r. with_catalog (snd r) d) (on_address_change env cfg now secret addr (dv_catalog d))"
| "disc_step env cfg bootstrap secret now (LocalUpdate u) d =
    map_option (\<lambda>c. with_catalog c d)
      (update_local_entry env cfg now secret (apply_update env (to_millis now) u) (dv_catalog d))"
| "disc_step env cfg bootstrap secret now PurgeTick d = on_periodic_catalog_purge_tick env cfg now d"
| "disc_step env cfg bootstrap secret now ProbeTick d = Some (on_rtt_probe_tick env cfg now d)"
| "disc_step env cfg bootstrap secret now (ProbeDone p rtt) d = Some (on_rtt_probe_done now p rtt d)"
| "disc_step env cfg bootstrap secret now (DialInput addrs) d = Some (dial_peers addrs d)"
| "disc_step env cfg bootstrap secret now (SyncRequest addr) d = Some (on_explicit_sync_request addr d)"
| "disc_step env cfg bootstrap secret now (SyncDone p a) d = Some (snd (on_peer_observed (p, a) d))"
| "disc_step env cfg bootstrap secret now (FeedInput s) d =
    (case deserialize_signed env (fst s) (snd s) of
       None \<Rightarrow> Some d
     | Some s1 \<Rightarrow> Some (with_catalog (snd (feed env cfg now s1 (dv_catalog d))) d))"
| "disc_step env cfg bootstrap secret now (InsertInput e) d =
    Some (with_catalog (snd (insert_unsigned e (dv_catalog d))) d)"
| "disc_step env cfg bootstrap secret now (RemoveInput p) d =
    Some (with_catalog (snd (remove_unsigned p (dv_catalog d))) d)"
| "disc_step env cfg bootstrap secret now ClearInput d =
    Some (with_catalog (snd (clear_unsigned (dv_catalog d))) d)"

text \<open>A run: inputs with the time they are handled at.\<close>

fun disc_run ::
  "('a, 'k, 'g) disc_env \<Rightarrow> disc_config \<Rightarrow> peer_id list \<Rightarrow> 'k \<Rightarrow> (int \<times> ('a, 'g) disc_input) list \<Rightarrow> ('a, 'g) discovery
    \<Rightarrow> ('a, 'g) discovery option" where
  "disc_run env cfg bootstrap secret [] d = Some d"
| "disc_run env cfg bootstrap secret ((now, i) # is) d =
    (case disc_step env cfg bootstrap secret now i d of
       None \<Rightarrow> None
     | Some d1 \<Rightarrow> disc_run env cfg bootstrap secret is d1)"

section \<open>What every step keeps\<close>

definition catalog_evolves :: "('a, 'k, 'g) disc_env \<Rightarrow> ('a, 'g) catalog \<Rightarrow> ('a, 'g) catalog \<Rightarrow> bool" where
  "catalog_evolves env c c' \<longleftrightarrow>
    catalog_wf env c' \<and> cat_local_id c' = cat_local_id c \<and> cat_network c' = cat_network c \<and>
    at_least (cat_local c) (cat_local c')"

definition announce_event_ok :: "('a, 'k, 'g) disc_env \<Rightarrow> ('a, 'g) announce_event \<Rightarrow> bool" where
  "announce_event_ok env ev = (case ev of PeerEntryReceived s \<Rightarrow> is_signature_valid env s | DepartureReceived _ _ \<Rightarrow> True)"

definition disc_ok :: "('a, 'k, 'g) disc_env \<Rightarrow> ('a, 'g) discovery \<Rightarrow> bool" where
  "disc_ok env d \<longleftrightarrow>
    catalog_wf env (dv_catalog d) \<and> list_all (announce_event_ok env) (dv_announce_events d) \<and>
    (\<exists>s. cat_local (dv_catalog d) = Some s \<and> dv_last_own_version d \<le> pe_version (fst s))"

lemma catalog_evolves_refl [simp]: "catalog_wf env c \<Longrightarrow> catalog_evolves env c c"
  by (simp add: catalog_evolves_def)

lemma catalog_evolves_trans: "catalog_evolves env a b \<Longrightarrow> catalog_evolves env b c \<Longrightarrow> catalog_evolves env a c"
  by (auto simp: catalog_evolves_def intro: at_least_trans)

lemma upsert_evolves:
  "catalog_wf env c \<Longrightarrow> is_signature_valid env s \<Longrightarrow> catalog_evolves env c (snd (upsert_signed env cfg now s c))"
  using upsert_signed_at_least [of c "cat_local_id c" env cfg now s] by (auto simp: catalog_evolves_def upsert_signed_wf cat_local_def)

lemma extend_evolves:
  "catalog_wf env c \<Longrightarrow> \<forall>s \<in> set ss. is_signature_valid env s \<Longrightarrow> catalog_evolves env c (snd (extend_signed env cfg now ss c))"
  using extend_signed_at_least [of c "cat_local_id c"] by (auto simp: catalog_evolves_def extend_signed_wf cat_local_def)

lemma remove_signed_evolves: "catalog_wf env c \<Longrightarrow> catalog_evolves env c (snd (remove_signed p c))"
  by (auto simp: catalog_evolves_def remove_signed_wf) (auto simp: remove_signed_def cat_local_def map_of_delete_iff)

lemma purge_evolves: "catalog_wf env c \<Longrightarrow> catalog_evolves env c (snd (purge_stale_entries env cfg now c))"
proof -
  assume wf: "catalog_wf env c"
  have "cat_local_id (snd (purge_stale_entries env cfg now c)) = cat_local_id c"
    "cat_network (snd (purge_stale_entries env cfg now c)) = cat_network c"
    by (simp_all add: purge_stale_entries_def Let_def)
  with purge_lookup [OF wf, of cfg now "cat_local_id c"] show ?thesis
    using purge_wf [OF wf, of cfg now] by (simp add: catalog_evolves_def cat_local_def at_least_def split: option.splits)
qed

lemma unsigned_evolves:
  assumes "catalog_wf env c"
  shows "catalog_evolves env c (snd (insert_unsigned e c))"
    and "catalog_evolves env c (snd (remove_unsigned p c))"
    and "catalog_evolves env c (snd (clear_unsigned c))"
  using assms insert_unsigned_wf [OF assms] remove_unsigned_wf [OF assms] clear_unsigned_wf [OF assms]
  by (auto simp: catalog_evolves_def insert_unsigned_def remove_unsigned_def clear_unsigned_def cat_local_def)

definition signing_law :: "('a, 'k, 'g) disc_env \<Rightarrow> bool" where
  "signing_law env \<longleftrightarrow> (\<forall>k m. de_verify env (de_public env k) m (de_sign env k m))"

lemma store_local_evolves:
  assumes "signing_law env" and "catalog_wf env c" and "store_local env cfg now secret e c = Some c'"
  shows "catalog_evolves env c c'"
  using assms upsert_evolves [of env c "(e, de_sign env secret (de_digest env e))" cfg now]
  by (auto simp: store_local_def sign_entry_def Let_def signing_law_def is_signature_valid_def split: sum.splits if_splits prod.splits)

lemma handle_update_evolves:
  assumes "signing_law env" and "catalog_wf env c" and "handle_update_local_entry env cfg now secret f c = Some r"
  shows "catalog_evolves env c (snd r)"
  using assms store_local_evolves [OF assms(1,2)]
  by (auto simp: handle_update_local_entry_def split: option.splits if_splits)

section \<open>Frames\<close>

text \<open>Most of the handlers leave the catalog and the queues of events alone.\<close>

definition same_core :: "('a, 'g) discovery \<Rightarrow> ('a, 'g) discovery \<Rightarrow> bool" where
  "same_core d d' \<longleftrightarrow> dv_catalog d' = dv_catalog d \<and> dv_announce_events d' = dv_announce_events d \<and>
    dv_last_own_version d' = dv_last_own_version d"

lemma same_core_refl [simp]: "same_core d d"
  by (simp add: same_core_def)

lemma same_core_trans: "same_core a b \<Longrightarrow> same_core b c \<Longrightarrow> same_core a c"
  by (simp add: same_core_def)

lemma emit_core [simp]: "same_core d (emit es d)"
  by (simp add: same_core_def emit_def)

lemma on_peer_observed_core [simp]: "same_core d (snd (on_peer_observed a d))"
  by (simp add: same_core_def on_peer_observed_def emit_def)

lemma announce_observe_core [simp]: "same_core d (announce_observe e d)"
  by (simp add: same_core_def announce_observe_def emit_def Let_def)

lemma observe_all_core: "same_core d (observe_all as d)"
  by (induction as arbitrary: d) (auto intro: same_core_trans [OF on_peer_observed_core])

lemma reset_purge_core: "reset_purge env cfg now d = Some d' \<Longrightarrow> same_core d d'"
  by (auto simp: reset_purge_def)

lemma neighbor_core [simp]:
  "same_core d (increment_neighbor_count d)"
  "same_core d (decrement_neighbor_count env cfg now d)"
  "same_core d (set_neighbor_count env cfg now n d)"
  "same_core d (rejoin_topic env cfg bootstrap now d)"
  by (simp_all add: same_core_def increment_neighbor_count_def decrement_neighbor_count_def set_neighbor_count_def
      rejoin_topic_def join_known_peers_def emit_def Let_def)

lemma send_next_core: "same_core d (send_next env cfg bootstrap now joined outcome d)"
  by (auto simp: same_core_def send_next_def broadcast_message_def set_neighbor_count_def rejoin_topic_def
      join_known_peers_def emit_def Let_def split: list.splits broadcast_outcome.splits)

lemma sync_event_core: "same_core d (sync_event_effect ev d)"
  by (cases ev) (auto simp: same_core_def [of d "d\<lparr>dv_seen := _\<rparr>"] intro: same_core_trans [OF announce_observe_core on_peer_observed_core])

section \<open>Every step keeps the invariant\<close>

definition disc_evolves :: "('a, 'k, 'g) disc_env \<Rightarrow> ('a, 'g) discovery \<Rightarrow> ('a, 'g) discovery \<Rightarrow> bool" where
  "disc_evolves env d d' \<longleftrightarrow> disc_ok env d' \<and> catalog_evolves env (dv_catalog d) (dv_catalog d')"

lemma disc_ok_wf: "disc_ok env d \<Longrightarrow> catalog_wf env (dv_catalog d)"
  by (simp add: disc_ok_def)

lemma disc_evolves_ok: "disc_evolves env d d' \<Longrightarrow> disc_ok env d'"
  by (simp add: disc_evolves_def)

lemma disc_evolves_trans: "disc_evolves env a b \<Longrightarrow> disc_evolves env b c \<Longrightarrow> disc_evolves env a c"
  by (auto simp: disc_evolves_def intro: catalog_evolves_trans)

lemma disc_evolves_core: "disc_ok env d \<Longrightarrow> same_core d d' \<Longrightarrow> disc_evolves env d d'"
  by (auto simp: same_core_def disc_ok_def disc_evolves_def)

lemma disc_evolves_catalog:
  "disc_ok env d \<Longrightarrow> catalog_evolves env (dv_catalog d) c \<Longrightarrow> disc_evolves env d (d\<lparr>dv_catalog := c\<rparr>)"
  unfolding disc_ok_def catalog_evolves_def at_least_def disc_evolves_def
  by (auto split: option.splits)

lemma disc_evolves_pop:
  "disc_ok env d \<Longrightarrow> dv_announce_events d = ev # evs \<Longrightarrow>
    announce_event_ok env ev \<and> disc_evolves env d (d\<lparr>dv_announce_events := evs\<rparr>)"
  by (auto simp: disc_ok_def disc_evolves_def)

lemma on_peer_entry_received_evolves:
  assumes "disc_ok env d" and "is_signature_valid env s" and "on_peer_entry_received env cfg now s d = Some d'"
  shows "disc_evolves env d d'"
proof -
  define d1 where "d1 = snd (on_peer_observed (entry_address (fst s)) d)"
  define d2 where "d2 = d1\<lparr>dv_catalog := snd (upsert_signed env cfg now s (dv_catalog d1))\<rparr>"
  have 1: "disc_evolves env d d1" unfolding d1_def using assms(1) by (simp add: disc_evolves_core)
  then have 2: "disc_evolves env d1 d2" unfolding d2_def
    using assms(2) by (intro disc_evolves_catalog upsert_evolves disc_evolves_ok disc_ok_wf)
  have "same_core d2 d'"
    using assms(3)
    by (auto simp: on_peer_entry_received_def Let_def case_prod_beta d1_def [symmetric] d2_def [symmetric]
        split: upsert_result.splits dest!: reset_purge_core intro: same_core_trans [OF emit_core])
  with 1 2 show ?thesis by (metis disc_evolves_core disc_evolves_ok disc_evolves_trans)
qed

lemma on_peer_departed_evolves:
  assumes "disc_ok env d"
  shows "disc_evolves env d (on_peer_departed env cfg now p v d)"
proof -
  define d1 where "d1 = d\<lparr>dv_seen := dv_seen d - {p}, dv_rtt := rtt_remove p (dv_rtt d)\<rparr>"
  have 1: "disc_evolves env d d1" using assms by (intro disc_evolves_core) (simp_all add: same_core_def d1_def)
  have 2: "disc_evolves env d1 (d1\<lparr>dv_catalog := snd (remove_signed p (dv_catalog d1))\<rparr>)"
    using 1 by (intro disc_evolves_catalog remove_signed_evolves disc_evolves_ok disc_ok_wf)
  note 3 = disc_evolves_core [OF disc_evolves_ok [OF 2] emit_core]
  show ?thesis
    using disc_evolves_trans [OF 1 2] disc_evolves_trans [OF disc_evolves_trans [OF 1 2] 3] 1
    by (simp add: on_peer_departed_def Let_def case_prod_beta d1_def [symmetric] split: option.splits)
qed

lemma on_announce_event_evolves:
  "disc_ok env d \<Longrightarrow> announce_event_ok env ev \<Longrightarrow> on_announce_event env cfg now ev d = Some d' \<Longrightarrow> disc_evolves env d d'"
  by (cases ev) (auto simp: announce_event_ok_def on_peer_entry_received_evolves on_peer_departed_evolves)

lemma announce_event_step_evolves:
  assumes "disc_ok env d" and "announce_event_step env cfg now d = Some d'"
  shows "disc_evolves env d d'"
proof (cases "dv_announce_events d")
  case Nil
  then show ?thesis using assms by (simp add: announce_event_step_def disc_evolves_core)
next
  case (Cons ev evs)
  note pop = disc_evolves_pop [OF assms(1) Cons]
  then have "disc_evolves env (d\<lparr>dv_announce_events := evs\<rparr>) d'"
    using assms(2) Cons by (intro on_announce_event_evolves) (auto simp: announce_event_step_def dest: disc_evolves_ok)
  with pop show ?thesis by (blast intro: disc_evolves_trans)
qed

lemma handle_sync_event_core: "handle_sync_event env cfg now ev d = Some d' \<Longrightarrow> same_core d d'"
  by (auto simp: handle_sync_event_def on_catalog_sync_event_def dest!: reset_purge_core
      intro: same_core_trans [OF sync_event_core] same_core_trans)

lemma sync_event_step_core: "sync_event_step env cfg now d = Some d' \<Longrightarrow> same_core d d'"
proof (cases "dv_sync_events d")
  case (Cons ev evs)
  assume "sync_event_step env cfg now d = Some d'"
  then have "same_core (d\<lparr>dv_sync_events := evs\<rparr>) d'"
    using Cons by (simp add: sync_event_step_def handle_sync_event_core)
  then show ?thesis by (simp add: same_core_def)
qed (simp add: sync_event_step_def)

lemma snapshot_step_evolves:
  assumes "disc_ok env d"
  shows "disc_evolves env d (snapshot_step env cfg now received d)"
proof (cases "decode_snapshot env received")
  case None
  then show ?thesis using assms by (simp add: snapshot_step_def disc_evolves_core)
next
  case (Some ss)
  let ?r = "extend_signed env cfg now ss (dv_catalog d)"
  define d1 where "d1 = d\<lparr>dv_sync_events := dv_sync_events d @ fst ?r\<rparr>"
  have 1: "disc_evolves env d d1" using assms by (intro disc_evolves_core) (simp_all add: same_core_def d1_def)
  have "catalog_evolves env (dv_catalog d1) (snd ?r)"
    using Some assms extend_evolves [of env "dv_catalog d" ss] by (simp add: decode_snapshot_iff d1_def disc_ok_def)
  from disc_evolves_catalog [OF disc_evolves_ok [OF 1] this] 1 Some show ?thesis
    by (simp add: snapshot_step_def sync_merge_def with_catalog_def case_prod_beta d1_def disc_evolves_def)
qed

lemma purge_tick_evolves:
  assumes "disc_ok env d" and "on_periodic_catalog_purge_tick env cfg now d = Some d'"
  shows "disc_evolves env d d'"
proof -
  let ?r = "purge_stale_entries env cfg now (dv_catalog d)"
  have 1: "disc_evolves env d (d\<lparr>dv_catalog := snd ?r\<rparr>)"
    using assms(1) by (intro disc_evolves_catalog purge_evolves disc_ok_wf)
  moreover have "same_core (d\<lparr>dv_catalog := snd ?r\<rparr>) d'"
    using assms(2)
    by (auto simp: on_periodic_catalog_purge_tick_def Let_def case_prod_beta same_core_def emit_def
        split: if_splits dest!: reset_purge_core)
  ultimately show ?thesis by (metis disc_evolves_core disc_evolves_ok disc_evolves_trans)
qed

lemma broadcast_self_info_core: "broadcast_self_info d = Some d' \<Longrightarrow> same_core d d'"
  by (auto simp: broadcast_self_info_def same_core_def)

lemma decode_then_event_ok:
  "decode_announcement env content = Some m \<Longrightarrow> on_message_received env cfg now network m = Some ev \<Longrightarrow> announce_event_ok env ev"
  by (cases content) (auto simp: deserialize_signed_def announce_event_ok_def Let_def split: if_splits)

lemma on_gossip_event_evolves:
  assumes "disc_ok env d" and "on_gossip_event env cfg now g d = Some d'"
  shows "disc_evolves env d d'"
proof (cases g)
  case (NeighborUp p)
  then have "same_core d d'"
    using assms(2) by (auto intro: same_core_trans [OF neighbor_core(1) broadcast_self_info_core])
  then show ?thesis using assms(1) by (rule disc_evolves_core [rotated])
next
  case (Received content)
  note received = this
  show ?thesis
  proof (cases "decode_announcement env content")
    case None
    then show ?thesis using received assms by (simp add: disc_evolves_core)
  next
    case (Some m)
    show ?thesis
    proof (cases "on_message_received env cfg now (cat_network (dv_catalog d)) m")
      case None
      then show ?thesis using received Some assms by (simp add: disc_evolves_core)
    next
      case event: (Some ev)
      have "announce_event_ok env ev" using Some event by (rule decode_then_event_ok)
      then show ?thesis using received Some event assms by (auto simp: disc_ok_def disc_evolves_def)
    qed
  qed
qed (use assms in \<open>auto simp: disc_evolves_core\<close>)

lemma on_catalog_update_evolves:
  "disc_ok env d \<Longrightarrow> on_catalog_update d = Some d' \<Longrightarrow> disc_evolves env d d'"
  by (auto simp: on_catalog_update_def broadcast_self_info_def disc_ok_def disc_evolves_def split: if_splits)

lemma with_catalog_evolves:
  "disc_ok env d \<Longrightarrow> catalog_evolves env (dv_catalog d) c \<Longrightarrow> disc_evolves env d (with_catalog c d)"
  by (simp add: with_catalog_def disc_evolves_catalog)

lemma disc_step_evolves:
  assumes law: "signing_law env" and ok: "disc_ok env d" and step: "disc_step env cfg bootstrap secret now i d = Some d'"
  shows "disc_evolves env d d'"
proof (cases i)
  case (LocalUpdate u)
  then obtain c where "d' = with_catalog c d" "catalog_evolves env (dv_catalog d) c"
    using step store_local_evolves [OF law disc_ok_wf [OF ok]]
    by (auto simp: update_local_entry_def split: option.splits)
  then show ?thesis using with_catalog_evolves [OF ok] by simp
next
  case (FeedInput s)
  then show ?thesis
    using step ok upsert_evolves [OF disc_ok_wf [OF ok], of s cfg now]
    by (auto simp: feed_def case_prod_beta deserialize_signed_def disc_evolves_core
        intro: with_catalog_evolves split: option.splits if_splits)
next
  case (DialInput addrs)
  then show ?thesis using step disc_evolves_core [OF ok same_core_trans [OF observe_all_core emit_core]]
    by (auto simp: dial_peers_def)
next
  case (ProbeDone p rtt)
  then have "same_core d d'" using step by (auto simp: on_rtt_probe_done_def same_core_def split: option.splits)
  then show ?thesis by (rule disc_evolves_core [OF ok])
qed (use step ok handle_update_evolves [OF law disc_ok_wf [OF ok]] unsigned_evolves [OF disc_ok_wf [OF ok]]
      with_catalog_evolves [OF ok]
    in \<open>auto simp: on_gossip_event_evolves snapshot_step_evolves announce_event_step_evolves
      on_catalog_update_evolves purge_tick_evolves on_periodic_announce_tick_def on_address_change_def
      on_rtt_probe_tick_def on_explicit_sync_request_def disc_evolves_core
      dest!: sync_event_step_core intro: disc_evolves_core send_next_core\<close>)

lemma disc_run_evolves:
  "signing_law env \<Longrightarrow> disc_ok env d \<Longrightarrow> disc_run env cfg bootstrap secret is d = Some d' \<Longrightarrow> disc_evolves env d d'"
proof (induction "is" arbitrary: d)
  case Nil
  then show ?case by (simp add: disc_evolves_core)
next
  case (Cons x xs)
  obtain now i where x: "x = (now, i)" by (cases x)
  then obtain d1 where d1: "disc_step env cfg bootstrap secret now i d = Some d1" "disc_run env cfg bootstrap secret xs d1 = Some d'"
    using Cons.prems(3) by (auto split: option.splits)
  have "disc_evolves env d d1" using Cons.prems(1,2) d1(1) by (rule disc_step_evolves)
  from disc_evolves_trans [OF this Cons.IH [OF Cons.prems(1) disc_evolves_ok [OF this] d1(2)]] show ?case .
qed

section \<open>The timer of the purge\<close>

lemma purge_deadline_spec:
  assumes "purge_deadline env cfg now deadline ss = Some t" and "0 \<le> deadline"
    and "\<forall>s \<in> set ss. now \<le> updated_at env (fst s) + dc_purge_after cfg"
  shows "0 \<le> t \<and> t \<le> deadline \<and> (\<forall>s \<in> set ss. now + t \<le> updated_at env (fst s) + dc_purge_after cfg)"
  using assms
proof (induction ss arbitrary: deadline)
  case (Cons s ss)
  let ?x = "updated_at env (fst s) + dc_purge_after cfg - now"
  have x: "0 \<le> ?x" using Cons.prems(3) by simp
  show ?case
  proof (cases "min deadline ?x = 0")
    case True
    then show ?thesis using Cons.prems x by (auto simp: Let_def max_def split: if_splits)
  next
    case False
    then have "purge_deadline env cfg now (min deadline ?x) ss = Some t"
      using Cons.prems(1) x by (auto simp: Let_def max_def split: if_splits)
    from Cons.IH [OF this] Cons.prems(2,3) x show ?thesis by auto
  qed
qed simp

lemma signed_peers_fresh:
  "s \<in> set (signed_peers env cfg now c) \<Longrightarrow> now \<le> updated_at env (fst s) + dc_purge_after cfg"
  by (auto simp: signed_peers_def fresh_def)

lemma next_purge_deadline_fresh:
  assumes "next_purge_deadline env cfg now d = Some t" and "0 \<le> dc_purge_after cfg" and "now' \<le> now + t"
    and "s \<in> set (signed_peers env cfg now (dv_catalog d))"
  shows "0 \<le> t \<and> t \<le> dc_purge_after cfg \<and> fresh env cfg now' (fst s)"
  using purge_deadline_spec [OF assms(1) [unfolded next_purge_deadline_def] assms(2)] signed_peers_fresh assms(3,4)
  by (fastforce simp: fresh_def)

lemma purge_deadline_panics:
  assumes "s \<in> set ss" and "\<not> de_time_ok env (updated_at env (fst s) + dc_purge_after cfg)" and "0 < deadline"
    and "\<forall>s \<in> set ss. now < updated_at env (fst s) + dc_purge_after cfg"
  shows "purge_deadline env cfg now deadline ss = None"
  using assms by (induction ss arbitrary: deadline) (auto simp: Let_def min_def max_def)

lemma btree_insert_values: "v \<in> snd ` set (btree_insert k v xs)" "snd ` set (btree_insert k v xs) \<subseteq> insert v (snd ` set xs)"
proof -
  have "map_of (btree_insert k v xs) k = Some v" by simp
  then show "v \<in> snd ` set (btree_insert k v xs)" by (metis image_eqI map_of_SomeD snd_conv)
  show "snd ` set (btree_insert k v xs) \<subseteq> insert v (snd ` set xs)" using btree_insert_set [of k v xs] by auto
qed

text \<open>
  An entry from the far future passes the merge of a snapshot; the handler of the resulting event
  then adds \<open>purge_after\<close> to its time.
\<close>

lemma future_entry_panics:
  assumes "is_signature_valid env s" and "pe_network (fst s) = cat_network (dv_catalog d)"
    and "pe_id (fst s) \<noteq> cat_local_id (dv_catalog d)" and "map_of (cat_signed (dv_catalog d)) (pe_id (fst s)) = None"
    and "dv_sync_events d = []" and "0 < dc_purge_after cfg"
    and "now < updated_at env (fst s) + dc_purge_after cfg"
    and "\<not> de_time_ok env (updated_at env (fst s) + dc_purge_after cfg)"
    and "\<forall>t \<in> set (signed_peers env cfg now (dv_catalog d)). now < updated_at env (fst t) + dc_purge_after cfg"
  shows "sync_event_step env cfg now (snapshot_step env cfg now [s] d) = None"
proof -
  let ?c = "dv_catalog d" and ?p = "pe_id (fst s)"
  let ?c1 = "?c\<lparr>cat_unsigned := AList.delete ?p (cat_unsigned ?c), cat_signed := btree_insert ?p s (cat_signed ?c)\<rparr>"
  have fresh: "fresh env cfg now (fst s)" using assms(7) by (simp add: fresh_def)
  then have "extend_signed env cfg now [s] ?c = ([PeerDiscovered (fst s)], ?c1)"
    using assms(2-4) by (simp add: upsert_signed_def Let_def)
  then have step: "snapshot_step env cfg now [s] d =
      d\<lparr>dv_sync_events := [PeerDiscovered (fst s)], dv_catalog := ?c1\<rparr>"
    using assms(1,5) by (simp add: snapshot_step_def decode_snapshot_def deserialize_signed_def sync_merge_def with_catalog_def)
  have mem: "t \<in> set (signed_peers env cfg now ?c1) \<Longrightarrow> t = s \<or> t \<in> set (signed_peers env cfg now ?c)" for t
    using btree_insert_values(2) [of ?p s "cat_signed ?c"] by (auto simp: signed_peers_def)
  have "s \<in> set (signed_peers env cfg now ?c1)"
    using btree_insert_values(1) [of s ?p "cat_signed ?c"] fresh assms(3) by (auto simp: signed_peers_def)
  then have "purge_deadline env cfg now (dc_purge_after cfg) (signed_peers env cfg now ?c1) = None"
    using assms(6-9) mem by (intro purge_deadline_panics [where s = s]) auto
  moreover have "dv_catalog (sync_event_effect ev d1) = dv_catalog d1" for ev and d1 :: "('a, 'c) discovery"
    using sync_event_core [of d1 ev] by (simp add: same_core_def)
  ultimately show ?thesis
    by (simp add: step sync_event_step_def handle_sync_event_def on_catalog_sync_event_def reset_purge_def next_purge_deadline_def
        del: sync_event_effect.simps)
qed

section \<open>Updates of the local entry\<close>

lemma apply_update_frame [simp]:
  "pe_id (apply_update env now u e) = pe_id e" "pe_network (apply_update env now u e) = pe_network e"
  by (cases u; simp add: update_address_def increment_version_def add_streams_def remove_streams_def add_groups_def
      remove_groups_def add_tags_def remove_tags_def add_ticket_def remove_ticket_def remove_tickets_of_def bump_if_def
      case_prod_beta Let_def)+

lemma apply_update_version_cases:
  "pe_version (apply_update env now u e) \<in> {pe_version e, version_increment now (pe_version e)}"
  by (cases u; simp add: update_address_def increment_version_def add_streams_def remove_streams_def add_groups_def
      remove_groups_def add_tags_def remove_tags_def add_ticket_def remove_ticket_def remove_tickets_of_def bump_if_def
      case_prod_beta Let_def)

lemma version_increment_bound:
  "version_updated v \<le> m \<Longrightarrow> now \<le> m \<Longrightarrow> version_updated (version_increment now v) \<le> m + 1"
  by (auto simp: version_increment_def Let_def)

lemma update_local_entry_stores:
  assumes "signing_law env" and "catalog_wf env c" and "cat_local c = Some me" and "de_public env secret = cat_local_id c"
    and "0 \<le> dc_purge_after cfg" and m: "version_updated (pe_version (fst me)) \<le> m" "to_millis now \<le> m" "m + 2 \<le> i64_max"
    and time: "\<And>t. to_millis now < t \<Longrightarrow> t \<le> m + 2 \<Longrightarrow> de_time_ok env (1000000 * t)"
  shows "\<exists>c' s. update_local_entry env cfg now secret (apply_update env (to_millis now) u) c = Some c' \<and>
    cat_local c' = Some s \<and> fst s = increment_version (to_millis now) (apply_update env (to_millis now) u (fst me)) \<and>
    is_signature_valid env s \<and> pe_version (fst me) < pe_version (fst s)"
proof -
  let ?e1 = "apply_update env (to_millis now) u (fst me)"
  let ?e2 = "increment_version (to_millis now) ?e1"
  let ?s = "(?e2, de_sign env secret (de_digest env ?e2))"
  have me: "pe_id (fst me) = cat_local_id c" "pe_network (fst me) = cat_network c"
    using catalog_wf_signed [OF assms(2)] assms(3) by (auto simp: cat_local_def)
  have bound1: "version_updated (pe_version ?e1) \<le> m + 1" and le1: "pe_version (fst me) \<le> pe_version ?e1"
    using apply_update_version_cases [of env "to_millis now" u "fst me"] m
      version_increment_bound [OF m(1,2)] version_increment_ge [of "pe_version (fst me)" "to_millis now"] by auto
  have lt: "pe_version (fst me) < pe_version ?e2"
    using le1 bound1 m(3) version_increment_greater [of "pe_version ?e1" "to_millis now"]
    by (simp add: increment_version_def)
  have upd: "to_millis now < version_updated (pe_version ?e2)" "version_updated (pe_version ?e2) \<le> m + 2"
    using version_increment_now [of "to_millis now" "pe_version ?e1"] m
      version_increment_bound [OF bound1, of "to_millis now"] by (simp_all add: increment_version_def)
  have "now < 1000000 * version_updated (pe_version ?e2)" using upd(1) by (simp add: to_millis_def)
  then have fresh: "fresh env cfg now ?e2"
    using time [OF upd] assms(5) by (simp add: fresh_def updated_at_def from_millis_def)
  have sig: "is_signature_valid env ?s"
    using assms(1,4) me(1) by (simp add: signing_law_def is_signature_valid_def increment_version_def) metis
  have ids: "pe_id ?e2 = cat_local_id c" "pe_network ?e2 = cat_network c" using me by (simp_all add: increment_version_def)
  have ok: "upsert_is_ok (fst (upsert_signed env cfg now ?s c))"
    using lt fresh ids assms(3) by (simp add: upsert_is_ok_iff acceptable_def cat_local_def)
  have "update_local_entry env cfg now secret (apply_update env (to_millis now) u) c = Some (snd (upsert_signed env cfg now ?s c))"
    using ok assms(3,4) ids by (simp add: update_local_entry_def store_local_def sign_entry_def Let_def case_prod_beta)
  moreover have "cat_local (snd (upsert_signed env cfg now ?s c)) = Some ?s"
    using lt fresh ids assms(3)
    by (simp add: cat_local_def upsert_signed_lookup acceptable_def is_newer_than_def)
  ultimately show ?thesis using sig lt by auto
qed

section \<open>Departures\<close>

lemma on_peer_departed_lookup:
  "map_of (cat_signed (dv_catalog (on_peer_departed env cfg now p v d))) q =
    (if q = p \<and> p \<noteq> cat_local_id (dv_catalog d) \<and>
        (\<exists>s. get_signed env cfg now (dv_catalog d) p = Some s \<and> pe_version (fst s) \<le> v)
     then None else map_of (cat_signed (dv_catalog d)) q)"
  by (auto simp: on_peer_departed_def Let_def remove_signed_def emit_def map_of_delete_iff split: option.splits)

section \<open>Neighbours and pings\<close>

lemma neighbors_after_lag:
  assumes "on_gossip_event env cfg now Lagged d = Some d1" and "on_gossip_event env cfg now' (NeighborDown p) d1 = Some d2"
  shows "dv_neighbors d2 = - 1 \<and> dv_effects (announce_observe e d2) = dv_effects d2 @
    (if pe_network e = cat_network (dv_catalog d2) then [Observe (entry_address e)] else [])"
  using assms
  by (auto simp: set_neighbor_count_def decrement_neighbor_count_def join_known_peers_def emit_def Let_def announce_observe_def)

lemma store_local_lookup:
  assumes "store_local env cfg now secret e c = Some c'" and "pe_id e = cat_local_id c"
  shows "\<exists>s. cat_local c' = Some s \<and> fst s = e"
proof -
  let ?s = "(e, de_sign env secret (de_digest env e))"
  have ok: "upsert_is_ok (fst (upsert_signed env cfg now ?s c))" "c' = snd (upsert_signed env cfg now ?s c)"
    using assms(1) by (auto simp: store_local_def sign_entry_def Let_def case_prod_beta split: if_splits)
  then have "cat_local c' = Some ?s"
    using assms(2) upsert_then_get [OF ok(1)] by (auto simp: cat_local_def get_signed_def split: option.splits if_splits)
  then show ?thesis by auto
qed

lemma ping_answer_collides:
  assumes "ping_answer env now secret c = Some s" and "on_address_change env cfg now' secret (cat_local_id c, a) c = Some (True, c')"
    and "to_millis now = to_millis now'"
  shows "\<exists>s'. cat_local c' = Some s' \<and> pe_version (fst s') = pe_version (fst s) \<and> pe_addrs (fst s') = a"
proof -
  obtain me where me: "cat_local c = Some me" "fst s = increment_version (to_millis now) (fst me)"
    using assms(1) by (auto simp: ping_answer_def sign_entry_def Let_def split: option.splits sum.splits if_splits)
  let ?e = "increment_version (to_millis now') ((fst me)\<lparr>pe_addrs := a\<rparr>)"
  have "pe_id (fst me) = cat_local_id c" "store_local env cfg now' secret ?e c = Some c'"
    using assms(2) me(1)
    by (auto simp: on_address_change_def handle_update_local_entry_def update_address_def split: option.splits if_splits)
  then show ?thesis
    using store_local_lookup [of env cfg now' secret ?e c c'] me(2) assms(3) by (auto simp: increment_version_def)
qed

end
