(* ===== verification/Jwt.thy ===== *)
theory Jwt
  imports Peer_Entry "HOL-Library.Word" "HOL-Library.Char_ord" "HOL-Library.List_Lexorder"
begin

text \<open>
  \<open>tickets/jwt.rs\<close>: tickets that are JSON web tokens, their validation and their construction.
  Strings are lists of octets, JSON values a type parameter. Base64, JSON, the claims codec of the
  \<open>jwt\<close> crate, the printing of peer ids, and the range of \<open>chrono\<close> come from outside and are
  collected in \<open>jwt_env\<close>; a verifying key carries the verification function of its algorithm.
\<close>

record 'v claims =
  cl_issuer :: "string option"
  cl_subject :: "string option"
  cl_audience :: "string option"
  cl_expiration :: "64 word option"
  cl_not_before :: "64 word option"
  cl_issued_at :: "64 word option"
  cl_token_id :: "string option"
  cl_private :: "(string \<times> 'v) list"

record 'v jwt_env =
  je_derive :: "unique_id \<Rightarrow> string \<Rightarrow> unique_id"
  je_digest_bytes :: "unique_id \<Rightarrow> string"
  je_class :: unique_id
  je_utf8 :: "string \<Rightarrow> bool"
  je_b64_encode :: "string \<Rightarrow> string"
  je_b64_decode :: "string \<Rightarrow> string option"
  je_header_alg :: "string \<Rightarrow> string option"
  je_claims_encode :: "'v claims \<Rightarrow> string option"
  je_claims_decode :: "string \<Rightarrow> 'v claims option"
  je_peer_string :: "peer_id \<Rightarrow> string"
  je_timestamp_ok :: "int \<Rightarrow> bool"
  je_as_str :: "'v \<Rightarrow> string option"
  je_as_u64 :: "'v \<Rightarrow> 64 word option"
  je_to_string :: "'v \<Rightarrow> string"

text \<open>\<open>None\<close> of a verification is an error of the algorithm.\<close>

record verifying_key =
  vk_algo :: "string \<Rightarrow> string \<Rightarrow> string \<Rightarrow> bool option"
  vk_fingerprint :: unique_id
  vk_algorithm_name :: string

record signing_key =
  sk_key :: "string \<Rightarrow> string \<Rightarrow> string option"
  sk_algorithm_name :: string

section \<open>The validator\<close>

text \<open>Durations are in nanoseconds.\<close>

record 'v jwt =
  jw_issuers :: "string list"
  jw_allow_non_expiring :: bool
  jw_subject :: "string option"
  jw_audience :: "string list"
  jw_custom_claims :: "(string \<times> 'v) list"
  jw_max_lifetime :: "nat option"
  jw_max_age :: "nat option"
  jw_keys :: "verifying_key list"

definition jwt_with_key :: "verifying_key \<Rightarrow> 'v jwt" where
  "jwt_with_key key =
    \<lparr>jw_issuers = [], jw_allow_non_expiring = False, jw_subject = None, jw_audience = [], jw_custom_claims = [],
     jw_max_lifetime = None, jw_max_age = None, jw_keys = [key]\<rparr>"

definition jwt_add_key :: "verifying_key \<Rightarrow> 'v jwt \<Rightarrow> 'v jwt" where
  "jwt_add_key key j = j\<lparr>jw_keys := jw_keys j @ [key]\<rparr>"

definition require_subject :: "string \<Rightarrow> 'v jwt \<Rightarrow> 'v jwt" where
  "require_subject s j = j\<lparr>jw_subject := Some s\<rparr>"

definition require_claim :: "string \<Rightarrow> 'v \<Rightarrow> 'v jwt \<Rightarrow> 'v jwt" where
  "require_claim name v j = j\<lparr>jw_custom_claims := btree_insert name v (jw_custom_claims j)\<rparr>"

definition allow_non_expiring :: "'v jwt \<Rightarrow> 'v jwt" where
  "allow_non_expiring j = j\<lparr>jw_allow_non_expiring := True\<rparr>"

definition allow_issuer :: "string \<Rightarrow> 'v jwt \<Rightarrow> 'v jwt" where
  "allow_issuer s j = j\<lparr>jw_issuers := jw_issuers j @ [s]\<rparr>"

definition allow_audience :: "string \<Rightarrow> 'v jwt \<Rightarrow> 'v jwt" where
  "allow_audience s j = j\<lparr>jw_audience := jw_audience j @ [s]\<rparr>"

definition with_max_lifetime :: "nat \<Rightarrow> 'v jwt \<Rightarrow> 'v jwt" where
  "with_max_lifetime d j = j\<lparr>jw_max_lifetime := Some d\<rparr>"

definition with_max_age :: "nat \<Rightarrow> 'v jwt \<Rightarrow> 'v jwt" where
  "with_max_age d j = j\<lparr>jw_max_age := Some d\<rparr>"

definition as_secs :: "nat \<Rightarrow> 64 word" where
  "as_secs d = word_of_nat (d div 1000000000)"

fun join_with :: "string \<Rightarrow> string list \<Rightarrow> string" where
  "join_with sep [] = ''''"
| "join_with sep [x] = x"
| "join_with sep (x # xs) = x @ sep @ join_with sep xs"

definition le_bytes :: "64 word \<Rightarrow> string" where
  "le_bytes w = map (\<lambda>i. char_of (unat (drop_bit (8 * i) w) mod 256)) [0..<8]"

definition jwt_signature :: "'v jwt_env \<Rightarrow> 'v jwt \<Rightarrow> unique_id" where
  "jwt_signature env j =
    (let derive = je_derive env;
         s1 = foldl (\<lambda>s k. derive (derive s (vk_algorithm_name k)) (je_digest_bytes env (vk_fingerprint k)))
                (je_class env) (jw_keys j);
         s2 = derive s1 (if jw_allow_non_expiring j then [char_of (1 :: nat)] else [char_of (0 :: nat)]);
         s3 = derive s2 (join_with '','' (jw_issuers j));
         s4 = derive s3 (join_with '','' (jw_audience j));
         s5 = derive s4 (case jw_subject j of None \<Rightarrow> '''' | Some s \<Rightarrow> s);
         s6 = derive s5 (le_bytes (case jw_max_lifetime j of None \<Rightarrow> 0 | Some d \<Rightarrow> as_secs d));
         s7 = derive s6 (le_bytes (case jw_max_age j of None \<Rightarrow> 0 | Some d \<Rightarrow> as_secs d))
     in foldl (\<lambda>s (key, v). derive (derive s key) (je_to_string env v)) s7 (jw_custom_claims j))"

text \<open>The first three parts of a string split at dots, the third with the rest of the string.\<close>

definition split_dot :: "string \<Rightarrow> string \<times> string option" where
  "split_dot s =
    (let h = takeWhile (\<lambda>c. c \<noteq> CHR ''.'') s
     in (h, if length h < length s then Some (drop (length h + 1) s) else None))"

definition splitn3 :: "string \<Rightarrow> (string \<times> string \<times> string) option" where
  "splitn3 s =
    (case split_dot s of
       (_, None) \<Rightarrow> None
     | (h, Some r) \<Rightarrow>
         (case split_dot r of
            (_, None) \<Rightarrow> None
          | (c, Some sig) \<Rightarrow> Some (h, c, sig)))"

definition sat_sub :: "64 word \<Rightarrow> 64 word \<Rightarrow> 64 word" where
  "sat_sub a b = (if a < b then 0 else a - b)"

text \<open>The clock in whole seconds, as the unsigned number the code compares with.\<close>

definition now_secs :: "int \<Rightarrow> 64 word" where
  "now_secs now = word_of_int (now div 1000000000)"

section \<open>Validation\<close>

definition expected_subject :: "'v jwt_env \<Rightarrow> 'v jwt \<Rightarrow> peer_id \<Rightarrow> string" where
  "expected_subject env j p = (case jw_subject j of Some s \<Rightarrow> s | None \<Rightarrow> je_peer_string env p)"

definition signature_verified :: "'v jwt \<Rightarrow> string \<Rightarrow> string \<Rightarrow> string \<Rightarrow> string \<Rightarrow> bool" where
  "signature_verified j alg header_str claims_str sig_str =
    list_ex (\<lambda>k. case vk_algo k header_str claims_str sig_str of None \<Rightarrow> False | Some b \<Rightarrow> b)
      (filter (\<lambda>k. vk_algorithm_name k = alg) (jw_keys j))"

text \<open>The checks on the claims, in the order of the code; the last one converts the expiration.\<close>

definition check_claims :: "'v jwt_env \<Rightarrow> 'v jwt \<Rightarrow> 64 word \<Rightarrow> peer_id \<Rightarrow> 'v claims \<Rightarrow> expiration option" where
  "check_claims env j now p c =
    (if jw_issuers j \<noteq> [] \<and> \<not> (case cl_issuer c of Some iss \<Rightarrow> list_ex (\<lambda>i. i = iss) (jw_issuers j) | None \<Rightarrow> False)
     then None
     else if cl_subject c \<noteq> Some (expected_subject env j p) then None
     else if (case cl_not_before c of Some nbf \<Rightarrow> nbf > now | None \<Rightarrow> False) then None
     else if (case cl_expiration c of None \<Rightarrow> \<not> jw_allow_non_expiring j | Some e \<Rightarrow> e \<le> now) then None
     else if (case jw_max_lifetime j of
                Some m \<Rightarrow> (case cl_expiration c of Some e \<Rightarrow> sat_sub e now > as_secs m | None \<Rightarrow> False)
              | None \<Rightarrow> False) then None
     else if (case jw_max_age j of
                Some m \<Rightarrow> (case cl_issued_at c of Some iat \<Rightarrow> sat_sub now iat > as_secs m | None \<Rightarrow> True)
              | None \<Rightarrow> False) then None
     else if jw_audience j \<noteq> [] \<and> \<not> (case cl_audience c of Some aud \<Rightarrow> list_ex (\<lambda>a. a = aud) (jw_audience j) | None \<Rightarrow> False)
     then None
     else if \<not> list_all (\<lambda>(key, v). map_of (cl_private c) key = Some v) (jw_custom_claims j) then None
     else case cl_expiration c of
            None \<Rightarrow> Some Never
          | Some ts \<Rightarrow>
              if uint ts \<le> i64_max \<and> je_timestamp_ok env (uint ts) then Some (At (1000000000 * uint ts)) else None)"

definition jwt_validate :: "'v jwt_env \<Rightarrow> 'v jwt \<Rightarrow> int \<Rightarrow> string \<Rightarrow> peer_id \<Rightarrow> expiration option" where
  "jwt_validate env j now data p =
    (if \<not> je_utf8 env data then None
     else case splitn3 data of
            None \<Rightarrow> None
          | Some (header_str, claims_str, sig_str) \<Rightarrow>
              (case je_b64_decode env header_str of
                 None \<Rightarrow> None
               | Some header_bytes \<Rightarrow>
                   (case je_header_alg env header_bytes of
                      None \<Rightarrow> None
                    | Some alg \<Rightarrow>
                        if \<not> list_ex (\<lambda>k. vk_algorithm_name k = alg) (jw_keys j) then None
                        else if \<not> signature_verified j alg header_str claims_str sig_str then None
                        else (case je_claims_decode env claims_str of
                                None \<Rightarrow> None
                              | Some c \<Rightarrow> check_claims env j (now_secs now) p c))))"

text \<open>The validator as peers use it.\<close>

definition jwt_validator :: "'v jwt_env \<Rightarrow> 'v jwt \<Rightarrow> int \<Rightarrow> 'a peer_entry ticket_validator" where
  "jwt_validator env j now = \<lparr>tv_class = je_class env, tv_validate = (\<lambda>data e. jwt_validate env j now data (pe_id e))\<rparr>"

section \<open>The builder\<close>

record 'v jwt_builder =
  jb_key :: signing_key
  jb_issuer :: "string option"
  jb_subject :: "string option"
  jb_audience :: "string option"
  jb_expiration :: expiration
  jb_not_before :: "64 word option"
  jb_issued_at :: "64 word option"
  jb_token_id :: "string option"
  jb_custom_claims :: "(string \<times> 'v) list"

definition jwt_builder_new :: "signing_key \<Rightarrow> 'v jwt_builder" where
  "jwt_builder_new key =
    \<lparr>jb_key = key, jb_issuer = None, jb_subject = None, jb_audience = None, jb_expiration = Never,
     jb_not_before = None, jb_issued_at = None, jb_token_id = None, jb_custom_claims = []\<rparr>"

definition builder_issued_at :: "int \<Rightarrow> 'v jwt_builder \<Rightarrow> 'v jwt_builder" where
  "builder_issued_at ts b = b\<lparr>jb_issued_at := Some (now_secs ts)\<rparr>"

definition builder_not_before :: "int \<Rightarrow> 'v jwt_builder \<Rightarrow> 'v jwt_builder" where
  "builder_not_before ts b = b\<lparr>jb_not_before := Some (now_secs ts)\<rparr>"

definition builder_claim :: "'v jwt_env \<Rightarrow> string \<Rightarrow> 'v \<Rightarrow> 'v jwt_builder \<Rightarrow> 'v jwt_builder" where
  "builder_claim env name v b =
    (if name = ''iss'' then b\<lparr>jb_issuer := je_as_str env v\<rparr>
     else if name = ''sub'' then b\<lparr>jb_subject := je_as_str env v\<rparr>
     else if name = ''aud'' then b\<lparr>jb_audience := je_as_str env v\<rparr>
     else if name = ''exp'' then
       (case je_as_u64 env v of
          Some ts \<Rightarrow>
            if je_timestamp_ok env (sint ts) then b\<lparr>jb_expiration := At (1000000000 * sint ts)\<rparr>
            else b\<lparr>jb_custom_claims := btree_insert name v (jb_custom_claims b)\<rparr>
        | None \<Rightarrow> b\<lparr>jb_custom_claims := btree_insert name v (jb_custom_claims b)\<rparr>)
     else if name = ''nbf'' then b\<lparr>jb_not_before := je_as_u64 env v\<rparr>
     else if name = ''iat'' then b\<lparr>jb_issued_at := je_as_u64 env v\<rparr>
     else if name = ''jti'' then b\<lparr>jb_token_id := je_as_str env v\<rparr>
     else b\<lparr>jb_custom_claims := btree_insert name v (jb_custom_claims b)\<rparr>)"

definition builder_claims :: "'v jwt_env \<Rightarrow> 'v jwt_builder \<Rightarrow> int \<Rightarrow> peer_id \<Rightarrow> 'v claims" where
  "builder_claims env b now p =
    \<lparr>cl_issuer = jb_issuer b,
     cl_subject = Some (case jb_subject b of Some s \<Rightarrow> s | None \<Rightarrow> je_peer_string env p),
     cl_audience = jb_audience b,
     cl_expiration = (case jb_expiration b of Never \<Rightarrow> None | At ts \<Rightarrow> Some (now_secs ts)),
     cl_not_before = jb_not_before b,
     cl_issued_at = Some (case jb_issued_at b of Some t \<Rightarrow> t | None \<Rightarrow> now_secs now),
     cl_token_id = jb_token_id b,
     cl_private = jb_custom_claims b\<rparr>"

definition header_json :: "string \<Rightarrow> string" where
  "header_json alg =
    [CHR ''{''] @ [CHR 0x22] @ ''alg'' @ [CHR 0x22] @ '':'' @ [CHR 0x22] @ alg @ [CHR 0x22] @ '','' @
    [CHR 0x22] @ ''typ'' @ [CHR 0x22] @ '':'' @ [CHR 0x22] @ ''JWT'' @ [CHR 0x22] @ [CHR ''}'']"

text \<open>\<open>None\<close>: one of the two \<open>expect\<close>s fails.\<close>

definition jwt_build :: "'v jwt_env \<Rightarrow> 'v jwt_builder \<Rightarrow> int \<Rightarrow> peer_id \<Rightarrow> ticket option" where
  "jwt_build env b now p =
    (let header_b64 = je_b64_encode env (header_json (sk_algorithm_name (jb_key b)))
     in case je_claims_encode env (builder_claims env b now p) of
          None \<Rightarrow> None
        | Some claims_b64 \<Rightarrow>
            (case sk_key (jb_key b) header_b64 claims_b64 of
               None \<Rightarrow> None
             | Some sig \<Rightarrow> Some \<lparr>tk_class = je_class env, tk_data = header_b64 @ ''.'' @ claims_b64 @ ''.'' @ sig\<rparr>))"

section \<open>What the validator accepts\<close>

text \<open>The conditions over numbers that do not wrap; \<open>t\<close> is the time in seconds.\<close>

definition claims_valid :: "'v jwt_env \<Rightarrow> 'v jwt \<Rightarrow> int \<Rightarrow> peer_id \<Rightarrow> 'v claims \<Rightarrow> bool" where
  "claims_valid env j t p c \<longleftrightarrow>
    (jw_issuers j = [] \<or> (\<exists>iss \<in> set (jw_issuers j). cl_issuer c = Some iss)) \<and>
    cl_subject c = Some (expected_subject env j p) \<and>
    (case cl_not_before c of None \<Rightarrow> True | Some nbf \<Rightarrow> uint nbf \<le> t) \<and>
    (case cl_expiration c of
       None \<Rightarrow> jw_allow_non_expiring j
     | Some e \<Rightarrow> t < uint e \<and> uint e \<le> i64_max \<and> je_timestamp_ok env (uint e) \<and>
         (case jw_max_lifetime j of None \<Rightarrow> True | Some m \<Rightarrow> uint e - t \<le> int (m div 1000000000))) \<and>
    (case jw_max_age j of
       None \<Rightarrow> True
     | Some m \<Rightarrow> (case cl_issued_at c of None \<Rightarrow> False | Some iat \<Rightarrow> t - uint iat \<le> int (m div 1000000000))) \<and>
    (jw_audience j = [] \<or> (\<exists>aud \<in> set (jw_audience j). cl_audience c = Some aud)) \<and>
    (\<forall>(key, v) \<in> set (jw_custom_claims j). map_of (cl_private c) key = Some v)"

fun claims_expiration :: "64 word option \<Rightarrow> expiration" where
  "claims_expiration None = Never"
| "claims_expiration (Some e) = At (1000000000 * uint e)"

text \<open>Durations have 64 bits of seconds.\<close>

definition durations_ok :: "'v jwt \<Rightarrow> bool" where
  "durations_ok j \<longleftrightarrow>
    (case jw_max_lifetime j of None \<Rightarrow> True | Some m \<Rightarrow> m div 1000000000 < 2 ^ 64) \<and>
    (case jw_max_age j of None \<Rightarrow> True | Some m \<Rightarrow> m div 1000000000 < 2 ^ 64)"

lemma uint_now_secs: "0 \<le> now \<Longrightarrow> now < 1000000000 * 2 ^ 64 \<Longrightarrow> uint (now_secs now) = now div 1000000000"
  unfolding now_secs_def by (simp add: uint_word_of_int)

lemma uint_as_secs: "d div 1000000000 < 2 ^ 64 \<Longrightarrow> uint (as_secs d) = int (d div 1000000000)"
  unfolding as_secs_def by (simp add: unsigned_of_nat take_bit_nat_eq_self)

lemma uint_sat_sub: "uint (sat_sub a b) = max 0 (uint a - uint b)"
proof (cases "a < b")
  case False
  then have "uint b \<le> uint a" by (simp add: word_less_def)
  then have "uint (a - b) = uint a - uint b" by (metis uint_sub_lem)
  with False show ?thesis using \<open>uint b \<le> uint a\<close> by (simp add: sat_sub_def)
qed (simp add: sat_sub_def word_less_def)

lemma secs_less: "d div 1000000000 < 2 ^ 64 \<Longrightarrow> as_secs d < sat_sub a b \<longleftrightarrow> int (d div 1000000000) < uint a - uint b"
  by (auto simp: word_less_def uint_as_secs uint_sat_sub)

lemma check_claims_eq:
  assumes "uint now = t" and "durations_ok j"
  shows "check_claims env j now p c =
    (if claims_valid env j t p c then Some (claims_expiration (cl_expiration c)) else None)"
proof -
  have iss: "(case cl_issuer c of Some iss \<Rightarrow> list_ex (\<lambda>i. i = iss) (jw_issuers j) | None \<Rightarrow> False) \<longleftrightarrow>
      (\<exists>iss \<in> set (jw_issuers j). cl_issuer c = Some iss)"
    by (auto simp: list_ex_iff split: option.splits)
  have aud: "(case cl_audience c of Some aud \<Rightarrow> list_ex (\<lambda>a. a = aud) (jw_audience j) | None \<Rightarrow> False) \<longleftrightarrow>
      (\<exists>aud \<in> set (jw_audience j). cl_audience c = Some aud)"
    by (auto simp: list_ex_iff split: option.splits)
  have nbf: "(case cl_not_before c of Some nbf \<Rightarrow> nbf > now | None \<Rightarrow> False) \<longleftrightarrow>
      \<not> (case cl_not_before c of None \<Rightarrow> True | Some nbf \<Rightarrow> uint nbf \<le> t)"
    using assms(1) by (auto simp: word_less_def split: option.splits)
  have age: "(case jw_max_age j of
                Some m \<Rightarrow> (case cl_issued_at c of Some iat \<Rightarrow> sat_sub now iat > as_secs m | None \<Rightarrow> True)
              | None \<Rightarrow> False) \<longleftrightarrow>
      \<not> (case jw_max_age j of
           None \<Rightarrow> True
         | Some m \<Rightarrow> (case cl_issued_at c of None \<Rightarrow> False | Some iat \<Rightarrow> t - uint iat \<le> int (m div 1000000000)))"
    using assms by (auto simp: durations_ok_def secs_less split: option.splits)
  show ?thesis
  proof (cases "cl_expiration c")
    case None
    then have life: "(case jw_max_lifetime j of
          Some m \<Rightarrow> (case cl_expiration c of Some e \<Rightarrow> sat_sub e now > as_secs m | None \<Rightarrow> False)
        | None \<Rightarrow> False) \<longleftrightarrow> False"
      by (simp split: option.splits)
    show ?thesis unfolding check_claims_def claims_valid_def iss aud nbf age life
      using None by (auto simp: list_all_iff)
  next
    case (Some e)
    have life: "(case jw_max_lifetime j of Some m \<Rightarrow> sat_sub e now > as_secs m | None \<Rightarrow> False) \<longleftrightarrow>
        \<not> (case jw_max_lifetime j of None \<Rightarrow> True | Some m \<Rightarrow> uint e - t \<le> int (m div 1000000000))"
      using assms by (auto simp: durations_ok_def secs_less split: option.splits)
    have exp: "e \<le> now \<longleftrightarrow> \<not> t < uint e" using assms(1) by (auto simp: word_le_def)
    show ?thesis unfolding check_claims_def claims_valid_def iss aud nbf age Some option.case life exp
      by (auto simp: list_all_iff)
  qed
qed

section \<open>Splitting a token\<close>

definition no_dot :: "string \<Rightarrow> bool" where
  "no_dot s \<longleftrightarrow> CHR ''.'' \<notin> set s"

lemma split_dot_append: "no_dot h \<Longrightarrow> split_dot (h @ ''.'' @ r) = (h, Some r)"
proof -
  assume "no_dot h"
  then have "takeWhile (\<lambda>c. c \<noteq> CHR ''.'') (h @ ''.'' @ r) = h"
    by (subst takeWhile_append2) (auto simp: no_dot_def)
  then show ?thesis by (simp add: split_dot_def Let_def)
qed

lemma split_dot_SomeD: "split_dot s = (h, Some r) \<Longrightarrow> s = h @ ''.'' @ r \<and> no_dot h"
proof -
  assume a: "split_dot s = (h, Some r)"
  then have h: "h = takeWhile (\<lambda>c. c \<noteq> CHR ''.'') s" and len: "length h < length s" and r: "r = drop (length h + 1) s"
    by (auto simp: split_dot_def Let_def split: if_splits)
  have "s ! length h = CHR ''.''" using nth_length_takeWhile [of "\<lambda>c. c \<noteq> CHR ''.''" s] h len by simp
  moreover have "take (length h) s = h" using h by (simp add: takeWhile_eq_take [symmetric])
  ultimately have "s = h @ ''.'' @ r" using id_take_nth_drop [OF len] r by simp
  moreover have "no_dot h" using h by (auto simp: no_dot_def dest: set_takeWhileD)
  ultimately show ?thesis by simp
qed

lemma splitn3_append: "no_dot h \<Longrightarrow> no_dot c \<Longrightarrow> splitn3 (h @ ''.'' @ c @ ''.'' @ s) = Some (h, c, s)"
  unfolding splitn3_def by (simp only: split_dot_append prod.case option.case)

lemma splitn3_SomeD: "splitn3 data = Some (h, c, s) \<Longrightarrow> data = h @ ''.'' @ c @ ''.'' @ s \<and> no_dot h \<and> no_dot c"
  unfolding splitn3_def by (auto split: prod.splits option.splits dest!: split_dot_SomeD)

section \<open>Validation and construction\<close>

lemma signature_verified_iff:
  "signature_verified j alg h c s \<longleftrightarrow> (\<exists>k \<in> set (jw_keys j). vk_algorithm_name k = alg \<and> vk_algo k h c s = Some True)"
  by (auto simp: signature_verified_def list_ex_iff split: option.splits)

lemma jwt_validate_iff:
  assumes "0 \<le> now" and "now < 1000000000 * 2 ^ 64" and "durations_ok j"
  shows "jwt_validate env j now data p = Some x \<longleftrightarrow>
    je_utf8 env data \<and>
    (\<exists>h c s bytes claims. \<exists>k \<in> set (jw_keys j). data = h @ ''.'' @ c @ ''.'' @ s \<and> no_dot h \<and> no_dot c \<and>
      je_b64_decode env h = Some bytes \<and> je_header_alg env bytes = Some (vk_algorithm_name k) \<and>
      vk_algo k h c s = Some True \<and> je_claims_decode env c = Some claims \<and>
      claims_valid env j (now div 1000000000) p claims \<and> x = claims_expiration (cl_expiration claims))"
    (is "?l \<longleftrightarrow> ?r")
proof
  note check = check_claims_eq [OF uint_now_secs [OF assms(1,2)] assms(3), of env p]
  assume ?l
  then obtain h c s bytes alg claims where *: "je_utf8 env data" "splitn3 data = Some (h, c, s)" "je_b64_decode env h = Some bytes"
      "je_header_alg env bytes = Some alg" "signature_verified j alg h c s" "je_claims_decode env c = Some claims"
      "check_claims env j (now_secs now) p claims = Some x"
    by (auto simp: jwt_validate_def split: if_splits option.splits)
  then obtain k where k: "k \<in> set (jw_keys j)" "vk_algorithm_name k = alg" "vk_algo k h c s = Some True"
    by (auto simp: signature_verified_iff)
  have "claims_valid env j (now div 1000000000) p claims" "x = claims_expiration (cl_expiration claims)"
    using *(7) by (simp_all add: check split: if_splits)
  with * k splitn3_SomeD [OF *(2)] show ?r by blast
next
  note check = check_claims_eq [OF uint_now_secs [OF assms(1,2)] assms(3), of env p]
  assume ?r
  then obtain h c s bytes claims k where *: "je_utf8 env data" "k \<in> set (jw_keys j)" "data = h @ ''.'' @ c @ ''.'' @ s"
      "no_dot h" "no_dot c" "je_b64_decode env h = Some bytes" "je_header_alg env bytes = Some (vk_algorithm_name k)"
      "vk_algo k h c s = Some True" "je_claims_decode env c = Some claims"
      "claims_valid env j (now div 1000000000) p claims" "x = claims_expiration (cl_expiration claims)"
    by blast
  have "splitn3 data = Some (h, c, s)" unfolding *(3) using *(4,5) by (rule splitn3_append)
  moreover have "signature_verified j (vk_algorithm_name k) h c s" using *(2,8) by (auto simp: signature_verified_iff)
  moreover have "list_ex (\<lambda>k'. vk_algorithm_name k' = vk_algorithm_name k) (jw_keys j)" using *(2) by (auto simp: list_ex_iff)
  ultimately show ?l using * by (simp add: jwt_validate_def check)
qed

text \<open>What the codecs of the \<open>base64\<close>, \<open>serde_json\<close> and \<open>jwt\<close> crates promise, and a pair of keys.\<close>

definition codec_law :: "'v jwt_env \<Rightarrow> bool" where
  "codec_law env \<longleftrightarrow>
    (\<forall>x. je_b64_decode env (je_b64_encode env x) = Some x \<and> no_dot (je_b64_encode env x)) \<and>
    (\<forall>a. je_header_alg env (header_json a) = Some a) \<and>
    (\<forall>c s. je_claims_encode env c = Some s \<longrightarrow> je_claims_decode env s = Some c \<and> no_dot s)"

definition key_pair :: "signing_key \<Rightarrow> verifying_key \<Rightarrow> bool" where
  "key_pair sk k \<longleftrightarrow> sk_algorithm_name sk = vk_algorithm_name k \<and>
    (\<forall>h c s. sk_key sk h c = Some s \<longrightarrow> vk_algo k h c s = Some True)"

lemma build_then_validate:
  assumes "0 \<le> now" and "now < 1000000000 * 2 ^ 64" and "durations_ok j" and "codec_law env"
    and "k \<in> set (jw_keys j)" and "key_pair (jb_key b) k" and "jwt_build env b built p = Some t"
    and "je_utf8 env (tk_data t)" and "claims_valid env j (now div 1000000000) p (builder_claims env b built p)"
  shows "tk_class t = je_class env \<and>
    jwt_validate env j now (tk_data t) p = Some (claims_expiration (cl_expiration (builder_claims env b built p)))"
proof -
  let ?h = "je_b64_encode env (header_json (sk_algorithm_name (jb_key b)))"
  obtain c s where *: "je_claims_encode env (builder_claims env b built p) = Some c" "sk_key (jb_key b) ?h c = Some s"
      "t = \<lparr>tk_class = je_class env, tk_data = ?h @ ''.'' @ c @ ''.'' @ s\<rparr>"
    using assms(7) by (auto simp: jwt_build_def Let_def split: option.splits)
  have "jwt_validate env j now (tk_data t) p = Some (claims_expiration (cl_expiration (builder_claims env b built p)))"
    unfolding jwt_validate_iff [OF assms(1-3)]
    using * assms(4-6,8,9) by (intro conjI exI bexI [OF _ assms(5)]) (auto simp: codec_law_def key_pair_def)
  then show ?thesis using *(3) by simp
qed

section \<open>Validators that share a signature\<close>

lemma join_with_append: "join_with '','' [a, b] = join_with '','' [a @ '','' @ b]"
  by simp

lemma signature_collisions:
  "jwt_signature env (j\<lparr>jw_max_age := None\<rparr>) = jwt_signature env (j\<lparr>jw_max_age := Some 0\<rparr>)"
  "jwt_signature env (j\<lparr>jw_max_lifetime := None\<rparr>) = jwt_signature env (j\<lparr>jw_max_lifetime := Some 0\<rparr>)"
  "jwt_signature env (j\<lparr>jw_subject := None\<rparr>) = jwt_signature env (j\<lparr>jw_subject := Some ''''\<rparr>)"
  "jwt_signature env (j\<lparr>jw_issuers := [a, b]\<rparr>) = jwt_signature env (j\<lparr>jw_issuers := [a @ '','' @ b]\<rparr>)"
  by (simp_all add: jwt_signature_def as_secs_def)

end
