(* ===== verification/Discovery_Properties.thy ===== *)
theory Discovery_Properties
  imports Discovery Jwt "HOL-Library.Countable"
begin

text \<open>
  Properties of the discovery system and of tickets, with the examples that show their hypotheses can
  hold: three nodes whose signatures are their own names, and a clock that ends early.
\<close>

section \<open>Example nodes\<close>

definition ex_disc_env :: "(nat, nat, nat) disc_env" where
  "ex_disc_env =
    \<lparr>de_derive = (\<lambda>c d. to_nat (c, d)), de_digest = (\<lambda>e. ''''), de_departure_digest = (\<lambda>p v t. ''''),
     de_public = (\<lambda>k. k), de_sign = (\<lambda>k m. k), de_verify = (\<lambda>p m g. g = p), de_time_ok = (\<lambda>t. t \<le> 900000000)\<rparr>"

definition ex_disc_config :: disc_config where
  "ex_disc_config = \<lparr>dc_purge_after = 100000000, dc_max_time_drift = 50000000, dc_max_rtt = None\<rparr>"

text \<open>The entry of a peer that started at 1 ms and was updated at \<open>t\<close> ms.\<close>

definition ex_entry :: "peer_id \<Rightarrow> int \<Rightarrow> (nat, nat) signed_entry" where
  "ex_entry p t =
    (\<lparr>pe_protocol = ''1'', pe_network = 7, pe_version = Version 1 t, pe_id = p, pe_addrs = p, pe_tags = {||},
      pe_streams = {||}, pe_groups = {||}, pe_tickets = []\<rparr>, p)"

definition ex_catalog :: "peer_id \<Rightarrow> (peer_id \<times> (nat, nat) signed_entry) list \<Rightarrow> (nat, nat) catalog" where
  "ex_catalog me es = \<lparr>cat_local_id = me, cat_network = 7, cat_signed = es, cat_unsigned = []\<rparr>"

definition ex_discovery :: "(nat, nat) catalog \<Rightarrow> (nat, nat) discovery" where
  "ex_discovery c = the (discovery_new c)"

lemma ex_env_simps [simp]:
  "de_verify ex_disc_env p m g \<longleftrightarrow> g = p" "de_time_ok ex_disc_env t \<longleftrightarrow> t \<le> 900000000"
  "de_public ex_disc_env k = k" "de_sign ex_disc_env k m = k" "signing_law ex_disc_env"
  "dc_purge_after ex_disc_config = 100000000" "dc_max_time_drift ex_disc_config = 50000000" "dc_max_rtt ex_disc_config = None"
  by (simp_all add: ex_disc_env_def ex_disc_config_def signing_law_def)

lemma ex_catalog_frame [simp]: "cat_network (ex_catalog me es) = 7" "cat_local_id (ex_catalog me es) = me"
  by (simp_all add: ex_catalog_def)

lemma ex_entry_simps [simp]:
  "pe_id (fst (ex_entry p t)) = p" "pe_network (fst (ex_entry p t)) = 7" "pe_version (fst (ex_entry p t)) = Version 1 t"
  "pe_addrs (fst (ex_entry p t)) = p" "pe_tickets (fst (ex_entry p t)) = []" "snd (ex_entry p t) = p"
  by (simp_all add: ex_entry_def)

lemma ex_entry_valid [simp]: "is_signature_valid ex_disc_env (ex_entry p t)"
  by (simp add: is_signature_valid_def)

lemma ex_updated_at [simp]:
  "t \<le> 900 \<Longrightarrow> updated_at ex_disc_env (fst (ex_entry p t)) = 1000000 * t"
  by (simp add: updated_at_def from_millis_def)

lemma ex_catalog_wf:
  "map_of es me \<noteq> None \<Longrightarrow> sorted_wrt (<) (map fst es) \<Longrightarrow> \<forall>x \<in> set es. snd x = ex_entry (fst x) (version_updated (pe_version (fst (snd x)))) \<Longrightarrow>
    catalog_wf ex_disc_env (ex_catalog me es)"
proof -
  assume *: "map_of es me \<noteq> None" "sorted_wrt (<) (map fst es)"
    "\<forall>x \<in> set es. snd x = ex_entry (fst x) (version_updated (pe_version (fst (snd x))))"
  have "pe_id (fst s) = p \<and> pe_network (fst s) = 7 \<and> is_signature_valid ex_disc_env s" if "map_of es p = Some s" for p s
    using * (3) map_of_SomeD [OF that] by (metis ex_entry_simps(1,2) ex_entry_valid fst_conv snd_conv)
  with * show ?thesis by (simp add: catalog_wf_def ex_catalog_def cat_local_def)
qed

section \<open>Entries and tickets\<close>

text \<open>
  Every change a node makes to its entry is visible in the version: an update either leaves the
  entry as it is or gives it a strictly newer version, until the 64-bit counter is exhausted.
\<close>

theorem entry_update_visible:
  assumes "version_updated (pe_version e) < i64_max" and "tickets_wf env e" and "inj (ticket_id (de_derive env))"
  shows "apply_update env now u e = e \<or> pe_version e < pe_version (apply_update env now u e)"
  using assms by (rule apply_update_version)

lemma ex_ticket_id_inj: "inj (ticket_id (de_derive ex_disc_env))"
proof (rule injI)
  fix t u assume "ticket_id (de_derive ex_disc_env) t = ticket_id (de_derive ex_disc_env) u"
  then have "(tk_class t, tk_data t) = (tk_class u, tk_data u)" by (simp add: ticket_id_def ex_disc_env_def)
  then show "t = u" by simp
qed

theorem entry_update_visible_witness:
  "pe_version (fst (ex_entry 1 5)) < pe_version (apply_update ex_disc_env 9 (AddTags [4]) (fst (ex_entry 1 5)))"
proof -
  have "apply_update ex_disc_env 9 (AddTags [4]) (fst (ex_entry 1 5)) \<noteq> fst (ex_entry 1 5)"
    by (simp add: ex_entry_def add_tags_def extend_set_def Let_def bump_if_def increment_version_def)
  then show ?thesis
    using entry_update_visible [of "fst (ex_entry 1 5)" ex_disc_env 9 "AddTags [4]"] ex_ticket_id_inj
    by (simp add: i64_max_def tickets_wf_def)
qed

text \<open>
  The expiration of a peer against a list of validators: every validator must accept one of the
  peer's tickets of its class; each counts with the latest expiration it accepts, and the peer gets
  the earliest of these.
\<close>

theorem ticket_expiration:
  assumes "vs \<noteq> []"
  shows "validate_tickets vs e = Some (Some x) \<longleftrightarrow>
    (\<exists>best. x = Min (best ` set vs) \<and>
      (\<forall>v \<in> set vs. (\<exists>t \<in> set (tickets_of (tv_class v) e). tv_validate v (tk_data t) e = Some (best v)) \<and>
        (\<forall>t \<in> set (tickets_of (tv_class v) e). \<forall>y. tv_validate v (tk_data t) e = Some y \<longrightarrow> y \<le> best v)))"
    (is "_ \<longleftrightarrow> (\<exists>best. x = _ \<and> (\<forall>v \<in> set vs. ?best v (best v)))")
proof -
  have eq: "validate_ticket v e = Some y \<longleftrightarrow> ?best v y" for v y by (rule validate_ticket_eq)
  show ?thesis
  proof
    assume "validate_tickets vs e = Some (Some x)"
    then have all: "\<forall>v \<in> set vs. validate_ticket v e \<noteq> None"
      and x: "x = Min ((\<lambda>v. the (validate_ticket v e)) ` set vs)" by (auto simp: validate_tickets_eq [OF assms])
    from all have "\<forall>v \<in> set vs. ?best v (the (validate_ticket v e))"
      by (metis eq option.collapse)
    with x show "\<exists>best. x = Min (best ` set vs) \<and> (\<forall>v \<in> set vs. ?best v (best v))"
      by (intro exI [of _ "\<lambda>v. the (validate_ticket v e)"]) simp
  next
    assume "\<exists>best. x = Min (best ` set vs) \<and> (\<forall>v \<in> set vs. ?best v (best v))"
    then obtain best where x: "x = Min (best ` set vs)" and b: "\<forall>v \<in> set vs. validate_ticket v e = Some (best v)"
      unfolding eq [symmetric] by blast
    then have "(\<lambda>v. the (validate_ticket v e)) ` set vs = best ` set vs" by force
    then show "validate_tickets vs e = Some (Some x)" using x b by (auto simp: validate_tickets_eq [OF assms])
  qed
qed

definition ex_validator :: "unique_id \<Rightarrow> expiration \<Rightarrow> nat peer_entry ticket_validator" where
  "ex_validator c x = \<lparr>tv_class = c, tv_validate = (\<lambda>d e. if d = ''ok'' then Some x else None)\<rparr>"

theorem ticket_expiration_witness:
  "validate_tickets [ex_validator 1 Never, ex_validator 2 (At 30)]
    ((fst (ex_entry 1 5))\<lparr>pe_tickets := [(1, \<lparr>tk_class = 1, tk_data = ''ok''\<rparr>), (2, \<lparr>tk_class = 2, tk_data = ''ok''\<rparr>)]\<rparr>) =
    Some (Some (At 30))"
proof -
  have "At 30 = Min ((\<lambda>v. if tv_class v = 1 then Never else At 30) ` set [ex_validator 1 Never, ex_validator 2 (At 30)])"
    by (simp add: ex_validator_def min_def)
  then show ?thesis
    by (subst ticket_expiration, simp) (rule exI [of _ "\<lambda>v. if tv_class v = 1 then Never else At 30"],
      simp add: ex_validator_def tickets_of_def)
qed

section \<open>The catalog\<close>






text \<open>
  C18. Two nodes of a network that exchange their catalogs know the same signed entries afterwards,
  if before the exchange equal versions meant equal entries, newer versions had later times, and no
  node knew a newer entry of the other than the other itself. The exchange itself cannot fail.
\<close>

theorem catalog_exchange_converges:
  assumes "catalog_wf env a" and "catalog_wf env b" and "cat_network a = cat_network b" and "coherent env a b"
  shows "\<exists>a' b'. sync_exchange env cfg now a b = Some (a', b') \<and>
    (\<forall>p. get_signed env cfg now a' p = get_signed env cfg now b' p)"
  using sync_exchange_eq [OF assms(1,2)] exchange_agrees [OF assms] by auto

theorem catalog_exchange_converges_witness:
  "\<exists>a' b'. sync_exchange ex_disc_env ex_disc_config 10000000
      (ex_catalog 1 [(1, ex_entry 1 5), (3, ex_entry 3 4)]) (ex_catalog 2 [(1, ex_entry 1 3), (2, ex_entry 2 9), (3, ex_entry 3 8)])
    = Some (a', b') \<and>
    (\<forall>p. get_signed ex_disc_env ex_disc_config 10000000 a' p = get_signed ex_disc_env ex_disc_config 10000000 b' p)"
proof (rule catalog_exchange_converges)
  show "coherent ex_disc_env (ex_catalog 1 [(1, ex_entry 1 5), (3, ex_entry 3 4)])
      (ex_catalog 2 [(1, ex_entry 1 3), (2, ex_entry 2 9), (3, ex_entry 3 8)])"
    by (simp add: coherent_def ex_catalog_def less_peer_version_def)
  show "catalog_wf ex_disc_env (ex_catalog 1 [(1, ex_entry 1 5), (3, ex_entry 3 4)])" by (rule ex_catalog_wf) simp_all
  show "catalog_wf ex_disc_env (ex_catalog 2 [(1, ex_entry 1 3), (2, ex_entry 2 9), (3, ex_entry 3 8)])"
    by (rule ex_catalog_wf) simp_all
qed simp

text \<open>
  Merging is independent of the order the entries arrive in and of duplicates, if versions
  identify entries.
\<close>

theorem catalog_merge_order:
  assumes "catalog_wf env c" and "set ss = set ts" and "versions_identify (snd ` set (cat_signed c) \<union> set ss)"
  shows "map_of (cat_signed (snd (extend_signed env cfg now ss c))) = map_of (cat_signed (snd (extend_signed env cfg now ts c)))"
  using extend_signed_order [OF assms] by (rule ext)

theorem catalog_merge_order_witness:
  "map_of (cat_signed (snd (extend_signed ex_disc_env ex_disc_config 10000000 [ex_entry 2 4, ex_entry 2 6]
      (ex_catalog 1 [(1, ex_entry 1 5)])))) =
    map_of (cat_signed (snd (extend_signed ex_disc_env ex_disc_config 10000000 [ex_entry 2 6, ex_entry 2 4, ex_entry 2 6]
      (ex_catalog 1 [(1, ex_entry 1 5)]))))"
proof (rule catalog_merge_order)
  show "catalog_wf ex_disc_env (ex_catalog 1 [(1, ex_entry 1 5)])" by (rule ex_catalog_wf) simp_all
qed (auto simp: versions_identify_def ex_catalog_def)

text \<open>
  Updating the local entry never trips the assertion on versioning: the entry is stored with the
  change, a strictly newer version and a valid signature, provided the clock and the counter are within
  the range of \<open>chrono\<close>.
\<close>

theorem local_update_stores:
  assumes "signing_law env" and "catalog_wf env c" and "cat_local c = Some me" and "de_public env secret = cat_local_id c"
    and "0 \<le> dc_purge_after cfg" and "version_updated (pe_version (fst me)) \<le> m" and "to_millis now \<le> m"
    and "m + 2 \<le> i64_max" and "\<And>t. to_millis now < t \<Longrightarrow> t \<le> m + 2 \<Longrightarrow> de_time_ok env (1000000 * t)"
  shows "\<exists>c' s. update_local_entry env cfg now secret (apply_update env (to_millis now) u) c = Some c' \<and>
    cat_local c' = Some s \<and> fst s = increment_version (to_millis now) (apply_update env (to_millis now) u (fst me)) \<and>
    is_signature_valid env s \<and> pe_version (fst me) < pe_version (fst s)"
  using assms by (rule update_local_entry_stores)

theorem local_update_stores_witness:
  "\<exists>c' s. update_local_entry ex_disc_env ex_disc_config 10000000 1 (apply_update ex_disc_env 10 (AddTags [4]))
      (ex_catalog 1 [(1, ex_entry 1 5)]) = Some c' \<and> cat_local c' = Some s \<and> pe_tags (fst s) = {|4|} \<and>
    pe_version (fst s) = Version 1 12"
proof -
  have wf: "catalog_wf ex_disc_env (ex_catalog 1 [(1, ex_entry 1 5)])" by (rule ex_catalog_wf) simp_all
  have me: "cat_local (ex_catalog 1 [(1, ex_entry 1 5)]) = Some (ex_entry 1 5)" by (simp add: cat_local_def ex_catalog_def)
  have ms: "to_millis 10000000 = 10" by (simp add: to_millis_def)
  have "\<exists>c' s. update_local_entry ex_disc_env ex_disc_config 10000000 1
      (apply_update ex_disc_env (to_millis 10000000) (AddTags [4])) (ex_catalog 1 [(1, ex_entry 1 5)]) = Some c' \<and>
    cat_local c' = Some s \<and>
    fst s = increment_version (to_millis 10000000) (apply_update ex_disc_env (to_millis 10000000) (AddTags [4]) (fst (ex_entry 1 5))) \<and>
    is_signature_valid ex_disc_env s \<and> pe_version (fst (ex_entry 1 5)) < pe_version (fst s)"
    by (rule local_update_stores [OF ex_env_simps(5) wf me, where m = 10]) (simp_all add: ms i64_max_def)
  then obtain c' s where "update_local_entry ex_disc_env ex_disc_config 10000000 1
      (apply_update ex_disc_env 10 (AddTags [4])) (ex_catalog 1 [(1, ex_entry 1 5)]) = Some c'" "cat_local c' = Some s"
    "fst s = increment_version 10 (apply_update ex_disc_env 10 (AddTags [4]) (fst (ex_entry 1 5)))"
    unfolding ms by blast
  moreover have "extend_set [4] {||} = (True, {|4|})" by (simp add: extend_set_def fcard.rep_eq)
  then have "pe_tags (increment_version 10 (apply_update ex_disc_env 10 (AddTags [4]) (fst (ex_entry 1 5)))) = {|4|}"
    "pe_version (increment_version 10 (apply_update ex_disc_env 10 (AddTags [4]) (fst (ex_entry 1 5)))) = Version 1 12"
    by (simp_all add: increment_version_def add_tags_def bump_if_def version_increment_def i64_max_def ex_entry_def)
  ultimately show ?thesis by metis
qed

text \<open>
  The purge timer fires in time: it is never set beyond \<open>purge_after\<close>, and no entry that is fresh
  when it is set goes stale before it fires.
\<close>

theorem purge_timer_in_time:
  assumes "next_purge_deadline env cfg now d = Some t" and "0 \<le> dc_purge_after cfg" and "now' \<le> now + t"
    and "s \<in> set (signed_peers env cfg now (dv_catalog d))"
  shows "0 \<le> t \<and> t \<le> dc_purge_after cfg \<and> fresh env cfg now' (fst s)"
  using assms by (rule next_purge_deadline_fresh)

theorem purge_timer_in_time_witness:
  "next_purge_deadline ex_disc_env ex_disc_config 10000000 (ex_discovery (ex_catalog 1 [(1, ex_entry 1 5), (2, ex_entry 2 9)])) =
      Some 99000000 \<and> fresh ex_disc_env ex_disc_config 109000000 (fst (ex_entry 2 9))"
proof -
  let ?d = "ex_discovery (ex_catalog 1 [(1, ex_entry 1 5), (2, ex_entry 2 9)])"
  have peers: "signed_peers ex_disc_env ex_disc_config 10000000 (dv_catalog ?d) = [ex_entry 2 9]"
    by (simp add: ex_discovery_def discovery_new_def ex_catalog_def cat_local_def signed_peers_def fresh_def)
  then have d: "next_purge_deadline ex_disc_env ex_disc_config 10000000 ?d = Some 99000000"
    by (simp add: next_purge_deadline_def Let_def)
  from purge_timer_in_time [OF d, of 109000000 "ex_entry 2 9"] peers d show ?thesis by simp
qed

text \<open>
  A signed entry that claims to come from the end of the representable time is accepted by the
  merge of a snapshot, which has no upper bound on times; the handler of the resulting event then
  panics when it adds \<open>purge_after\<close> to that time.
\<close>

theorem future_entry_panics_worker:
  assumes "is_signature_valid env s" and "pe_network (fst s) = cat_network (dv_catalog d)"
    and "pe_id (fst s) \<noteq> cat_local_id (dv_catalog d)" and "map_of (cat_signed (dv_catalog d)) (pe_id (fst s)) = None"
    and "dv_sync_events d = []" and "0 < dc_purge_after cfg"
    and "now < updated_at env (fst s) + dc_purge_after cfg"
    and "\<not> de_time_ok env (updated_at env (fst s) + dc_purge_after cfg)"
    and "\<forall>t \<in> set (signed_peers env cfg now (dv_catalog d)). now < updated_at env (fst t) + dc_purge_after cfg"
  shows "sync_event_step env cfg now (snapshot_step env cfg now [s] d) = None"
  using assms by (rule future_entry_panics)

theorem future_entry_panics_worker_witness:
  "sync_event_step ex_disc_env ex_disc_config 10000000 (snapshot_step ex_disc_env ex_disc_config 10000000 [ex_entry 2 900]
      (ex_discovery (ex_catalog 1 [(1, ex_entry 1 5)]))) = None"
  by (rule future_entry_panics_worker)
    (simp_all add: ex_discovery_def discovery_new_def ex_catalog_def cat_local_def signed_peers_def)

text \<open>
  A lost count of neighbours: after the gossip layer lagged the count is reset to 0, and the next
  neighbour that goes down wraps it around to the largest number, so that peers learnt from a
  synchronisation are no longer dialled.
\<close>

theorem neighbor_count_wraps:
  assumes "on_gossip_event env cfg now Lagged d = Some d1" and "on_gossip_event env cfg now' (NeighborDown p) d1 = Some d2"
  shows "dv_neighbors d2 = - 1 \<and> Dial [entry_address e] \<notin> set (drop (length (dv_effects d2)) (dv_effects (announce_observe e d2)))"
  using neighbors_after_lag [OF assms, of e] by auto

text \<open>
  The entry sent as the answer to a ping carries a version that is not stored: a change of the address
  in the same millisecond gets the same version with another content.
\<close>

theorem ping_version_reused:
  assumes "ping_answer env now secret c = Some s" and "on_address_change env cfg now' secret (cat_local_id c, a) c = Some (True, c')"
    and "to_millis now = to_millis now'"
  shows "\<exists>s'. cat_local c' = Some s' \<and> pe_version (fst s') = pe_version (fst s) \<and> pe_addrs (fst s') = a"
  using assms by (rule ping_answer_collides)

section \<open>Round-trip times\<close>

text \<open>
  The estimate of a round-trip time follows its samples: after any samples between \<open>lo\<close> and \<open>hi\<close> it
  lies between them (up to 14 ns of rounding), and \<open>n\<close> equal samples bring it closer to them by the
  factor \<open>(7/8) ^ n\<close>.
\<close>

theorem rtt_estimate_follows_samples:
  assumes "rs \<noteq> []" and "\<forall>r \<in> set rs. lo \<le> r \<and> r \<le> hi"
  shows "\<exists>st s'. record_samples now p rs rtt_tracker_new p = Some st \<and> lo \<le> rs_smoothed st + 14 \<and> rs_smoothed st \<le> hi \<and>
    rtt_get (record_samples now p (replicate n r) (record_samples now p rs rtt_tracker_new)) p = Some s' \<and>
    8 ^ n * (int r - int s' - 14) \<le> 7 ^ n * (int r - int (rs_smoothed st) - 14)"
proof -
  obtain st where st: "record_samples now p rs rtt_tracker_new p = Some st" "estimate_within lo hi st"
    using record_samples_within [OF assms(1) _ assms(2), of rtt_tracker_new p now] by (auto simp: rtt_tracker_new_def)
  have "rtt_get (record_samples now p rs rtt_tracker_new) p = Some (rs_smoothed st)" using st(1) by (simp add: rtt_get_def)
  from record_samples_converge [OF this, of now n r] st show ?thesis by (auto simp: estimate_within_def)
qed

theorem rtt_estimate_follows_samples_witness:
  "\<exists>st s'. record_samples 0 1 [100, 120] rtt_tracker_new 1 = Some st \<and> 100 \<le> rs_smoothed st + 14 \<and> rs_smoothed st \<le> 120 \<and>
    rtt_get (record_samples 0 1 (replicate 2 200) (record_samples 0 1 [100, 120] rtt_tracker_new)) 1 = Some s' \<and>
    64 * (200 - int s' - 14) \<le> 49 * (200 - int (rs_smoothed st) - 14)"
  using rtt_estimate_follows_samples [of "[100, 120]" 100 120 0 1 2 200] by simp

section \<open>Web tokens\<close>

text \<open>
  C29. A token is accepted exactly if it has three parts, its header names the algorithm of one of the
  configured keys, that key verifies the signature over the other two parts as they were sent, and the
  claims meet every configured condition at the current time; the times are compared as unbounded
  numbers, no conversion wraps.
\<close>

theorem jwt_accepts_iff:
  assumes "0 \<le> now" and "now < 1000000000 * 2 ^ 64" and "durations_ok j"
  shows "jwt_validate env j now data p = Some x \<longleftrightarrow>
    je_utf8 env data \<and>
    (\<exists>h c s bytes claims. \<exists>k \<in> set (jw_keys j). data = h @ ''.'' @ c @ ''.'' @ s \<and> no_dot h \<and> no_dot c \<and>
      je_b64_decode env h = Some bytes \<and> je_header_alg env bytes = Some (vk_algorithm_name k) \<and>
      vk_algo k h c s = Some True \<and> je_claims_decode env c = Some claims \<and>
      claims_valid env j (now div 1000000000) p claims \<and> x = claims_expiration (cl_expiration claims))"
  using assms by (rule jwt_validate_iff)

text \<open>An environment whose codecs write numbers in unary.\<close>

definition ex_unary :: "nat \<Rightarrow> string" where
  "ex_unary n = replicate n (CHR ''a'')"

definition ex_claims_code :: "nat claims \<Rightarrow> nat" where
  "ex_claims_code c = to_nat (cl_issuer c, cl_subject c, cl_audience c, map_option unat (cl_expiration c),
    map_option unat (cl_not_before c), map_option unat (cl_issued_at c), cl_token_id c, cl_private c)"

definition ex_claims_decode :: "string \<Rightarrow> nat claims option" where
  "ex_claims_decode s =
    (case from_nat (length s) of (iss, sub, aud, ex, nbf, iat, jti, priv) \<Rightarrow>
      Some \<lparr>cl_issuer = iss, cl_subject = sub, cl_audience = aud, cl_expiration = map_option word_of_nat ex,
        cl_not_before = map_option word_of_nat nbf, cl_issued_at = map_option word_of_nat iat, cl_token_id = jti,
        cl_private = priv\<rparr>)"

definition ex_jwt_env :: "nat jwt_env" where
  "ex_jwt_env =
    \<lparr>je_derive = (\<lambda>u s. to_nat (u, s)), je_digest_bytes = (\<lambda>u. ex_unary u), je_class = 1, je_utf8 = (\<lambda>s. True),
     je_b64_encode = (\<lambda>s. ex_unary (to_nat s)), je_b64_decode = (\<lambda>s. Some (from_nat (length s))),
     je_header_alg = (\<lambda>s. Some (take (length s - 22) (drop 8 s))),
     je_claims_encode = (\<lambda>c. Some (ex_unary (ex_claims_code c))), je_claims_decode = ex_claims_decode,
     je_peer_string = (\<lambda>p. ex_unary p), je_timestamp_ok = (\<lambda>t. t \<le> 8000000000000), je_as_str = (\<lambda>v. None), je_as_u64 = (\<lambda>v. None),
     je_to_string = ex_unary\<rparr>"

definition ex_key :: verifying_key where
  "ex_key = \<lparr>vk_algo = (\<lambda>h c s. Some (s = ''sig'')), vk_fingerprint = 5, vk_algorithm_name = ''HS256''\<rparr>"


definition ex_jwt :: "nat jwt" where
  "ex_jwt = with_max_age 60000000000 (allow_issuer ''me'' (jwt_with_key ex_key))"




theorem jwt_accepts_iff_witness: "jwt_validate ex_jwt_env ex_jwt 100000000000 ''a.b'' 3 = None"
proof -
  have "durations_ok ex_jwt"
    by (simp add: durations_ok_def ex_jwt_def with_max_age_def allow_issuer_def jwt_with_key_def)
  from jwt_accepts_iff [OF _ _ this, of 100000000000 ex_jwt_env "''a.b''" 3]
  have "\<not> jwt_validate ex_jwt_env ex_jwt 100000000000 ''a.b'' 3 = Some x" for x
    by (auto simp: append_eq_Cons_conv Cons_eq_append_conv)
  then show ?thesis by (metis not_Some_eq)
qed



text \<open>
  Validators with different settings can have the same signature, and so the same group identity:
  no limit and a limit below one second, no subject and the empty subject, two issuers and one issuer
  whose name contains a comma. They do not accept the same tokens.
\<close>

theorem jwt_signatures_collide:
  "jwt_signature env (j\<lparr>jw_max_age := None\<rparr>) = jwt_signature env (j\<lparr>jw_max_age := Some 0\<rparr>) \<and>
   jwt_signature env (j\<lparr>jw_max_lifetime := None\<rparr>) = jwt_signature env (j\<lparr>jw_max_lifetime := Some 0\<rparr>) \<and>
   jwt_signature env (j\<lparr>jw_subject := None\<rparr>) = jwt_signature env (j\<lparr>jw_subject := Some ''''\<rparr>) \<and>
   jwt_signature env (j\<lparr>jw_issuers := [a, b]\<rparr>) = jwt_signature env (j\<lparr>jw_issuers := [a @ '','' @ b]\<rparr>) \<and>
   (\<exists>c. check_claims env ((allow_non_expiring (jwt_with_key k))\<lparr>jw_max_age := None\<rparr>) 1 p c \<noteq>
     check_claims env ((allow_non_expiring (jwt_with_key k))\<lparr>jw_max_age := Some 0\<rparr>) 1 p c)"
proof -
  let ?c = "\<lparr>cl_issuer = None, cl_subject = Some (je_peer_string env p), cl_audience = None, cl_expiration = None,
    cl_not_before = None, cl_issued_at = Some 0, cl_token_id = None, cl_private = []\<rparr>"
  have "\<exists>c. check_claims env ((allow_non_expiring (jwt_with_key k))\<lparr>jw_max_age := None\<rparr>) 1 p c \<noteq>
      check_claims env ((allow_non_expiring (jwt_with_key k))\<lparr>jw_max_age := Some 0\<rparr>) 1 p c"
    by (rule exI [of _ ?c])
      (simp add: check_claims_def allow_non_expiring_def jwt_with_key_def expected_subject_def sat_sub_def as_secs_def)
  with signature_collisions(1-3) [of env j] signature_collisions(4) [of env a b j] show ?thesis by blast
qed

end
