(* ===== verification/Digest.thy ===== *)
theory Digest
  imports Tickets "HOL-Library.Char_ord"
begin

text \<open>
  \<open>primitives/id.rs\<close>: 32-byte identifiers. An identifier is the number its bytes denote, the first
  byte being the most significant one; \<open>as_bytes\<close> and \<open>from_bytes\<close> translate. The comparison of the
  byte arrays is then the order of the numbers. The hash function (blake3) and the hexadecimal
  decoder (the crate \<open>hex\<close>) are arguments.
\<close>

section \<open>Bytes\<close>

fun be_bytes :: "nat \<Rightarrow> nat \<Rightarrow> string" where
  "be_bytes 0 n = []"
| "be_bytes (Suc k) n = be_bytes k (n div 256) @ [char_of n]"

definition be_value :: "string \<Rightarrow> nat" where
  "be_value s = foldl (\<lambda>a c. 256 * a + of_char c) 0 s"

text \<open>\<open>to_le_bytes\<close> of an unsigned number of \<open>k\<close> bytes, and of a signed one.\<close>

definition le_bytes :: "nat \<Rightarrow> nat \<Rightarrow> string" where
  "le_bytes k n = rev (be_bytes k n)"

definition signed_le_bytes :: "nat \<Rightarrow> int \<Rightarrow> string" where
  "signed_le_bytes k n = le_bytes k (nat (n mod 256 ^ k))"

lemma length_be_bytes [simp]: "length (be_bytes k n) = k"
  by (induction k arbitrary: n) auto

lemma length_le_bytes [simp]: "length (le_bytes k n) = k"
  by (simp add: le_bytes_def)

lemma be_value_snoc [simp]: "be_value (s @ [c]) = 256 * be_value s + of_char c"
  by (simp add: be_value_def)

lemma be_value_Nil [simp]: "be_value [] = 0"
  by (simp add: be_value_def)

lemma of_char_less: "(of_char c :: nat) < 256"
  using nat_of_char_less_256 [of c] by simp

lemma be_value_less: "be_value s < 256 ^ length s"
proof (induction s rule: rev_induct)
  case (snoc c s)
  have "256 * be_value s + of_char c < 256 * (be_value s + 1)"
    using of_char_less [of c] by simp
  also have "\<dots> \<le> 256 * 256 ^ length s"
    using snoc by (intro mult_le_mono2) simp
  finally show ?case by simp
qed simp

lemma be_value_be_bytes: "be_value (be_bytes k n) = n mod 256 ^ k"
proof (induction k arbitrary: n)
  case (Suc k)
  have "be_value (be_bytes (Suc k) n) = 256 * (n div 256 mod 256 ^ k) + n mod 256"
    by (simp add: Suc)
  also have "\<dots> = n mod (256 * 256 ^ k)"
    by (simp add: mod_mult2_eq mult.commute)
  finally show ?case by simp
qed simp

lemma be_bytes_be_value: "length s = k \<Longrightarrow> be_bytes k (be_value s) = s"
proof (induction s arbitrary: k rule: rev_induct)
  case (snoc c s)
  have "(256 * be_value s + of_char c) div 256 = be_value s"
    using of_char_less [of c] by simp
  moreover have "char_of (256 * be_value s + of_char c) = c"
  proof -
    have "char_of (256 * be_value s + of_char c) = (char_of ((256 * be_value s + of_char c) mod 256) :: char)"
      by (rule char_of_mod_256 [symmetric])
    also have "(256 * be_value s + of_char c) mod 256 = of_char c"
      using of_char_less [of c] by (simp add: mod_mult_self4)
    finally show ?thesis by simp
  qed
  ultimately show ?case using snoc by auto
qed simp

lemma be_bytes_inj: "a < 256 ^ k \<Longrightarrow> b < 256 ^ k \<Longrightarrow> be_bytes k a = be_bytes k b \<longleftrightarrow> a = b"
  by (metis be_value_be_bytes mod_less)

lemma digit_order:
  fixes a b x y :: nat
  assumes "x < 256" "y < 256"
  shows "256 * a + x < 256 * b + y \<longleftrightarrow> a < b \<or> a = b \<and> x < y"
  using assms by auto

lemma be_value_order:
  "length s = length t \<Longrightarrow> be_value s < be_value t \<longleftrightarrow> ord_class.lexordp s t"
proof (induction s arbitrary: t rule: rev_induct)
  case (snoc c s)
  then obtain d t' where t: "t = t' @ [d]" and l: "length s = length t'"
    by (metis length_0_conv length_Suc_conv_rev length_append_singleton)
  have "256 * be_value s + of_char c < 256 * be_value t' + (of_char d :: nat) \<longleftrightarrow>
      be_value s < be_value t' \<or> be_value s = be_value t' \<and> (of_char c :: nat) < of_char d"
    by (rule digit_order [OF of_char_less of_char_less])
  moreover have "be_value s = be_value t' \<longleftrightarrow> s = t'"
    using be_bytes_be_value [of s "length s"] be_bytes_be_value [of t' "length s"] l by metis
  moreover have "ord_class.lexordp (s @ [c]) (t' @ [d]) \<longleftrightarrow> ord_class.lexordp s t' \<or> s = t' \<and> c < d"
    using l by (induction s t' rule: list_induct2) auto
  ultimately show ?case
    using snoc.IH [OF l] t by (auto simp: less_char_def)
qed simp

section \<open>Identifiers\<close>

definition digest_ok :: "unique_id \<Rightarrow> bool" where
  "digest_ok d \<longleftrightarrow> d < 256 ^ 32"

definition as_bytes :: "unique_id \<Rightarrow> string" where
  "as_bytes d = be_bytes 32 d"

definition from_bytes :: "string \<Rightarrow> unique_id" where
  "from_bytes s = be_value s"

definition digest_zero :: unique_id where
  "digest_zero = from_bytes (replicate 32 (char_of (0 :: nat)))"

text \<open>
  The constructors from numbers of \<open>k\<close> bytes put the little-endian bytes at the end of the array
  (\<open>k\<close> is 1, 2, 4, 8 or 16; \<open>usize\<close> has 8).
\<close>

definition from_uint :: "nat \<Rightarrow> nat \<Rightarrow> unique_id" where
  "from_uint k n = from_bytes (replicate (32 - k) (char_of (0 :: nat)) @ le_bytes k n)"

definition from_int :: "nat \<Rightarrow> int \<Rightarrow> unique_id" where
  "from_int k n = from_bytes (replicate (32 - k) (char_of (0 :: nat)) @ signed_le_bytes k n)"

lemma length_as_bytes [simp]: "length (as_bytes d) = 32"
  by (simp add: as_bytes_def)

lemma as_bytes_from_bytes: "length s = 32 \<Longrightarrow> as_bytes (from_bytes s) = s"
  by (simp add: as_bytes_def from_bytes_def be_bytes_be_value)

lemma from_bytes_as_bytes: "digest_ok d \<Longrightarrow> from_bytes (as_bytes d) = d"
  by (simp add: as_bytes_def from_bytes_def be_value_be_bytes digest_ok_def)

lemma as_bytes_inj: "digest_ok a \<Longrightarrow> digest_ok b \<Longrightarrow> as_bytes a = as_bytes b \<longleftrightarrow> a = b"
  by (simp add: as_bytes_def digest_ok_def be_bytes_inj)

lemma from_bytes_ok: "length s = 32 \<Longrightarrow> digest_ok (from_bytes s)"
  using be_value_less [of s] by (simp add: digest_ok_def from_bytes_def)

text \<open>\<open>Ord for Digest\<close> compares the byte arrays.\<close>

lemma digest_order:
  "digest_ok a \<Longrightarrow> digest_ok b \<Longrightarrow> ord_class.lexordp (as_bytes a) (as_bytes b) \<longleftrightarrow> a < b"
  using be_value_order [of "as_bytes a" "as_bytes b"] from_bytes_as_bytes [of a] from_bytes_as_bytes [of b]
  by (simp add: from_bytes_def)

lemma from_uint_inj:
  assumes "k \<le> 32" "a < 256 ^ k" "b < 256 ^ k" "from_uint k a = from_uint k b"
  shows "a = b"
proof -
  have "replicate (32 - k) (char_of (0 :: nat)) @ le_bytes k a = replicate (32 - k) (char_of (0 :: nat)) @ le_bytes k b"
    using arg_cong [OF assms(4), of as_bytes] assms(1) by (simp add: from_uint_def as_bytes_from_bytes)
  then have "be_bytes k a = be_bytes k b" by (simp add: le_bytes_def)
  then show ?thesis using assms by (simp add: be_bytes_inj)
qed

section \<open>Hashing\<close>

type_synonym hash_fun = "string \<Rightarrow> unique_id"

definition from_parts :: "hash_fun \<Rightarrow> string list \<Rightarrow> unique_id" where
  "from_parts hash parts = hash (concat parts)"

definition digest_derive :: "hash_fun \<Rightarrow> unique_id \<Rightarrow> string \<Rightarrow> unique_id" where
  "digest_derive hash d info = hash (as_bytes d @ info)"

definition hashed :: "hash_fun \<Rightarrow> unique_id \<Rightarrow> unique_id" where
  "hashed hash d = hash (as_bytes d)"

text \<open>A text or a byte slice that spells 32 bytes in hexadecimal is taken as it is.\<close>

definition from_slice :: "(string \<Rightarrow> string option) \<Rightarrow> hash_fun \<Rightarrow> string \<Rightarrow> unique_id" where
  "from_slice hex_decode hash s =
    (case hex_decode s of
       Some b \<Rightarrow> if length b = 32 then from_bytes b else hash s
     | None \<Rightarrow> hash s)"

definition digest_to_string :: "(string \<Rightarrow> string) \<Rightarrow> unique_id \<Rightarrow> string" where
  "digest_to_string to_hex d = to_hex (as_bytes d)"

lemma print_parse:
  assumes "hex_decode (to_hex (as_bytes d)) = Some (as_bytes d)" "digest_ok d"
  shows "from_slice hex_decode hash (digest_to_string to_hex d) = d"
  using assms by (simp add: from_slice_def digest_to_string_def from_bytes_as_bytes)

text \<open>
  Collision freedom is only ever assumed for the inputs at hand: a hash with 32-byte results is not
  injective.
\<close>

lemma derive_eqD:
  assumes "digest_derive hash a x = digest_derive hash b y"
    and "inj_on hash {as_bytes a @ x, as_bytes b @ y}" and "digest_ok a" "digest_ok b"
  shows "a = b \<and> x = y"
  using assms by (auto simp: digest_derive_def as_bytes_inj)

end
