(* ===== verification/Link.thy ===== *)
theory Link
  imports Digest
begin

text \<open>
  \<open>network/link.rs\<close> and the close reasons of \<open>network/error.rs\<close>, \<open>groups/error.rs\<close> and
  \<open>streams/mod.rs\<close>: framed, cancellable, typed messages over one connection, and how every way an
  operation can end is turned into an error and a close frame.

  The connection (\<open>iroh\<close>, QUIC) is a parameter: \<open>transport\<close> has its operations, and what a pending
  read or write yields is an argument of the operation (\<open>frame_read\<close>, \<open>frame_write\<close>). Decoding and
  encoding (\<open>Datum\<close>) are arguments too. \<open>Inl\<close> is the error.
\<close>

section \<open>Close reasons\<close>

record app_close =
  ac_code :: nat
  ac_reason :: string

definition make_close_reason :: "string \<Rightarrow> nat \<Rightarrow> app_close" where
  "make_close_reason name code = \<lparr>ac_code = code, ac_reason = name\<rparr>"

text \<open>Comparing with a close reason looks at the code only.\<close>

definition is_reason :: "app_close \<Rightarrow> app_close \<Rightarrow> bool" where
  "is_reason r c \<longleftrightarrow> ac_code r = ac_code c"

definition Success :: app_close where "Success = make_close_reason ''Success'' 200"
definition GracefulShutdown :: app_close where "GracefulShutdown = make_close_reason ''GracefulShutdown'' 204"
definition InvalidAlpn :: app_close where "InvalidAlpn = make_close_reason ''InvalidAlpn'' 100"
definition DifferentNetwork :: app_close where "DifferentNetwork = make_close_reason ''DifferentNetwork'' 101"
definition Cancelled :: app_close where "Cancelled = make_close_reason ''Cancelled'' 102"
definition UnexpectedClose :: app_close where "UnexpectedClose = make_close_reason ''UnexpectedClose'' 103"
definition ProtocolViolation :: app_close where "ProtocolViolation = make_close_reason ''ProtocolViolation'' 400"
definition UnknownPeer :: app_close where "UnknownPeer = make_close_reason ''UnknownPeer'' 401"

definition InvalidHandshake :: app_close where "InvalidHandshake = make_close_reason ''InvalidHandshake'' 30400"
definition NotAllowed :: app_close where "NotAllowed = make_close_reason ''NotAllowed'' 30403"
definition GroupNotFound :: app_close where "GroupNotFound = make_close_reason ''GroupNotFound'' 30404"
definition InvalidProof :: app_close where "InvalidProof = make_close_reason ''InvalidProof'' 30405"
definition Timeout :: app_close where "Timeout = make_close_reason ''Timeout'' 30408"
definition AlreadyBonded :: app_close where "AlreadyBonded = make_close_reason ''AlreadyBonded'' 30429"

named_theorems close_reason_defs \<open>the close reasons with their codes\<close>

lemmas [close_reason_defs] =
  make_close_reason_def Success_def GracefulShutdown_def InvalidAlpn_def DifferentNetwork_def Cancelled_def
  UnexpectedClose_def ProtocolViolation_def UnknownPeer_def InvalidHandshake_def NotAllowed_def
  GroupNotFound_def InvalidProof_def Timeout_def AlreadyBonded_def is_reason_def

lemma is_reason_refl [simp]: "is_reason r r"
  by (simp add: is_reason_def)

section \<open>Errors\<close>

datatype conn_error = ApplicationClosed app_close | LocallyClosed | ConnectionLost string

datatype stream_error = StreamLost conn_error | StreamBroken string

datatype open_error = OpenIo conn_error | OpenFailed string | OpenCancelled

datatype accept_error =
    AcceptIo conn_error | AcceptFailed string | AcceptInvalidAlpn string string | AcceptCancelled

datatype recv_error = RecvIo stream_error | RecvDecode | RecvUnknown string | RecvCancelled

datatype send_error = SendEncode | SendIo stream_error | SendUnknown string | SendCancelled

datatype close_error = AlreadyClosed conn_error | UnexpectedReason conn_error | CloseCancelled

datatype link_error =
    LinkOpen open_error | LinkAccept accept_error | LinkRecv recv_error | LinkWrite send_error
  | LinkClose close_error | LinkCancelled

fun open_close_reason :: "open_error \<Rightarrow> app_close option" where
  "open_close_reason (OpenIo (ApplicationClosed r)) = Some r"
| "open_close_reason _ = None"

fun accept_close_reason :: "accept_error \<Rightarrow> app_close option" where
  "accept_close_reason (AcceptIo (ApplicationClosed r)) = Some r"
| "accept_close_reason _ = None"

fun recv_close_reason :: "recv_error \<Rightarrow> app_close option" where
  "recv_close_reason (RecvIo (StreamLost (ApplicationClosed r))) = Some r"
| "recv_close_reason _ = None"

fun send_close_reason :: "send_error \<Rightarrow> app_close option" where
  "send_close_reason (SendIo (StreamLost (ApplicationClosed r))) = Some r"
| "send_close_reason _ = None"

fun close_close_reason :: "close_error \<Rightarrow> app_close option" where
  "close_close_reason (UnexpectedReason (ApplicationClosed r)) = Some r"
| "close_close_reason _ = None"

fun link_close_reason :: "link_error \<Rightarrow> app_close option" where
  "link_close_reason (LinkAccept e) = accept_close_reason e"
| "link_close_reason (LinkOpen e) = open_close_reason e"
| "link_close_reason (LinkRecv e) = recv_close_reason e"
| "link_close_reason (LinkWrite e) = send_close_reason e"
| "link_close_reason (LinkClose e) = close_close_reason e"
| "link_close_reason LinkCancelled = None"

fun link_is_cancelled :: "link_error \<Rightarrow> bool" where
  "link_is_cancelled (LinkOpen e) = (e = OpenCancelled)"
| "link_is_cancelled (LinkAccept e) = (e = AcceptCancelled)"
| "link_is_cancelled (LinkRecv e) = (e = RecvCancelled)"
| "link_is_cancelled (LinkWrite e) = (e = SendCancelled)"
| "link_is_cancelled (LinkClose e) = (e = CloseCancelled)"
| "link_is_cancelled LinkCancelled = True"

definition was_already_closed :: "close_error \<Rightarrow> bool" where
  "was_already_closed e \<longleftrightarrow> (\<exists>c. e = AlreadyClosed c)"

text \<open>The conversions into \<open>LinkError\<close>.\<close>

definition link_of_open :: "open_error \<Rightarrow> link_error" where
  "link_of_open e = (if e = OpenCancelled then LinkCancelled else LinkOpen e)"

definition link_of_accept :: "accept_error \<Rightarrow> link_error" where
  "link_of_accept e = (if e = AcceptCancelled then LinkCancelled else LinkAccept e)"

definition link_of_recv :: "recv_error \<Rightarrow> link_error" where
  "link_of_recv e = (if e = RecvCancelled then LinkCancelled else LinkRecv e)"

definition link_of_send :: "send_error \<Rightarrow> link_error" where
  "link_of_send e = (if e = SendCancelled then LinkCancelled else LinkWrite e)"

definition link_of_close :: "close_error \<Rightarrow> link_error" where
  "link_of_close e = (if e = CloseCancelled then LinkCancelled else LinkClose e)"

lemma conversions_keep_reason:
  "link_close_reason (link_of_open oe) = open_close_reason oe"
  "link_close_reason (link_of_accept ae) = accept_close_reason ae"
  "link_close_reason (link_of_recv re) = recv_close_reason re"
  "link_close_reason (link_of_send se) = send_close_reason se"
  "link_close_reason (link_of_close ce) = close_close_reason ce"
  by (auto simp: link_of_open_def link_of_accept_def link_of_recv_def link_of_send_def link_of_close_def)

lemma conversions_keep_cancelled:
  "link_is_cancelled (link_of_open oe) \<longleftrightarrow> oe = OpenCancelled"
  "link_is_cancelled (link_of_accept ae) \<longleftrightarrow> ae = AcceptCancelled"
  "link_is_cancelled (link_of_recv re) \<longleftrightarrow> re = RecvCancelled"
  "link_is_cancelled (link_of_send se) \<longleftrightarrow> se = SendCancelled"
  "link_is_cancelled (link_of_close ce) \<longleftrightarrow> ce = CloseCancelled"
  by (auto simp: link_of_open_def link_of_accept_def link_of_recv_def link_of_send_def link_of_close_def)

section \<open>Connections\<close>

record 'x transport =
  tr_remote :: "'x \<Rightarrow> peer_id"
  tr_alpn :: "'x \<Rightarrow> string"
  tr_export :: "'x \<Rightarrow> string \<Rightarrow> string \<Rightarrow> string"
  tr_close_reason :: "'x \<Rightarrow> conn_error option"
  tr_close :: "app_close \<Rightarrow> 'x \<Rightarrow> 'x"

text \<open>
  What is relied on: closing an open connection closes it locally, closing a closed one changes
  nothing, and neither touches the identity or the keys of the session.
\<close>

definition transport_law :: "'x transport \<Rightarrow> bool" where
  "transport_law tr \<longleftrightarrow>
    (\<forall>x r. tr_close_reason tr x = None \<longrightarrow> tr_close_reason tr (tr_close tr r x) = Some LocallyClosed) \<and>
    (\<forall>x r e. tr_close_reason tr x = Some e \<longrightarrow> tr_close tr r x = x) \<and>
    (\<forall>x r. tr_remote tr (tr_close tr r x) = tr_remote tr x \<and> tr_export tr (tr_close tr r x) = tr_export tr x)"

text \<open>\<open>close_connection\<close>: the second component is the reason if it is not the local close.\<close>

definition close_connection :: "'x transport \<Rightarrow> app_close \<Rightarrow> 'x \<Rightarrow> 'x \<times> conn_error option" where
  "close_connection tr reason x =
    (let x1 = tr_close tr reason x
     in (x1, case tr_close_reason tr x1 of Some LocallyClosed \<Rightarrow> None | e \<Rightarrow> e))"

definition shared_random :: "'x transport \<Rightarrow> string \<Rightarrow> string \<Rightarrow> 'x \<Rightarrow> unique_id" where
  "shared_random tr alpn label x = from_bytes (tr_export tr x label alpn)"

section \<open>Opening\<close>

datatype bi_outcome = BiCancelled | BiFailed conn_error | BiOk

definition accept_with_cancel :: "'x transport \<Rightarrow> string \<Rightarrow> bi_outcome \<Rightarrow> 'x \<Rightarrow> (accept_error + 'x) \<times> 'x" where
  "accept_with_cancel tr alpn outcome x =
    (if alpn \<noteq> tr_alpn tr x
     then (case close_connection tr InvalidAlpn x of
             (x1, Some e) \<Rightarrow> (Inl (AcceptIo e), x1)
           | (x1, None) \<Rightarrow> (Inl (AcceptInvalidAlpn alpn (tr_alpn tr x)), x1))
     else case outcome of
            BiCancelled \<Rightarrow> (Inl AcceptCancelled, fst (close_connection tr Cancelled x))
          | BiFailed e \<Rightarrow> (Inl (AcceptIo e), x)
          | BiOk \<Rightarrow> (Inr x, x))"

datatype 'x connect_outcome = ConnectCancelled | ConnectFailed open_error | ConnectOk 'x bi_outcome

definition open_with_cancel :: "'x transport \<Rightarrow> 'x connect_outcome \<Rightarrow> open_error + 'x" where
  "open_with_cancel tr outcome =
    (case outcome of
       ConnectCancelled \<Rightarrow> Inl OpenCancelled
     | ConnectFailed e \<Rightarrow> Inl e
     | ConnectOk x BiCancelled \<Rightarrow> Inl OpenCancelled
     | ConnectOk x (BiFailed e) \<Rightarrow> Inl (OpenIo e)
     | ConnectOk x BiOk \<Rightarrow> Inr x)"

section \<open>Messages\<close>

datatype frame_read =
  ReadCancelled | ReadEnd | ReadBytes string | ReadFailed stream_error | ReadUnknown string

definition recv_with_size ::
  "'x transport \<Rightarrow> (string \<Rightarrow> 'd option) \<Rightarrow> frame_read \<Rightarrow> 'x \<Rightarrow> (recv_error + 'd \<times> nat) \<times> 'x" where
  "recv_with_size tr decode read x =
    (case read of
       ReadCancelled \<Rightarrow> (Inl RecvCancelled, fst (close_connection tr Cancelled x))
     | ReadEnd \<Rightarrow>
         (case close_connection tr UnexpectedClose x of
            (x1, None) \<Rightarrow> (Inl (RecvIo (StreamLost (ApplicationClosed UnexpectedClose))), x1)
          | (x1, Some e) \<Rightarrow> (Inl (RecvIo (StreamLost e)), x1))
     | ReadFailed e \<Rightarrow> (Inl (RecvIo e), x)
     | ReadUnknown e \<Rightarrow> (Inl (RecvUnknown e), x)
     | ReadBytes bytes \<Rightarrow>
         (case decode bytes of
            None \<Rightarrow> (Inl RecvDecode, fst (close_connection tr ProtocolViolation x))
          | Some d \<Rightarrow> (Inr (d, length bytes), x)))"

definition link_recv ::
  "'x transport \<Rightarrow> (string \<Rightarrow> 'd option) \<Rightarrow> frame_read \<Rightarrow> 'x \<Rightarrow> (recv_error + 'd) \<times> 'x" where
  "link_recv tr decode read x = map_prod (map_sum id fst) id (recv_with_size tr decode read x)"

datatype frame_write = WriteCancelled | WriteDone | WriteFailed stream_error | WriteUnknown string

definition send_raw :: "'x transport \<Rightarrow> string \<Rightarrow> frame_write \<Rightarrow> 'x \<Rightarrow> (send_error + nat) \<times> 'x" where
  "send_raw tr bytes write x =
    (case write of
       WriteCancelled \<Rightarrow> (Inl SendCancelled, fst (close_connection tr Cancelled x))
     | WriteDone \<Rightarrow> (Inr (length bytes), x)
     | WriteFailed e \<Rightarrow> (Inl (SendIo e), x)
     | WriteUnknown e \<Rightarrow> (Inl (SendUnknown e), x))"

definition link_send ::
  "'x transport \<Rightarrow> ('d \<Rightarrow> string option) \<Rightarrow> 'd \<Rightarrow> frame_write \<Rightarrow> 'x \<Rightarrow> (send_error + nat) \<times> 'x" where
  "link_send tr encode d write x =
    (case encode d of
       None \<Rightarrow> (Inl SendEncode, x)
     | Some bytes \<Rightarrow> send_raw tr bytes write x)"

section \<open>Closing\<close>

text \<open>The flag says whether the cancellation token of the link is set while the closure is awaited.\<close>

definition link_close :: "'x transport \<Rightarrow> bool \<Rightarrow> app_close \<Rightarrow> 'x \<Rightarrow> (close_error + unit) \<times> 'x" where
  "link_close tr cancelled reason x =
    (case tr_close_reason tr x of
       Some e \<Rightarrow> (Inl (AlreadyClosed e), x)
     | None \<Rightarrow>
         (let x1 = tr_close tr reason x
          in (if cancelled then Inl CloseCancelled
              else case tr_close_reason tr x1 of
                     Some LocallyClosed \<Rightarrow> Inr ()
                   | Some e \<Rightarrow> Inl (UnexpectedReason e)
                   | None \<Rightarrow> Inl CloseCancelled, x1)))"

text \<open>The future \<open>closed\<close>; \<open>None\<close> is the cancellation.\<close>

definition link_closed :: "conn_error option \<Rightarrow> conn_error + unit" where
  "link_closed outcome =
    (case outcome of
       None \<Rightarrow> Inr ()
     | Some LocallyClosed \<Rightarrow> Inr ()
     | Some (ApplicationClosed r) \<Rightarrow> if is_reason r Success then Inr () else Inl (ApplicationClosed r)
     | Some e \<Rightarrow> Inl e)"

lemma link_close_open:
  "transport_law tr \<Longrightarrow> tr_close_reason tr x = None \<Longrightarrow> link_close tr False r x = (Inr (), tr_close tr r x)"
  by (simp add: link_close_def transport_law_def Let_def)

lemma link_close_closed:
  "tr_close_reason tr x = Some e \<Longrightarrow> link_close tr c r x = (Inl (AlreadyClosed e), x)"
  by (simp add: link_close_def)

lemma close_connection_open:
  "transport_law tr \<Longrightarrow> tr_close_reason tr x = None \<Longrightarrow> close_connection tr r x = (tr_close tr r x, None)"
  by (simp add: close_connection_def transport_law_def Let_def)

lemma shared_random_ok: "length (tr_export tr x label alpn) = 32 \<Longrightarrow> digest_ok (shared_random tr alpn label x)"
  by (simp add: shared_random_def from_bytes_ok)

text \<open>An operation that ends with the cancellation error leaves an open connection closed.\<close>

lemma cancelled_recv_closes:
  "transport_law tr \<Longrightarrow> recv_with_size tr decode read x = (Inl RecvCancelled, x')
    \<Longrightarrow> tr_close_reason tr x' \<noteq> None"
  by (cases "tr_close_reason tr x")
    (auto simp: recv_with_size_def close_connection_def transport_law_def Let_def
      split: frame_read.splits option.splits conn_error.splits)

text \<open>What was encoded is what is decoded at the other end.\<close>

lemma send_recv_roundtrip:
  "encode d = Some bytes \<Longrightarrow> decode bytes = Some d \<Longrightarrow> link_send tr encode d WriteDone x = (Inr n, x')
    \<Longrightarrow> link_recv tr decode (ReadBytes bytes) y = (Inr d, y) \<and> n = length bytes"
  by (simp add: link_send_def send_raw_def link_recv_def recv_with_size_def)

end
