(* ===== verification/Group_Key.thy ===== *)
theory Group_Key
  imports Link Peer_Entry
begin

text \<open>
  \<open>groups/key.rs\<close>, \<open>groups/config.rs\<close> and the configuration in \<open>groups/builder.rs\<close>: the secret of a
  group, the identifier that is derived from it and from the configuration, the proofs of knowledge
  that are exchanged when two members connect, and the authorisation by tickets.

  Durations are nanoseconds. A validator reads the clock, so it is a function of the time; the
  signature of the state machine and of its synchronisation protocol are arguments.
\<close>

section \<open>Configuration\<close>

record consensus_config =
  cc_heartbeat_interval :: nat
  cc_heartbeat_jitter :: nat
  cc_max_missed_heartbeats :: nat
  cc_election_timeout :: nat
  cc_election_timeout_jitter :: nat
  cc_bootstrap_delay :: nat
  cc_forward_timeout :: nat
  cc_query_timeout :: nat

definition consensus_default :: consensus_config where
  "consensus_default =
    \<lparr>cc_heartbeat_interval = 500000000, cc_heartbeat_jitter = 150000000, cc_max_missed_heartbeats = 10,
     cc_election_timeout = 2000000000, cc_election_timeout_jitter = 500000000, cc_bootstrap_delay = 3000000000,
     cc_forward_timeout = 2000000000, cc_query_timeout = 2000000000\<rparr>"

text \<open>\<open>None\<close>: the range of the random number is empty and \<open>random_range\<close> panics.\<close>

definition election_timeout_draw :: "nat \<Rightarrow> consensus_config \<Rightarrow> nat option" where
  "election_timeout_draw draw c =
    (if cc_election_timeout_jitter c = 0 then None
     else Some (cc_election_timeout c + draw mod cc_election_timeout_jitter c))"

definition as_millis :: "nat \<Rightarrow> nat" where
  "as_millis d = d div 1000000"

definition consensus_digest :: "hash_fun \<Rightarrow> consensus_config \<Rightarrow> unique_id" where
  "consensus_digest hash c =
    from_parts hash
      [le_bytes 16 (as_millis (cc_heartbeat_interval c)),
       le_bytes 16 (as_millis (cc_heartbeat_jitter c)),
       le_bytes 16 (cc_max_missed_heartbeats c)]"

section \<open>Keys\<close>

datatype group_key = GroupKey (gk_secret: unique_id)

record 'a group_validator =
  gv_signature :: unique_id
  gv_at :: "int \<Rightarrow> 'a peer_entry ticket_validator"

definition key_of_validator :: "'a group_validator \<Rightarrow> group_key" where
  "key_of_validator v = GroupKey (gv_signature v)"

definition groups_alpn :: string where
  "groups_alpn = ''/mosaik/groups/1''"

definition generate_proof ::
  "hash_fun \<Rightarrow> 'x transport \<Rightarrow> group_key \<Rightarrow> 'x \<Rightarrow> peer_id \<Rightarrow> unique_id \<Rightarrow> unique_id" where
  "generate_proof hash tr key x p group_id =
    digest_derive hash
      (digest_derive hash (gk_secret key) (as_bytes (shared_random tr groups_alpn (as_bytes group_id) x)))
      (as_bytes p)"

definition validate_proof ::
  "hash_fun \<Rightarrow> 'x transport \<Rightarrow> group_key \<Rightarrow> 'x \<Rightarrow> unique_id \<Rightarrow> unique_id \<Rightarrow> bool" where
  "validate_proof hash tr key x proof group_id \<longleftrightarrow> generate_proof hash tr key x (tr_remote tr x) group_id = proof"

section \<open>The configuration of a group\<close>

record 'a group_config =
  gc_id :: unique_id
  gc_key :: group_key
  gc_consensus :: consensus_config
  gc_auth :: "'a group_validator list"

definition group_config_new ::
  "hash_fun \<Rightarrow> group_key \<Rightarrow> consensus_config \<Rightarrow> unique_id \<Rightarrow> unique_id \<Rightarrow> 'a group_validator list \<Rightarrow> 'a group_config" where
  "group_config_new hash key consensus machine_sig sync_sig auth =
    (let i = digest_derive hash
               (digest_derive hash
                 (digest_derive hash (hashed hash (gk_secret key)) (as_bytes (consensus_digest hash consensus)))
                 (as_bytes machine_sig))
               (as_bytes sync_sig)
     in \<lparr>gc_id = foldl (\<lambda>i v. digest_derive hash i (as_bytes (gv_signature v))) i auth,
         gc_key = key, gc_consensus = consensus, gc_auth = auth\<rparr>)"

definition authorize_peer ::
  "'a group_config \<Rightarrow> int \<Rightarrow> ('a, 'g) signed_entry \<Rightarrow> expiration option option" where
  "authorize_peer cfg now peer = validate_tickets (map (\<lambda>v. gv_at v now) (gc_auth cfg)) (fst peer)"

definition authorized :: "'a group_config \<Rightarrow> int \<Rightarrow> ('a, 'g) signed_entry \<Rightarrow> bool" where
  "authorized cfg now peer \<longleftrightarrow> authorize_peer cfg now peer \<noteq> None"

section \<open>Chains of derivations\<close>

definition derive_chain :: "hash_fun \<Rightarrow> unique_id \<Rightarrow> unique_id list \<Rightarrow> unique_id" where
  "derive_chain hash d infos = foldl (\<lambda>a i. digest_derive hash a (as_bytes i)) d infos"

text \<open>The byte strings that are hashed along a chain.\<close>

fun chain_inputs :: "hash_fun \<Rightarrow> unique_id \<Rightarrow> unique_id list \<Rightarrow> string list" where
  "chain_inputs hash d [] = []"
| "chain_inputs hash d (i # is) = (as_bytes d @ as_bytes i) # chain_inputs hash (digest_derive hash d (as_bytes i)) is"

lemma derive_chain_snoc:
  "derive_chain hash d (is @ [i]) = digest_derive hash (derive_chain hash d is) (as_bytes i)"
  by (simp add: derive_chain_def)

lemma derive_chain_Nil [simp]: "derive_chain hash d [] = d"
  by (simp add: derive_chain_def)

lemma chain_inputs_snoc:
  "chain_inputs hash d (is @ [i]) = chain_inputs hash d is @ [as_bytes (derive_chain hash d is) @ as_bytes i]"
  by (induction "is" arbitrary: d) (auto simp: derive_chain_def)

lemma derive_chain_ok: "(\<And>s. digest_ok (hash s)) \<Longrightarrow> digest_ok d \<Longrightarrow> digest_ok (derive_chain hash d is)"
  by (induction "is" rule: rev_induct) (auto simp: derive_chain_snoc digest_derive_def)

text \<open>
  Two chains that start from hashed secrets end in the same value only if they agree everywhere:
  the first link hashes 32 bytes, every other one 64.
\<close>

lemma derive_chain_inj:
  assumes range: "\<And>s. digest_ok (hash s)"
    and ok: "digest_ok a" "digest_ok b" "list_all digest_ok is" "list_all digest_ok js"
    and inj: "inj_on hash ({as_bytes a, as_bytes b} \<union> set (chain_inputs hash (hashed hash a) is) \<union> set (chain_inputs hash (hashed hash b) js))"
    and eq: "derive_chain hash (hashed hash a) is = derive_chain hash (hashed hash b) js"
  shows "a = b \<and> is = js"
  using inj eq ok(3,4)
proof (induction "is" arbitrary: js rule: rev_induct)
  case Nil
  show ?case
  proof (cases js rule: rev_cases)
    case Nil
    then show ?thesis
      using Nil.prems ok(1,2) by (auto simp: hashed_def as_bytes_inj dest: inj_onD)
  next
    case (snoc js' j)
    then have "hash (as_bytes a) = hash (as_bytes (derive_chain hash (hashed hash b) js') @ as_bytes j)"
      using Nil.prems by (simp add: derive_chain_snoc digest_derive_def hashed_def)
    then have "as_bytes a = as_bytes (derive_chain hash (hashed hash b) js') @ as_bytes j"
      by (rule inj_onD [OF Nil.prems(1)]) (auto simp: chain_inputs_snoc snoc)
    then have "length (as_bytes a) = length (as_bytes (derive_chain hash (hashed hash b) js') @ as_bytes j)" by simp
    then show ?thesis by simp
  qed
next
  case (snoc i "is")
  show ?case
  proof (cases js rule: rev_cases)
    case Nil
    then have "hash (as_bytes b) = hash (as_bytes (derive_chain hash (hashed hash a) is) @ as_bytes i)"
      using snoc.prems by (simp add: derive_chain_snoc digest_derive_def hashed_def)
    then have "as_bytes b = as_bytes (derive_chain hash (hashed hash a) is) @ as_bytes i"
      by (rule inj_onD [OF snoc.prems(1)]) (auto simp: chain_inputs_snoc Nil)
    then have "length (as_bytes b) = length (as_bytes (derive_chain hash (hashed hash a) is) @ as_bytes i)" by simp
    then show ?thesis by simp
  next
    case js: (snoc js' j)
    let ?u = "derive_chain hash (hashed hash a) is" and ?v = "derive_chain hash (hashed hash b) js'"
    have "digest_ok ?u" "digest_ok ?v" using range by (auto simp: hashed_def intro: derive_chain_ok)
    moreover have "digest_ok i" "digest_ok j" using snoc.prems js by auto
    moreover have "hash (as_bytes ?u @ as_bytes i) = hash (as_bytes ?v @ as_bytes j)"
      using snoc.prems(2) js by (simp add: derive_chain_snoc digest_derive_def)
    then have "as_bytes ?u @ as_bytes i = as_bytes ?v @ as_bytes j"
      by (rule inj_onD [OF snoc.prems(1)]) (auto simp: chain_inputs_snoc js)
    ultimately have "?u = ?v" "i = j" by (simp_all add: as_bytes_inj)
    moreover have "a = b \<and> is = js'"
    proof (rule snoc.IH)
      show "inj_on hash ({as_bytes a, as_bytes b} \<union> set (chain_inputs hash (hashed hash a) is) \<union> set (chain_inputs hash (hashed hash b) js'))"
        by (rule inj_on_subset [OF snoc.prems(1)]) (auto simp: js chain_inputs_snoc)
    qed (use snoc.prems js \<open>?u = ?v\<close> in auto)
    ultimately show ?thesis using js by simp
  qed
qed

section \<open>What is bound by a group identifier and by a proof\<close>

lemma group_id_chain:
  "gc_id (group_config_new hash key consensus machine_sig sync_sig auth) =
    derive_chain hash (hashed hash (gk_secret key))
      (consensus_digest hash consensus # machine_sig # sync_sig # map gv_signature auth)"
proof -
  have "foldl (\<lambda>i v. digest_derive hash i (as_bytes (gv_signature v))) d auth = derive_chain hash d (map gv_signature auth)" for d
    by (simp add: derive_chain_def foldl_map)
  then show ?thesis by (simp add: group_config_new_def Let_def derive_chain_def)
qed

definition consensus_bytes :: "consensus_config \<Rightarrow> string" where
  "consensus_bytes c =
    le_bytes 16 (as_millis (cc_heartbeat_interval c)) @ le_bytes 16 (as_millis (cc_heartbeat_jitter c)) @
    le_bytes 16 (cc_max_missed_heartbeats c)"

text \<open>Everything that is hashed for a group identifier.\<close>

definition config_inputs ::
  "hash_fun \<Rightarrow> group_key \<Rightarrow> consensus_config \<Rightarrow> unique_id \<Rightarrow> unique_id \<Rightarrow> unique_id list \<Rightarrow> string list" where
  "config_inputs hash key consensus machine_sig sync_sig sigs =
    [as_bytes (gk_secret key), consensus_bytes consensus] @
    chain_inputs hash (hashed hash (gk_secret key)) (consensus_digest hash consensus # machine_sig # sync_sig # sigs)"

definition consensus_ok :: "consensus_config \<Rightarrow> bool" where
  "consensus_ok c \<longleftrightarrow> as_millis (cc_heartbeat_interval c) < 256 ^ 16 \<and> as_millis (cc_heartbeat_jitter c) < 256 ^ 16 \<and>
    cc_max_missed_heartbeats c < 256 ^ 16"

lemma consensus_digest_eq: "consensus_digest hash c = hash (consensus_bytes c)"
  by (simp add: consensus_digest_def from_parts_def consensus_bytes_def)

lemma consensus_bytes_inj:
  assumes "consensus_ok c" "consensus_ok c'" "consensus_bytes c = consensus_bytes c'"
  shows "as_millis (cc_heartbeat_interval c) = as_millis (cc_heartbeat_interval c') \<and>
    as_millis (cc_heartbeat_jitter c) = as_millis (cc_heartbeat_jitter c') \<and>
    cc_max_missed_heartbeats c = cc_max_missed_heartbeats c'"
  using assms by (auto simp: consensus_bytes_def consensus_ok_def le_bytes_def be_bytes_inj)

definition proof_inputs :: "hash_fun \<Rightarrow> 'x transport \<Rightarrow> group_key \<Rightarrow> 'x \<Rightarrow> peer_id \<Rightarrow> unique_id \<Rightarrow> string list" where
  "proof_inputs hash tr key x p group_id =
    (let r = as_bytes (shared_random tr groups_alpn (as_bytes group_id) x)
     in [as_bytes (gk_secret key) @ r, as_bytes (digest_derive hash (gk_secret key) r) @ as_bytes p])"

text \<open>A proof is accepted only if it was made with the same secret, in the same session, by the peer at the other end.\<close>

lemma proof_accepted_iff:
  assumes range: "\<And>s. digest_ok (hash s)" and ok: "digest_ok (gk_secret k)" "digest_ok (gk_secret k')"
      "digest_ok (tr_remote tr x)" "digest_ok p"
      "digest_ok (shared_random tr groups_alpn (as_bytes g) x)" "digest_ok (shared_random tr groups_alpn (as_bytes g') y)"
    and inj: "inj_on hash (set (proof_inputs hash tr k x (tr_remote tr x) g @ proof_inputs hash tr k' y p g'))"
  shows "validate_proof hash tr k x (generate_proof hash tr k' y p g') g \<longleftrightarrow>
    k = k' \<and> shared_random tr groups_alpn (as_bytes g) x = shared_random tr groups_alpn (as_bytes g') y \<and> p = tr_remote tr x"
proof
  let ?r = "as_bytes (shared_random tr groups_alpn (as_bytes g) x)" and ?r' = "as_bytes (shared_random tr groups_alpn (as_bytes g') y)"
  let ?u = "digest_derive hash (gk_secret k) ?r" and ?u' = "digest_derive hash (gk_secret k') ?r'"
  assume "validate_proof hash tr k x (generate_proof hash tr k' y p g') g"
  then have "digest_derive hash ?u (as_bytes (tr_remote tr x)) = digest_derive hash ?u' (as_bytes p)"
    by (simp add: validate_proof_def generate_proof_def)
  then have up: "?u = ?u' \<and> as_bytes (tr_remote tr x) = as_bytes p"
  proof (rule derive_eqD)
    show "inj_on hash {as_bytes ?u @ as_bytes (tr_remote tr x), as_bytes ?u' @ as_bytes p}"
      by (rule inj_on_subset [OF inj]) (auto simp: proof_inputs_def Let_def)
  qed (simp_all add: range digest_derive_def)
  then have "digest_derive hash (gk_secret k) ?r = digest_derive hash (gk_secret k') ?r'" by simp
  then have "gk_secret k = gk_secret k' \<and> ?r = ?r'"
  proof (rule derive_eqD)
    show "inj_on hash {as_bytes (gk_secret k) @ ?r, as_bytes (gk_secret k') @ ?r'}"
      by (rule inj_on_subset [OF inj]) (auto simp: proof_inputs_def Let_def)
  qed (simp_all add: ok)
  then show "k = k' \<and> shared_random tr groups_alpn (as_bytes g) x = shared_random tr groups_alpn (as_bytes g') y \<and> p = tr_remote tr x"
    using up ok by (simp add: as_bytes_inj group_key.expand)
qed (simp add: validate_proof_def generate_proof_def)

end
