(* ===== verification/Bond_Handshake.thy ===== *)
theory Bond_Handshake
  imports Group_Key Catalog
begin

text \<open>
  \<open>groups/bond/protocol.rs\<close> and the two ways a bond is made in \<open>groups/bond/mod.rs\<close>: the acceptor of
  incoming connections with its checks, \<open>Bond::create\<close> on the initiating side and \<open>Bond::accept\<close> on
  the accepting side.

  \<open>bond_env\<close> holds what comes from outside: the hash, the connections, the encoding of the two
  handshake messages. What the network does is an argument: an attempt of \<open>Bond::create\<close> carries the
  outcome of connecting, of sending, of waiting for the answer (\<open>None\<close> is the timeout; otherwise what
  was read and the connection as it is by then) and of the synchronisation with a peer that does not know us yet. \<open>create\<close> retries after such a
  synchronisation; it is a function of the list of attempts, and \<open>None\<close> says that it has not
  returned after these.
\<close>

section \<open>Messages\<close>

record ('a, 'g) handshake_start =
  hs_network :: nat
  hs_group :: unique_id
  hs_proof :: unique_id
  hs_bonds :: "('a, 'g) signed_entry list"

record ('a, 'g) handshake_end =
  he_proof :: unique_id
  he_bonds :: "('a, 'g) signed_entry list"

datatype ('a, 'g, 'm) bond_message =
    Ping | Pong | Departure
  | PeerEntryUpdate "('a, 'g) signed_entry"
  | BondFormed "('a, 'g) signed_entry"
  | RaftMessage 'm

record ('x, 'a, 'g) bond_env =
  be_hash :: hash_fun
  be_transport :: "'x transport"
  be_encode_start :: "('a, 'g) handshake_start \<Rightarrow> string option"
  be_decode_start :: "string \<Rightarrow> ('a, 'g) handshake_start option"
  be_encode_end :: "('a, 'g) handshake_end \<Rightarrow> string option"
  be_decode_end :: "string \<Rightarrow> ('a, 'g) handshake_end option"

text \<open>The fixed part of \<open>WorkerState\<close>.\<close>

record 'a group_ctx =
  gx_config :: "'a group_config"
  gx_network :: nat
  gx_local_id :: peer_id

datatype group_error =
  GroupTerminated | InvalidGroupKeyProof | Unauthorized | GLink link_error | GAlreadyBonded | GDiscovery string

definition generate_key_proof :: "('x, 'a, 'g) bond_env \<Rightarrow> 'a group_ctx \<Rightarrow> 'x \<Rightarrow> unique_id" where
  "generate_key_proof env ctx x =
    generate_proof (be_hash env) (be_transport env) (gc_key (gx_config ctx)) x (gx_local_id ctx) (gc_id (gx_config ctx))"

definition validate_key_proof :: "('x, 'a, 'g) bond_env \<Rightarrow> 'a group_ctx \<Rightarrow> 'x \<Rightarrow> unique_id \<Rightarrow> bool" where
  "validate_key_proof env ctx x proof =
    validate_proof (be_hash env) (be_transport env) (gc_key (gx_config ctx)) x proof (gc_id (gx_config ctx))"

section \<open>The initiating side\<close>

text \<open>A bond that was made: the connection, and the peers the worker is told to connect to.\<close>

type_synonym ('x, 'a, 'g) made = "'x \<times> ('a, 'g) signed_entry list"

record ('x, 'a, 'g) create_attempt =
  at_now :: int
  at_connect :: "'x connect_outcome"
  at_bonds :: "('a, 'g) signed_entry list"
  at_send :: frame_write
  at_answer :: "(frame_read \<times> 'x) option"
  at_cancelled :: bool
  at_sync :: "string option"

definition start_message :: "('x, 'a, 'g) bond_env \<Rightarrow> 'a group_ctx \<Rightarrow> ('a, 'g) signed_entry list \<Rightarrow> 'x \<Rightarrow> ('a, 'g) handshake_start" where
  "start_message env ctx bonds x =
    \<lparr>hs_network = gx_network ctx, hs_group = gc_id (gx_config ctx), hs_proof = generate_key_proof env ctx x,
     hs_bonds = bonds\<rparr>"

definition close_with :: "('x, 'a, 'g) bond_env \<Rightarrow> bool \<Rightarrow> app_close \<Rightarrow> group_error \<Rightarrow> 'x \<Rightarrow> group_error \<times> 'x" where
  "close_with env cancelled reason err x =
    (case link_close (be_transport env) cancelled reason x of
       (Inl e, x1) \<Rightarrow> (GLink (link_of_close e), x1)
     | (Inr _, x1) \<Rightarrow> (err, x1))"

definition create_confirm ::
  "('x, 'a, 'g) bond_env \<Rightarrow> 'a group_ctx \<Rightarrow> bool \<Rightarrow> ('a, 'g) handshake_end \<Rightarrow> 'x \<Rightarrow> group_error + ('x, 'a, 'g) made" where
  "create_confirm env ctx cancelled confirm x =
    (if validate_key_proof env ctx x (he_proof confirm) then Inr (x, he_bonds confirm)
     else Inl (fst (close_with env cancelled InvalidProof InvalidGroupKeyProof x)))"

text \<open>The result, and the handshakes that were sent.\<close>

fun bond_create ::
  "('x, 'a, 'g) bond_env \<Rightarrow> 'a group_ctx \<Rightarrow> ('a, 'g) signed_entry \<Rightarrow> ('x, 'a, 'g) create_attempt list
    \<Rightarrow> (group_error + ('x, 'a, 'g) made) option \<times> ('a, 'g) handshake_start list" where
  "bond_create env ctx peer [] = (None, [])"
| "bond_create env ctx peer (a # as) =
    (if \<not> authorized (gx_config ctx) (at_now a) peer then (Some (Inl Unauthorized), [])
     else case open_with_cancel (be_transport env) (at_connect a) of
       Inl e \<Rightarrow> (Some (Inl (GLink (link_of_open e))), [])
     | Inr x \<Rightarrow>
         (let start = start_message env ctx (at_bonds a) x
          in case link_send (be_transport env) (be_encode_start env) start (at_send a) x of
               (Inl e, _) \<Rightarrow> (Some (Inl (GLink (link_of_send e))), [])
             | (Inr _, _) \<Rightarrow>
                 (case at_answer a of
                    None \<Rightarrow> (Some (Inl (GLink (link_of_recv RecvCancelled))), [start])
                  | Some (read, x') \<Rightarrow>
                      (case link_recv (be_transport env) (be_decode_end env) read x' of
                         (Inr confirm, x2) \<Rightarrow> (Some (create_confirm env ctx (at_cancelled a) confirm x2), [start])
                       | (Inl e, x2) \<Rightarrow>
                           (case recv_close_reason e of
                              None \<Rightarrow> (Some (Inl (GLink (link_of_recv e))), [start])
                            | Some reason \<Rightarrow>
                                if is_reason reason UnknownPeer
                                then (case at_sync a of
                                        Some err \<Rightarrow> (Some (Inl (GDiscovery err)), [start])
                                      | None \<Rightarrow> (let (r, sent) = bond_create env ctx peer as in (r, start # sent)))
                                else if is_reason reason InvalidProof \<or> is_reason reason NotAllowed
                                then (Some (Inl (fst (close_with env (at_cancelled a) reason InvalidGroupKeyProof x2))), [start])
                                else (Some (Inl (GLink (link_of_recv e))), [start]))))))"

section \<open>The accepting side\<close>

text \<open>The result, the answer that was sent, and the connection.\<close>

definition bond_accept ::
  "('x, 'a, 'g) bond_env \<Rightarrow> 'a group_ctx \<Rightarrow> int \<Rightarrow> bool \<Rightarrow> frame_write \<Rightarrow> ('a, 'g) signed_entry list \<Rightarrow> 'x
    \<Rightarrow> ('a, 'g) signed_entry \<Rightarrow> ('a, 'g) handshake_start
    \<Rightarrow> (group_error + ('x, 'a, 'g) made) \<times> ('a, 'g) handshake_end option \<times> 'x" where
  "bond_accept env ctx now cancelled write bonds x peer handshake =
    (if \<not> authorized (gx_config ctx) now peer
     then (let (e, x1) = close_with env cancelled NotAllowed Unauthorized x in (Inl e, None, x1))
     else if \<not> validate_key_proof env ctx x (hs_proof handshake)
     then (let (e, x1) = close_with env cancelled InvalidProof InvalidGroupKeyProof x in (Inl e, None, x1))
     else (let resp = \<lparr>he_proof = generate_key_proof env ctx x, he_bonds = bonds\<rparr>
           in case link_send (be_transport env) (be_encode_end env) resp write x of
                (Inl e, x1) \<Rightarrow> (Inl (GLink (link_of_send e)), None, x1)
              | (Inr _, x1) \<Rightarrow> (Inr (x1, hs_bonds handshake), Some resp, x1)))"

datatype incoming_error =
    IncomingLink accept_error
  | IncomingAborted app_close
  | IncomingCloseFailed close_error
  | IncomingBond group_error
  | IncomingGone

definition acceptor_abort :: "'x transport \<Rightarrow> bool \<Rightarrow> app_close \<Rightarrow> 'x \<Rightarrow> incoming_error \<times> 'x" where
  "acceptor_abort tr cancelled reason x =
    (case link_close tr cancelled reason x of
       (Inl e, x1) \<Rightarrow> (IncomingCloseFailed e, x1)
     | (Inr _, x1) \<Rightarrow> (IncomingAborted reason, x1))"

definition ensure_known_peer ::
  "('a, 'k, 'g) disc_env \<Rightarrow> disc_config \<Rightarrow> int \<Rightarrow> ('a, 'g) catalog \<Rightarrow> 'x transport \<Rightarrow> bool \<Rightarrow> 'x
    \<Rightarrow> (incoming_error + ('a, 'g) signed_entry) \<times> 'x" where
  "ensure_known_peer denv cfg now c tr cancelled x =
    (case get_signed denv cfg now c (tr_remote tr x) of
       None \<Rightarrow> (let (e, x1) = acceptor_abort tr cancelled UnknownPeer x in (Inl e, x1))
     | Some peer \<Rightarrow> (Inr peer, x))"

definition wait_for_handshake ::
  "('x, 'a, 'g) bond_env \<Rightarrow> bool \<Rightarrow> (frame_read \<times> 'x) option \<Rightarrow> 'x \<Rightarrow> (incoming_error + ('a, 'g) handshake_start) \<times> 'x" where
  "wait_for_handshake env cancelled read x =
    (case read of
       None \<Rightarrow> (let (e, x1) = acceptor_abort (be_transport env) cancelled Timeout x in (Inl e, x1))
     | Some (r, x') \<Rightarrow>
         (case link_recv (be_transport env) (be_decode_start env) r x' of
            (Inr start, x1) \<Rightarrow> (Inr start, x1)
          | (Inl _, x1) \<Rightarrow>
              (let (e, x2) = acceptor_abort (be_transport env) cancelled InvalidHandshake x1 in (Inl e, x2))))"

definition ensure_same_network ::
  "'x transport \<Rightarrow> nat \<Rightarrow> bool \<Rightarrow> ('a, 'g) handshake_start \<Rightarrow> 'x \<Rightarrow> (incoming_error + unit) \<times> 'x" where
  "ensure_same_network tr network cancelled start x =
    (if hs_network start \<noteq> network
     then (let (e, x1) = acceptor_abort tr cancelled DifferentNetwork x in (Inl e, x1))
     else (Inr (), x))"

text \<open>
  \<open>Acceptor::accept\<close> up to the hand-over to the worker of the group; \<open>active\<close> maps the joined groups
  to their workers.
\<close>

definition acceptor_accept ::
  "('x, 'a, 'g) bond_env \<Rightarrow> ('a, 'k, 'g) disc_env \<Rightarrow> disc_config \<Rightarrow> int \<Rightarrow> ('a, 'g) catalog \<Rightarrow> nat
    \<Rightarrow> (unique_id \<Rightarrow> 'w option) \<Rightarrow> bool \<Rightarrow> bi_outcome \<Rightarrow> (frame_read \<times> 'x) option \<Rightarrow> 'x
    \<Rightarrow> (incoming_error + 'w \<times> ('a, 'g) signed_entry \<times> ('a, 'g) handshake_start) \<times> 'x" where
  "acceptor_accept env denv cfg now c network active cancelled bi read conn =
    (case accept_with_cancel (be_transport env) groups_alpn bi conn of
       (Inl e, x) \<Rightarrow> (Inl (IncomingLink e), x)
     | (Inr x, _) \<Rightarrow>
         (case ensure_known_peer denv cfg now c (be_transport env) cancelled x of
            (Inl e, x1) \<Rightarrow> (Inl e, x1)
          | (Inr peer, x1) \<Rightarrow>
              (case wait_for_handshake env cancelled read x1 of
                 (Inl e, x2) \<Rightarrow> (Inl e, x2)
               | (Inr handshake, x2) \<Rightarrow>
                   (case ensure_same_network (be_transport env) network cancelled handshake x2 of
                      (Inl e, x3) \<Rightarrow> (Inl e, x3)
                    | (Inr _, x3) \<Rightarrow>
                        (case active (hs_group handshake) of
                           None \<Rightarrow> (let (e, x4) = acceptor_abort (be_transport env) cancelled GroupNotFound x3 in (Inl e, x4))
                         | Some w \<Rightarrow> (Inr (w, peer, handshake), x3))))))"

end
