(* ===== verification/Bond_Worker.thy ===== *)
theory Bond_Worker
  imports Bond_Handshake Discovery
begin

text \<open>
  \<open>groups/bond/heartbeat.rs\<close> and \<open>groups/bond/worker.rs\<close>: the loop that owns one bond. It sends and
  receives messages, probes the remote peer when the bond is idle, watches the expiration of the
  peer's ticket, and tells the group when the bond is up, when a raft message arrived and when it is
  over.

  The alternatives of the loop are the constructors of \<open>bond_input\<close>; \<open>bond_step\<close> handles one and
  \<open>bond_run\<close> a sequence of them, each with the time it happens at (nanoseconds). \<open>None\<close> is a panic.
  Random numbers are arguments. Commands to the worker of the group (\<open>bond_with\<close>) are collected in
  \<open>bw_connects\<close>, events for it in \<open>bw_events\<close>; \<open>bw_listening\<close> says whether it still receives them.
\<close>

section \<open>Heartbeats\<close>

record heartbeat =
  hb_period :: nat
  hb_next :: int
  hb_last_recv :: int
  hb_missed :: nat
  hb_max_missed :: nat
  hb_base :: nat
  hb_jitter :: nat

text \<open>\<open>None\<close>: the remainder by zero, or an interval with period zero, panics.\<close>

definition next_tick_at :: "nat \<Rightarrow> nat \<Rightarrow> nat \<Rightarrow> nat option" where
  "next_tick_at draw base jitter =
    (let millis = as_millis jitter mod 2 ^ 64
     in if millis = 0 then None else Some (base - 1000000 * (draw mod millis)))"

definition heartbeat_new :: "nat \<Rightarrow> int \<Rightarrow> consensus_config \<Rightarrow> heartbeat option" where
  "heartbeat_new draw now c =
    (case next_tick_at draw (cc_heartbeat_interval c) (cc_heartbeat_jitter c) of
       None \<Rightarrow> None
     | Some period \<Rightarrow>
         if period = 0 then None
         else Some \<lparr>hb_period = period, hb_next = now, hb_last_recv = now, hb_missed = 0,
                    hb_max_missed = cc_max_missed_heartbeats c, hb_base = cc_heartbeat_interval c,
                    hb_jitter = cc_heartbeat_jitter c\<rparr>)"

text \<open>
  A tick at time \<open>now\<close>. The interval delays: the next tick is due one period later. The flag says
  whether the waiters for the failure are notified. The counter has 32 bits.
\<close>

definition heartbeat_tick :: "int \<Rightarrow> heartbeat \<Rightarrow> bool \<times> heartbeat" where
  "heartbeat_tick now hb =
    (let max_gap = int (hb_base hb + hb_jitter hb);
         missed = (if now - hb_last_recv hb > max_gap then (hb_missed hb + 1) mod 2 ^ 32 else hb_missed hb)
     in (missed \<ge> hb_max_missed hb, hb\<lparr>hb_missed := missed, hb_next := now + int (hb_period hb)\<rparr>))"

definition heartbeat_reset :: "nat \<Rightarrow> int \<Rightarrow> heartbeat \<Rightarrow> heartbeat option" where
  "heartbeat_reset draw now hb =
    map_option (\<lambda>d. hb\<lparr>hb_next := now + int d, hb_last_recv := now, hb_missed := 0\<rparr>)
      (next_tick_at draw (hb_base hb) (hb_jitter hb))"

section \<open>State\<close>

datatype 'm bond_event = BondConnected | BondRaft 'm | BondTerminated app_close

record ('x, 'a, 'g, 'm) bond_worker =
  bw_id :: unique_id
  bw_peer :: "('a, 'g) signed_entry"
  bw_conn :: 'x
  bw_pending :: "(('a, 'g, 'm) bond_message + string) list"
  bw_heartbeat :: heartbeat
  bw_alert :: bool
  bw_cancelled :: bool
  bw_events :: "'m bond_event list"
  bw_listening :: bool
  bw_close_reason :: app_close
  bw_ticket_expiry :: int
  bw_connects :: "('a, 'g) signed_entry list"
  bw_terminated :: "app_close option"

datatype worker_command = CloseBond app_close | SendRawMessage string

definition far_future :: int where
  "far_future = 365 * 24 * 60 * 60 * 1000000000"

text \<open>The time at which the sleep ends.\<close>

definition sleep_until_expiry :: "int \<Rightarrow> expiration option \<Rightarrow> int" where
  "sleep_until_expiry now e =
    now + (case Option.bind e (exp_remaining now) of None \<Rightarrow> far_future | Some d \<Rightarrow> d)"

definition bond_id :: "('x, 'a, 'g) bond_env \<Rightarrow> 'x \<Rightarrow> unique_id" where
  "bond_id env x = shared_random (be_transport env) groups_alpn ''mosaik.group.bond.id'' x"

text \<open>The worker as it enters the loop.\<close>

definition bond_spawn ::
  "('x, 'a, 'g) bond_env \<Rightarrow> 'a group_ctx \<Rightarrow> nat \<Rightarrow> int \<Rightarrow> ('a, 'g) signed_entry \<Rightarrow> 'x
    \<Rightarrow> ('x, 'a, 'g, 'm) bond_worker option" where
  "bond_spawn env ctx draw now peer x =
    map_option
      (\<lambda>hb. \<lparr>bw_id = bond_id env x, bw_peer = peer, bw_conn = x, bw_pending = [], bw_heartbeat = hb,
             bw_alert = False, bw_cancelled = False, bw_events = [BondConnected], bw_listening = True,
             bw_close_reason = Cancelled,
             bw_ticket_expiry = sleep_until_expiry now (Option.bind (authorize_peer (gx_config ctx) now peer) id),
             bw_connects = [], bw_terminated = None\<rparr>)
      (heartbeat_new draw now (gc_consensus (gx_config ctx)))"

section \<open>Handlers\<close>

definition bw_cancel :: "('x, 'a, 'g, 'm) bond_worker \<Rightarrow> ('x, 'a, 'g, 'm) bond_worker" where
  "bw_cancel w = w\<lparr>bw_cancelled := True\<rparr>"

fun on_command :: "worker_command \<Rightarrow> ('x, 'a, 'g, 'm) bond_worker \<Rightarrow> ('x, 'a, 'g, 'm) bond_worker" where
  "on_command (CloseBond reason) w = (bw_cancel w)\<lparr>bw_close_reason := reason\<rparr>"
| "on_command (SendRawMessage bytes) w = w\<lparr>bw_pending := bw_pending w @ [Inr bytes]\<rparr>"

definition enqueue_message ::
  "('a, 'g, 'm) bond_message \<Rightarrow> ('x, 'a, 'g, 'm) bond_worker \<Rightarrow> ('x, 'a, 'g, 'm) bond_worker" where
  "enqueue_message msg w = w\<lparr>bw_pending := bw_pending w @ [Inl msg]\<rparr>"

definition on_send_complete :: "send_error + nat \<Rightarrow> ('x, 'a, 'g, 'm) bond_worker \<Rightarrow> ('x, 'a, 'g, 'm) bond_worker" where
  "on_send_complete result w =
    (case result of
       Inr _ \<Rightarrow> w
     | Inl e \<Rightarrow>
         bw_cancel
           (if e = SendCancelled then w
            else w\<lparr>bw_close_reason := (case send_close_reason e of Some r \<Rightarrow> r | None \<Rightarrow> UnexpectedClose)\<rparr>))"

definition bond_send_message ::
  "'x transport \<Rightarrow> (('a, 'g, 'm) bond_message \<Rightarrow> string option) \<Rightarrow> ('a, 'g, 'm) bond_message + string
    \<Rightarrow> frame_write \<Rightarrow> ('x, 'a, 'g, 'm) bond_worker \<Rightarrow> ('x, 'a, 'g, 'm) bond_worker" where
  "bond_send_message tr encode message write w =
    (let (res, x) = (case message of
                       Inl msg \<Rightarrow> link_send tr encode msg write (bw_conn w)
                     | Inr bytes \<Rightarrow> send_raw tr bytes write (bw_conn w))
     in on_send_complete res (w\<lparr>bw_conn := x\<rparr>))"

definition on_departure :: "('x, 'a, 'g, 'm) bond_worker \<Rightarrow> ('x, 'a, 'g, 'm) bond_worker" where
  "on_departure w = (if bw_cancelled w then w else bw_cancel w)"

definition on_raft_message :: "'m \<Rightarrow> ('x, 'a, 'g, 'm) bond_worker \<Rightarrow> ('x, 'a, 'g, 'm) bond_worker" where
  "on_raft_message msg w =
    (if bw_listening w then w\<lparr>bw_events := bw_events w @ [BondRaft msg]\<rparr>
     else if bw_cancelled w then w
     else bw_cancel (w\<lparr>bw_close_reason := Cancelled\<rparr>))"

definition on_peer_entry_update ::
  "'a group_ctx \<Rightarrow> ('a, 'k, 'g) disc_env \<Rightarrow> disc_config \<Rightarrow> int \<Rightarrow> ('a, 'g) signed_entry
    \<Rightarrow> ('x, 'a, 'g, 'm) bond_worker \<times> ('a, 'g) discovery \<Rightarrow> ('x, 'a, 'g, 'm) bond_worker \<times> ('a, 'g) discovery" where
  "on_peer_entry_update ctx denv dcfg now entry wd =
    (let (w, d) = wd;
         feed_entry = (\<lambda>w. let (stored, c) = feed denv dcfg now entry (dv_catalog d)
                           in (if stored then w\<lparr>bw_peer := entry\<rparr> else w, with_catalog c d))
     in if gc_auth (gx_config ctx) = [] then feed_entry w
        else case authorize_peer (gx_config ctx) now entry of
               None \<Rightarrow> (bw_cancel (w\<lparr>bw_close_reason := NotAllowed\<rparr>), d)
             | Some e \<Rightarrow> feed_entry (w\<lparr>bw_ticket_expiry := sleep_until_expiry now e\<rparr>))"

definition on_bond_formed_notification ::
  "('a, 'g) signed_entry \<Rightarrow> ('x, 'a, 'g, 'm) bond_worker \<Rightarrow> ('x, 'a, 'g, 'm) bond_worker" where
  "on_bond_formed_notification entry w = w\<lparr>bw_connects := bw_connects w @ [entry]\<rparr>"

definition on_link_closed :: "conn_error + unit \<Rightarrow> ('x, 'a, 'g, 'm) bond_worker \<Rightarrow> ('x, 'a, 'g, 'm) bond_worker" where
  "on_link_closed reason w =
    bw_cancel (case reason of Inl (ApplicationClosed e) \<Rightarrow> w\<lparr>bw_close_reason := e\<rparr> | _ \<Rightarrow> w)"

definition on_heartbeat_tick :: "('x, 'a, 'g, 'm) bond_worker \<Rightarrow> ('x, 'a, 'g, 'm) bond_worker" where
  "on_heartbeat_tick w = (if bw_pending w = [] then enqueue_message Ping w else w)"

definition on_heartbeat_ping :: "('x, 'a, 'g, 'm) bond_worker \<Rightarrow> ('x, 'a, 'g, 'm) bond_worker" where
  "on_heartbeat_ping w = (if bw_pending w = [] then enqueue_message Pong w else w)"

text \<open>The loop sets the reason after \<open>on_heartbeat_failed\<close>.\<close>

definition on_heartbeat_failed :: "('x, 'a, 'g, 'm) bond_worker \<Rightarrow> ('x, 'a, 'g, 'm) bond_worker" where
  "on_heartbeat_failed w = (bw_cancel w)\<lparr>bw_close_reason := Timeout\<rparr>"

definition on_ticket_expired :: "'a group_ctx \<Rightarrow> int \<Rightarrow> ('x, 'a, 'g, 'm) bond_worker \<Rightarrow> ('x, 'a, 'g, 'm) bond_worker" where
  "on_ticket_expired ctx now w =
    (if gc_auth (gx_config ctx) = [] then w
     else case authorize_peer (gx_config ctx) now (bw_peer w) of
            None \<Rightarrow> bw_cancel (w\<lparr>bw_close_reason := NotAllowed\<rparr>)
          | Some e \<Rightarrow> w\<lparr>bw_ticket_expiry := sleep_until_expiry now e\<rparr>)"

fun on_bond_message ::
  "'a group_ctx \<Rightarrow> ('a, 'k, 'g) disc_env \<Rightarrow> disc_config \<Rightarrow> int \<Rightarrow> ('a, 'g, 'm) bond_message
    \<Rightarrow> ('x, 'a, 'g, 'm) bond_worker \<times> ('a, 'g) discovery \<Rightarrow> ('x, 'a, 'g, 'm) bond_worker \<times> ('a, 'g) discovery" where
  "on_bond_message ctx denv dcfg now Pong (w, d) = (w, d)"
| "on_bond_message ctx denv dcfg now Ping (w, d) = (on_heartbeat_ping w, d)"
| "on_bond_message ctx denv dcfg now Departure (w, d) = (on_departure w, d)"
| "on_bond_message ctx denv dcfg now (PeerEntryUpdate e) (w, d) = on_peer_entry_update ctx denv dcfg now e (w, d)"
| "on_bond_message ctx denv dcfg now (BondFormed e) (w, d) = (on_bond_formed_notification e w, d)"
| "on_bond_message ctx denv dcfg now (RaftMessage msg) (w, d) = (on_raft_message msg w, d)"

definition on_next_recv ::
  "'x transport \<Rightarrow> 'a group_ctx \<Rightarrow> ('a, 'k, 'g) disc_env \<Rightarrow> disc_config \<Rightarrow> nat \<Rightarrow> nat option \<Rightarrow> int
    \<Rightarrow> recv_error + ('a, 'g, 'm) bond_message \<times> nat \<Rightarrow> ('x, 'a, 'g, 'm) bond_worker \<times> ('a, 'g) discovery
    \<Rightarrow> (('x, 'a, 'g, 'm) bond_worker \<times> ('a, 'g) discovery) option" where
  "on_next_recv tr ctx denv dcfg draw rtt now result wd =
    (let (w, d) = wd
     in case result of
          Inr (msg, _) \<Rightarrow>
            map_option
              (\<lambda>hb. on_bond_message ctx denv dcfg now msg
                      (w\<lparr>bw_heartbeat := hb\<rparr>,
                       case rtt of
                         Some r \<Rightarrow> d\<lparr>dv_rtt := record_sample now (tr_remote tr (bw_conn w)) r (dv_rtt d)\<rparr>
                       | None \<Rightarrow> d))
              (heartbeat_reset draw now (bw_heartbeat w))
        | Inl e \<Rightarrow>
            Some (bw_cancel
                   (if e = RecvCancelled then w
                    else w\<lparr>bw_close_reason := (case recv_close_reason e of Some r \<Rightarrow> r | None \<Rightarrow> UnexpectedClose)\<rparr>), d))"

section \<open>The loop\<close>

datatype bond_input =
    InCancelled
  | InLinkDropped "conn_error option"
  | InRecv frame_read nat "nat option"
  | InSend frame_write
  | InTick
  | InCommand worker_command
  | InHeartbeatFailed
  | InTicketTimer
  | InUnsubscribed

record ('x, 'a, 'k, 'g, 'm) bond_rt =
  rt_transport :: "'x transport"
  rt_encode :: "('a, 'g, 'm) bond_message \<Rightarrow> string option"
  rt_decode :: "string \<Rightarrow> ('a, 'g, 'm) bond_message option"
  rt_ctx :: "'a group_ctx"
  rt_denv :: "('a, 'k, 'g) disc_env"
  rt_dcfg :: disc_config

text \<open>After the loop: the token is set, so the close frame is sent and nothing is awaited.\<close>

definition bond_finish :: "'x transport \<Rightarrow> ('x, 'a, 'g, 'm) bond_worker \<Rightarrow> ('x, 'a, 'g, 'm) bond_worker" where
  "bond_finish tr w =
    w\<lparr>bw_conn := snd (link_close tr (bw_cancelled w) (bw_close_reason w) (bw_conn w)),
      bw_events := (if bw_listening w then bw_events w @ [BondTerminated (bw_close_reason w)] else bw_events w),
      bw_terminated := Some (bw_close_reason w)\<rparr>"

fun bond_handle ::
  "('x, 'a, 'k, 'g, 'm) bond_rt \<Rightarrow> int \<Rightarrow> bond_input \<Rightarrow> ('x, 'a, 'g, 'm) bond_worker \<times> ('a, 'g) discovery
    \<Rightarrow> (('x, 'a, 'g, 'm) bond_worker \<times> ('a, 'g) discovery) option" where
  "bond_handle rt now InCancelled (w, d) = Some (bw_cancel w, d)"
| "bond_handle rt now (InLinkDropped outcome) (w, d) = Some (on_link_closed (link_closed outcome) w, d)"
| "bond_handle rt now (InRecv read draw rtt) (w, d) =
    (let (result, x) = recv_with_size (rt_transport rt) (rt_decode rt) read (bw_conn w)
     in on_next_recv (rt_transport rt) (rt_ctx rt) (rt_denv rt) (rt_dcfg rt) draw rtt now result (w\<lparr>bw_conn := x\<rparr>, d))"
| "bond_handle rt now (InSend write) (w, d) =
    (case bw_pending w of
       [] \<Rightarrow> Some (w, d)
     | msg # rest \<Rightarrow> Some (bond_send_message (rt_transport rt) (rt_encode rt) msg write (w\<lparr>bw_pending := rest\<rparr>), d))"
| "bond_handle rt now InTick (w, d) =
    (if now < hb_next (bw_heartbeat w) then Some (w, d)
     else (let (alert, hb) = heartbeat_tick now (bw_heartbeat w)
           in Some (on_heartbeat_tick (w\<lparr>bw_heartbeat := hb, bw_alert := bw_alert w \<or> alert\<rparr>), d)))"
| "bond_handle rt now (InCommand cmd) (w, d) = Some (on_command cmd w, d)"
| "bond_handle rt now InHeartbeatFailed (w, d) = Some (if bw_alert w then on_heartbeat_failed w else w, d)"
| "bond_handle rt now InTicketTimer (w, d) =
    Some (if now < bw_ticket_expiry w then w else on_ticket_expired (rt_ctx rt) now w, d)"
| "bond_handle rt now InUnsubscribed (w, d) = Some (w\<lparr>bw_listening := False\<rparr>, d)"

text \<open>Once the token is set, every alternative but the end of the loop is disabled.\<close>

definition bond_step ::
  "('x, 'a, 'k, 'g, 'm) bond_rt \<Rightarrow> int \<Rightarrow> bond_input \<Rightarrow> ('x, 'a, 'g, 'm) bond_worker \<times> ('a, 'g) discovery
    \<Rightarrow> (('x, 'a, 'g, 'm) bond_worker \<times> ('a, 'g) discovery) option" where
  "bond_step rt now i wd =
    (let (w, d) = wd
     in if bw_terminated w \<noteq> None then Some (w, d)
        else if bw_cancelled w then Some (bond_finish (rt_transport rt) w, d)
        else bond_handle rt now i (w, d))"

fun bond_run ::
  "('x, 'a, 'k, 'g, 'm) bond_rt \<Rightarrow> (int \<times> bond_input) list \<Rightarrow> ('x, 'a, 'g, 'm) bond_worker \<times> ('a, 'g) discovery
    \<Rightarrow> (('x, 'a, 'g, 'm) bond_worker \<times> ('a, 'g) discovery) option" where
  "bond_run rt [] wd = Some wd"
| "bond_run rt ((now, i) # is) wd = Option.bind (bond_step rt now i wd) (bond_run rt is)"

section \<open>What every step keeps\<close>

lemmas bond_handler_defs =
  bw_cancel_def enqueue_message_def on_send_complete_def bond_send_message_def on_departure_def
  on_raft_message_def on_peer_entry_update_def on_bond_formed_notification_def on_link_closed_def
  on_heartbeat_tick_def on_heartbeat_ping_def on_heartbeat_failed_def on_ticket_expired_def
  on_next_recv_def

text \<open>
  What the group sees of a bond: it is up, raft messages arrive, it is over. The last event carries
  the reason the remote peer is told.
\<close>

definition bond_events_ok :: "('x, 'a, 'g, 'm) bond_worker \<Rightarrow> bool" where
  "bond_events_ok w \<longleftrightarrow>
    (\<exists>ms. bw_events w = BondConnected # map BondRaft ms @
       (if bw_terminated w \<noteq> None \<and> bw_listening w then [BondTerminated (bw_close_reason w)] else [])) \<and>
    (bw_terminated w \<noteq> None \<longrightarrow> bw_cancelled w \<and> bw_terminated w = Some (bw_close_reason w))"

text \<open>The frame of a handler: what it never touches, and what it may add to the events.\<close>

definition handler_frame :: "('x, 'a, 'g, 'm) bond_worker \<Rightarrow> ('x, 'a, 'g, 'm) bond_worker \<Rightarrow> bool" where
  "handler_frame w w' \<longleftrightarrow>
    bw_id w' = bw_id w \<and> bw_terminated w' = bw_terminated w \<and> (bw_cancelled w \<longrightarrow> bw_cancelled w') \<and>
    hb_jitter (bw_heartbeat w') = hb_jitter (bw_heartbeat w) \<and> hb_base (bw_heartbeat w') = hb_base (bw_heartbeat w) \<and>
    (\<exists>ms. bw_events w' = bw_events w @ map BondRaft ms)"

lemma handler_frame_refl [simp]: "handler_frame w w"
  by (auto simp: handler_frame_def intro: exI [of _ "[]"])

lemma handler_frame_trans: "handler_frame u v \<Longrightarrow> handler_frame v w \<Longrightarrow> handler_frame u w"
  by (auto simp: handler_frame_def) (metis map_append)+

lemma same_events: "bw_events w' = bw_events w \<Longrightarrow> \<exists>ms. bw_events w' = bw_events w @ map BondRaft ms"
  by (rule exI [of _ "[]"]) simp

lemma frame_bond_message:
  "on_bond_message ctx denv dcfg now msg (w, d) = (w', d') \<Longrightarrow> handler_frame w w'"
  by (cases msg)
    (auto simp: handler_frame_def bond_handler_defs Let_def split: option.splits if_splits prod.splits
      intro: same_events exI [of _ "[_]"])

lemma frame_heartbeat:
  "heartbeat_reset draw now hb = Some hb' \<Longrightarrow> hb_jitter hb' = hb_jitter hb \<and> hb_base hb' = hb_base hb"
  by (auto simp: heartbeat_reset_def)

lemma frame_next_recv:
  assumes "on_next_recv tr ctx denv dcfg draw rtt now result (w, d) = Some (w', d')"
  shows "handler_frame w w'"
proof (cases result)
  case (Inl e)
  then show ?thesis using assms by (auto simp: on_next_recv_def handler_frame_def bw_cancel_def intro: same_events)
next
  case (Inr p)
  then obtain hb d1 where hb: "heartbeat_reset draw now (bw_heartbeat w) = Some hb"
    and m: "on_bond_message ctx denv dcfg now (fst p) (w\<lparr>bw_heartbeat := hb\<rparr>, d1) = (w', d')"
    using assms by (cases p) (auto simp: on_next_recv_def Let_def)
  have "handler_frame w (w\<lparr>bw_heartbeat := hb\<rparr>)"
    using frame_heartbeat [OF hb] by (auto simp: handler_frame_def intro: same_events)
  then show ?thesis by (rule handler_frame_trans [OF _ frame_bond_message [OF m]])
qed

lemma frame_handle:
  assumes "bond_handle rt now i (w, d) = Some (w', d')"
  shows "handler_frame w w'"
proof (cases i)
  case (InRecv read draw rtt)
  obtain result x where "recv_with_size (rt_transport rt) (rt_decode rt) read (bw_conn w) = (result, x)" by force
  then have "handler_frame (w\<lparr>bw_conn := x\<rparr>) w'"
    using assms InRecv by (auto intro: frame_next_recv)
  then show ?thesis by (auto simp: handler_frame_def)
next
  case (InCommand cmd)
  then show ?thesis using assms
    by (cases cmd) (auto simp: handler_frame_def bw_cancel_def intro: same_events)
qed (use assms in \<open>auto simp: handler_frame_def bond_handler_defs heartbeat_tick_def Let_def
       split: option.splits if_splits prod.splits list.splits sum.splits conn_error.splits intro: same_events\<close>)


text \<open>A worker that was spawned never panics afterwards: the jitter stays what it was.\<close>

definition no_panic :: "('x, 'a, 'g, 'm) bond_worker \<Rightarrow> bool" where
  "no_panic w \<longleftrightarrow> as_millis (hb_jitter (bw_heartbeat w)) mod 2 ^ 64 \<noteq> 0"

lemma next_tick_at_None: "next_tick_at draw base jitter = None \<longleftrightarrow> as_millis jitter mod 2 ^ 64 = 0"
  by (simp add: next_tick_at_def Let_def)

lemma handle_no_panic:
  assumes "no_panic w"
  shows "bond_handle rt now i (w, d) \<noteq> None"
proof (cases i)
  case (InRecv read draw rtt)
  have "heartbeat_reset draw now (bw_heartbeat w) \<noteq> None"
    using assms by (simp add: heartbeat_reset_def next_tick_at_None no_panic_def)
  then show ?thesis using InRecv by (auto simp: on_next_recv_def Let_def split: prod.splits sum.splits)
qed (auto simp: Let_def split: list.splits prod.splits)

lemma step_ok:
  assumes "bond_events_ok w" "no_panic w"
  shows "\<exists>w' d'. bond_step rt now i (w, d) = Some (w', d') \<and> bond_events_ok w' \<and> no_panic w' \<and> bw_id w' = bw_id w"
proof -
  consider (over) "bw_terminated w \<noteq> None" | (finish) "bw_terminated w = None" "bw_cancelled w"
    | (go) "bw_terminated w = None" "\<not> bw_cancelled w" by blast
  then show ?thesis
  proof cases
    case go
    obtain w' d' where h: "bond_handle rt now i (w, d) = Some (w', d')"
      using handle_no_panic [OF assms(2), of rt now i d] by fastforce
    have f: "handler_frame w w'" by (rule frame_handle [OF h])
    then obtain ms where "bw_events w' = bw_events w @ map BondRaft ms" by (auto simp: handler_frame_def)
    moreover obtain ms' where "bw_events w = BondConnected # map BondRaft ms'"
      using assms(1) go by (auto simp: bond_events_ok_def)
    ultimately have e: "bw_events w' = BondConnected # map BondRaft (ms' @ ms)" by simp
    have t: "bw_terminated w' = None" "no_panic w'" "bw_id w' = bw_id w"
      using f go assms(2) by (simp_all add: handler_frame_def no_panic_def)
    have "bond_events_ok w'"
      unfolding bond_events_ok_def using e t(1) by (intro conjI exI [of _ "ms' @ ms"]) simp_all
    then show ?thesis using h t go by (simp add: bond_step_def)
  qed (use assms in \<open>auto simp: bond_step_def bond_finish_def bond_events_ok_def no_panic_def\<close>)
qed

lemma bond_run_ok:
  assumes "bond_events_ok w" "no_panic w"
  shows "\<exists>w' d'. bond_run rt is (w, d) = Some (w', d') \<and> bond_events_ok w' \<and> no_panic w' \<and> bw_id w' = bw_id w"
  using assms
proof (induction "is" arbitrary: w d)
  case (Cons a "is")
  obtain now i where a: "a = (now, i)" by force
  obtain w1 d1 where "bond_step rt now i (w, d) = Some (w1, d1)" "bond_events_ok w1" "no_panic w1" "bw_id w1 = bw_id w"
    using step_ok [OF Cons.prems, of rt now i d] by blast
  then show ?case using Cons.IH [of w1 d1] a by simp
qed simp

lemma spawn_ok:
  assumes "bond_spawn env ctx draw now peer x = Some w"
  shows "bond_events_ok w \<and> no_panic w"
proof -
  obtain p where "next_tick_at draw (cc_heartbeat_interval (gc_consensus (gx_config ctx)))
      (cc_heartbeat_jitter (gc_consensus (gx_config ctx))) = Some p"
    using assms by (auto simp: bond_spawn_def heartbeat_new_def split: option.splits)
  then have "as_millis (cc_heartbeat_jitter (gc_consensus (gx_config ctx))) mod 2 ^ 64 \<noteq> 0"
    using next_tick_at_None [of draw "cc_heartbeat_interval (gc_consensus (gx_config ctx))" "cc_heartbeat_jitter (gc_consensus (gx_config ctx))"]
    by simp
  then show ?thesis
    using assms by (auto simp: bond_spawn_def heartbeat_new_def bond_events_ok_def no_panic_def split: option.splits if_splits)
qed

section \<open>How long a silent peer is kept\<close>

text \<open>
  Ticks are at least one period apart, so every missed heartbeat stands for one more period of
  silence.
\<close>

definition silence_ok :: "heartbeat \<Rightarrow> bool" where
  "silence_ok hb \<longleftrightarrow>
    (hb_missed hb \<noteq> 0 \<longrightarrow>
      int ((hb_missed hb - 1) * hb_period hb + hb_base hb + hb_jitter hb) < hb_next hb - int (hb_period hb) - hb_last_recv hb)"

lemma tick_silence:
  assumes "silence_ok hb" "hb_next hb \<le> now" "heartbeat_tick now hb = (alert, hb')"
  shows "silence_ok hb'"
proof (cases "now - hb_last_recv hb > int (hb_base hb + hb_jitter hb)")
  case False
  have "hb_missed hb = 0"
  proof (rule ccontr)
    assume "hb_missed hb \<noteq> 0"
    then have "int ((hb_missed hb - 1) * hb_period hb + hb_base hb + hb_jitter hb) < now - hb_last_recv hb"
      using assms(1,2) unfolding silence_ok_def by linarith
    moreover have "int (hb_base hb + hb_jitter hb) \<le> int ((hb_missed hb - 1) * hb_period hb + hb_base hb + hb_jitter hb)"
      unfolding of_nat_le_iff by simp
    ultimately show False using False by linarith
  qed
  then show ?thesis using False assms(3) by (auto simp: heartbeat_tick_def silence_ok_def)
next
  case True
  let ?m = "hb_missed hb" and ?P = "hb_period hb" and ?g = "hb_base hb + hb_jitter hb"
  have bound: "int (?m * ?P + ?g) < now - hb_last_recv hb"
  proof (cases ?m)
    case 0
    then show ?thesis using True by simp
  next
    case (Suc k)
    then have "int (k * ?P + ?g) < hb_next hb - int ?P - hb_last_recv hb"
      using assms(1) by (simp add: silence_ok_def add.assoc)
    moreover have "int (?m * ?P + ?g) = int (k * ?P + ?g) + int ?P" using Suc by simp
    ultimately show ?thesis using assms(2) by linarith
  qed
  have "((?m + 1) mod 2 ^ 32 - 1) * ?P \<le> ?m * ?P"
    by (rule mult_le_mono1) (metis add_diff_cancel_right' diff_le_mono mod_less_eq_dividend)
  then have "int (((?m + 1) mod 2 ^ 32 - 1) * ?P + ?g) < now - hb_last_recv hb"
    using bound by linarith
  moreover have "hb' = hb\<lparr>hb_missed := (?m + 1) mod 2 ^ 32, hb_next := now + int ?P\<rparr>"
    using True assms(3) by (simp add: heartbeat_tick_def Let_def)
  ultimately show ?thesis by (simp add: silence_ok_def add.assoc del: of_nat_add of_nat_mult)
qed

lemma reset_silence: "heartbeat_reset draw now hb = Some hb' \<Longrightarrow> silence_ok hb'"
  by (auto simp: heartbeat_reset_def silence_ok_def)

lemma message_heartbeat: "bw_heartbeat (fst (on_bond_message ctx denv dcfg now msg (w, d))) = bw_heartbeat w"
  by (cases msg) (auto simp: bond_handler_defs Let_def split: option.splits if_splits prod.splits)

lemma handle_silence:
  assumes "bond_handle rt now i (w, d) = Some (w', d')" "silence_ok (bw_heartbeat w)"
  shows "silence_ok (bw_heartbeat w')"
proof (cases i)
  case (InRecv read draw rtt)
  obtain result x where r: "recv_with_size (rt_transport rt) (rt_decode rt) read (bw_conn w) = (result, x)" by force
  show ?thesis
  proof (cases result)
    case (Inl e)
    then show ?thesis using assms InRecv r by (auto simp: on_next_recv_def bw_cancel_def split: if_splits)
  next
    case (Inr p)
    then obtain hb d1 where hb: "heartbeat_reset draw now (bw_heartbeat w) = Some hb"
      and m: "on_bond_message (rt_ctx rt) (rt_denv rt) (rt_dcfg rt) now (fst p) (w\<lparr>bw_conn := x, bw_heartbeat := hb\<rparr>, d1) = (w', d')"
      using assms InRecv r by (cases p) (auto simp: on_next_recv_def Let_def)
    have "bw_heartbeat w' = hb"
      using message_heartbeat [of "rt_ctx rt" "rt_denv rt" "rt_dcfg rt" now "fst p" "w\<lparr>bw_conn := x, bw_heartbeat := hb\<rparr>" d1] m
      by simp
    then show ?thesis using reset_silence [OF hb] by simp
  qed
next
  case InTick
  obtain alert hb where "heartbeat_tick now (bw_heartbeat w) = (alert, hb)" by force
  then show ?thesis
    using assms InTick tick_silence [OF assms(2)]
    by (auto simp: on_heartbeat_tick_def enqueue_message_def not_less split: if_splits)
next
  case (InCommand cmd)
  then show ?thesis using assms by (cases cmd) (auto simp: bw_cancel_def)
qed (use assms in \<open>auto simp: bond_handler_defs Let_def
       split: option.splits if_splits prod.splits list.splits sum.splits conn_error.splits\<close>)

lemma step_silence:
  "bond_step rt now i (w, d) = Some (w', d') \<Longrightarrow> silence_ok (bw_heartbeat w) \<Longrightarrow> silence_ok (bw_heartbeat w')"
  by (auto simp: bond_step_def bond_finish_def Let_def dest: handle_silence split: if_splits)

lemma run_silence:
  "bond_run rt is (w, d) = Some (w', d') \<Longrightarrow> silence_ok (bw_heartbeat w) \<Longrightarrow> silence_ok (bw_heartbeat w')"
proof (induction "is" arbitrary: w d)
  case (Cons a "is")
  obtain now i where a: "a = (now, i)" by force
  obtain w1 d1 where "bond_step rt now i (w, d) = Some (w1, d1)" "bond_run rt is (w1, d1) = Some (w', d')"
    using Cons.prems(1) a by (auto simp: bind_eq_Some_conv)
  then show ?case using Cons.IH step_silence Cons.prems(2) by blast
qed simp

lemma spawn_silence: "bond_spawn env ctx draw now peer x = Some w \<Longrightarrow> silence_ok (bw_heartbeat w)"
  by (auto simp: bond_spawn_def heartbeat_new_def silence_ok_def split: option.splits if_splits)

text \<open>In the other direction: ticks during silence are counted.\<close>

definition silent_at :: "heartbeat \<Rightarrow> int \<Rightarrow> bool" where
  "silent_at hb t \<longleftrightarrow> int (hb_base hb + hb_jitter hb) < t - hb_last_recv hb"

fun due_ticks :: "int \<Rightarrow> nat \<Rightarrow> int list \<Rightarrow> bool" where
  "due_ticks next period [] = True"
| "due_ticks next period (t # ts) = (next \<le> t \<and> due_ticks (t + int period) period ts)"

lemma ticks_counted:
  assumes "bw_terminated w = None" "\<not> bw_cancelled w" and "due_ticks (hb_next (bw_heartbeat w)) (hb_period (bw_heartbeat w)) ts"
    and "list_all (silent_at (bw_heartbeat w)) ts" and "hb_missed (bw_heartbeat w) + length ts < 2 ^ 32" and "ts \<noteq> []"
  shows "\<exists>w'. bond_run rt (map (\<lambda>t. (t, InTick)) ts) (w, d) = Some (w', d) \<and> bw_terminated w' = None \<and> \<not> bw_cancelled w' \<and>
    (hb_missed (bw_heartbeat w) + length ts \<ge> hb_max_missed (bw_heartbeat w) \<longrightarrow> bw_alert w')"
  using assms
proof (induction ts arbitrary: w)
  case (Cons t ts)
  define hb where "hb = (bw_heartbeat w)\<lparr>hb_missed := hb_missed (bw_heartbeat w) + 1, hb_next := t + int (hb_period (bw_heartbeat w))\<rparr>"
  have tick: "heartbeat_tick t (bw_heartbeat w) = (hb_missed hb \<ge> hb_max_missed hb, hb)"
    using Cons.prems by (auto simp: heartbeat_tick_def hb_def silent_at_def Let_def)
  define w1 where "w1 = on_heartbeat_tick (w\<lparr>bw_heartbeat := hb, bw_alert := bw_alert w \<or> hb_missed hb \<ge> hb_max_missed hb\<rparr>)"
  have step: "bond_step rt t InTick (w, d) = Some (w1, d)"
    using Cons.prems tick by (simp add: bond_step_def w1_def)
  have w1: "bw_terminated w1 = None" "\<not> bw_cancelled w1" "bw_heartbeat w1 = hb"
      "hb_missed hb \<ge> hb_max_missed hb \<longrightarrow> bw_alert w1"
    using Cons.prems by (auto simp: w1_def on_heartbeat_tick_def enqueue_message_def)
  show ?case
  proof (cases "ts = []")
    case True
    then show ?thesis using step w1 by (auto simp: hb_def)
  next
    case False
    have "silent_at hb = silent_at (bw_heartbeat w)" by (auto simp: fun_eq_iff silent_at_def hb_def)
    then have "due_ticks (hb_next hb) (hb_period hb) ts" "list_all (silent_at hb) ts" "hb_missed hb + length ts < 2 ^ 32"
      using Cons.prems by (simp_all add: hb_def)
    then obtain w' where "bond_run rt (map (\<lambda>t. (t, InTick)) ts) (w1, d) = Some (w', d)" "bw_terminated w' = None"
        "\<not> bw_cancelled w'" "hb_missed hb + length ts \<ge> hb_max_missed hb \<longrightarrow> bw_alert w'"
      using Cons.IH [of w1] w1 False by auto
    then show ?thesis using step by (auto simp: hb_def)
  qed
qed simp

lemma run_append: "bond_run rt (is @ js) wd = Option.bind (bond_run rt is wd) (bond_run rt js)"
proof (induction "is" arbitrary: wd)
  case (Cons a "is")
  show ?case by (cases a; cases "bond_step rt (fst a) (snd a) wd") (simp_all add: Cons.IH)
qed simp

section \<open>The expiration of the ticket\<close>

text \<open>Inputs that do not carry an entry update.\<close>

fun entry_free :: "('x, 'a, 'k, 'g, 'm) bond_rt \<Rightarrow> bond_input \<Rightarrow> bool" where
  "entry_free rt (InRecv (ReadBytes b) _ _) = (case rt_decode rt b of Some (PeerEntryUpdate _) \<Rightarrow> False | _ \<Rightarrow> True)"
| "entry_free rt _ = True"

lemma message_keeps_peer:
  assumes "\<forall>e. msg \<noteq> PeerEntryUpdate e"
  shows "bw_peer (fst (on_bond_message ctx denv dcfg now msg (w, d))) = bw_peer w \<and>
    bw_ticket_expiry (fst (on_bond_message ctx denv dcfg now msg (w, d))) = bw_ticket_expiry w"
  using assms by (cases msg) (auto simp: bond_handler_defs)

lemma recv_message: "recv_with_size tr decode read x = (Inr (msg, n), x') \<Longrightarrow> \<exists>b. read = ReadBytes b \<and> decode b = Some msg"
  by (auto simp: recv_with_size_def split: frame_read.splits option.splits prod.splits)

lemma handle_keeps_peer:
  assumes "bond_handle rt now i (w, d) = Some (w', d')" "entry_free rt i" "now < bw_ticket_expiry w \<or> i \<noteq> InTicketTimer"
  shows "bw_peer w' = bw_peer w \<and> bw_ticket_expiry w' = bw_ticket_expiry w"
proof (cases i)
  case (InRecv read draw rtt)
  obtain result x where r: "recv_with_size (rt_transport rt) (rt_decode rt) read (bw_conn w) = (result, x)" by force
  show ?thesis
  proof (cases result)
    case (Inl e)
    then show ?thesis using assms InRecv r by (auto simp: on_next_recv_def bw_cancel_def split: if_splits)
  next
    case (Inr p)
    obtain msg n where p: "p = (msg, n)" by force
    obtain hb d1 where m: "on_bond_message (rt_ctx rt) (rt_denv rt) (rt_dcfg rt) now msg (w\<lparr>bw_conn := x, bw_heartbeat := hb\<rparr>, d1) = (w', d')"
      using assms InRecv r Inr p by (auto simp: on_next_recv_def Let_def)
    have "\<forall>e. msg \<noteq> PeerEntryUpdate e"
      using recv_message [of "rt_transport rt" "rt_decode rt" read "bw_conn w" msg n x] r Inr p assms(2) InRecv by auto
    then show ?thesis
      using message_keeps_peer [of msg "rt_ctx rt" "rt_denv rt" "rt_dcfg rt" now "w\<lparr>bw_conn := x, bw_heartbeat := hb\<rparr>" d1] m by simp
  qed
next
  case (InCommand cmd)
  then show ?thesis using assms by (cases cmd) (auto simp: bw_cancel_def)
qed (use assms in \<open>auto simp: bond_handler_defs Let_def
       split: option.splits if_splits prod.splits list.splits sum.splits conn_error.splits\<close>)

lemma run_keeps_ticket:
  "bond_run rt is (w, d) = Some (w', d') \<Longrightarrow> list_all (\<lambda>(t, i). entry_free rt i \<and> (i = InTicketTimer \<longrightarrow> t < e)) is
    \<Longrightarrow> bw_peer w = peer \<Longrightarrow> bw_ticket_expiry w = e \<Longrightarrow> bw_peer w' = peer \<and> bw_ticket_expiry w' = e"
proof (induction "is" arbitrary: w d)
  case (Cons a "is")
  obtain now i where a: "a = (now, i)" by force
  obtain w1 d1 where s: "bond_step rt now i (w, d) = Some (w1, d1)" and r: "bond_run rt is (w1, d1) = Some (w', d')"
    using Cons.prems(1) a by (auto simp: bind_eq_Some_conv)
  have "bw_peer w1 = peer \<and> bw_ticket_expiry w1 = e"
  proof (cases "bw_terminated w \<noteq> None \<or> bw_cancelled w")
    case True
    then show ?thesis using s Cons.prems(3,4) by (auto simp: bond_step_def bond_finish_def split: if_splits)
  next
    case False
    then show ?thesis
      using s Cons.prems a handle_keeps_peer [of rt now i w d w1 d1] by (auto simp: bond_step_def split: if_splits)
  qed
  then show ?case using Cons.IH [OF r] Cons.prems(2) by simp
qed simp

end
