(* ===== verification/Group_Worker.thy ===== *)
theory Group_Worker
  imports Bond_Worker "HOL-Library.Multiset"
begin

text \<open>
  The table of bonds of \<open>groups/bond/mod.rs\<close>, the worker of a group (\<open>groups/group/worker.rs\<close>,
  \<open>groups/group/state.rs\<close>) and the registry of joined groups (\<open>groups/builder.rs\<close>, \<open>Drop for Group\<close>).

  A bond's handle has a number that identifies its worker; what is sent to that worker is collected
  in \<open>gw_sent\<close>. The work queue is the list of handshakes that are under way: its tasks end when
  \<open>Bond::create\<close> or \<open>Bond::accept\<close> do, with a result that is an argument here. \<open>bond_events\<close> is the
  list of streams the loop listens to, by handle and peer; a stream ends with its \<open>Terminated\<close> event.
\<close>

section \<open>The table of bonds\<close>

record ('a, 'g) bond_ref =
  bh_number :: nat
  bh_id :: unique_id
  bh_peer :: "('a, 'g) signed_entry"

type_synonym ('a, 'g) bonds = "(peer_id \<times> ('a, 'g) bond_ref) list"

definition contains_peer :: "peer_id \<Rightarrow> ('a, 'g) bonds \<Rightarrow> bool" where
  "contains_peer p bonds \<longleftrightarrow> map_of bonds p \<noteq> None"

text \<open>\<open>update_with\<close>: the watchers are notified if the number of bonds changed.\<close>

definition update_with :: "(('a, 'g) bonds \<Rightarrow> ('a, 'g) bonds) \<Rightarrow> ('a, 'g) bonds \<Rightarrow> bool \<times> ('a, 'g) bonds" where
  "update_with f bonds = (length (f bonds) \<noteq> length bonds, f bonds)"

text \<open>The peers a message is sent to, and what their workers are told.\<close>

definition bonds_broadcast :: "string \<Rightarrow> peer_id list \<Rightarrow> ('a, 'g) bonds \<Rightarrow> peer_id list \<times> (nat \<times> worker_command) list" where
  "bonds_broadcast encoded except bonds =
    (let hs = filter (\<lambda>h. pe_id (fst (bh_peer h)) \<notin> set except) (map snd bonds)
     in (map (pe_id \<circ> fst \<circ> bh_peer) hs, map (\<lambda>h. (bh_number h, SendRawMessage encoded)) hs))"

text \<open>The encoding of these messages does not fail (\<open>expect\<close>); it is an argument.\<close>

definition notify_local_info_update ::
  "(('a, 'g, 'm) bond_message \<Rightarrow> string) \<Rightarrow> ('a, 'g) signed_entry \<Rightarrow> ('a, 'g) bonds \<Rightarrow> (nat \<times> worker_command) list" where
  "notify_local_info_update enc entry bonds = snd (bonds_broadcast (enc (PeerEntryUpdate entry)) [] bonds)"

definition notify_bond_formed ::
  "(('a, 'g, 'm) bond_message \<Rightarrow> string) \<Rightarrow> ('a, 'g) signed_entry \<Rightarrow> ('a, 'g) bonds \<Rightarrow> (nat \<times> worker_command) list" where
  "notify_bond_formed enc entry bonds = snd (bonds_broadcast (enc (BondFormed entry)) [pe_id (fst entry)] bonds)"

definition notify_departure ::
  "(('a, 'g, 'm) bond_message \<Rightarrow> string) \<Rightarrow> ('a, 'g) bonds \<Rightarrow> (nat \<times> worker_command) list" where
  "notify_departure enc bonds = snd (bonds_broadcast (enc Departure) [] bonds)"

section \<open>State of the worker\<close>

datatype ('a, 'g, 'c) group_command =
    ConnectTo "('a, 'g) signed_entry"
  | Subscribe nat peer_id
  | RaftCommand 'c

datatype ('a, 'g) bond_task = CreateTask "('a, 'g) signed_entry" | AcceptTask peer_id

record ('a, 'g, 'm, 'c) group_worker =
  gw_bonds :: "('a, 'g) bonds"
  gw_commands :: "('a, 'g, 'c) group_command list"
  gw_bond_events :: "(nat \<times> peer_id) list"
  gw_tasks :: "('a, 'g) bond_task list"
  gw_sent :: "(nat \<times> worker_command) list"
  gw_raft_in :: "('m \<times> peer_id) list"
  gw_raft_commands :: "'c list"
  gw_last_local :: peer_version
  gw_notified :: nat

definition group_worker_new :: "peer_version \<Rightarrow> ('a, 'g, 'm, 'c) group_worker" where
  "group_worker_new v =
    \<lparr>gw_bonds = [], gw_commands = [], gw_bond_events = [], gw_tasks = [], gw_sent = [], gw_raft_in = [],
     gw_raft_commands = [], gw_last_local = v, gw_notified = 0\<rparr>"

definition set_bonds ::
  "(('a, 'g) bonds \<Rightarrow> ('a, 'g) bonds) \<Rightarrow> ('a, 'g, 'm, 'c) group_worker \<Rightarrow> ('a, 'g, 'm, 'c) group_worker" where
  "set_bonds f g =
    (let (changed, bonds) = update_with f (gw_bonds g)
     in g\<lparr>gw_bonds := bonds, gw_notified := (if changed then gw_notified g + 1 else gw_notified g)\<rparr>)"

definition gw_send :: "(nat \<times> worker_command) list \<Rightarrow> ('a, 'g, 'm, 'c) group_worker \<Rightarrow> ('a, 'g, 'm, 'c) group_worker" where
  "gw_send cmds g = g\<lparr>gw_sent := gw_sent g @ cmds\<rparr>"

section \<open>Making bonds\<close>

definition create_bond ::
  "peer_id \<Rightarrow> ('a, 'g) signed_entry \<Rightarrow> ('a, 'g, 'm, 'c) group_worker \<Rightarrow> ('a, 'g, 'm, 'c) group_worker" where
  "create_bond local_id peer g =
    (if pe_id (fst peer) = local_id then g
     else if contains_peer (pe_id (fst peer)) (gw_bonds g) then g
     else g\<lparr>gw_tasks := gw_tasks g @ [CreateTask peer]\<rparr>)"

text \<open>
  What the task does when the handshake succeeded: the bond enters the table if there is no other
  one with the peer, and the loop is told to listen to it. The flag says whether the loop still
  takes commands.
\<close>

definition insert_bond ::
  "bool \<Rightarrow> peer_id \<Rightarrow> ('a, 'g) bond_ref \<Rightarrow> ('a, 'g, 'm, 'c) group_worker \<Rightarrow> bool \<times> ('a, 'g, 'm, 'c) group_worker" where
  "insert_bond open_rx p h g =
    (if contains_peer p (gw_bonds g) then (False, gw_send [(bh_number h, CloseBond AlreadyBonded)] g)
     else if open_rx
     then (True, set_bonds (btree_insert p h) (g\<lparr>gw_commands := gw_commands g @ [Subscribe (bh_number h) p]\<rparr>))
     else (False, g))"

definition create_done ::
  "bool \<Rightarrow> peer_id \<Rightarrow> group_error + ('a, 'g) bond_ref \<Rightarrow> ('a, 'g, 'm, 'c) group_worker \<Rightarrow> ('a, 'g, 'm, 'c) group_worker" where
  "create_done open_rx p result g =
    (case result of Inl _ \<Rightarrow> g | Inr h \<Rightarrow> snd (insert_bond open_rx p h g))"

datatype accept_answer = AnswerOk | AnswerAlreadyBonded | AnswerCancelled | AnswerError group_error

text \<open>\<open>None\<close>: the assertion that the entry belongs to the remote end of the link fails.\<close>

definition accept_bond ::
  "peer_id \<Rightarrow> ('a, 'g) signed_entry \<Rightarrow> ('a, 'g, 'm, 'c) group_worker
    \<Rightarrow> (accept_answer option \<times> ('a, 'g, 'm, 'c) group_worker) option" where
  "accept_bond remote peer g =
    (if pe_id (fst peer) \<noteq> remote then None
     else if contains_peer remote (gw_bonds g) then Some (Some AnswerAlreadyBonded, g)
     else Some (None, g\<lparr>gw_tasks := gw_tasks g @ [AcceptTask remote]\<rparr>))"

definition accept_done ::
  "bool \<Rightarrow> peer_id \<Rightarrow> group_error + ('a, 'g) bond_ref \<Rightarrow> ('a, 'g, 'm, 'c) group_worker
    \<Rightarrow> accept_answer \<times> ('a, 'g, 'm, 'c) group_worker" where
  "accept_done open_rx p result g =
    (case result of
       Inl e \<Rightarrow> (AnswerError e, g)
     | Inr h \<Rightarrow>
         (case insert_bond open_rx p h g of
            (True, g1) \<Rightarrow> (AnswerOk, g1)
          | (False, g1) \<Rightarrow>
              if contains_peer p (gw_bonds g) then (AnswerAlreadyBonded, g1)
              else (AnswerCancelled, gw_send [(bh_number h, CloseBond Cancelled)] g1)))"

section \<open>Handlers\<close>

text \<open>\<open>None\<close>: one of the \<open>expect\<close>s of the update of the local entry fails.\<close>

definition on_init ::
  "('a, 'k, 'g) disc_env \<Rightarrow> disc_config \<Rightarrow> int \<Rightarrow> 'k \<Rightarrow> unique_id \<Rightarrow> ('a, 'g) catalog \<Rightarrow> ('a, 'g) catalog option" where
  "on_init denv dcfg now secret group_id c =
    update_local_entry denv dcfg now secret (add_groups (to_millis now) [group_id]) c"

definition members_in ::
  "('a, 'k, 'g) disc_env \<Rightarrow> disc_config \<Rightarrow> int \<Rightarrow> 'a group_ctx \<Rightarrow> ('a, 'g) catalog \<Rightarrow> ('a, 'g) signed_entry list" where
  "members_in denv dcfg now ctx c =
    filter (\<lambda>p. gc_id (gx_config ctx) |\<in>| pe_groups (fst p) \<and> authorized (gx_config ctx) now p) (signed_peers denv dcfg now c)"

definition group_catalog_update ::
  "('a, 'k, 'g) disc_env \<Rightarrow> disc_config \<Rightarrow> int \<Rightarrow> 'a group_ctx \<Rightarrow> (('a, 'g, 'm) bond_message \<Rightarrow> string)
    \<Rightarrow> ('a, 'g) catalog \<Rightarrow> ('a, 'g, 'm, 'c) group_worker \<Rightarrow> ('a, 'g, 'm, 'c) group_worker option" where
  "group_catalog_update denv dcfg now ctx enc c g =
    (let g1 = fold (create_bond (gx_local_id ctx)) (members_in denv dcfg now ctx c) g
     in case cat_local c of
          None \<Rightarrow> None
        | Some me \<Rightarrow>
            if pe_version (fst me) > gw_last_local g1
            then Some (gw_send (notify_local_info_update enc me (gw_bonds g1)) (g1\<lparr>gw_last_local := pe_version (fst me)\<rparr>))
            else Some g1)"

definition on_bond_formed ::
  "('a, 'k, 'g) disc_env \<Rightarrow> disc_config \<Rightarrow> int \<Rightarrow> (('a, 'g, 'm) bond_message \<Rightarrow> string) \<Rightarrow> ('a, 'g) catalog \<Rightarrow> peer_id
    \<Rightarrow> ('a, 'g, 'm, 'c) group_worker \<Rightarrow> ('a, 'g, 'm, 'c) group_worker" where
  "on_bond_formed denv dcfg now enc c p g =
    (if \<not> contains_peer p (gw_bonds g) then g
     else case get_signed denv dcfg now c p of
            None \<Rightarrow> g
          | Some entry \<Rightarrow> gw_send (notify_bond_formed enc entry (gw_bonds g)) g)"

fun on_bond_event ::
  "('a, 'k, 'g) disc_env \<Rightarrow> disc_config \<Rightarrow> int \<Rightarrow> (('a, 'g, 'm) bond_message \<Rightarrow> string) \<Rightarrow> ('a, 'g) catalog
    \<Rightarrow> 'm bond_event \<Rightarrow> peer_id \<Rightarrow> ('a, 'g, 'm, 'c) group_worker \<Rightarrow> ('a, 'g, 'm, 'c) group_worker" where
  "on_bond_event denv dcfg now enc c (BondTerminated reason) p g = set_bonds (AList.delete p) g"
| "on_bond_event denv dcfg now enc c BondConnected p g = on_bond_formed denv dcfg now enc c p g"
| "on_bond_event denv dcfg now enc c (BondRaft msg) p g = g\<lparr>gw_raft_in := gw_raft_in g @ [(msg, p)]\<rparr>"

fun on_worker_command ::
  "peer_id \<Rightarrow> ('a, 'g, 'c) group_command \<Rightarrow> ('a, 'g, 'm, 'c) group_worker \<Rightarrow> ('a, 'g, 'm, 'c) group_worker" where
  "on_worker_command local_id (ConnectTo peer) g = create_bond local_id peer g"
| "on_worker_command local_id (Subscribe n p) g = g\<lparr>gw_bond_events := gw_bond_events g @ [(n, p)]\<rparr>"
| "on_worker_command local_id (RaftCommand cmd) g = g\<lparr>gw_raft_commands := gw_raft_commands g @ [cmd]\<rparr>"

section \<open>The loop\<close>

text \<open>
  \<open>bond_with\<close> is the input \<open>GBondWith\<close>. A finished task leaves the queue; the peer of a \<open>create\<close> is
  the one of its task. An event is taken from a stream the loop listens to.
\<close>

datatype ('a, 'g, 'm, 'c) group_input =
    GCatalog "('a, 'g) catalog"
  | GBondWith "('a, 'g) signed_entry"
  | GRaftCommand 'c
  | GCommand
  | GAccept peer_id "('a, 'g) signed_entry"
  | GTaskDone nat "group_error + ('a, 'g) bond_ref"
  | GEvent nat "('a, 'g) catalog" "'m bond_event"

record ('a, 'k, 'g, 'm) group_rt =
  gr_denv :: "('a, 'k, 'g) disc_env"
  gr_dcfg :: disc_config
  gr_ctx :: "'a group_ctx"
  gr_encode :: "('a, 'g, 'm) bond_message \<Rightarrow> string"

definition task_done ::
  "('a, 'g) bond_task \<Rightarrow> group_error + ('a, 'g) bond_ref \<Rightarrow> ('a, 'g, 'm, 'c) group_worker \<Rightarrow> ('a, 'g, 'm, 'c) group_worker" where
  "task_done t result g =
    (case t of
       CreateTask peer \<Rightarrow> create_done True (pe_id (fst peer)) result g
     | AcceptTask p \<Rightarrow> snd (accept_done True p result g))"

definition is_terminated :: "'m bond_event \<Rightarrow> bool" where
  "is_terminated ev = (case ev of BondTerminated _ \<Rightarrow> True | _ \<Rightarrow> False)"

fun remove_nth :: "nat \<Rightarrow> 'b list \<Rightarrow> 'b list" where
  "remove_nth i [] = []"
| "remove_nth 0 (x # xs) = xs"
| "remove_nth (Suc i) (x # xs) = x # remove_nth i xs"

fun group_step ::
  "('a, 'k, 'g, 'm) group_rt \<Rightarrow> int \<Rightarrow> ('a, 'g, 'm, 'c) group_input \<Rightarrow> ('a, 'g, 'm, 'c) group_worker
    \<Rightarrow> ('a, 'g, 'm, 'c) group_worker option" where
  "group_step rt now (GCatalog c) g = group_catalog_update (gr_denv rt) (gr_dcfg rt) now (gr_ctx rt) (gr_encode rt) c g"
| "group_step rt now (GBondWith peer) g = Some (g\<lparr>gw_commands := gw_commands g @ [ConnectTo peer]\<rparr>)"
| "group_step rt now (GRaftCommand cmd) g = Some (g\<lparr>gw_commands := gw_commands g @ [RaftCommand cmd]\<rparr>)"
| "group_step rt now GCommand g =
    (case gw_commands g of
       [] \<Rightarrow> Some g
     | cmd # cmds \<Rightarrow> Some (on_worker_command (gx_local_id (gr_ctx rt)) cmd (g\<lparr>gw_commands := cmds\<rparr>)))"
| "group_step rt now (GAccept remote peer) g = map_option snd (accept_bond remote peer g)"
| "group_step rt now (GTaskDone i result) g =
    (if i < length (gw_tasks g)
     then Some (task_done (gw_tasks g ! i) result (g\<lparr>gw_tasks := remove_nth i (gw_tasks g)\<rparr>))
     else Some g)"
| "group_step rt now (GEvent i c ev) g =
    (if i < length (gw_bond_events g)
     then Some (on_bond_event (gr_denv rt) (gr_dcfg rt) now (gr_encode rt) c ev (snd (gw_bond_events g ! i))
                 (if is_terminated ev then g\<lparr>gw_bond_events := remove_nth i (gw_bond_events g)\<rparr> else g))
     else Some g)"

fun group_run ::
  "('a, 'k, 'g, 'm) group_rt \<Rightarrow> (int \<times> ('a, 'g, 'm, 'c) group_input) list \<Rightarrow> ('a, 'g, 'm, 'c) group_worker
    \<Rightarrow> ('a, 'g, 'm, 'c) group_worker option" where
  "group_run rt [] g = Some g"
| "group_run rt ((now, i) # is) g = Option.bind (group_step rt now i g) (group_run rt is)"

section \<open>The table and the streams agree\<close>

fun pending_subscriptions :: "('a, 'g, 'c) group_command list \<Rightarrow> (nat \<times> peer_id) list" where
  "pending_subscriptions [] = []"
| "pending_subscriptions (Subscribe n p # cmds) = (n, p) # pending_subscriptions cmds"
| "pending_subscriptions (ConnectTo _ # cmds) = pending_subscriptions cmds"
| "pending_subscriptions (RaftCommand _ # cmds) = pending_subscriptions cmds"

definition table_streams :: "('a, 'g) bonds \<Rightarrow> (nat \<times> peer_id) list" where
  "table_streams bonds = map (\<lambda>(p, h). (bh_number h, p)) bonds"

fun task_peer :: "('a, 'g) bond_task \<Rightarrow> peer_id" where
  "task_peer (CreateTask peer) = pe_id (fst peer)"
| "task_peer (AcceptTask p) = p"

text \<open>
  There is one bond for each peer, none with the node itself, and the streams the loop listens to or
  is about to are those of the bonds in the table: every bond of the table is removed when its own
  worker ends, and by nothing else.
\<close>

definition group_ok :: "peer_id \<Rightarrow> ('a, 'g, 'm, 'c) group_worker \<Rightarrow> bool" where
  "group_ok local_id g \<longleftrightarrow>
    sorted_wrt (<) (map fst (gw_bonds g)) \<and> local_id \<notin> fst ` set (gw_bonds g) \<and>
    local_id \<notin> task_peer ` set (gw_tasks g) \<and>
    mset (gw_bond_events g) + mset (pending_subscriptions (gw_commands g)) = mset (table_streams (gw_bonds g))"

lemma pending_append [simp]: "pending_subscriptions (xs @ ys) = pending_subscriptions xs @ pending_subscriptions ys"
  by (induction xs rule: pending_subscriptions.induct) auto

lemma pending_in_commands: "(n, p) \<in> set (pending_subscriptions cmds) \<longleftrightarrow> Subscribe n p \<in> set cmds"
  by (induction cmds rule: pending_subscriptions.induct) auto

lemma contains_peer_iff: "contains_peer p bonds \<longleftrightarrow> p \<in> fst ` set bonds"
  by (auto simp: contains_peer_def map_of_eq_None_iff)

lemma set_remove_nth: "set (remove_nth i xs) \<subseteq> set xs"
  by (induction i xs rule: remove_nth.induct) auto

lemma mset_remove_nth: "i < length xs \<Longrightarrow> mset xs = add_mset (xs ! i) (mset (remove_nth i xs))"
  by (induction i xs rule: remove_nth.induct) auto

lemma table_streams_insert:
  "p \<notin> fst ` set bonds \<Longrightarrow> mset (table_streams (btree_insert p h bonds)) = add_mset (bh_number h, p) (mset (table_streams bonds))"
  by (induction p h bonds rule: btree_insert.induct) (auto simp: table_streams_def)

lemma table_streams_delete:
  assumes "distinct (map fst bonds)" "(p, h) \<in> set bonds"
  shows "mset (table_streams bonds) = add_mset (bh_number h, p) (mset (table_streams (AList.delete p bonds)))"
  using assms
proof (induction bonds)
  case (Cons b bonds)
  show ?case
  proof (cases "fst b = p")
    case True
    then have "AList.delete p bonds = bonds" "b = (p, h)"
      using Cons.prems by (auto simp: AList.delete_eq filter_id_conv intro: rev_image_eqI)
    then show ?thesis by (simp add: table_streams_def)
  next
    case False
    then show ?thesis using Cons by (auto simp: table_streams_def)
  qed
qed simp

lemma table_sorted_delete: "sorted_wrt (<) (map fst xs) \<Longrightarrow> sorted_wrt (<) (map fst (AList.delete p xs))"
  by (induction xs) (auto simp: AList.delete_eq)

lemma group_ok_new: "group_ok local_id (group_worker_new v)"
  by (simp add: group_ok_def group_worker_new_def table_streams_def)

lemma create_bond_ok: "group_ok l g \<Longrightarrow> group_ok l (create_bond l peer g)"
  by (auto simp: create_bond_def group_ok_def)

lemma gw_send_ok [simp]: "group_ok l (gw_send cmds g) = group_ok l g"
  by (simp add: gw_send_def group_ok_def)

lemma insert_bond_ok:
  assumes "group_ok l g" "p \<noteq> l"
  shows "group_ok l (snd (insert_bond open_rx p h g))"
proof (cases "contains_peer p (gw_bonds g) \<or> \<not> open_rx")
  case True
  then show ?thesis using assms by (auto simp: insert_bond_def)
next
  case False
  then show ?thesis
    using assms table_streams_insert [of p "gw_bonds g" h]
    by (auto simp: insert_bond_def group_ok_def set_bonds_def update_with_def contains_peer_iff Let_def
        btree_insert_sorted simp flip: union_assoc)
qed

lemma task_done_ok:
  assumes "group_ok l g" "task_peer t \<noteq> l"
  shows "group_ok l (task_done t result g)"
proof (cases result)
  case (Inl e)
  then show ?thesis using assms by (cases t) (auto simp: task_done_def create_done_def accept_done_def)
next
  case (Inr h)
  have i: "group_ok l (snd (insert_bond True (task_peer t) h g))" by (rule insert_bond_ok [OF assms])
  obtain b g1 where "insert_bond True (task_peer t) h g = (b, g1)" by force
  then show ?thesis
    using i Inr by (cases t; cases b) (auto simp: task_done_def create_done_def accept_done_def)
qed

lemma terminated_ok:
  assumes "group_ok l g" "i < length (gw_bond_events g)" "gw_bond_events g ! i = (n, p)"
  shows "group_ok l (set_bonds (AList.delete p) (g\<lparr>gw_bond_events := remove_nth i (gw_bond_events g)\<rparr>)) \<and>
    (\<exists>h. map_of (gw_bonds g) p = Some h \<and> bh_number h = n)"
proof -
  have d: "distinct (map fst (gw_bonds g))"
    using assms(1) by (auto simp: group_ok_def strict_sorted_iff)
  have ev: "mset (gw_bond_events g) = add_mset (n, p) (mset (remove_nth i (gw_bond_events g)))"
    using mset_remove_nth [OF assms(2)] assms(3) by simp
  then have "(n, p) \<in># mset (table_streams (gw_bonds g))"
    using assms(1) by (metis group_ok_def union_iff union_single_eq_member)
  then obtain h where h: "(p, h) \<in> set (gw_bonds g)" "bh_number h = n"
    by (auto simp: table_streams_def)
  have "mset (remove_nth i (gw_bond_events g)) + mset (pending_subscriptions (gw_commands g)) =
      mset (table_streams (AList.delete p (gw_bonds g)))"
    using assms(1) ev table_streams_delete [OF d h(1)] h(2) by (simp add: group_ok_def)
  moreover have "map_of (gw_bonds g) p = Some h" using d h(1) by simp
  ultimately show ?thesis
    using assms(1) h(2) table_sorted_delete [of "gw_bonds g" p]
    by (auto simp: group_ok_def set_bonds_def update_with_def Let_def AList.delete_eq)
qed

text \<open>A node never accepts a connection from itself.\<close>

fun input_ok :: "peer_id \<Rightarrow> ('a, 'g, 'm, 'c) group_input \<Rightarrow> bool" where
  "input_ok l (GAccept remote peer) = (remote \<noteq> l)"
| "input_ok l _ = True"

lemma group_step_ok:
  assumes "group_ok (gx_local_id (gr_ctx rt)) g" "input_ok (gx_local_id (gr_ctx rt)) i" "group_step rt now i g = Some g'"
  shows "group_ok (gx_local_id (gr_ctx rt)) g'"
proof (cases i)
  case (GCatalog c)
  have "group_ok (gx_local_id (gr_ctx rt)) (fold (create_bond (gx_local_id (gr_ctx rt))) ps g)" for ps
    using assms(1) by (induction ps arbitrary: g) (auto simp: create_bond_ok)
  then have "group_ok (gx_local_id (gr_ctx rt)) (fold (create_bond (gx_local_id (gr_ctx rt))) ps g\<lparr>gw_last_local := v\<rparr>)" for ps v
    by (simp add: group_ok_def)
  then show ?thesis
    using assms(3) GCatalog \<open>\<And>ps. group_ok _ (fold _ ps g)\<close>
    by (auto simp: group_catalog_update_def Let_def split: option.splits if_splits)
next
  case GCommand
  show ?thesis
  proof (cases "gw_commands g")
    case (Cons cmd cmds)
    then show ?thesis
      using assms GCommand by (cases cmd) (auto simp: group_ok_def create_bond_def split: if_splits)
  qed (use assms GCommand in auto)
next
  case (GAccept remote peer)
  then show ?thesis using assms by (auto simp: accept_bond_def group_ok_def split: if_splits)
next
  case (GTaskDone j result)
  show ?thesis
  proof (cases "j < length (gw_tasks g)")
    case True
    have "group_ok (gx_local_id (gr_ctx rt)) (g\<lparr>gw_tasks := remove_nth j (gw_tasks g)\<rparr>)"
      using assms(1) set_remove_nth [of j "gw_tasks g"] by (auto simp: group_ok_def)
    moreover have "task_peer (gw_tasks g ! j) \<noteq> gx_local_id (gr_ctx rt)"
      using assms(1) nth_mem [OF True] by (auto simp: group_ok_def image_iff)
    ultimately show ?thesis using assms(3) GTaskDone True by (auto simp: task_done_ok)
  qed (use assms GTaskDone in auto)
next
  case (GEvent j c ev)
  show ?thesis
  proof (cases "j < length (gw_bond_events g)")
    case True
    obtain n p where np: "gw_bond_events g ! j = (n, p)" by force
    show ?thesis
    proof (cases ev)
      case (BondTerminated reason)
      then show ?thesis
        using assms(3) GEvent True np terminated_ok [OF assms(1) True np] by (auto simp: is_terminated_def)
    next
      case BondConnected
      then show ?thesis using assms GEvent True np
        by (auto simp: is_terminated_def on_bond_formed_def split: option.splits if_splits)
    next
      case (BondRaft msg)
      then show ?thesis using assms GEvent True np by (auto simp: is_terminated_def group_ok_def)
    qed
  qed (use assms GEvent in auto)
qed (use assms in \<open>auto simp: group_ok_def\<close>)

lemma group_run_ok:
  "group_ok (gx_local_id (gr_ctx rt)) g \<Longrightarrow> list_all (input_ok (gx_local_id (gr_ctx rt)) \<circ> snd) is
    \<Longrightarrow> group_run rt is g = Some g' \<Longrightarrow> group_ok (gx_local_id (gr_ctx rt)) g'"
proof (induction "is" arbitrary: g)
  case (Cons a "is")
  then show ?case by (cases a) (auto simp: bind_eq_Some_conv dest: group_step_ok)
qed simp

section \<open>The registry of joined groups\<close>

text \<open>
  Workers are numbered; the registry maps a group to its worker and the type of its state machine.
  \<open>None\<close>: the handle has another state machine type (\<open>expect\<close>). A handle is the worker's number and
  the group.
\<close>

record groups_registry =
  rg_active :: "(unique_id \<times> nat \<times> nat) list"
  rg_next :: nat
  rg_cancelled :: "nat list"

definition groups_join :: "nat \<Rightarrow> unique_id \<Rightarrow> groups_registry \<Rightarrow> ((nat \<times> unique_id) \<times> groups_registry) option" where
  "groups_join machine_type group_id r =
    (case map_of (rg_active r) group_id of
       Some (w, t) \<Rightarrow> if t = machine_type then Some ((w, group_id), r) else None
     | None \<Rightarrow>
         Some ((rg_next r, group_id),
               r\<lparr>rg_active := (group_id, rg_next r, machine_type) # rg_active r, rg_next := Suc (rg_next r)\<rparr>))"

text \<open>\<open>Drop for Group\<close>; the bonds are told to depart by \<open>notify_departure\<close>.\<close>

definition group_drop :: "nat \<times> unique_id \<Rightarrow> groups_registry \<Rightarrow> groups_registry" where
  "group_drop h r = r\<lparr>rg_cancelled := fst h # rg_cancelled r, rg_active := AList.delete (snd h) (rg_active r)\<rparr>"

text \<open>
  As long as a group is joined only while it is not active, the registry has exactly the workers
  that run.
\<close>

definition registry_ok :: "groups_registry \<Rightarrow> bool" where
  "registry_ok r \<longleftrightarrow> distinct (map fst (rg_active r)) \<and> (\<forall>(g, w, t) \<in> set (rg_active r). w < rg_next r \<and> w \<notin> set (rg_cancelled r)) \<and>
    (\<forall>w < rg_next r. w \<in> set (rg_cancelled r) \<or> (\<exists>g t. (g, w, t) \<in> set (rg_active r))) \<and>
    distinct (map (fst \<circ> snd) (rg_active r)) \<and> (\<forall>w \<in> set (rg_cancelled r). w < rg_next r)"

lemma join_fresh_ok:
  assumes "registry_ok r" "map_of (rg_active r) g = None"
  shows "\<exists>r'. groups_join t g r = Some ((rg_next r, g), r') \<and> registry_ok r'"
proof (intro exI conjI)
  let ?r = "r\<lparr>rg_active := (g, rg_next r, t) # rg_active r, rg_next := Suc (rg_next r)\<rparr>"
  show "groups_join t g r = Some ((rg_next r, g), ?r)" by (simp add: groups_join_def assms(2))
  have "rg_next r \<notin> (fst \<circ> snd) ` set (rg_active r)" "rg_next r \<notin> set (rg_cancelled r)"
    using assms(1) by (auto simp: registry_ok_def)
  moreover have "g \<notin> fst ` set (rg_active r)" using assms(2) by (simp add: map_of_eq_None_iff)
  ultimately show "registry_ok ?r"
    using assms(1) by (auto simp: registry_ok_def less_Suc_eq)
qed

lemma drop_active_ok:
  assumes "registry_ok r" "map_of (rg_active r) g = Some (w, t)"
  shows "registry_ok (group_drop (w, g) r)"
proof -
  have in_r: "(g, w, t) \<in> set (rg_active r)" by (rule map_of_SomeD [OF assms(2)])
  have uniq: "g' = g \<and> t' = t" if "(g', w, t') \<in> set (rg_active r)" for g' t'
    using inj_onD [of "fst \<circ> snd" "set (rg_active r)" "(g', w, t')" "(g, w, t)"] assms(1) in_r that
    by (simp add: registry_ok_def distinct_map)
  have del: "set (AList.delete g (rg_active r)) = {x \<in> set (rg_active r). fst x \<noteq> g}"
    by (auto simp: AList.delete_eq)
  have "distinct (map (fst \<circ> snd) (AList.delete g (rg_active r)))"
    using assms(1) by (simp add: registry_ok_def AList.delete_eq distinct_map_filter)
  moreover have "distinct (map fst (AList.delete g (rg_active r)))"
    using assms(1) by (simp add: registry_ok_def AList.distinct_delete)
  moreover have "v \<in> set (w # rg_cancelled r) \<or> (\<exists>g' t'. (g', v, t') \<in> set (AList.delete g (rg_active r)))"
    if "v < rg_next r" for v
  proof (cases "v \<in> set (w # rg_cancelled r)")
    case False
    then obtain g' t' where g': "(g', v, t') \<in> set (rg_active r)"
      using assms(1) \<open>v < rg_next r\<close> by (auto simp: registry_ok_def)
    moreover have "g' \<noteq> g"
      using assms g' in_r False eq_key_imp_eq_value [of "rg_active r" g "(v, t')" "(w, t)"] by (auto simp: registry_ok_def)
    ultimately show ?thesis by (auto simp: del)
  qed simp
  moreover have "u < rg_next r \<and> u \<notin> set (w # rg_cancelled r)" if "(g', u, t') \<in> set (AList.delete g (rg_active r))" for g' u t'
    using assms(1) uniq that by (auto simp: registry_ok_def del)
  moreover have "w < rg_next r" using assms(1) in_r by (auto simp: registry_ok_def)
  ultimately show ?thesis
    using assms(1) by (auto simp: registry_ok_def group_drop_def)
qed

end
