(* ===== verification/Group_Properties.thy ===== *)
theory Group_Properties
  imports Group_Worker
begin

text \<open>
  Properties of the membership layer: what a group identifier and a bonding handshake guarantee, the
  life of a bond, and the table of bonds of a group.
\<close>

section \<open>Identifiers and handshakes\<close>


text \<open>A hash for the examples: it tells inputs of 32, 48 and 64 bytes apart, and the latter by their second half.\<close>

definition ex_hash :: hash_fun where
  "ex_hash s = (if length s = 32 then 1 else if length s = 48 then 2 else 3 + be_value (drop 32 s)) mod 256 ^ 32"


lemma small_digest_ok [simp]: "n < 1000 \<Longrightarrow> digest_ok n"
  by (simp add: digest_ok_def)

lemma ex_hash_simps [simp]:
  "ex_hash (as_bytes d) = 1" "ex_hash (consensus_bytes c) = 2"
  "n < 1000 \<Longrightarrow> ex_hash (as_bytes d @ as_bytes n) = 3 + n"
  using from_bytes_as_bytes [of n] by (simp_all add: ex_hash_def consensus_bytes_def from_bytes_def digest_ok_def)







text \<open>
  Example nodes: a connection is the name of its remote end and whether it was closed, every session
  exports the same bytes; messages of the handshake have one encoding.
\<close>

type_synonym ex_conn = "peer_id \<times> conn_error option"

definition ex_transport :: "ex_conn transport" where
  "ex_transport =
    \<lparr>tr_remote = fst, tr_alpn = (\<lambda>_. groups_alpn), tr_export = (\<lambda>_ _ _. as_bytes 20), tr_close_reason = snd,
     tr_close = (\<lambda>_ x. case snd x of None \<Rightarrow> (fst x, Some LocallyClosed) | Some _ \<Rightarrow> x)\<rparr>"

lemma ex_transport_law: "transport_law ex_transport"
  by (auto simp: transport_law_def ex_transport_def split: option.splits)

definition ex_config :: "nat group_config" where
  "ex_config = \<lparr>gc_id = 9, gc_key = GroupKey 5, gc_consensus = consensus_default, gc_auth = []\<rparr>"

definition ex_ctx :: "peer_id \<Rightarrow> nat group_ctx" where
  "ex_ctx p = \<lparr>gx_config = ex_config, gx_network = 7, gx_local_id = p\<rparr>"

definition ex_peer :: "peer_id \<Rightarrow> (nat, nat) signed_entry" where
  "ex_peer p =
    (\<lparr>pe_protocol = ''1'', pe_network = 7, pe_version = Version 1 1, pe_id = p, pe_addrs = p, pe_tags = {||},
      pe_streams = {||}, pe_groups = {||}, pe_tickets = []\<rparr>, p)"

definition ex_end :: "(nat, nat) handshake_end" where
  "ex_end = \<lparr>he_proof = generate_proof ex_hash ex_transport (GroupKey 5) (1, None) 2 9, he_bonds = []\<rparr>"

definition ex_bond_env :: "(ex_conn, nat, nat) bond_env" where
  "ex_bond_env =
    \<lparr>be_hash = ex_hash, be_transport = ex_transport, be_encode_start = (\<lambda>_. Some ''s''), be_decode_start = (\<lambda>_. None),
     be_encode_end = (\<lambda>_. Some ''e''), be_decode_end = (\<lambda>_. Some ex_end)\<rparr>"

lemma ex_bond_simps [simp]:
  "be_hash ex_bond_env = ex_hash" "be_transport ex_bond_env = ex_transport" "be_encode_start ex_bond_env m = Some ''s''"
  "be_encode_end ex_bond_env e = Some ''e''" "be_decode_end ex_bond_env b = Some ex_end"
  "tr_remote ex_transport x = fst x" "tr_export ex_transport x l a = as_bytes 20" "tr_close_reason ex_transport x = snd x"
  "gx_config (ex_ctx p) = ex_config" "gx_network (ex_ctx p) = 7" "gx_local_id (ex_ctx p) = p"
  "gc_id ex_config = 9" "gc_key ex_config = GroupKey 5" "gc_auth ex_config = []" "gc_consensus ex_config = consensus_default"
  "pe_id (fst (ex_peer p)) = p"
  by (simp_all add: ex_bond_env_def ex_transport_def ex_ctx_def ex_config_def ex_peer_def)

lemma ex_authorized [simp]: "authorized ex_config now peer"
  by (simp add: authorized_def authorize_peer_def validate_tickets_def)

lemma ex_shared_random [simp]: "shared_random ex_transport a l x = 20"
  using from_bytes_as_bytes [of 20] by (simp add: shared_random_def digest_ok_def)


text \<open>
  When the acceptor closes the connection during the handshake because the proof is wrong or the
  tickets are missing, the initiator tries to close the connection once more, which fails because it is
  closed already, and so it reports an error of the link; the error that is meant for this case is
  never returned.
\<close>

theorem rejected_proof_is_link_error:
  assumes "authorized (gx_config ctx) (at_now a) peer" "at_connect a = ConnectOk x BiOk" "at_send a = WriteDone"
    and "be_encode_start env (start_message env ctx (at_bonds a) x) \<noteq> None"
    and "at_answer a = Some (ReadFailed (StreamLost (ApplicationClosed reason)), x')"
    and "tr_close_reason (be_transport env) x' = Some (ApplicationClosed reason)"
    and "is_reason reason InvalidProof \<or> is_reason reason NotAllowed"
  shows "fst (bond_create env ctx peer (a # as)) = Some (Inl (GLink (LinkClose (AlreadyClosed (ApplicationClosed reason)))))"
proof -
  obtain b where "be_encode_start env (start_message env ctx (at_bonds a) x) = Some b" using assms(4) by blast
  moreover have "\<not> is_reason reason UnknownPeer"
    using assms(7) by (auto simp: close_reason_defs)
  ultimately show ?thesis
    using assms link_close_closed [OF assms(6)]
    by (auto simp: open_with_cancel_def link_send_def send_raw_def link_recv_def recv_with_size_def close_with_def
        link_of_close_def Let_def)
qed

definition ex_rejected :: "(ex_conn, nat, nat) create_attempt" where
  "ex_rejected =
    \<lparr>at_now = 0, at_connect = ConnectOk (2, None) BiOk, at_bonds = [], at_send = WriteDone,
     at_answer = Some (ReadFailed (StreamLost (ApplicationClosed InvalidProof)), (2, Some (ApplicationClosed InvalidProof))),
     at_cancelled = False, at_sync = None\<rparr>"

theorem rejected_proof_is_link_error_witness:
  "fst (bond_create ex_bond_env (ex_ctx 1) (ex_peer 2) [ex_rejected]) =
    Some (Inl (GLink (LinkClose (AlreadyClosed (ApplicationClosed InvalidProof)))))"
  by (rule rejected_proof_is_link_error [where x = "(2, None)" and x' = "(2, Some (ApplicationClosed InvalidProof))"])
    (simp_all add: ex_rejected_def)

text \<open>
  A peer that keeps answering that it does not know us is synchronised with and tried again, without
  a limit and without a delay.
\<close>

theorem create_retries_unknown:
  assumes "\<And>a. a \<in> set attempts \<Longrightarrow> authorized (gx_config ctx) (at_now a) peer \<and> at_send a = WriteDone \<and> at_sync a = None \<and>
      (\<exists>x x'. at_connect a = ConnectOk x BiOk \<and> be_encode_start env (start_message env ctx (at_bonds a) x) \<noteq> None \<and>
        at_answer a = Some (ReadFailed (StreamLost (ApplicationClosed UnknownPeer)), x'))"
  shows "fst (bond_create env ctx peer attempts) = None \<and> length (snd (bond_create env ctx peer attempts)) = length attempts"
  using assms
proof (induction attempts)
  case (Cons a attempts)
  obtain x x' b where "at_connect a = ConnectOk x BiOk" "be_encode_start env (start_message env ctx (at_bonds a) x) = Some b"
      "at_answer a = Some (ReadFailed (StreamLost (ApplicationClosed UnknownPeer)), x')"
    using Cons.prems [of a] by auto
  moreover obtain r sent where "bond_create env ctx peer attempts = (r, sent)" by force
  ultimately show ?case
    using Cons by (auto simp: open_with_cancel_def link_send_def send_raw_def link_recv_def recv_with_size_def Let_def)
qed simp



section \<open>The life of a bond\<close>

text \<open>
  C14. The worker of a bond that could be started never panics, whatever arrives in whatever order, and
  what the group sees of it is: the bond is up, raft messages, and at most once and at the end that
  the bond is over, with the reason the worker has.
\<close>

theorem bond_run_protocol:
  assumes "bond_spawn env ctx draw now peer x = Some w"
  shows "\<exists>w' d'. bond_run rt is (w, d) = Some (w', d') \<and> bw_id w' = bond_id env x \<and> bond_events_ok w'"
proof -
  have "bw_id w = bond_id env x" using assms by (auto simp: bond_spawn_def)
  then show ?thesis using bond_run_ok [of w rt "is" d] spawn_ok [OF assms] by metis
qed

definition ex_heartbeat :: heartbeat where
  "ex_heartbeat =
    \<lparr>hb_period = 500000000, hb_next = 0, hb_last_recv = 0, hb_missed = 0, hb_max_missed = 10, hb_base = 500000000,
     hb_jitter = 150000000\<rparr>"

definition ex_worker :: "(ex_conn, nat, nat, nat) bond_worker" where
  "ex_worker =
    \<lparr>bw_id = 20, bw_peer = ex_peer 2, bw_conn = (2, None), bw_pending = [], bw_heartbeat = ex_heartbeat, bw_alert = False,
     bw_cancelled = False, bw_events = [BondConnected], bw_listening = True, bw_close_reason = Cancelled,
     bw_ticket_expiry = far_future, bw_connects = [], bw_terminated = None\<rparr>"

lemma ex_spawn: "bond_spawn ex_bond_env (ex_ctx 1) 0 0 (ex_peer 2) (2, None) = Some ex_worker"
  by (simp add: bond_spawn_def heartbeat_new_def next_tick_at_def as_millis_def consensus_default_def ex_worker_def
      ex_heartbeat_def bond_id_def sleep_until_expiry_def authorize_peer_def validate_tickets_def)

definition ex_decode :: "string \<Rightarrow> (nat, nat, nat) bond_message option" where
  "ex_decode b =
    (if b = ''p'' then Some Ping else if b = ''r'' then Some (RaftMessage 3) else if b = ''d'' then Some Departure
     else if b = ''u'' then Some (PeerEntryUpdate (ex_peer 3)) else None)"

definition ex_denv :: "(nat, nat, nat) disc_env" where
  "ex_denv =
    \<lparr>de_derive = (\<lambda>c d. c), de_digest = (\<lambda>e. ''''), de_departure_digest = (\<lambda>p v t. ''''), de_public = (\<lambda>k. k),
     de_sign = (\<lambda>k m. k), de_verify = (\<lambda>p m g. g = p), de_time_ok = (\<lambda>t. True)\<rparr>"

definition ex_dcfg :: disc_config where
  "ex_dcfg = \<lparr>dc_purge_after = 1000000000000, dc_max_time_drift = 1000000000000, dc_max_rtt = None\<rparr>"

definition ex_rt :: "(ex_conn, nat, nat, nat, nat) bond_rt" where
  "ex_rt =
    \<lparr>rt_transport = ex_transport, rt_encode = (\<lambda>_. Some ''m''), rt_decode = ex_decode, rt_ctx = ex_ctx 1,
     rt_denv = ex_denv, rt_dcfg = ex_dcfg\<rparr>"

definition ex_discovery :: "(nat, nat) discovery" where
  "ex_discovery =
    \<lparr>dv_catalog = \<lparr>cat_local_id = 1, cat_network = 7, cat_signed = [(1, ex_peer 1), (2, ex_peer 2)], cat_unsigned = []\<rparr>,
     dv_rtt = rtt_tracker_new, dv_seen = {}, dv_neighbors = 0, dv_last_own_version = Version 1 1, dv_messages_out = [],
     dv_announce_events = [], dv_sync_events = [], dv_effects = []\<rparr>"

theorem bond_run_protocol_witness:
  "\<exists>w d. bond_run ex_rt [(1, InRecv (ReadBytes ''r'') 0 None), (2, InTick), (3, InRecv (ReadBytes ''d'') 0 None), (4, InTick)]
      (ex_worker, ex_discovery) = Some (w, d) \<and> bw_id w = bond_id ex_bond_env (2, None) \<and> bond_events_ok w"
  by (rule bond_run_protocol [OF ex_spawn])

text \<open>
  A bond is given up for silence only when the remote peer was silent for longer than the heartbeat
  interval, the jitter, and one period for each missed heartbeat but the first (with the default
  settings at least 3.8 seconds: 650 ms and nine periods of more than 350 ms).
\<close>

theorem peer_kept_while_heard:
  assumes "bond_spawn env ctx draw now0 peer x = Some w" and "bond_run rt is (w, d) = Some (w1, d1)"
    and "bond_step rt now InTick (w1, d1) = Some (w2, d2)" and "\<not> bw_alert w1" "bw_alert w2"
    and "0 < hb_max_missed (bw_heartbeat w1)"
  shows "now - hb_last_recv (bw_heartbeat w1) >
    int (hb_base (bw_heartbeat w1) + hb_jitter (bw_heartbeat w1) + (hb_max_missed (bw_heartbeat w1) - 1) * hb_period (bw_heartbeat w1))"
proof -
  let ?hb = "bw_heartbeat w1"
  obtain alert hb where t: "heartbeat_tick now ?hb = (alert, hb)" by force
  have due: "hb_next ?hb \<le> now" and alert: "alert"
    using assms(3-5) t by (auto simp: bond_step_def bond_finish_def on_heartbeat_tick_def enqueue_message_def split: if_splits)
  have "silence_ok ?hb" by (rule run_silence [OF assms(2) spawn_silence [OF assms(1)]])
  then have s: "silence_ok hb" by (rule tick_silence [OF _ due t])
  have hb: "hb_missed hb \<ge> hb_max_missed ?hb" "hb_next hb = now + int (hb_period ?hb)" "hb_period hb = hb_period ?hb"
      "hb_base hb = hb_base ?hb" "hb_jitter hb = hb_jitter ?hb" "hb_last_recv hb = hb_last_recv ?hb"
    using t alert by (auto simp: heartbeat_tick_def Let_def)
  have "(hb_max_missed ?hb - 1) * hb_period ?hb \<le> (hb_missed hb - 1) * hb_period hb"
    using hb(1,3) by (simp add: diff_le_mono mult_le_mono1)
  moreover have "int ((hb_missed hb - 1) * hb_period hb + hb_base ?hb + hb_jitter ?hb) < now - hb_last_recv ?hb"
    using s hb assms(6) by (simp add: silence_ok_def del: of_nat_add of_nat_mult)
  ultimately show ?thesis by linarith
qed




definition ex_ctx_strict :: "nat group_ctx" where
  "ex_ctx_strict = (ex_ctx 1)\<lparr>gx_config := ex_config\<lparr>gc_consensus := consensus_default\<lparr>cc_max_missed_heartbeats := 1\<rparr>\<rparr>\<rparr>"

definition ex_worker_strict :: "(ex_conn, nat, nat, nat) bond_worker" where
  "ex_worker_strict = ex_worker\<lparr>bw_heartbeat := ex_heartbeat\<lparr>hb_max_missed := 1\<rparr>\<rparr>"

lemma ex_spawn_strict: "bond_spawn ex_bond_env ex_ctx_strict 0 0 (ex_peer 2) (2, None) = Some ex_worker_strict"
  by (simp add: bond_spawn_def heartbeat_new_def next_tick_at_def as_millis_def consensus_default_def ex_worker_def
      ex_heartbeat_def bond_id_def sleep_until_expiry_def authorize_peer_def validate_tickets_def ex_ctx_strict_def
      ex_worker_strict_def)

theorem peer_kept_while_heard_witness:
  "(700000000 :: int) - hb_last_recv (bw_heartbeat ex_worker_strict) >
    int (hb_base (bw_heartbeat ex_worker_strict) + hb_jitter (bw_heartbeat ex_worker_strict) +
      (hb_max_missed (bw_heartbeat ex_worker_strict) - 1) * hb_period (bw_heartbeat ex_worker_strict))"
  by (rule peer_kept_while_heard [OF ex_spawn_strict, of ex_rt "[]" ex_discovery _ ex_discovery _
        "on_heartbeat_tick (ex_worker_strict\<lparr>bw_heartbeat := snd (heartbeat_tick 700000000 (bw_heartbeat ex_worker_strict)), bw_alert := True\<rparr>)"
        ex_discovery])
    (simp_all add: ex_worker_strict_def ex_worker_def ex_heartbeat_def bond_step_def heartbeat_tick_def
      on_heartbeat_tick_def enqueue_message_def)

text \<open>
  C15. A bond does not outlive the ticket it was made with: if no update of an entry arrives, then when the timer of the
  ticket fires at or after the expiration and the validators reject the peer, the bond is closed, and with the
  reason \<open>NotAllowed\<close> if nothing else had ended it.
\<close>

theorem bond_ends_with_ticket:
  assumes spawn: "bond_spawn env (rt_ctx rt) draw t0 peer x = Some w"
    and auth: "gc_auth (gx_config (rt_ctx rt)) \<noteq> []" "authorize_peer (gx_config (rt_ctx rt)) t0 peer = Some (Some (At e))" "t0 \<le> e"
    and free: "list_all (\<lambda>(t, i). entry_free rt i \<and> (i = InTicketTimer \<longrightarrow> t < e)) is"
    and run: "bond_run rt is (w, d) = Some (w1, d1)"
    and late: "e \<le> now" "authorize_peer (gx_config (rt_ctx rt)) now peer = None"
  shows "\<exists>w2. bond_run rt [(now, InTicketTimer), (now', j)] (w1, d1) = Some (w2, d1) \<and> bw_terminated w2 \<noteq> None \<and>
    (\<not> bw_cancelled w1 \<and> bw_terminated w1 = None \<longrightarrow> bw_terminated w2 = Some NotAllowed)"
proof -
  have start: "bw_peer w = peer" "bw_ticket_expiry w = e"
    using spawn auth by (auto simp: bond_spawn_def sleep_until_expiry_def)
  have "bw_peer w1 = peer \<and> bw_ticket_expiry w1 = e"
    by (rule run_keeps_ticket [OF run free start])
  then show ?thesis
    using late auth(1)
    by (auto simp: bond_step_def bond_finish_def on_ticket_expired_def bw_cancel_def)
qed

text \<open>Tickets that say until when they are good: the letter \<open>s\<close> until second 5, the letter \<open>l\<close> for ever.\<close>

definition ex_validator :: "nat group_validator" where
  "ex_validator =
    \<lparr>gv_signature = 4,
     gv_at = (\<lambda>now. \<lparr>tv_class = 4,
       tv_validate = (\<lambda>data e. if data = ''l'' then Some Never else if data = ''s'' \<and> now < 5000000000 then Some (At 5000000000) else None)\<rparr>)\<rparr>"

definition ex_ticketed :: "peer_id \<Rightarrow> string \<Rightarrow> (nat, nat) signed_entry" where
  "ex_ticketed p data = (fst (ex_peer p)\<lparr>pe_tickets := [(1, \<lparr>tk_class = 4, tk_data = data\<rparr>)]\<rparr>, p)"

definition ex_rt_tickets :: "(ex_conn, nat, nat, nat, nat) bond_rt" where
  "ex_rt_tickets = ex_rt\<lparr>rt_ctx := (ex_ctx 1)\<lparr>gx_config := ex_config\<lparr>gc_auth := [ex_validator]\<rparr>\<rparr>,
     rt_decode := (\<lambda>b. if b = ''u'' then Some (PeerEntryUpdate (ex_ticketed 3 ''l'')) else ex_decode b)\<rparr>"

definition ex_worker_ticket :: "(ex_conn, nat, nat, nat) bond_worker" where
  "ex_worker_ticket = ex_worker\<lparr>bw_peer := ex_ticketed 2 ''s'', bw_ticket_expiry := 5000000000\<rparr>"

lemma ex_ticket_auth:
  "authorize_peer (gx_config (rt_ctx ex_rt_tickets)) now (ex_ticketed p ''s'') =
    (if now < 5000000000 then Some (Some (At 5000000000)) else None)"
  "authorize_peer (gx_config (rt_ctx ex_rt_tickets)) now (ex_ticketed p ''l'') = Some (Some Never)"
  "gc_auth (gx_config (rt_ctx ex_rt_tickets)) = [ex_validator]" "rt_transport ex_rt_tickets = ex_transport"
  "rt_decode ex_rt_tickets ''u'' = Some (PeerEntryUpdate (ex_ticketed 3 ''l''))"
  "gc_consensus (gx_config (rt_ctx ex_rt_tickets)) = consensus_default"
  by (simp_all add: authorize_peer_def ex_rt_tickets_def ex_rt_def ex_validator_def validate_tickets_def validate_ticket_def tickets_of_def
      ex_ticketed_def List.map_filter_def min_def)

lemma ex_spawn_ticket: "bond_spawn ex_bond_env (rt_ctx ex_rt_tickets) 0 0 (ex_ticketed 2 ''s'') (2, None) = Some ex_worker_ticket"
  by (simp add: bond_spawn_def heartbeat_new_def next_tick_at_def as_millis_def consensus_default_def ex_worker_def
      ex_heartbeat_def bond_id_def sleep_until_expiry_def ex_ticket_auth ex_worker_ticket_def)

theorem bond_ends_with_ticket_witness:
  "\<exists>w. bond_run ex_rt_tickets [(5000000000, InTicketTimer), (5000000001, InTick)] (ex_worker_ticket, ex_discovery) = Some (w, ex_discovery) \<and>
    bw_terminated w = Some NotAllowed"
proof -
  have "bw_terminated ex_worker_ticket = None" "\<not> bw_cancelled ex_worker_ticket"
    by (simp_all add: ex_worker_ticket_def ex_worker_def)
  moreover note bond_ends_with_ticket [OF ex_spawn_ticket, of 5000000000 "[]" ex_discovery _ _ 5000000000 5000000001 InTick]
  ultimately show ?thesis by (fastforce simp: ex_ticket_auth)
qed

text \<open>
  The worker does not check whose entry it is sent. A peer whose ticket is about to expire can send
  the signed entry of any other member with a ticket that does not expire: the timer is set again
  from that entry, and for the next year nothing ends the bond, whatever became of the peer's own
  ticket.
\<close>

theorem foreign_entry_postpones_expiry:
  assumes "bw_terminated w = None" "\<not> bw_cancelled w" "no_panic w" and "gc_auth (gx_config (rt_ctx rt)) \<noteq> []"
    and "rt_decode rt b = Some (PeerEntryUpdate entry)" "authorize_peer (gx_config (rt_ctx rt)) now entry = Some (Some Never)"
    and "t < now + far_future"
  shows "\<exists>w1 d1. bond_run rt [(now, InRecv (ReadBytes b) draw rtt), (t, InTicketTimer)] (w, d) = Some (w1, d1) \<and>
    \<not> bw_cancelled w1 \<and> bw_terminated w1 = None"
proof -
  obtain hb where hb: "heartbeat_reset draw now (bw_heartbeat w) = Some hb"
    using assms(3) next_tick_at_None [of draw "hb_base (bw_heartbeat w)" "hb_jitter (bw_heartbeat w)"]
    unfolding no_panic_def heartbeat_reset_def by (cases "next_tick_at draw (hb_base (bw_heartbeat w)) (hb_jitter (bw_heartbeat w))") auto
  show ?thesis
    using assms hb
    by (auto simp: bond_step_def recv_with_size_def on_next_recv_def on_peer_entry_update_def sleep_until_expiry_def
        Let_def split_beta)
qed

theorem foreign_entry_postpones_expiry_witness:
  "(\<exists>w d. bond_run ex_rt_tickets [(4000000000, InRecv (ReadBytes ''u'') 0 None), (9000000000, InTicketTimer)]
      (ex_worker_ticket, ex_discovery) = Some (w, d) \<and> \<not> bw_cancelled w \<and> bw_terminated w = None) \<and>
    authorize_peer (gx_config (rt_ctx ex_rt_tickets)) 9000000000 (bw_peer ex_worker_ticket) = None \<and>
    pe_id (fst (ex_ticketed 3 ''l'')) \<noteq> tr_remote ex_transport (bw_conn ex_worker_ticket)"
proof
  show "\<exists>w d. bond_run ex_rt_tickets [(4000000000, InRecv (ReadBytes ''u'') 0 None), (9000000000, InTicketTimer)]
      (ex_worker_ticket, ex_discovery) = Some (w, d) \<and> \<not> bw_cancelled w \<and> bw_terminated w = None"
    by (rule foreign_entry_postpones_expiry [where entry = "ex_ticketed 3 ''l''"])
      (simp_all add: ex_ticket_auth ex_worker_ticket_def ex_worker_def ex_heartbeat_def no_panic_def as_millis_def far_future_def)
  have "pe_id (fst (ex_ticketed 3 ''l'')) = 3" by (simp add: ex_ticketed_def)
  then show "authorize_peer (gx_config (rt_ctx ex_rt_tickets)) 9000000000 (bw_peer ex_worker_ticket) = None \<and>
      pe_id (fst (ex_ticketed 3 ''l'')) \<noteq> tr_remote ex_transport (bw_conn ex_worker_ticket)"
    by (simp add: ex_worker_ticket_def ex_worker_def ex_ticket_auth)
qed

section \<open>The bonds of a group\<close>


definition ex_group_rt :: "(nat, nat, nat, nat) group_rt" where
  "ex_group_rt = \<lparr>gr_denv = ex_denv, gr_dcfg = ex_dcfg, gr_ctx = ex_ctx 1, gr_encode = (\<lambda>_. ''m'')\<rparr>"

definition ex_handle :: "nat \<Rightarrow> peer_id \<Rightarrow> (nat, nat) bond_ref" where
  "ex_handle n p = \<lparr>bh_number = n, bh_id = 20, bh_peer = ex_peer p\<rparr>"




text \<open>
  C39. When two members connect to each other at the same time and both have accepted the connection of
  the other before their own attempt is done, each closes its own connection as redundant: the node
  is left without a bond and with nothing scheduled, and because closing the connection ends the bond that
  the other node keeps on it, the same happens there.
\<close>

theorem crossing_bonds_lost:
  assumes "gw_bonds g = []" "gw_commands g = []" "gw_bond_events g = []"
    and "gw_tasks g = [CreateTask peer, AcceptTask (pe_id (fst peer))]"
    and "bw_terminated w = None" "\<not> bw_cancelled w" "bw_listening w" "tr_close_reason (rt_transport brt) (bw_conn w) = None"
  shows "(\<exists>g'. group_run rt [(t1, GTaskDone 1 (Inr accepted)), (t2, GCommand), (t3, GTaskDone 0 (Inr created)),
        (t4, GEvent 0 c (BondTerminated AlreadyBonded))] g = Some g' \<and>
      gw_bonds g' = [] \<and> gw_tasks g' = [] \<and> gw_commands g' = [] \<and> gw_bond_events g' = [] \<and>
      gw_sent g' = gw_sent g @ [(bh_number created, CloseBond AlreadyBonded)]) \<and>
    (\<exists>w'. bond_run brt [(t1, InCommand (CloseBond AlreadyBonded)), (t2, i)] (w, d) = Some (w', d) \<and>
      bw_conn w' = tr_close (rt_transport brt) AlreadyBonded (bw_conn w)) \<and>
    (\<exists>w'. bond_run brt [(t1, InLinkDropped (Some (ApplicationClosed AlreadyBonded))), (t2, i)] (w, d) = Some (w', d) \<and>
      last (bw_events w') = BondTerminated AlreadyBonded)"
proof (intro conjI)
  show "\<exists>g'. group_run rt [(t1, GTaskDone 1 (Inr accepted)), (t2, GCommand), (t3, GTaskDone 0 (Inr created)),
        (t4, GEvent 0 c (BondTerminated AlreadyBonded))] g = Some g' \<and>
      gw_bonds g' = [] \<and> gw_tasks g' = [] \<and> gw_commands g' = [] \<and> gw_bond_events g' = [] \<and>
      gw_sent g' = gw_sent g @ [(bh_number created, CloseBond AlreadyBonded)]"
    using assms by (simp add: task_done_def create_done_def accept_done_def insert_bond_def contains_peer_def set_bonds_def update_with_def
        gw_send_def is_terminated_def)
  show "\<exists>w'. bond_run brt [(t1, InCommand (CloseBond AlreadyBonded)), (t2, i)] (w, d) = Some (w', d) \<and>
      bw_conn w' = tr_close (rt_transport brt) AlreadyBonded (bw_conn w)"
    using assms by (simp add: bond_step_def bw_cancel_def bond_finish_def link_close_def Let_def)
  have "\<not> is_reason AlreadyBonded Success" by (simp add: close_reason_defs)
  then show "\<exists>w'. bond_run brt [(t1, InLinkDropped (Some (ApplicationClosed AlreadyBonded))), (t2, i)] (w, d) = Some (w', d) \<and>
      last (bw_events w') = BondTerminated AlreadyBonded"
    using assms by (simp add: bond_step_def bw_cancel_def bond_finish_def on_link_closed_def link_closed_def)
qed

definition ex_crossing :: "(nat, nat, nat, nat) group_worker" where
  "ex_crossing = (group_worker_new (Version 1 1))\<lparr>gw_tasks := [CreateTask (ex_peer 2), AcceptTask 2]\<rparr>"

theorem crossing_bonds_lost_witness:
  "\<exists>g'. group_run ex_group_rt [(1, GTaskDone 1 (Inr (ex_handle 0 2))), (2, GCommand), (3, GTaskDone 0 (Inr (ex_handle 1 2))),
        (4, GEvent 0 (dv_catalog ex_discovery) (BondTerminated AlreadyBonded))] ex_crossing = Some g' \<and>
      gw_bonds g' = [] \<and> gw_tasks g' = [] \<and> gw_commands g' = [] \<and> gw_bond_events g' = [] \<and>
      gw_sent g' = gw_sent ex_crossing @ [(bh_number (ex_handle 1 2), CloseBond AlreadyBonded)]"
  using crossing_bonds_lost [of ex_crossing "ex_peer 2" ex_worker ex_rt ex_group_rt 1 "ex_handle 0 2" 2 3 "ex_handle 1 2" 4
      "dv_catalog ex_discovery" InTick ex_discovery]
  by (simp add: ex_crossing_def group_worker_new_def ex_worker_def ex_rt_def)

text \<open>
  The registry is meant to have one worker for each group. When a group was joined twice and one
  of the two handles is dropped, the group can be joined again; dropping the other old handle then
  removes the new worker from the registry while it runs: incoming bonds are refused, and joining once more starts a second
  worker for the same group.
\<close>

theorem stale_handle_unregisters:
  assumes "registry_ok r" "map_of (rg_active r) g = None"
  shows "\<exists>h r1 r2 h' r4 h'' r6. groups_join t g r = Some (h, r1) \<and> groups_join t g r1 = Some (h, r2) \<and>
    groups_join t g (group_drop h r2) = Some (h', r4) \<and>
    map_of (rg_active (group_drop h r4)) g = None \<and> fst h' \<notin> set (rg_cancelled (group_drop h r4)) \<and>
    groups_join t g (group_drop h r4) = Some (h'', r6) \<and> fst h'' \<noteq> fst h' \<and> fst h' \<notin> set (rg_cancelled r6)"
proof -
  have "rg_next r \<notin> set (rg_cancelled r)" "Suc (rg_next r) \<notin> set (rg_cancelled r)"
    using assms(1) by (auto simp: registry_ok_def)
  moreover have "map_of (AList.delete g xs) g = None" for xs :: "(unique_id \<times> nat \<times> nat) list"
    by (simp add: AList.delete_conv')
  ultimately show ?thesis
    using assms(2) by (simp add: groups_join_def group_drop_def)
qed

theorem stale_handle_unregisters_witness:
  "\<exists>h r1 r2 h' r4 h'' r6. groups_join 1 9 \<lparr>rg_active = [], rg_next = 0, rg_cancelled = []\<rparr> = Some (h, r1) \<and>
    groups_join 1 9 r1 = Some (h, r2) \<and> groups_join 1 9 (group_drop h r2) = Some (h', r4) \<and>
    map_of (rg_active (group_drop h r4)) 9 = None \<and> fst h' \<notin> set (rg_cancelled (group_drop h r4)) \<and>
    groups_join 1 9 (group_drop h r4) = Some (h'', r6) \<and> fst h'' \<noteq> fst h' \<and> fst h' \<notin> set (rg_cancelled r6)"
  by (rule stale_handle_unregisters) (simp_all add: registry_ok_def)

end
