(* ===== verification/Stream_Status.thy ===== *)
theory Stream_Status
  imports Link Rtt "HOL-Library.Sublist"
begin

text \<open>
  \<open>streams/status\<close> and the parts of \<open>streams\<close> that producers and consumers share: the state and the
  statistics of a channel, the conditions under which a producer or a consumer is online, the close
  reasons and the messages of the handshake.

  \<open>ChannelConditions\<close> is a future that is ready once each time its condition becomes true; \<open>cc_was_met\<close> is
  its memory, and \<open>conditions_poll\<close> one poll. A wake-up by its watch channel leads to the same evaluation again.
\<close>

section \<open>Channels\<close>

datatype channel_state = Connecting | Connected | Terminated

record stats =
  st_connected_at :: int
  st_datums :: nat
  st_bytes :: nat

definition stats_new :: stats where
  "stats_new = \<lparr>st_connected_at = 0, st_datums = 0, st_bytes = 0\<rparr>"

definition stats_connected :: "int \<Rightarrow> stats \<Rightarrow> stats" where
  "stats_connected now_ms s = s\<lparr>st_connected_at := now_ms\<rparr>"

definition stats_disconnected :: "stats \<Rightarrow> stats" where
  "stats_disconnected s = s\<lparr>st_connected_at := 0\<rparr>"

text \<open>\<open>increment_datums\<close> and \<open>increment_bytes\<close>; the counters have 64 bits.\<close>

definition stats_count :: "nat \<Rightarrow> stats \<Rightarrow> stats" where
  "stats_count n s = s\<lparr>st_datums := wrapping_add (st_datums s) 1, st_bytes := wrapping_add (st_bytes s) n\<rparr>"

text \<open>\<open>None\<close>: not connected, or the clock is behind. (Times that \<open>chrono\<close> cannot represent do not occur.)\<close>

definition uptime :: "int \<Rightarrow> stats \<Rightarrow> int option" where
  "uptime now_ms s =
    (if st_connected_at s = 0 then None
     else if now_ms - st_connected_at s < 0 then None else Some (now_ms - st_connected_at s))"

record 'a channel_info =
  ci_peer :: "'a peer_entry"
  ci_state :: channel_state

section \<open>Conditions\<close>

record 'a channel_conditions =
  cc_min_peers :: nat
  cc_predicates :: "('a peer_entry \<Rightarrow> bool) list"
  cc_is_inverse :: bool
  cc_was_met :: bool

definition subscribed_conditions :: "'a channel_conditions" where
  "subscribed_conditions = \<lparr>cc_min_peers = 1, cc_predicates = [], cc_is_inverse = False, cc_was_met = False\<rparr>"

definition minimum_of :: "nat \<Rightarrow> 'a channel_conditions \<Rightarrow> 'a channel_conditions" where
  "minimum_of n c = c\<lparr>cc_min_peers := n\<rparr>"

definition with_predicate :: "('a peer_entry \<Rightarrow> bool) \<Rightarrow> 'a channel_conditions \<Rightarrow> 'a channel_conditions" where
  "with_predicate p c = c\<lparr>cc_predicates := cc_predicates c @ [p]\<rparr>"

definition with_tags :: "nat list \<Rightarrow> 'a channel_conditions \<Rightarrow> 'a channel_conditions" where
  "with_tags tags c = with_predicate (\<lambda>e. fset_of_list tags |\<subseteq>| pe_tags e) c"

definition unmet :: "'a channel_conditions \<Rightarrow> 'a channel_conditions" where
  "unmet c = c\<lparr>cc_is_inverse := True\<rparr>"

definition is_condition_met :: "'a channel_conditions \<Rightarrow> 'a channel_info list \<Rightarrow> bool" where
  "is_condition_met c active \<longleftrightarrow>
    (length (filter (\<lambda>i. ci_state i = Connected \<and> list_all (\<lambda>p. p (ci_peer i)) (cc_predicates c)) active) \<ge> cc_min_peers c)
      \<noteq> cc_is_inverse c"

definition conditions_poll :: "'a channel_conditions \<Rightarrow> 'a channel_info list \<Rightarrow> bool \<times> 'a channel_conditions" where
  "conditions_poll c active =
    (let met = is_condition_met c active in (met \<and> \<not> cc_was_met c, c\<lparr>cc_was_met := met\<rparr>))"

section \<open>The handshake\<close>

definition StreamNotFound :: app_close where "StreamNotFound = make_close_reason ''StreamNotFound'' 10404"
definition StreamNotAllowed :: app_close where "StreamNotAllowed = make_close_reason ''NotAllowed'' 10403"
definition NoCapacity :: app_close where "NoCapacity = make_close_reason ''NoCapacity'' 10509"
definition TooSlow :: app_close where "TooSlow = make_close_reason ''TooSlow'' 10413"

lemmas [close_reason_defs] = StreamNotFound_def StreamNotAllowed_def NoCapacity_def TooSlow_def

definition streams_alpn :: string where
  "streams_alpn = ''/mosaik/streams/1.0''"

text \<open>\<open>Criteria\<close> has no fields yet and matches everything.\<close>

datatype criteria = Criteria

definition criteria_matches :: "criteria \<Rightarrow> 'd \<Rightarrow> bool" where
  "criteria_matches c item = True"

record consumer_handshake =
  ch_network :: nat
  ch_stream :: unique_id
  ch_criteria :: criteria

datatype start_stream = StartStream (ss_network: nat) (ss_stream: unique_id)

section \<open>Facts\<close>

text \<open>The condition looks at connected channels only, so a channel that is coming up or gone does not count.\<close>

lemma condition_ignores_unconnected:
  "is_condition_met c (filter (\<lambda>i. ci_state i = Connected) active) = is_condition_met c active"
  by (simp add: is_condition_met_def conj_commute)

lemma poll_remembers [simp]: "cc_was_met (snd (conditions_poll c active)) = is_condition_met c active"
  by (simp add: conditions_poll_def Let_def)

lemma poll_not_ready: "cc_was_met c \<Longrightarrow> \<not> fst (conditions_poll c active)"
  by (simp add: conditions_poll_def Let_def)

end
