(* ===== verification/Stream_Producer.thy ===== *)
theory Stream_Producer
  imports Stream_Status
begin

text \<open>
  \<open>streams/producer\<close> and \<open>streams/accept.rs\<close>: the fan-out of a stream to its consumers. The worker of a
  producer accepts consumers, hands every datum to the queue of each of them, and watches tickets and
  requirements; each consumer has a sender task that writes its queue to the connection.

  The slot map of subscriptions is a list with increasing keys, \<open>pr_next\<close> being the next one. A
  subscription carries the state of its sender task; the inputs of the tasks are interleaved by
  \<open>producer_step\<close>. The bytes that were written are kept in \<open>sb_wire\<close>; \<open>sb_confirmed\<close> says that the sender
  is in its loop. Senders that outlive the worker are in \<open>pr_orphans\<close>. \<open>None\<close> is a panic. A validator reads the
  clock, so it is a function of the time. The random choice of \<open>select!\<close> is the order of the inputs.
\<close>

section \<open>State\<close>

record 'a producer_config =
  pc_stream :: unique_id
  pc_network :: nat
  pc_buffer_size :: nat
  pc_disconnect_lagging :: bool
  pc_require :: "'a peer_info \<Rightarrow> bool"
  pc_max_consumers :: nat
  pc_validators :: "(int \<Rightarrow> 'a peer_entry ticket_validator) list"
  pc_undelivered :: bool

record ('x, 'a) subscription =
  sb_peer :: "'a peer_entry"
  sb_criteria :: criteria
  sb_queue :: "string list"
  sb_drop_requested :: "app_close option"
  sb_state :: channel_state
  sb_stats :: stats
  sb_conn :: 'x
  sb_wire :: "string list"
  sb_confirmed :: bool

record ('x, 'a, 'd) producer =
  pr_active :: "(nat \<times> ('x, 'a) subscription) list"
  pr_next :: nat
  pr_active_info :: "nat list"
  pr_timers :: "(int \<times> nat) list"
  pr_rtt :: rtt_tracker
  pr_online :: bool
  pr_online_when :: "'a channel_conditions"
  pr_undelivered :: "'d list"
  pr_cancelled :: bool
  pr_orphans :: "(nat \<times> ('x, 'a) subscription) list"
  pr_stopped :: bool

definition channels :: "('x, 'a, 'd) producer \<Rightarrow> 'a channel_info list" where
  "channels p =
    map (\<lambda>(k, s). \<lparr>ci_peer = sb_peer s, ci_state = sb_state s\<rparr>) (filter (\<lambda>(k, s). k \<in> set (pr_active_info p)) (pr_active p))"

text \<open>The queue for data needs room for one datum.\<close>

definition producer_new ::
  "'a producer_config \<Rightarrow> 'a channel_conditions \<Rightarrow> rtt_tracker \<Rightarrow> ('x, 'a, 'd) producer option" where
  "producer_new cfg online_when rtt =
    (if pc_buffer_size cfg = 0 then None
     else Some \<lparr>pr_active = [], pr_next = 0, pr_active_info = [], pr_timers = [], pr_rtt = rtt,
       pr_online = is_condition_met online_when [], pr_online_when = online_when, pr_undelivered = [], pr_cancelled = False,
       pr_orphans = [], pr_stopped = False\<rparr>)"

text \<open>\<open>SetOnce\<close>: the first value stays.\<close>

definition request_drop :: "app_close \<Rightarrow> ('x, 'a) subscription \<Rightarrow> ('x, 'a) subscription" where
  "request_drop reason s = (case sb_drop_requested s of None \<Rightarrow> s\<lparr>sb_drop_requested := Some reason\<rparr> | Some _ \<Rightarrow> s)"

definition update_sub ::
  "nat \<Rightarrow> (('x, 'a) subscription \<Rightarrow> ('x, 'a) subscription) \<Rightarrow> (nat \<times> ('x, 'a) subscription) list \<Rightarrow> (nat \<times> ('x, 'a) subscription) list" where
  "update_sub k f subs = map (\<lambda>(k', s). (k', if k' = k then f s else s)) subs"

section \<open>Fan-out\<close>

text \<open>\<open>try_send\<close> fails when the queue is full or the sender task is gone.\<close>

definition offer :: "'a producer_config \<Rightarrow> string \<Rightarrow> ('x, 'a) subscription \<Rightarrow> ('x, 'a) subscription" where
  "offer cfg bytes s =
    (if sb_state s \<noteq> Terminated \<and> length (sb_queue s) < pc_buffer_size cfg then s\<lparr>sb_queue := sb_queue s @ [bytes]\<rparr>
     else if pc_disconnect_lagging cfg then request_drop TooSlow s
     else s)"

text \<open>The flag says whether the datum was encoded, that is, whether a consumer matched and the encoding worked.\<close>

fun fanout_loop ::
  "'a producer_config \<Rightarrow> ('d \<Rightarrow> string option) \<Rightarrow> 'd \<Rightarrow> (nat \<times> ('x, 'a) subscription) list
    \<Rightarrow> bool \<times> (nat \<times> ('x, 'a) subscription) list" where
  "fanout_loop cfg encode item [] = (False, [])"
| "fanout_loop cfg encode item ((k, s) # subs) =
    (if criteria_matches (sb_criteria s) item
     then (case encode item of
             None \<Rightarrow> (False, (k, s) # subs)
           | Some bytes \<Rightarrow> (True, (k, offer cfg bytes s) # snd (fanout_loop cfg encode item subs)))
     else (let (encoded, subs1) = fanout_loop cfg encode item subs in (encoded, (k, s) # subs1)))"

definition fanout ::
  "'a producer_config \<Rightarrow> ('d \<Rightarrow> string option) \<Rightarrow> 'd \<Rightarrow> ('x, 'a, 'd) producer \<Rightarrow> ('x, 'a, 'd) producer" where
  "fanout cfg encode item p =
    (let (encoded, subs) = fanout_loop cfg encode item (pr_active p); p1 = p\<lparr>pr_active := subs\<rparr>
     in if \<not> encoded \<and> pc_undelivered cfg then p1\<lparr>pr_undelivered := pr_undelivered p1 @ [item]\<rparr> else p1)"

section \<open>Accepting consumers\<close>

definition subscription_new :: "criteria \<Rightarrow> 'a peer_entry \<Rightarrow> 'x \<Rightarrow> ('x, 'a) subscription" where
  "subscription_new criteria peer x =
    \<lparr>sb_peer = peer, sb_criteria = criteria, sb_queue = [], sb_drop_requested = None, sb_state = Connecting,
     sb_stats = stats_new, sb_conn = x, sb_wire = [], sb_confirmed = False\<rparr>"

text \<open>The reason a consumer is refused with.\<close>

datatype accept_decision = Refused app_close | Accepted nat

text \<open>\<open>None\<close>: the assertion that the entry belongs to the remote end of the link fails.\<close>

definition producer_accept ::
  "'x transport \<Rightarrow> 'a producer_config \<Rightarrow> int \<Rightarrow> bool \<Rightarrow> nat option \<Rightarrow> 'x \<Rightarrow> criteria \<Rightarrow> 'a peer_entry \<Rightarrow> ('x, 'a, 'd) producer
    \<Rightarrow> (accept_decision \<times> 'x \<times> ('x, 'a, 'd) producer) option" where
  "producer_accept tr cfg now cancelled rtt x criteria peer p =
    (if length (pr_active p) \<ge> pc_max_consumers cfg
     then Some (Refused NoCapacity, snd (link_close tr cancelled NoCapacity x), p)
     else
       (let p1 = (case rtt of Some r \<Rightarrow> p\<lparr>pr_rtt := record_sample now (pe_id peer) r (pr_rtt p)\<rparr> | None \<Rightarrow> p)
        in if \<not> pc_require cfg (from_tracker peer (pr_rtt p1))
           then Some (Refused StreamNotAllowed, snd (link_close tr cancelled StreamNotAllowed x), p1)
           else case validate_tickets (map (\<lambda>v. v now) (pc_validators cfg)) peer of
                  None \<Rightarrow> Some (Refused StreamNotAllowed, snd (link_close tr cancelled StreamNotAllowed x), p1)
                | Some expiration \<Rightarrow>
                    if pe_id peer \<noteq> tr_remote tr x then None
                    else
                      (let k = pr_next p1;
                           p2 = p1\<lparr>pr_active := pr_active p1 @ [(k, subscription_new criteria peer x)], pr_next := k + 1,
                                   pr_active_info := pr_active_info p1 @ [k]\<rparr>
                       in Some (Accepted k, x,
                            case Option.bind expiration (exp_remaining now) of
                              Some d \<Rightarrow> p2\<lparr>pr_timers := pr_timers p2 @ [(now + d, k)]\<rparr>
                            | None \<Rightarrow> p2))))"

datatype stream_accept_error = StreamLinkError accept_error | StreamRecvError recv_error | StreamCloseError close_error | StreamRefused app_close

text \<open>
  The acceptor: \<open>open_sink\<close> is the registry of sinks, \<open>alive\<close> says whether the worker of a sink still takes
  connections. The result is what is handed over to the worker: the sink, the criteria and the entry of the
  consumer; \<open>None\<close> when the worker is gone and the link was closed for that.
\<close>

definition refuse_stream :: "'x transport \<Rightarrow> bool \<Rightarrow> app_close \<Rightarrow> 'x \<Rightarrow> stream_accept_error \<times> 'x" where
  "refuse_stream tr cancelled reason x =
    (case link_close tr cancelled reason x of
       (Inl e, x1) \<Rightarrow> (StreamCloseError e, x1)
     | (Inr _, x1) \<Rightarrow> (StreamRefused reason, x1))"

definition stream_accept ::
  "'x transport \<Rightarrow> (string \<Rightarrow> consumer_handshake option) \<Rightarrow> (peer_id \<Rightarrow> 'a peer_entry option) \<Rightarrow> nat
    \<Rightarrow> (unique_id \<Rightarrow> 'w option) \<Rightarrow> ('w \<Rightarrow> bool) \<Rightarrow> bool \<Rightarrow> bi_outcome \<Rightarrow> frame_read \<times> 'x \<Rightarrow> 'x
    \<Rightarrow> (stream_accept_error + ('w \<times> criteria \<times> 'a peer_entry) option) \<times> 'x" where
  "stream_accept tr decode catalog_get network open_sink alive cancelled bi read conn =
    (case accept_with_cancel tr streams_alpn bi conn of
       (Inl e, x) \<Rightarrow> (Inl (StreamLinkError e), x)
     | (Inr x, _) \<Rightarrow>
         (case catalog_get (tr_remote tr x) of
            None \<Rightarrow> (let (e, x1) = refuse_stream tr cancelled UnknownPeer x in (Inl e, x1))
          | Some peer \<Rightarrow>
              (case link_recv tr decode (fst read) (snd read) of
                 (Inl e, x1) \<Rightarrow> (Inl (StreamRecvError e), x1)
               | (Inr handshake, x1) \<Rightarrow>
                   if ch_network handshake \<noteq> network
                   then (let (e, x2) = refuse_stream tr cancelled DifferentNetwork x1 in (Inl e, x2))
                   else case open_sink (ch_stream handshake) of
                          None \<Rightarrow> (let (e, x2) = refuse_stream tr cancelled StreamNotFound x1 in (Inl e, x2))
                        | Some sink \<Rightarrow>
                            if alive sink then (Inr (Some (sink, ch_criteria handshake, peer)), x1)
                            else case link_close tr cancelled StreamNotFound x1 of
                                   (Inl e, x2) \<Rightarrow> (Inl (StreamCloseError e), x2)
                                 | (Inr _, x2) \<Rightarrow> (Inr None, x2))))"

section \<open>The sender task\<close>

definition confirm_subscription ::
  "'x transport \<Rightarrow> (start_stream \<Rightarrow> string option) \<Rightarrow> 'a producer_config \<Rightarrow> int \<Rightarrow> frame_write \<Rightarrow> ('x, 'a) subscription
    \<Rightarrow> ('x, 'a) subscription" where
  "confirm_subscription tr encode cfg now write s =
    (case link_send tr encode (StartStream (pc_network cfg) (pc_stream cfg)) write (sb_conn s) of
       (Inr _, x) \<Rightarrow>
         s\<lparr>sb_conn := x, sb_stats := stats_connected (to_millis now) (sb_stats s), sb_state := Connected, sb_confirmed := True\<rparr>
     | (Inl _, x) \<Rightarrow> s\<lparr>sb_conn := x, sb_confirmed := True\<rparr>)"

definition request_disconnect :: "link_error \<Rightarrow> ('x, 'a) subscription \<Rightarrow> ('x, 'a) subscription" where
  "request_disconnect e s = request_drop (case link_close_reason e of Some r \<Rightarrow> r | None \<Rightarrow> UnexpectedClose) s"

text \<open>The second component is the round-trip time to record.\<close>

definition send_item ::
  "'x transport \<Rightarrow> frame_write \<Rightarrow> nat option \<Rightarrow> ('x, 'a) subscription \<Rightarrow> ('x, 'a) subscription \<times> nat option" where
  "send_item tr write rtt s =
    (case sb_queue s of
       [] \<Rightarrow> (s, None)
     | bytes # rest \<Rightarrow>
         (case send_raw tr bytes write (sb_conn s) of
            (Inr n, x) \<Rightarrow>
              (s\<lparr>sb_queue := rest, sb_conn := x, sb_wire := sb_wire s @ [bytes], sb_stats := stats_count n (sb_stats s)\<rparr>, rtt)
          | (Inl e, x) \<Rightarrow>
              (let s1 = s\<lparr>sb_queue := rest, sb_conn := x\<rparr>
               in (if e = SendCancelled then s1 else request_disconnect (link_of_send e) s1, None))))"

definition on_remote_link_dropped :: "conn_error + unit \<Rightarrow> ('x, 'a) subscription \<Rightarrow> ('x, 'a) subscription" where
  "on_remote_link_dropped result s =
    request_drop (case result of Inr _ \<Rightarrow> GracefulShutdown | Inl (ApplicationClosed r) \<Rightarrow> r | Inl _ \<Rightarrow> UnexpectedClose) s"

definition sender_terminate :: "'x transport \<Rightarrow> bool \<Rightarrow> app_close \<Rightarrow> ('x, 'a) subscription \<Rightarrow> ('x, 'a) subscription" where
  "sender_terminate tr cancelled reason s =
    s\<lparr>sb_state := Terminated, sb_stats := stats_disconnected (sb_stats s), sb_conn := snd (link_close tr cancelled reason (sb_conn s)),
      sb_queue := []\<rparr>"

datatype sender_input =
  SndConfirm frame_write | SndItem frame_write "nat option" | SndLinkDropped "conn_error option" | SndDrop | SndCancelled

record 'x stream_rt =
  sr_transport :: "'x transport"
  sr_encode_start :: "start_stream \<Rightarrow> string option"

text \<open>The branches of the loop of the sender, after the confirmation. A write is cancelled only by the token.\<close>

fun sender_handle ::
  "'x stream_rt \<Rightarrow> bool \<Rightarrow> sender_input \<Rightarrow> ('x, 'a) subscription \<Rightarrow> ('x, 'a) subscription \<times> nat option" where
  "sender_handle rt cancelled (SndConfirm write) s = (s, None)"
| "sender_handle rt cancelled (SndItem write rtt) s =
    (if write = WriteCancelled \<and> \<not> cancelled then (s, None) else send_item (sr_transport rt) write rtt s)"
| "sender_handle rt cancelled (SndLinkDropped outcome) s =
    (if outcome = None \<and> \<not> cancelled then (s, None) else (on_remote_link_dropped (link_closed outcome) s, None))"
| "sender_handle rt cancelled SndDrop s =
    (case sb_drop_requested s of
       None \<Rightarrow> (s, None)
     | Some reason \<Rightarrow> (sender_terminate (sr_transport rt) cancelled reason s, None))"
| "sender_handle rt cancelled SndCancelled s =
    (if cancelled then (sender_terminate (sr_transport rt) cancelled Cancelled s, None) else (s, None))"

text \<open>The sender: the confirmation once, then its loop, until it terminates.\<close>

definition sender_step ::
  "'x stream_rt \<Rightarrow> 'a producer_config \<Rightarrow> int \<Rightarrow> bool \<Rightarrow> sender_input \<Rightarrow> ('x, 'a) subscription
    \<Rightarrow> ('x, 'a) subscription \<times> nat option" where
  "sender_step rt cfg now cancelled i s =
    (if sb_state s = Terminated then (s, None)
     else if sb_confirmed s then sender_handle rt cancelled i s
     else case i of
            SndConfirm write \<Rightarrow>
              if write = WriteCancelled \<and> \<not> cancelled then (s, None)
              else (confirm_subscription (sr_transport rt) (sr_encode_start rt) cfg now write s, None)
          | _ \<Rightarrow> (s, None))"

section \<open>The worker\<close>

definition on_connection_dropped :: "nat \<Rightarrow> ('x, 'a, 'd) producer \<Rightarrow> ('x, 'a, 'd) producer" where
  "on_connection_dropped k p =
    (let p1 = p\<lparr>pr_active_info := removeAll k (pr_active_info p)\<rparr>;
         p2 = p1\<lparr>pr_active := filter (\<lambda>(k', _). k' \<noteq> k) (pr_active p1)\<rparr>
     in if is_condition_met (pr_online_when p2) (channels p2) then p2 else p2\<lparr>pr_online := False\<rparr>)"

definition sub_ticket_expired :: "nat \<Rightarrow> ('x, 'a, 'd) producer \<Rightarrow> ('x, 'a, 'd) producer" where
  "sub_ticket_expired k p = p\<lparr>pr_active := update_sub k (request_drop StreamNotAllowed) (pr_active p)\<rparr>"

definition on_require_reeval :: "'a producer_config \<Rightarrow> ('x, 'a, 'd) producer \<Rightarrow> ('x, 'a, 'd) producer" where
  "on_require_reeval cfg p =
    p\<lparr>pr_active := map (\<lambda>(k, s). (k, if pc_require cfg (from_tracker (sb_peer s) (pr_rtt p)) then s
                                  else request_drop StreamNotAllowed s)) (pr_active p)\<rparr>"

definition on_online :: "('x, 'a, 'd) producer \<Rightarrow> ('x, 'a, 'd) producer" where
  "on_online p = p\<lparr>pr_online := True\<rparr>"

text \<open>One poll of the future \<open>online_when\<close> in the loop.\<close>

definition poll_online :: "('x, 'a, 'd) producer \<Rightarrow> ('x, 'a, 'd) producer" where
  "poll_online p =
    (let (ready, c) = conditions_poll (pr_online_when p) (channels p); p1 = p\<lparr>pr_online_when := c\<rparr>
     in if ready then on_online p1 else p1)"

definition producer_shutdown :: "('x, 'a, 'd) producer \<Rightarrow> ('x, 'a, 'd) producer" where
  "producer_shutdown p =
    p\<lparr>pr_cancelled := True, pr_active := [], pr_active_info := [],
      pr_orphans := pr_orphans p @ map (\<lambda>(k, s). (k, request_drop GracefulShutdown s)) (pr_active p), pr_stopped := True\<rparr>"

text \<open>One step of the sender of a subscription, in the table or left over from it.\<close>

definition step_sender ::
  "'x stream_rt \<Rightarrow> 'a producer_config \<Rightarrow> int \<Rightarrow> nat \<Rightarrow> sender_input \<Rightarrow> ('x, 'a, 'd) producer \<Rightarrow> ('x, 'a, 'd) producer" where
  "step_sender rt cfg now k i p =
    (case map_of (pr_active p @ pr_orphans p) k of
       None \<Rightarrow> p
     | Some s \<Rightarrow>
         (let (s1, sample) = sender_step rt cfg now (pr_cancelled p) i s
          in p\<lparr>pr_active := update_sub k (\<lambda>_. s1) (pr_active p), pr_orphans := update_sub k (\<lambda>_. s1) (pr_orphans p),
               pr_rtt := (case sample of Some r \<Rightarrow> record_sample now (pe_id (sb_peer s)) r (pr_rtt p) | None \<Rightarrow> pr_rtt p)\<rparr>))"

datatype ('x, 'a, 'd) producer_input =
    PAccept bool "nat option" 'x criteria "'a peer_entry"
  | PData 'd
  | PDropped nat
  | PTicket nat
  | PCatalog
  | PPoll
  | PTerminate
  | PShutdown
  | PSender nat sender_input

text \<open>
  The branches of the loop. A drop is reported when the subscription is terminated, a ticket when its
  timer has passed, the shutdown runs when the token is cancelled.
\<close>

fun producer_handle ::
  "'x stream_rt \<Rightarrow> 'a producer_config \<Rightarrow> ('d \<Rightarrow> string option) \<Rightarrow> int \<Rightarrow> ('x, 'a, 'd) producer_input \<Rightarrow> ('x, 'a, 'd) producer
    \<Rightarrow> ('x, 'a, 'd) producer option" where
  "producer_handle rt cfg encode now (PAccept cancelled rtt x criteria peer) p =
    map_option (snd \<circ> snd) (producer_accept (sr_transport rt) cfg now cancelled rtt x criteria peer p)"
| "producer_handle rt cfg encode now (PData item) p = Some (fanout cfg encode item p)"
| "producer_handle rt cfg encode now (PDropped k) p =
    Some (case map_of (pr_active p) k of
            Some s \<Rightarrow> if sb_state s = Terminated then on_connection_dropped k p else p
          | None \<Rightarrow> p)"
| "producer_handle rt cfg encode now (PTicket k) p =
    (if \<exists>t \<in> set (pr_timers p). snd t = k \<and> fst t \<le> now
     then Some (sub_ticket_expired k (p\<lparr>pr_timers := filter (\<lambda>t. snd t \<noteq> k) (pr_timers p)\<rparr>))
     else Some p)"
| "producer_handle rt cfg encode now PCatalog p = Some (on_require_reeval cfg p)"
| "producer_handle rt cfg encode now PPoll p = Some (poll_online p)"
| "producer_handle rt cfg encode now PShutdown p = Some (if pr_cancelled p then producer_shutdown p else p)"
| "producer_handle rt cfg encode now PTerminate p = Some (p\<lparr>pr_cancelled := True\<rparr>)"
| "producer_handle rt cfg encode now (PSender k i) p = Some (step_sender rt cfg now k i p)"

text \<open>When the worker has ended, only the senders go on.\<close>

definition producer_step ::
  "'x stream_rt \<Rightarrow> 'a producer_config \<Rightarrow> ('d \<Rightarrow> string option) \<Rightarrow> int \<Rightarrow> ('x, 'a, 'd) producer_input \<Rightarrow> ('x, 'a, 'd) producer
    \<Rightarrow> ('x, 'a, 'd) producer option" where
  "producer_step rt cfg encode now i p =
    (if pr_stopped p
     then (case i of PSender k j \<Rightarrow> Some (step_sender rt cfg now k j p) | _ \<Rightarrow> Some p)
     else producer_handle rt cfg encode now i p)"

fun producer_run ::
  "'x stream_rt \<Rightarrow> 'a producer_config \<Rightarrow> ('d \<Rightarrow> string option) \<Rightarrow> (int \<times> ('x, 'a, 'd) producer_input) list
    \<Rightarrow> ('x, 'a, 'd) producer \<Rightarrow> ('x, 'a, 'd) producer option" where
  "producer_run rt cfg encode [] p = Some p"
| "producer_run rt cfg encode ((now, i) # is) p = Option.bind (producer_step rt cfg encode now i p) (producer_run rt cfg encode is)"

section \<open>The handle\<close>

datatype 'd producer_error = Closed "'d option" | Full 'd | Offline 'd | Encoding 'd string

text \<open>
  \<open>Producer::try_send\<close> on the queue in front of the worker, which holds \<open>buffer_size\<close> data; it is closed when the
  worker has ended.
\<close>

definition producer_try_send ::
  "'a producer_config \<Rightarrow> 'd \<Rightarrow> 'd list \<Rightarrow> ('x, 'a, 'd) producer \<Rightarrow> 'd producer_error + 'd list" where
  "producer_try_send cfg item chan p =
    (if \<not> pr_online p then Inl (Offline item)
     else if pr_stopped p then Inl (Closed (Some item))
     else if length chan < pc_buffer_size cfg then Inr (chan @ [item])
     else Inl (Full item))"

definition pc_add_require :: "('a peer_info \<Rightarrow> bool) \<Rightarrow> 'a producer_config \<Rightarrow> 'a producer_config" where
  "pc_add_require pred cfg = (let prev = pc_require cfg in cfg\<lparr>pc_require := \<lambda>peer. prev peer \<and> pred peer\<rparr>)"

definition pc_require_ticket :: "(int \<Rightarrow> 'a peer_entry ticket_validator) \<Rightarrow> 'a producer_config \<Rightarrow> 'a producer_config" where
  "pc_require_ticket v cfg = cfg\<lparr>pc_validators := pc_validators cfg @ [v]\<rparr>"

definition producer_config_default :: "unique_id \<Rightarrow> nat \<Rightarrow> 'a producer_config" where
  "producer_config_default stream network =
    \<lparr>pc_stream = stream, pc_network = network, pc_buffer_size = 1024, pc_disconnect_lagging = True, pc_require = (\<lambda>_. True),
     pc_max_consumers = u64_max, pc_validators = [], pc_undelivered = False\<rparr>"

text \<open>
  The registry of sinks: one worker for each stream. \<open>Inl\<close> is the existing one. The last component is
  the stream to advertise.
\<close>

definition sinks_create :: "unique_id \<Rightarrow> 'w \<Rightarrow> (unique_id \<rightharpoonup> 'w) \<Rightarrow> ('w + 'w) \<times> (unique_id \<rightharpoonup> 'w) \<times> unique_id list" where
  "sinks_create stream worker active =
    (case active stream of
       None \<Rightarrow> (Inr worker, active(stream \<mapsto> worker), [stream])
     | Some existing \<Rightarrow> (Inl existing, active, []))"

definition sinks_open :: "unique_id \<Rightarrow> (unique_id \<rightharpoonup> 'w) \<Rightarrow> 'w option" where
  "sinks_open stream active = active stream"


end
