(* ===== verification/Stream_Delivery.thy ===== *)
theory Stream_Delivery
  imports Stream_Producer
begin

text \<open>
  Invariants of a producer: the table of subscriptions stays within its bounds, and every sender writes
  the data in the order in which they were produced, without gaps as long as the consumer is not being
  dropped.
\<close>

section \<open>The table\<close>

definition sub_ok :: "'a producer_config \<Rightarrow> bool \<Rightarrow> ('x, 'a) subscription \<Rightarrow> bool" where
  "sub_ok cfg cancelled s \<longleftrightarrow>
    length (sb_queue s) \<le> pc_buffer_size cfg \<and>
    (sb_state s = Connected \<longrightarrow> sb_confirmed s) \<and> (\<not> sb_confirmed s \<longrightarrow> sb_wire s = []) \<and>
    (sb_state s = Terminated \<longrightarrow> sb_queue s = [] \<and> (sb_drop_requested s \<noteq> None \<or> cancelled))"

definition producer_ok :: "'a producer_config \<Rightarrow> ('x, 'a, 'd) producer \<Rightarrow> bool" where
  "producer_ok cfg p \<longleftrightarrow>
    distinct (map fst (pr_active p @ pr_orphans p)) \<and> (\<forall>k s. (k, s) \<in> set (pr_active p @ pr_orphans p) \<longrightarrow> k < pr_next p) \<and>
    length (pr_active p) \<le> pc_max_consumers cfg \<and> pr_active_info p = map fst (pr_active p) \<and>
    (\<forall>k s. (k, s) \<in> set (pr_active p @ pr_orphans p) \<longrightarrow> sub_ok cfg (pr_cancelled p) s) \<and>
    (pr_stopped p \<longrightarrow> pr_active p = [] \<and> pr_cancelled p) \<and> (\<not> pr_stopped p \<longrightarrow> pr_orphans p = [])"

lemma request_drop_simps [simp]:
  "sb_queue (request_drop r s) = sb_queue s" "sb_wire (request_drop r s) = sb_wire s"
  "sb_state (request_drop r s) = sb_state s" "sb_confirmed (request_drop r s) = sb_confirmed s"
  "sb_drop_requested (request_drop r s) \<noteq> None" "sb_peer (request_drop r s) = sb_peer s"
  by (auto simp: request_drop_def split: option.splits)

lemma sub_ok_cancel: "sub_ok cfg c s \<Longrightarrow> sub_ok cfg True s"
  by (auto simp: sub_ok_def)

lemma sub_ok_drop [simp]: "sub_ok cfg c s \<Longrightarrow> sub_ok cfg c (request_drop r s)"
  by (auto simp: sub_ok_def)

lemma sub_ok_offer [simp]: "sub_ok cfg c s \<Longrightarrow> sub_ok cfg c (offer cfg b s)"
  by (auto simp: offer_def) (auto simp: sub_ok_def)

lemma sub_ok_new [simp]: "sub_ok cfg c (subscription_new cr peer x)"
  by (simp add: sub_ok_def subscription_new_def)

lemma sub_ok_terminate [simp]:
  "sub_ok cfg c s \<Longrightarrow> sb_drop_requested s \<noteq> None \<or> c \<Longrightarrow> sub_ok cfg c (sender_terminate tr c' r s)"
  by (auto simp: sub_ok_def sender_terminate_def)

lemma sub_ok_send [simp]:
  "sub_ok cfg c s \<Longrightarrow> sb_confirmed s \<Longrightarrow> sub_ok cfg c (fst (send_item tr w rtt s))"
  by (auto simp: sub_ok_def send_item_def request_disconnect_def Let_def split: list.splits sum.splits prod.splits)

lemma sub_ok_sender:
  assumes "sub_ok cfg c s"
  shows "sub_ok cfg c (fst (sender_step rt cfg now c i s))"
  using assms
  by (cases i) (auto simp: sender_step_def on_remote_link_dropped_def split: option.splits,
      auto simp: confirm_subscription_def sub_ok_def split: sum.splits prod.splits)

text \<open>Every step either maps the subscriptions, adds one at the end, removes one, or moves all to the orphans.\<close>

lemma map_fst_update [simp]: "map fst (update_sub k f subs) = map fst subs"
  by (auto simp: update_sub_def)

lemma fanout_loop_eq:
  "snd (fanout_loop cfg encode item subs) =
    (case encode item of None \<Rightarrow> subs | Some b \<Rightarrow> map (\<lambda>(k, s). (k, offer cfg b s)) subs)"
  by (induction subs) (auto simp: criteria_matches_def split: option.splits prod.splits)

lemma fanout_simps [simp]:
  "pr_active (fanout cfg encode item p) =
    (case encode item of None \<Rightarrow> pr_active p | Some b \<Rightarrow> map (\<lambda>(k, s). (k, offer cfg b s)) (pr_active p))"
  "pr_next (fanout cfg encode item p) = pr_next p" "pr_orphans (fanout cfg encode item p) = pr_orphans p"
  "pr_cancelled (fanout cfg encode item p) = pr_cancelled p" "pr_stopped (fanout cfg encode item p) = pr_stopped p"
  "pr_active_info (fanout cfg encode item p) = pr_active_info p"
  using fanout_loop_eq [of cfg encode item "pr_active p"]
  by (auto simp: fanout_def Let_def split: prod.splits)

lemma map_fst_map: "map fst (map (\<lambda>(k, s). (k, f k s)) subs) = map fst subs"
  by (induction subs) auto

lemma producer_ok_map:
  assumes "producer_ok cfg p" and "\<And>k s. (k, s) \<in> set (pr_active p) \<Longrightarrow> sub_ok cfg (pr_cancelled p) (f k s)"
    and "pr_active q = map (\<lambda>(k, s). (k, f k s)) (pr_active p)" and "pr_orphans q = pr_orphans p" and "pr_next q = pr_next p"
    and "pr_active_info q = pr_active_info p" and "pr_cancelled q = pr_cancelled p" and "pr_stopped q = pr_stopped p"
  shows "producer_ok cfg q"
  using assms by (fastforce simp: producer_ok_def map_fst_map simp del: map_map)

lemma producer_ok_cancel: "producer_ok cfg p \<Longrightarrow> producer_ok cfg (p\<lparr>pr_cancelled := True\<rparr>)"
  using sub_ok_cancel [of cfg "pr_cancelled p"] by (simp add: producer_ok_def) blast

lemma producer_ok_shutdown: "producer_ok cfg p \<Longrightarrow> \<not> pr_stopped p \<Longrightarrow> producer_ok cfg (producer_shutdown p)"
  using sub_ok_cancel [of cfg "pr_cancelled p"]
  by (fastforce simp: producer_ok_def producer_shutdown_def map_fst_map simp del: map_map)

lemma map_fst_filter: "map fst (filter (\<lambda>(k', _). k' \<noteq> k) xs) = removeAll k (map fst xs)"
  by (induction xs) auto

lemma producer_ok_drop: "producer_ok cfg p \<Longrightarrow> producer_ok cfg (on_connection_dropped k p)"
  by (fastforce simp: producer_ok_def on_connection_dropped_def map_fst_filter Let_def distinct_removeAll
      intro: le_trans [OF length_filter_le])

lemma producer_accept_cases:
  assumes "producer_accept tr cfg now c rtt x cr peer p = Some (d, x', q)"
  obtains (refused) r rt where "d = Refused r" and "q = p\<lparr>pr_rtt := rt\<rparr>"
  | (accepted) rt ts where "d = Accepted (pr_next p)" and "length (pr_active p) < pc_max_consumers cfg"
      and "pc_require cfg (from_tracker peer rt)" and "validate_tickets (map (\<lambda>v. v now) (pc_validators cfg)) peer \<noteq> None"
      and "pe_id peer = tr_remote tr x"
      and "q = p\<lparr>pr_rtt := rt, pr_active := pr_active p @ [(pr_next p, subscription_new cr peer x)], pr_next := pr_next p + 1,
             pr_active_info := pr_active_info p @ [pr_next p], pr_timers := ts\<rparr>"
proof -
  define rt where "rt = (case rtt of Some r \<Rightarrow> record_sample now (pe_id peer) r (pr_rtt p) | None \<Rightarrow> pr_rtt p)"
  have e: "(case rtt of Some r \<Rightarrow> p\<lparr>pr_rtt := record_sample now (pe_id peer) r (pr_rtt p)\<rparr> | None \<Rightarrow> p) = p\<lparr>pr_rtt := rt\<rparr>"
    by (simp add: rt_def split: option.splits)
  show thesis
  proof (cases d)
    case (Refused r)
    then show ?thesis
      using assms refused [of r "pr_rtt p"] refused [of r rt] unfolding producer_accept_def e
      by (auto simp: Let_def split: if_splits option.splits)
  next
    case (Accepted k)
    then show ?thesis
      using assms accepted [of rt "pr_timers q"] unfolding producer_accept_def e
      by (auto simp: Let_def split: if_splits option.splits)
  qed
qed

lemma producer_ok_accept:
  assumes "producer_ok cfg p" and "\<not> pr_stopped p" and "producer_accept tr cfg now c rtt x cr peer p = Some (d, x', q)"
  shows "producer_ok cfg q"
  using assms(3) by (cases rule: producer_accept_cases) (use assms(1,2) in \<open>fastforce simp: producer_ok_def\<close>)+

lemma in_update: "(k', s') \<in> set (update_sub k f subs) \<longleftrightarrow> (\<exists>s. (k', s) \<in> set subs \<and> s' = (if k' = k then f s else s))"
  unfolding update_sub_def set_map image_iff by (rule iffI) (force split: if_splits)+

lemma update_sub_Nil [simp]: "update_sub k f subs = [] \<longleftrightarrow> subs = []" "length (update_sub k f subs) = length subs"
  by (simp_all add: update_sub_def)

lemma step_sender_Some:
  assumes "map_of (pr_active p @ pr_orphans p) k = Some s"
  obtains rt' where "step_sender rt cfg now k i p =
    p\<lparr>pr_active := update_sub k (\<lambda>_. fst (sender_step rt cfg now (pr_cancelled p) i s)) (pr_active p),
      pr_orphans := update_sub k (\<lambda>_. fst (sender_step rt cfg now (pr_cancelled p) i s)) (pr_orphans p), pr_rtt := rt'\<rparr>"
  using assms by (simp add: step_sender_def split_beta Let_def)

lemma producer_ok_update:
  assumes "producer_ok cfg p" and "sub_ok cfg (pr_cancelled p) s"
  shows "producer_ok cfg (p\<lparr>pr_active := update_sub k (\<lambda>_. s) (pr_active p), pr_orphans := update_sub k (\<lambda>_. s) (pr_orphans p),
    pr_rtt := r\<rparr>)"
proof -
  have "fst ` set (update_sub k f subs) = fst ` set subs" for f and subs :: "(nat \<times> ('x, 'a) subscription) list"
    using map_fst_update [of k f subs] by (metis set_map)
  with assms show ?thesis unfolding producer_ok_def by (simp add: in_update) blast
qed

lemma producer_ok_sender:
  assumes "producer_ok cfg p"
  shows "producer_ok cfg (step_sender rt cfg now k i p)"
proof (cases "map_of (pr_active p @ pr_orphans p) k")
  case (Some s)
  have "sub_ok cfg (pr_cancelled p) s" using assms map_of_SomeD [OF Some] by (auto simp: producer_ok_def)
  from producer_ok_update [OF assms sub_ok_sender [OF this]] step_sender_Some [OF Some] show ?thesis by metis
qed (use assms in \<open>simp add: step_sender_def del: map_of_append\<close>)

lemma poll_online_eq:
  "poll_online p = p\<lparr>pr_online_when := (pr_online_when p)\<lparr>cc_was_met := is_condition_met (pr_online_when p) (channels p)\<rparr>,
    pr_online := pr_online p \<or> is_condition_met (pr_online_when p) (channels p) \<and> \<not> cc_was_met (pr_online_when p)\<rparr>"
  by (rule producer.equality) (auto simp: poll_online_def conditions_poll_def on_online_def Let_def)

lemma producer_ok_step:
  assumes "producer_ok cfg p" and "producer_step rt cfg encode now i p = Some q"
  shows "producer_ok cfg q"
proof (cases "pr_stopped p")
  case True
  then show ?thesis using assms producer_ok_sender by (auto simp: producer_step_def split: producer_input.splits)
next
  case False
  then have h: "producer_handle rt cfg encode now i p = Some q" using assms(2) by (simp add: producer_step_def)
  show ?thesis
  proof (cases i)
    case (PAccept c rtt x cr peer)
    then show ?thesis using h producer_ok_accept [OF assms(1) False] by (auto simp: comp_def)
  next
    case (PData item)
    show ?thesis
      by (rule producer_ok_map [OF assms(1), of "\<lambda>k s. case encode item of None \<Rightarrow> s | Some b \<Rightarrow> offer cfg b s"])
        (use assms(1) h PData in \<open>auto simp: producer_ok_def split: option.splits\<close>)
  next
    case (PTicket k)
    then consider "q = p" | "q = sub_ticket_expired k (p\<lparr>pr_timers := filter (\<lambda>t. snd t \<noteq> k) (pr_timers p)\<rparr>)"
      using h by (auto split: if_splits)
    then show ?thesis
    proof cases
      case 2
      show ?thesis
        by (rule producer_ok_map [OF assms(1), of "\<lambda>k' s. if k' = k then request_drop StreamNotAllowed s else s"])
          (use assms(1) 2 in \<open>auto simp: producer_ok_def sub_ticket_expired_def update_sub_def\<close>)
    qed (use assms(1) in simp)
  next
    case PCatalog
    show ?thesis
      by (rule producer_ok_map [OF assms(1), of "\<lambda>k s. if pc_require cfg (from_tracker (sb_peer s) (pr_rtt p)) then s
            else request_drop StreamNotAllowed s"])
        (use assms(1) h PCatalog in \<open>auto simp: producer_ok_def on_require_reeval_def\<close>)
  next
    case PPoll
    then obtain b c where "q = p\<lparr>pr_online_when := c, pr_online := b\<rparr>" using h poll_online_eq [of p] by auto
    then show ?thesis using assms(1) by (simp add: producer_ok_def)
  next
    case (PDropped k)
    then show ?thesis
      using h assms(1) producer_ok_drop [OF assms(1), of k] by (simp split: option.splits if_splits)
  next
    case PTerminate
    then show ?thesis using h producer_ok_cancel [OF assms(1)] by simp
  next
    case PShutdown
    then show ?thesis using h assms(1) producer_ok_shutdown [OF assms(1) False] by (simp split: if_splits)
  next
    case (PSender k j)
    then show ?thesis using h producer_ok_sender [OF assms(1)] by auto
  qed
qed

lemma producer_ok_new: "producer_new cfg c rtt = Some p \<Longrightarrow> producer_ok cfg p"
  by (auto simp: producer_new_def producer_ok_def split: if_splits)

lemma producer_run_append:
  "producer_run rt cfg encode (is @ js) p = Option.bind (producer_run rt cfg encode is p) (producer_run rt cfg encode js)"
  by (induction "is" arbitrary: p) (auto simp: Option.bind_assoc split: Option.bind_splits)

lemma producer_ok_run:
  "producer_ok cfg p \<Longrightarrow> producer_run rt cfg encode is p = Some q \<Longrightarrow> producer_ok cfg q"
  by (induction "is" arbitrary: p) (auto split: Option.bind_splits, metis producer_ok_step)

section \<open>Delivery\<close>

text \<open>What a subscription has written or still holds, in order.\<close>

definition traffic :: "('x, 'a) subscription \<Rightarrow> string list" where
  "traffic s = sb_wire s @ sb_queue s"

definition datum_bytes :: "('d \<Rightarrow> string option) \<Rightarrow> ('x, 'a, 'd) producer_input \<Rightarrow> string list" where
  "datum_bytes encode i = (case i of PData d \<Rightarrow> (case encode d of Some b \<Rightarrow> [b] | None \<Rightarrow> []) | _ \<Rightarrow> [])"

definition encoded_data :: "('d \<Rightarrow> string option) \<Rightarrow> (int \<times> ('x, 'a, 'd) producer_input) list \<Rightarrow> string list" where
  "encoded_data encode is = concat (map (datum_bytes encode \<circ> snd) is)"

text \<open>
  Between two states of a subscription the data \<open>bs\<close> were produced: none is duplicated or reordered, and if lagging
  consumers are disconnected and this one is not being dropped, none is lost.
\<close>

definition passes ::
  "'a producer_config \<Rightarrow> bool \<Rightarrow> string list \<Rightarrow> ('x, 'a) subscription \<Rightarrow> ('x, 'a) subscription \<Rightarrow> bool" where
  "passes cfg cancelled bs s s' \<longleftrightarrow>
    subseq (traffic s') (traffic s @ bs) \<and>
    (pc_disconnect_lagging cfg \<and> \<not> cancelled \<and> sb_drop_requested s' = None \<longrightarrow>
      sb_drop_requested s = None \<and> traffic s' = traffic s @ bs)"

lemma passes_refl [simp]: "passes cfg c [] s s"
  by (simp add: passes_def)

lemma passes_cancelled [intro]: "passes cfg True bs s s"
  using prefix_imp_subseq [of "traffic s" "traffic s @ bs"] by (simp add: passes_def)

lemma passes_trans:
  assumes "passes cfg c bs s1 s2" and "passes cfg c' bs' s2 s3" and "c \<le> c'"
  shows "passes cfg c' (bs @ bs') s1 s3"
proof -
  have "subseq (traffic s2 @ bs') ((traffic s1 @ bs) @ bs')" using assms(1) by (simp add: passes_def list_emb_append_mono del: append_assoc)
  then have "subseq (traffic s3) ((traffic s1 @ bs) @ bs')"
    using assms(2) subseq_order.trans unfolding passes_def by blast
  with assms show ?thesis by (auto simp: passes_def)
qed

lemma passes_drop [simp]: "passes cfg c [] s (request_drop r s)"
  by (simp add: passes_def traffic_def)

lemma passes_offer:
  assumes "sub_ok cfg c s"
  shows "passes cfg c [b] s (offer cfg b s)"
  using assms by (auto simp: passes_def offer_def traffic_def sub_ok_def)

lemma subseq_tl [simp]: "subseq ys (y # ys)"
  by (simp add: subseq_Cons')

lemma passes_send:
  assumes "w = WriteCancelled \<longrightarrow> c"
  shows "passes cfg c [] s (fst (send_item tr w rtt s))"
  using assms
  by (auto simp: send_item_def passes_def traffic_def send_raw_def request_disconnect_def Let_def subseq_append'
      split: list.splits sum.splits prod.splits frame_write.splits)

lemma passes_confirm [simp]: "passes cfg c [] s (confirm_subscription tr encode cfg' now w s)"
  by (auto simp: confirm_subscription_def passes_def traffic_def split: sum.splits prod.splits)

lemma passes_terminate [simp]:
  "sb_drop_requested s \<noteq> None \<or> c \<Longrightarrow> passes cfg c [] s (sender_terminate tr c' r s)"
  by (auto simp: sender_terminate_def passes_def traffic_def)

lemma passes_sender: "passes cfg c [] s (fst (sender_step rt cfg' now c i s))"
proof (cases "\<exists>w rtt. i = SndItem w rtt")
  case True
  then show ?thesis by (auto simp: sender_step_def intro!: passes_send)
next
  case False
  then show ?thesis
    by (cases i) (auto simp: sender_step_def on_remote_link_dropped_def split: option.splits)
qed

text \<open>Every subscription after a step comes from one before it, unless it is new.\<close>

lemma sender_passes:
  assumes ok: "producer_ok cfg p" and q: "q = step_sender rt cfg now k' j p" and k: "(k, s') \<in> set (pr_active q @ pr_orphans q)"
  shows "\<exists>s. (k, s) \<in> set (pr_active p @ pr_orphans p) \<and> passes cfg (pr_cancelled q) [] s s'"
proof (cases "map_of (pr_active p @ pr_orphans p) k'")
  case None
  then show ?thesis using q k by (auto simp: step_sender_def simp del: map_of_append)
next
  case (Some s)
  have d: "distinct (map fst (pr_active p @ pr_orphans p))" using ok by (simp add: producer_ok_def)
  have u: "s0 = s" if "(k', s0) \<in> set (pr_active p @ pr_orphans p)" for s0
    using map_of_is_SomeI [OF d that] Some by simp
  obtain rt' where q': "q = p\<lparr>pr_active := update_sub k' (\<lambda>_. fst (sender_step rt cfg now (pr_cancelled p) j s)) (pr_active p),
      pr_orphans := update_sub k' (\<lambda>_. fst (sender_step rt cfg now (pr_cancelled p) j s)) (pr_orphans p), pr_rtt := rt'\<rparr>"
    using step_sender_Some [OF Some] q by metis
  then obtain s0 where "(k, s0) \<in> set (pr_active p @ pr_orphans p)"
    "s' = (if k = k' then fst (sender_step rt cfg now (pr_cancelled p) j s) else s0)"
    using k by (auto simp: in_update)
  then show ?thesis using u q' passes_sender [of cfg "pr_cancelled p" s rt cfg now j]
    by (intro exI [of _ s0]) (auto split: if_splits)
qed

lemma step_passes:
  assumes ok: "producer_ok cfg p" and st: "producer_step rt cfg encode now i p = Some q"
    and k: "(k, s') \<in> set (pr_active q @ pr_orphans q)" "k < pr_next p"
  shows "\<exists>s. (k, s) \<in> set (pr_active p @ pr_orphans p) \<and> passes cfg (pr_cancelled q) (datum_bytes encode i) s s'"
proof (cases "pr_stopped p")
  case True
  then have c: "pr_cancelled p" using ok by (simp add: producer_ok_def)
  show ?thesis
  proof (cases i)
    case (PSender k' j)
    then show ?thesis using True st sender_passes [OF ok _ k(1)] by (auto simp: producer_step_def datum_bytes_def)
  qed (use True c st k(1) in \<open>auto simp: producer_step_def\<close>)
next
  case False
  then have h: "producer_handle rt cfg encode now i p = Some q" and o: "pr_orphans p = []"
    using st ok by (simp_all add: producer_step_def producer_ok_def)
  have so: "(k', s) \<in> set (pr_active p) \<Longrightarrow> sub_ok cfg (pr_cancelled p) s" for k' s using ok by (auto simp: producer_ok_def)
  show ?thesis
  proof (cases i)
    case (PAccept c rtt x cr peer)
    then obtain d x' where "producer_accept (sr_transport rt) cfg now c rtt x cr peer p = Some (d, x', q)"
      using h by (auto simp: comp_def)
    then show ?thesis using k PAccept by (cases rule: producer_accept_cases) (auto simp: datum_bytes_def)
  next
    case (PData item)
    then show ?thesis using h k(1) o so passes_offer
      by (fastforce simp: datum_bytes_def split: option.splits)
  next
    case PPoll
    then show ?thesis using h k(1) poll_online_eq [of p] by (auto simp: datum_bytes_def)
  next
    case (PTicket k')
    then consider "q = p" | "q = sub_ticket_expired k' (p\<lparr>pr_timers := filter (\<lambda>t. snd t \<noteq> k') (pr_timers p)\<rparr>)"
      using h by (auto split: if_splits)
    then show ?thesis
      by cases (use k(1) o PTicket in \<open>auto simp: datum_bytes_def sub_ticket_expired_def in_update\<close>)
  next
    case PCatalog
    then show ?thesis using h k(1) o by (fastforce simp: datum_bytes_def on_require_reeval_def split: if_splits)
  next
    case PShutdown
    then show ?thesis using h k(1) o by (fastforce simp: datum_bytes_def producer_shutdown_def split: if_splits)
  next
    case (PDropped k')
    then show ?thesis using h k(1) o
      by (auto simp: datum_bytes_def on_connection_dropped_def Let_def split: option.splits if_splits)
next
    case (PSender k' j)
    then show ?thesis using h sender_passes [OF ok _ k(1)] by (auto simp: datum_bytes_def)
  qed (use h k(1) in \<open>auto simp: datum_bytes_def\<close>)
qed

lemma step_mono:
  assumes "producer_step rt cfg encode now i p = Some q"
  shows "pr_next p \<le> pr_next q \<and> (pr_cancelled p \<longrightarrow> pr_cancelled q)"
proof (cases "\<exists>c rtt x cr peer. i = PAccept c rtt x cr peer \<and> \<not> pr_stopped p")
  case True
  then obtain c rtt x cr peer d x' where "producer_accept (sr_transport rt) cfg now c rtt x cr peer p = Some (d, x', q)"
    using assms by (auto simp: producer_step_def comp_def)
  then show ?thesis by (cases rule: producer_accept_cases) auto
next
  case False
  then show ?thesis
    using assms
    by (cases i) (auto simp: poll_online_eq producer_step_def step_sender_def on_connection_dropped_def sub_ticket_expired_def on_require_reeval_def
        producer_shutdown_def Let_def split: if_splits option.splits prod.splits)
qed

lemma run_cancelled: "producer_run rt cfg encode is p = Some q \<Longrightarrow> pr_cancelled p \<longrightarrow> pr_cancelled q"
  by (induction "is" arbitrary: p) (auto split: Option.bind_splits, metis step_mono)

lemma run_passes:
  assumes "producer_ok cfg p" and "producer_run rt cfg encode is p = Some q"
    and "(k, s') \<in> set (pr_active q @ pr_orphans q)" and "k < pr_next p"
  shows "\<exists>s. (k, s) \<in> set (pr_active p @ pr_orphans p) \<and> passes cfg (pr_cancelled q) (encoded_data encode is) s s'"
  using assms
proof (induction "is" arbitrary: p)
  case Nil
  then show ?case by (auto simp: encoded_data_def)
next
  case (Cons ni "is")
  obtain now i where ni: "ni = (now, i)" by (cases ni)
  obtain p1 where st: "producer_step rt cfg encode now i p = Some p1" and run: "producer_run rt cfg encode is p1 = Some q"
    using Cons.prems(2) ni by (auto split: Option.bind_splits)
  obtain s1 where s1: "(k, s1) \<in> set (pr_active p1 @ pr_orphans p1)" "passes cfg (pr_cancelled q) (encoded_data encode is) s1 s'"
    using Cons.IH [OF producer_ok_step [OF Cons.prems(1) st] run Cons.prems(3)] step_mono [OF st] Cons.prems(4) by auto
  obtain s where s: "(k, s) \<in> set (pr_active p @ pr_orphans p)" "passes cfg (pr_cancelled p1) (datum_bytes encode i) s s1"
    using step_passes [OF Cons.prems(1) st s1(1) Cons.prems(4)] by auto
  have "pr_cancelled p1 \<le> pr_cancelled q" using run_cancelled [OF run] by simp
  then show ?case using passes_trans [OF s(2) s1(2)] s(1) ni by (auto simp: encoded_data_def)
qed

end
