(* ===== verification/Stream_Receiver.thy ===== *)
theory Stream_Receiver
  imports Stream_Status
begin

text \<open>
  \<open>streams/consumer/receiver.rs\<close>: the task that keeps one subscription of a consumer. It connects, reads
  data, and on errors decides between giving up and connecting again under a backoff policy.

  The two futures of its loop are \<open>rc_recv\<close> (with the link it reads from) and \<open>rc_connect\<close>; \<open>None\<close> is
  a future that has resolved. The backoff policy is a function from the number of calls since its reset and the
  time to the pause, \<open>None\<close> when it is exhausted. \<open>rc_cancelled\<close> is the token of the task, which the worker
  of the consumer can set. The data that were forwarded are kept in \<open>rc_out\<close>.
\<close>

section \<open>State\<close>

record 'a consumer_config =
  cs_stream :: unique_id
  cs_network :: nat
  cs_criteria :: criteria
  cs_require :: "'a peer_info \<Rightarrow> bool"
  cs_backoff :: "nat \<Rightarrow> int \<Rightarrow> nat option"
  cs_validators :: "(int \<Rightarrow> 'a peer_entry ticket_validator) list"

datatype backoff_step = Proceed | Pause nat | GiveUp

datatype connect_task = ConnectTask (ct_sync: bool) (ct_backoff: backoff_step)

record ('x, 'a, 'd) receiver =
  rc_peer :: "'a peer_entry"
  rc_state :: channel_state
  rc_stats :: stats
  rc_cancelled :: bool
  rc_recv :: "'x option"
  rc_connect :: "connect_task option"
  rc_backoff :: "nat option"
  rc_out :: "('d \<times> nat) list"
  rc_ended :: bool

record ('x, 'd) receiver_env =
  re_transport :: "'x transport"
  re_encode_handshake :: "consumer_handshake \<Rightarrow> string option"
  re_decode_start :: "string \<Rightarrow> start_stream option"
  re_decode :: "string \<Rightarrow> 'd option"

section \<open>Connecting\<close>

definition apply_backoff ::
  "'a consumer_config \<Rightarrow> int \<Rightarrow> ('x, 'a, 'd) receiver \<Rightarrow> backoff_step \<times> ('x, 'a, 'd) receiver" where
  "apply_backoff cfg now r =
    (case rc_backoff r of
       None \<Rightarrow> (Proceed, r\<lparr>rc_backoff := Some 0\<rparr>)
     | Some n \<Rightarrow>
         (case cs_backoff cfg n now of
            Some duration \<Rightarrow> (Pause duration, r\<lparr>rc_backoff := Some (n + 1)\<rparr>)
          | None \<Rightarrow> (GiveUp, r\<lparr>rc_cancelled := True, rc_state := Terminated\<rparr>)))"

text \<open>\<open>connect\<close> and \<open>sync_catalog_then_connect\<close> make the future; setting it replaces the previous one.\<close>

definition receiver_connect :: "'a consumer_config \<Rightarrow> int \<Rightarrow> bool \<Rightarrow> ('x, 'a, 'd) receiver \<Rightarrow> ('x, 'a, 'd) receiver" where
  "receiver_connect cfg now sync r =
    (let (step, r1) = apply_backoff cfg now (r\<lparr>rc_state := Connecting\<rparr>)
     in r1\<lparr>rc_connect := Some (ConnectTask sync step)\<rparr>)"

definition receiver_spawn :: "'a consumer_config \<Rightarrow> int \<Rightarrow> 'a peer_entry \<Rightarrow> ('x, 'a, 'd) receiver" where
  "receiver_spawn cfg now peer =
    receiver_connect cfg now False
      \<lparr>rc_peer = peer, rc_state = Connecting, rc_stats = stats_new, rc_cancelled = False, rc_recv = None, rc_connect = None,
       rc_backoff = None, rc_out = [], rc_ended = False\<rparr>"

text \<open>
  What the future resolves to: whether the synchronisation failed, whether the token was set during the
  pause, the outcome of the connection, of writing the handshake and of reading the answer.
\<close>

record 'x connect_events =
  ce_sync_failed :: bool
  ce_pause_cancelled :: bool
  ce_connect :: "'x connect_outcome"
  ce_write :: frame_write
  ce_read :: frame_read

definition connect_result ::
  "('x, 'd) receiver_env \<Rightarrow> 'a consumer_config \<Rightarrow> connect_task \<Rightarrow> 'x connect_events \<Rightarrow> link_error + 'x" where
  "connect_result env cfg task ev =
    (let tr = re_transport env in
     if ct_sync task \<and> ce_sync_failed ev then Inl LinkCancelled
     else if ct_backoff task = GiveUp \<or> ((\<exists>d. ct_backoff task = Pause d) \<and> ce_pause_cancelled ev) then Inl LinkCancelled
     else case open_with_cancel tr (ce_connect ev) of
            Inl e \<Rightarrow> Inl (link_of_open e)
          | Inr x \<Rightarrow>
              (case link_send tr (re_encode_handshake env)
                      \<lparr>ch_network = cs_network cfg, ch_stream = cs_stream cfg, ch_criteria = cs_criteria cfg\<rparr> (ce_write ev) x of
                 (Inl e, x1) \<Rightarrow> Inl (link_of_send e)
               | (Inr _, x1) \<Rightarrow>
                   (case link_recv tr (re_decode_start env) (ce_read ev) x1 of
                      (Inl e, x2) \<Rightarrow> Inl (link_of_recv e)
                    | (Inr start, x2) \<Rightarrow>
                        if ss_network start \<noteq> cs_network cfg
                        then Inl (LinkRecv (RecvIo (StreamLost (ApplicationClosed DifferentNetwork))))
                        else if ss_stream start \<noteq> cs_stream cfg
                        then Inl (LinkRecv (RecvIo (StreamLost (ApplicationClosed StreamNotFound))))
                        else Inr x2)))"

section \<open>Errors\<close>

definition unrecoverable :: "('x, 'a, 'd) receiver \<Rightarrow> ('x, 'a, 'd) receiver" where
  "unrecoverable r = r\<lparr>rc_cancelled := True, rc_state := Terminated, rc_stats := stats_disconnected (rc_stats r)\<rparr>"

text \<open>The reasons to give up, in the order of the match.\<close>

datatype recv_verdict = GiveUpNow | SyncAndReconnect | Reconnect

definition classify_error :: "link_error \<Rightarrow> recv_verdict" where
  "classify_error e =
    (if e = LinkCancelled \<or> e = LinkRecv RecvCancelled then GiveUpNow
     else if e = LinkRecv RecvDecode then GiveUpNow
     else case link_close_reason e of
            Some reason \<Rightarrow>
              if is_reason reason UnknownPeer then SyncAndReconnect
              else if is_reason reason StreamNotAllowed then GiveUpNow
              else if is_reason reason GracefulShutdown then GiveUpNow
              else if is_reason reason StreamNotFound then GiveUpNow
              else if is_reason reason DifferentNetwork then GiveUpNow
              else Reconnect
          | None \<Rightarrow> Reconnect)"

definition handle_recv_error ::
  "'a consumer_config \<Rightarrow> int \<Rightarrow> link_error \<Rightarrow> ('x, 'a, 'd) receiver \<Rightarrow> ('x, 'a, 'd) receiver" where
  "handle_recv_error cfg now e r =
    (case classify_error e of
       GiveUpNow \<Rightarrow> unrecoverable r
     | SyncAndReconnect \<Rightarrow> receiver_connect cfg now True r
     | Reconnect \<Rightarrow> receiver_connect cfg now False r)"

definition handle_connect_result ::
  "'a consumer_config \<Rightarrow> int \<Rightarrow> link_error + 'x \<Rightarrow> ('x, 'a, 'd) receiver \<Rightarrow> ('x, 'a, 'd) receiver" where
  "handle_connect_result cfg now result r =
    (case result of
       Inr x \<Rightarrow> r\<lparr>rc_state := Connected, rc_stats := stats_connected (to_millis now) (rc_stats r), rc_recv := Some x\<rparr>
     | Inl e \<Rightarrow> handle_recv_error cfg now e r)"

section \<open>Receiving\<close>

definition receiver_next_recv ::
  "'a consumer_config \<Rightarrow> int \<Rightarrow> link_error + 'd \<times> nat \<Rightarrow> 'x \<Rightarrow> ('x, 'a, 'd) receiver \<Rightarrow> ('x, 'a, 'd) receiver" where
  "receiver_next_recv cfg now result x r =
    (case result of
       Inr (datum, n) \<Rightarrow>
         (let r1 = r\<lparr>rc_out := rc_out r @ [(datum, n)], rc_stats := stats_count n (rc_stats r)\<rparr>
          in if rc_cancelled r1 then r1
             else r1\<lparr>rc_backoff := map_option (\<lambda>_. 0) (rc_backoff r1), rc_recv := Some x\<rparr>)
     | Inl e \<Rightarrow> handle_recv_error cfg now e r)"

datatype 'x receiver_input = RcvRecv frame_read | RcvConnect "'x connect_events" | RcvObserve | RcvCancel

text \<open>
  The loop. A future that has resolved is not ready again until it is replaced. Cancellations of the
  connection and of the pause come from the token.
\<close>

fun receiver_handle ::
  "('x, 'd) receiver_env \<Rightarrow> 'a consumer_config \<Rightarrow> int \<Rightarrow> 'x receiver_input \<Rightarrow> ('x, 'a, 'd) receiver \<Rightarrow> ('x, 'a, 'd) receiver" where
  "receiver_handle env cfg now (RcvRecv read) r =
    (case rc_recv r of
       None \<Rightarrow> r
     | Some x \<Rightarrow>
         if read = ReadCancelled \<and> \<not> rc_cancelled r then r
         else
           (let (result, x1) = recv_with_size (re_transport env) (re_decode env) read x
            in receiver_next_recv cfg now (map_sum LinkRecv id result) x1 (r\<lparr>rc_recv := None\<rparr>)))"
| "receiver_handle env cfg now (RcvConnect ev) r =
    (case rc_connect r of
       None \<Rightarrow> r
     | Some task \<Rightarrow> handle_connect_result cfg now (connect_result env cfg task ev) (r\<lparr>rc_connect := None\<rparr>))"
| "receiver_handle env cfg now RcvObserve r = (if rc_state r = Terminated then r\<lparr>rc_ended := True\<rparr> else r)"
| "receiver_handle env cfg now RcvCancel r = r\<lparr>rc_cancelled := True\<rparr>"

definition receiver_step ::
  "('x, 'd) receiver_env \<Rightarrow> 'a consumer_config \<Rightarrow> int \<Rightarrow> 'x receiver_input \<Rightarrow> ('x, 'a, 'd) receiver \<Rightarrow> ('x, 'a, 'd) receiver" where
  "receiver_step env cfg now i r =
    (if rc_ended r then r\<lparr>rc_cancelled := rc_cancelled r \<or> i = RcvCancel\<rparr> else receiver_handle env cfg now i r)"

definition receiver_run ::
  "('x, 'd) receiver_env \<Rightarrow> 'a consumer_config \<Rightarrow> (int \<times> 'x receiver_input) list \<Rightarrow> ('x, 'a, 'd) receiver \<Rightarrow> ('x, 'a, 'd) receiver" where
  "receiver_run env cfg is r = fold (\<lambda>(now, i). receiver_step env cfg now i) is r"

section \<open>Invariant\<close>

text \<open>
  Exactly one of the two futures is pending while the receiver works. The exception is a receiver that was cancelled
  between a datum and the next read.
\<close>

definition stalled :: "('x, 'a, 'd) receiver \<Rightarrow> bool" where
  "stalled r \<longleftrightarrow> rc_state r = Connected \<and> rc_recv r = None \<and> rc_connect r = None \<and> rc_cancelled r"

definition receiver_ok :: "('x, 'a, 'd) receiver \<Rightarrow> bool" where
  "receiver_ok r \<longleftrightarrow>
    (rc_state r = Connecting \<longrightarrow> rc_connect r \<noteq> None \<and> rc_recv r = None) \<and>
    (rc_state r = Connected \<longrightarrow> rc_connect r = None \<and> rc_recv r \<noteq> None \<or> stalled r) \<and>
    (rc_state r = Terminated \<longrightarrow> rc_cancelled r \<and> rc_recv r = None) \<and>
    (rc_ended r \<longrightarrow> rc_state r = Terminated) \<and> rc_backoff r \<noteq> None \<and>
    (\<forall>task. rc_connect r = Some task \<and> ct_backoff task \<noteq> GiveUp \<longrightarrow> rc_state r = Connecting) \<and>
    (\<forall>task. rc_connect r = Some task \<and> ct_backoff task = GiveUp \<longrightarrow> rc_state r = Terminated)"

lemma connect_ok:
  "\<not> rc_ended r \<Longrightarrow> rc_recv r = None \<Longrightarrow> receiver_ok (receiver_connect cfg now sync r)"
  by (auto simp: receiver_ok_def receiver_connect_def apply_backoff_def Let_def split: option.splits)

lemma unrecoverable_ok:
  "rc_recv r = None \<Longrightarrow> rc_connect r = None \<Longrightarrow> rc_backoff r \<noteq> None \<Longrightarrow> receiver_ok (unrecoverable r)"
  by (auto simp: receiver_ok_def unrecoverable_def)

lemma recv_error_ok:
  "\<not> rc_ended r \<Longrightarrow> rc_recv r = None \<Longrightarrow> rc_connect r = None \<Longrightarrow> rc_backoff r \<noteq> None \<Longrightarrow>
    receiver_ok (handle_recv_error cfg now e r)"
  by (simp add: handle_recv_error_def connect_ok unrecoverable_ok split: recv_verdict.splits)

lemma spawn_ok_receiver: "receiver_ok (receiver_spawn cfg now peer)"
  by (simp add: receiver_spawn_def connect_ok)

lemma connect_result_give_up [simp]: "ct_backoff task = GiveUp \<Longrightarrow> connect_result env cfg task ev = Inl LinkCancelled"
  by (simp add: connect_result_def Let_def)

lemma classify_cancelled [simp]: "classify_error LinkCancelled = GiveUpNow" "classify_error (LinkRecv RecvCancelled) = GiveUpNow"
  by (simp_all add: classify_error_def)

lemma receiver_recv_ok:
  assumes ok: "receiver_ok r" and live: "\<not> rc_ended r" and x: "rc_recv r = Some x"
  shows "receiver_ok (receiver_handle env cfg now (RcvRecv read) r)"
proof -
  have c: "rc_state r = Connected" "rc_connect r = None" "rc_backoff r \<noteq> None"
    using ok x by (cases "rc_state r"; auto simp: receiver_ok_def stalled_def)+
  obtain result x1 where x1: "recv_with_size (re_transport env) (re_decode env) read x = (result, x1)" by fastforce
  show ?thesis
  proof (cases result)
    case (Inl e)
    then show ?thesis
      using ok live x c x1 recv_error_ok [of "r\<lparr>rc_recv := None\<rparr>" cfg now "LinkRecv e"]
      by (auto simp: receiver_next_recv_def)
  next
    case (Inr d)
    then show ?thesis
      using ok live x c x1 by (cases d) (auto simp: receiver_next_recv_def receiver_ok_def stalled_def Let_def)
  qed
qed

lemma receiver_connect_ok:
  assumes ok: "receiver_ok r" and live: "\<not> rc_ended r" and task: "rc_connect r = Some task"
  shows "receiver_ok (receiver_handle env cfg now (RcvConnect ev) r)"
proof -
  have c: "rc_recv r = None" "rc_backoff r \<noteq> None"
    using ok task by (cases "rc_state r"; auto simp: receiver_ok_def stalled_def)+
  show ?thesis
  proof (cases "connect_result env cfg task ev")
    case (Inl e)
    then show ?thesis
      using live task c recv_error_ok [of "r\<lparr>rc_connect := None\<rparr>" cfg now e] by (simp add: handle_connect_result_def)
  next
    case (Inr x)
    then have "ct_backoff task \<noteq> GiveUp" by auto
    then show ?thesis using Inr live task c ok by (auto simp: handle_connect_result_def receiver_ok_def)
  qed
qed

lemma receiver_step_ok:
  assumes "receiver_ok r"
  shows "receiver_ok (receiver_step env cfg now i r)"
proof (cases "rc_ended r")
  case True
  then show ?thesis using assms by (auto simp: receiver_step_def receiver_ok_def stalled_def)
next
  case False
  note ok = receiver_recv_ok [OF assms False] receiver_connect_ok [OF assms False]
  show ?thesis
  proof (cases i)
    case (RcvRecv read)
    then show ?thesis using assms False ok(1) [of _ env cfg now read] by (cases "rc_recv r") (auto simp: receiver_step_def)
  next
    case (RcvConnect ev)
    then show ?thesis using assms False ok(2) [of _ env cfg now ev] by (cases "rc_connect r") (auto simp: receiver_step_def)
  qed (use assms False in \<open>auto simp: receiver_step_def receiver_ok_def stalled_def\<close>)
qed

lemma receiver_run_simps [simp]:
  "receiver_run env cfg [] r = r"
  "receiver_run env cfg ((now, i) # is) r = receiver_run env cfg is (receiver_step env cfg now i r)"
  by (simp_all add: receiver_run_def)

lemma receiver_run_ok: "receiver_ok r \<Longrightarrow> receiver_ok (receiver_run env cfg is r)"
  by (induction "is" arbitrary: r) (auto simp: receiver_step_ok)

lemma stalled_stays: "stalled r \<Longrightarrow> \<not> rc_ended r \<Longrightarrow> receiver_run env cfg is r = r"
proof (induction "is" arbitrary: r)
  case (Cons ni "is")
  then have "receiver_step env cfg (fst ni) (snd ni) r = r"
    by (cases "snd ni") (auto simp: stalled_def receiver_step_def)
  with Cons show ?case by (cases ni) simp
qed simp

section \<open>Giving up\<close>

text \<open>Failed connections since the last datum use up the backoff policy.\<close>

lemma terminated_stays:
  "receiver_ok r \<Longrightarrow> rc_state r = Terminated \<Longrightarrow> rc_state (receiver_step env cfg now i r) = Terminated"
  by (cases i) (auto simp: receiver_step_def receiver_ok_def handle_connect_result_def handle_recv_error_def unrecoverable_def
      split: option.splits)

lemma terminated_run:
  "receiver_ok r \<Longrightarrow> rc_state r = Terminated \<Longrightarrow> rc_state (receiver_run env cfg is r) = Terminated"
  by (induction "is" arbitrary: r) (auto simp: terminated_stays receiver_step_ok)

lemma failed_connect:
  assumes "receiver_ok r" and "rc_state r = Connecting" and "rc_backoff r = Some n" and "\<And>task. isl (connect_result env cfg task ev)"
  shows "rc_state (receiver_step env cfg now (RcvConnect ev) r) = Terminated \<or>
    rc_state (receiver_step env cfg now (RcvConnect ev) r) = Connecting \<and>
    rc_backoff (receiver_step env cfg now (RcvConnect ev) r) = Some (n + 1) \<and> cs_backoff cfg n now \<noteq> None"
proof -
  obtain task where t: "rc_connect r = Some task" and l: "\<not> rc_ended r" using assms(1,2) by (auto simp: receiver_ok_def)
  obtain e where e: "connect_result env cfg task ev = Inl e" using assms(4) [of task] by (auto simp: isl_def)
  show ?thesis
    using t e l assms(3)
    by (auto simp: receiver_step_def handle_connect_result_def handle_recv_error_def unrecoverable_def receiver_connect_def
        apply_backoff_def Let_def split: recv_verdict.splits option.splits)
qed

lemma gives_up:
  assumes "\<And>n t. N \<le> n \<Longrightarrow> cs_backoff cfg n t = None" and "\<And>ev task. ev \<in> snd ` set evs \<Longrightarrow> isl (connect_result env cfg task ev)"
    and "receiver_ok r" and "rc_state r = Connecting" and "rc_backoff r = Some n" and "N < n + length evs" and "n \<le> N"
  shows "rc_state (receiver_run env cfg (map (\<lambda>(t, ev). (t, RcvConnect ev)) evs) r) = Terminated"
  using assms(2-)
proof (induction evs arbitrary: r n)
  case Nil
  then show ?case
    by simp
next
  case (Cons tev evs)
  obtain t ev where tev: "tev = (t, ev)" by (cases tev)
  let ?r = "receiver_step env cfg t (RcvConnect ev) r"
  have ok: "receiver_ok ?r" by (rule receiver_step_ok [OF Cons.prems(2)])
  have "isl (connect_result env cfg task ev)" for task using Cons.prems(1) tev by simp
  then consider "rc_state ?r = Terminated" | "rc_state ?r = Connecting" "rc_backoff ?r = Some (n + 1)" "cs_backoff cfg n t \<noteq> None"
    using failed_connect [OF Cons.prems(2-4), of env cfg ev t] by blast
  then show ?case
  proof cases
    case 1
    then show ?thesis using terminated_run [OF ok] tev by simp
  next
    case 2
    have "n < N" using 2(3) assms(1) [of n t] by (cases "n < N") auto
    then have "rc_state (receiver_run env cfg (map (\<lambda>(t, ev). (t, RcvConnect ev)) evs) ?r) = Terminated"
      by (intro Cons.IH [OF _ ok 2(1,2)]) (use Cons.prems(1,5) in auto)
    then show ?thesis using tev by simp
  qed
qed

section \<open>Order\<close>

text \<open>Frames that arrive one after the other on a connected link are forwarded in this order.\<close>

lemma reads_forwarded:
  assumes "rc_recv r = Some x" and "\<not> rc_cancelled r" and "\<not> rc_ended r" and "map (re_decode env) bs = map Some ds"
  shows "\<exists>r'. receiver_run env cfg (map (\<lambda>b. (now, RcvRecv (ReadBytes b))) bs) r = r' \<and> rc_recv r' = Some x \<and>
    \<not> rc_cancelled r' \<and> rc_out r' = rc_out r @ zip ds (map length bs)"
  using assms
proof (induction bs arbitrary: r ds)
  case (Cons b bs)
  obtain d ds' where ds: "ds = d # ds'" "re_decode env b = Some d" "map (re_decode env) bs = map Some ds'"
    using Cons.prems(4) by (cases ds) auto
  let ?r = "receiver_step env cfg now (RcvRecv (ReadBytes b)) r"
  have "rc_recv ?r = Some x" "\<not> rc_cancelled ?r" "\<not> rc_ended ?r" "rc_out ?r = rc_out r @ [(d, length b)]"
    using Cons.prems ds by (simp_all add: receiver_step_def recv_with_size_def receiver_next_recv_def Let_def)
  then show ?case using Cons.IH [of ?r ds'] ds by auto
qed simp

end
