(* ===== verification/Stream_Consumer.thy ===== *)
theory Stream_Consumer
  imports Stream_Receiver
begin

text \<open>
  \<open>streams/consumer/worker.rs\<close>: the worker of a consumer. It starts a receiver for every producer of the catalog
  that meets the requirements, stops receivers of producers that no longer do or whose ticket expires, and
  removes receivers that report their end.

  The receivers that were started are the list \<open>cw_receivers\<close>, a receiver being known by its position. The table
  \<open>cw_active\<close> maps a producer to its receiver; its key, the digest of the bytes of the identifier, is the
  identifier. \<open>cw_reports\<close> has the state streams that are listened to. The snapshot of the catalog is
  given by its two reading functions.
\<close>

section \<open>State\<close>

record 'a catalog_view =
  cv_peers :: "'a peer_entry list"
  cv_get :: "peer_id \<Rightarrow> 'a peer_entry option"

definition catalog_view_of ::
  "('a, 'k, 'g) disc_env \<Rightarrow> disc_config \<Rightarrow> (peer_id \<Rightarrow> nat option) \<Rightarrow> int \<Rightarrow> ('a, 'g) catalog \<Rightarrow> 'a catalog_view" where
  "catalog_view_of env dc rtt now c = \<lparr>cv_peers = cat_peers env dc rtt now c, cv_get = cat_get env dc rtt now c\<rparr>"

record ('x, 'a, 'd) consumer =
  cw_active :: "(peer_id \<times> nat) list"
  cw_cancels :: "(peer_id \<times> nat) list"
  cw_receivers :: "('x, 'a, 'd) receiver list"
  cw_reports :: "nat list"
  cw_timers :: "(int \<times> peer_id) list"
  cw_probes :: "peer_id list"
  cw_online :: bool
  cw_online_when :: "'a channel_conditions"
  cw_cancelled :: bool
  cw_ended :: bool

definition receiver_channels :: "('x, 'a, 'd) consumer \<Rightarrow> 'a channel_info list" where
  "receiver_channels w =
    map (\<lambda>(p, j). \<lparr>ci_peer = rc_peer (cw_receivers w ! j), ci_state = rc_state (cw_receivers w ! j)\<rparr>) (cw_active w)"

definition consumer_new :: "'a channel_conditions \<Rightarrow> ('x, 'a, 'd) consumer" where
  "consumer_new online_when =
    \<lparr>cw_active = [], cw_cancels = [], cw_receivers = [], cw_reports = [], cw_timers = [], cw_probes = [],
     cw_online = is_condition_met online_when [], cw_online_when = online_when, cw_cancelled = False, cw_ended = False\<rparr>"

text \<open>\<open>cancel\<close> on the token of a receiver, taken out of the table of tokens.\<close>

definition cancel_receiver :: "peer_id \<Rightarrow> ('x, 'a, 'd) consumer \<Rightarrow> ('x, 'a, 'd) consumer" where
  "cancel_receiver p w =
    (case map_of (cw_cancels w) p of
       None \<Rightarrow> w
     | Some j \<Rightarrow>
         w\<lparr>cw_cancels := AList.delete p (cw_cancels w),
           cw_receivers := (cw_receivers w)[j := (cw_receivers w ! j)\<lparr>rc_cancelled := True\<rparr>]\<rparr>)"

definition drop_active :: "peer_id \<Rightarrow> ('x, 'a, 'd) consumer \<Rightarrow> ('x, 'a, 'd) consumer" where
  "drop_active p w = w\<lparr>cw_active := AList.delete p (cw_active w)\<rparr>"

definition offline_if_unmet :: "('x, 'a, 'd) consumer \<Rightarrow> ('x, 'a, 'd) consumer" where
  "offline_if_unmet w =
    (if is_condition_met (cw_online_when w) (receiver_channels w) then w else w\<lparr>cw_online := False\<rparr>)"

section \<open>The catalog\<close>

text \<open>\<open>Receiver::spawn\<close> with the registrations that follow it. The token of the receiver is a child of the worker's.\<close>

definition subscribe_to ::
  "'a consumer_config \<Rightarrow> int \<Rightarrow> 'a peer_entry \<Rightarrow> expiration option \<Rightarrow> ('x, 'a, 'd) consumer \<Rightarrow> ('x, 'a, 'd) consumer" where
  "subscribe_to cfg now producer expiration w =
    (let j = length (cw_receivers w); p = pe_id producer;
         w1 = w\<lparr>cw_receivers := cw_receivers w @ [(receiver_spawn cfg now producer)\<lparr>rc_cancelled := cw_cancelled w\<rparr>],
                cw_reports := cw_reports w @ [j], cw_active := AList.update p j (cw_active w),
                cw_cancels := AList.update p j (cw_cancels w)\<rparr>
     in case Option.bind expiration (exp_remaining now) of
          Some d \<Rightarrow> w1\<lparr>cw_timers := cw_timers w1 @ [(now + d, p)]\<rparr>
        | None \<Rightarrow> w1)"

definition consider_producer ::
  "'a consumer_config \<Rightarrow> int \<Rightarrow> rtt_tracker \<Rightarrow> 'a peer_entry \<Rightarrow> ('x, 'a, 'd) consumer \<Rightarrow> ('x, 'a, 'd) consumer" where
  "consider_producer cfg now rtt producer w =
    (if map_of (cw_active w) (pe_id producer) \<noteq> None then w
     else if rtt_get rtt (pe_id producer) = None then w\<lparr>cw_probes := cw_probes w @ [pe_id producer]\<rparr>
     else if \<not> cs_require cfg (from_tracker producer rtt) then w
     else case validate_tickets (map (\<lambda>v. v now) (cs_validators cfg)) producer of
            None \<Rightarrow> w
          | Some expiration \<Rightarrow> subscribe_to cfg now producer expiration w)"

text \<open>The producers that left the catalog or no longer qualify.\<close>

definition ineligible :: "'a consumer_config \<Rightarrow> int \<Rightarrow> rtt_tracker \<Rightarrow> 'a catalog_view \<Rightarrow> peer_id \<Rightarrow> bool" where
  "ineligible cfg now rtt latest p =
    (case cv_get latest p of
       None \<Rightarrow> True
     | Some entry \<Rightarrow>
         cs_stream cfg |\<notin>| pe_streams entry \<or> \<not> cs_require cfg (from_tracker entry rtt) \<or>
         validate_tickets (map (\<lambda>v. v now) (cs_validators cfg)) entry = None)"

definition disconnect_ineligible_producers ::
  "'a consumer_config \<Rightarrow> int \<Rightarrow> rtt_tracker \<Rightarrow> 'a catalog_view \<Rightarrow> ('x, 'a, 'd) consumer \<Rightarrow> ('x, 'a, 'd) consumer" where
  "disconnect_ineligible_producers cfg now rtt latest w =
    (let to_disconnect = filter (ineligible cfg now rtt latest) (map fst (cw_active w));
         w1 = fold (\<lambda>p w. drop_active p (cancel_receiver p w)) to_disconnect w
     in if to_disconnect \<noteq> [] then offline_if_unmet w1 else w1)"

definition consumer_catalog_update ::
  "'a consumer_config \<Rightarrow> int \<Rightarrow> rtt_tracker \<Rightarrow> 'a catalog_view \<Rightarrow> ('x, 'a, 'd) consumer \<Rightarrow> ('x, 'a, 'd) consumer" where
  "consumer_catalog_update cfg now rtt latest w =
    disconnect_ineligible_producers cfg now rtt latest
      (fold (consider_producer cfg now rtt) (filter (\<lambda>e. cs_stream cfg |\<in>| pe_streams e) (cv_peers latest)) w)"

section \<open>Other events\<close>

definition producer_ticket_expired :: "peer_id \<Rightarrow> ('x, 'a, 'd) consumer \<Rightarrow> ('x, 'a, 'd) consumer" where
  "producer_ticket_expired p w =
    (if map_of (cw_active w) p = None then w else offline_if_unmet (drop_active p (cancel_receiver p w)))"

text \<open>Removing the token from its table does not cancel it.\<close>

definition on_receiver_state_update :: "peer_id \<Rightarrow> channel_state \<Rightarrow> ('x, 'a, 'd) consumer \<Rightarrow> ('x, 'a, 'd) consumer" where
  "on_receiver_state_update p state w =
    (if state = Terminated
     then (let w1 = drop_active p w in offline_if_unmet (w1\<lparr>cw_cancels := AList.delete p (cw_cancels w1)\<rparr>))
     else w)"

definition consumer_online :: "('x, 'a, 'd) consumer \<Rightarrow> ('x, 'a, 'd) consumer" where
  "consumer_online w = w\<lparr>cw_online := True\<rparr>"

definition consumer_terminated :: "('x, 'a, 'd) consumer \<Rightarrow> ('x, 'a, 'd) consumer" where
  "consumer_terminated w = w\<lparr>cw_active := [], cw_cancels := []\<rparr>"

datatype ('x, 'a) consumer_input =
    CCatalog rtt_tracker "'a catalog_view"
  | CTicket peer_id
  | CState nat
  | CPoll
  | CDrop
  | CShutdown
  | CReceiver nat "'x receiver_input"

text \<open>
  The loop with its receivers. Dropping the consumer sets the token of the worker and of all its receivers. A
  report gives the current state of a receiver; after the final one the stream ends.
\<close>

fun consumer_handle ::
  "('x, 'd) receiver_env \<Rightarrow> 'a consumer_config \<Rightarrow> int \<Rightarrow> ('x, 'a) consumer_input \<Rightarrow> ('x, 'a, 'd) consumer \<Rightarrow> ('x, 'a, 'd) consumer" where
  "consumer_handle env cfg now (CCatalog rtt latest) w = consumer_catalog_update cfg now rtt latest w"
| "consumer_handle env cfg now (CTicket p) w =
    (if \<exists>t \<in> set (cw_timers w). snd t = p \<and> fst t \<le> now
     then producer_ticket_expired p
            (w\<lparr>cw_timers := remove1 (the (find (\<lambda>t. snd t = p \<and> fst t \<le> now) (cw_timers w))) (cw_timers w)\<rparr>)
     else w)"
| "consumer_handle env cfg now (CState j) w =
    (if j \<in> set (cw_reports w)
     then (let r = cw_receivers w ! j; w1 = on_receiver_state_update (pe_id (rc_peer r)) (rc_state r) w
           in if rc_state r = Terminated then w1\<lparr>cw_reports := removeAll j (cw_reports w1)\<rparr> else w1)
     else w)"
| "consumer_handle env cfg now CPoll w =
    (let (ready, c) = conditions_poll (cw_online_when w) (receiver_channels w); w1 = w\<lparr>cw_online_when := c\<rparr>
     in if ready then consumer_online w1 else w1)"
| "consumer_handle env cfg now CShutdown w =
    (if cw_cancelled w then (consumer_terminated w)\<lparr>cw_ended := True\<rparr> else w)"
| "consumer_handle env cfg now CDrop w =
    w\<lparr>cw_cancelled := True, cw_receivers := map (\<lambda>r. r\<lparr>rc_cancelled := True\<rparr>) (cw_receivers w)\<rparr>"
| "consumer_handle env cfg now (CReceiver j i) w = w"

definition consumer_step ::
  "('x, 'd) receiver_env \<Rightarrow> 'a consumer_config \<Rightarrow> int \<Rightarrow> ('x, 'a) consumer_input \<Rightarrow> ('x, 'a, 'd) consumer \<Rightarrow> ('x, 'a, 'd) consumer" where
  "consumer_step env cfg now i w =
    (case i of
       CReceiver j k \<Rightarrow>
         if j < length (cw_receivers w) \<and> k \<noteq> RcvCancel
         then w\<lparr>cw_receivers := (cw_receivers w)[j := receiver_step env cfg now k (cw_receivers w ! j)]\<rparr>
         else w
     | CDrop \<Rightarrow> consumer_handle env cfg now CDrop w
     | _ \<Rightarrow> if cw_ended w then w else consumer_handle env cfg now i w)"

definition consumer_run ::
  "('x, 'd) receiver_env \<Rightarrow> 'a consumer_config \<Rightarrow> (int \<times> ('x, 'a) consumer_input) list \<Rightarrow> ('x, 'a, 'd) consumer \<Rightarrow> ('x, 'a, 'd) consumer" where
  "consumer_run env cfg is w = fold (\<lambda>(now, i). consumer_step env cfg now i) is w"

section \<open>Invariant\<close>

text \<open>Every producer of the table has one receiver, which is a receiver for it, and the token to stop it.\<close>

definition consumer_ok :: "('x, 'a, 'd) consumer \<Rightarrow> bool" where
  "consumer_ok w \<longleftrightarrow>
    distinct (map fst (cw_active w)) \<and> map_of (cw_cancels w) = map_of (cw_active w) \<and>
    (\<forall>p j. map_of (cw_active w) p = Some j \<longrightarrow> j < length (cw_receivers w) \<and> pe_id (rc_peer (cw_receivers w ! j)) = p) \<and>
    list_all receiver_ok (cw_receivers w) \<and> set (cw_reports w) \<subseteq> {..<length (cw_receivers w)}"

lemma receiver_step_peer [simp]: "rc_peer (receiver_step env cfg now i r) = rc_peer r"
  by (cases i) (auto simp: receiver_step_def receiver_next_recv_def handle_connect_result_def handle_recv_error_def unrecoverable_def
      receiver_connect_def apply_backoff_def Let_def split: option.splits sum.splits recv_verdict.splits prod.splits)

lemma receiver_spawn_peer [simp]: "rc_peer (receiver_spawn cfg now e) = e"
  by (simp add: receiver_spawn_def receiver_connect_def apply_backoff_def)

lemma receiver_ok_cancel [simp]: "receiver_ok r \<Longrightarrow> receiver_ok (r\<lparr>rc_cancelled := True\<rparr>)"
  by (auto simp: receiver_ok_def stalled_def)

lemma receiver_ok_spawn_token [simp]: "receiver_ok ((receiver_spawn cfg now e)\<lparr>rc_cancelled := c\<rparr>)"
  by (auto simp: receiver_ok_def receiver_spawn_def receiver_connect_def apply_backoff_def stalled_def)

text \<open>Replacing a receiver by another for the same producer.\<close>

lemma consumer_ok_receiver:
  assumes "consumer_ok w" and "j < length (cw_receivers w)" and "receiver_ok r" and "rc_peer r = rc_peer (cw_receivers w ! j)"
  shows "consumer_ok (w\<lparr>cw_receivers := (cw_receivers w)[j := r]\<rparr>)"
  using assms by (auto simp: consumer_ok_def list_all_length nth_list_update)

text \<open>Tokens and table are changed together.\<close>

lemma consumer_ok_remove:
  "consumer_ok w \<Longrightarrow> consumer_ok (w\<lparr>cw_active := AList.delete p (cw_active w), cw_cancels := AList.delete p (cw_cancels w)\<rparr>)"
  by (auto simp: consumer_ok_def delete_conv' distinct_delete)

lemma disconnect_eq:
  assumes "consumer_ok w"
  shows "drop_active p (cancel_receiver p w) =
    (case map_of (cw_active w) p of
       None \<Rightarrow> w\<lparr>cw_active := AList.delete p (cw_active w)\<rparr>
     | Some j \<Rightarrow> w\<lparr>cw_active := AList.delete p (cw_active w), cw_cancels := AList.delete p (cw_cancels w),
         cw_receivers := (cw_receivers w)[j := (cw_receivers w ! j)\<lparr>rc_cancelled := True\<rparr>]\<rparr>)"
  using assms by (simp add: drop_active_def cancel_receiver_def consumer_ok_def split: option.splits)

lemma disconnect_ok:
  assumes "consumer_ok w"
  shows "consumer_ok (drop_active p (cancel_receiver p w))"
proof (cases "map_of (cw_active w) p")
  case None
  then show ?thesis
    using assms unfolding disconnect_eq [OF assms]
    by (auto simp: consumer_ok_def delete_conv' distinct_delete fun_upd_idem)
next
  case (Some j)
  then have "j < length (cw_receivers w)" "receiver_ok (cw_receivers w ! j)"
    using assms by (auto simp: consumer_ok_def list_all_length)
  then show ?thesis
    using Some consumer_ok_receiver [OF consumer_ok_remove [OF assms, of p], of j "(cw_receivers w ! j)\<lparr>rc_cancelled := True\<rparr>"]
    unfolding disconnect_eq [OF assms] by simp
qed

lemma offline_simps [simp]:
  "cw_active (offline_if_unmet w) = cw_active w" "cw_receivers (offline_if_unmet w) = cw_receivers w"
  "cw_cancels (offline_if_unmet w) = cw_cancels w" "cw_reports (offline_if_unmet w) = cw_reports w"
  by (simp_all add: offline_if_unmet_def)

lemma consumer_ok_cong:
  "consumer_ok w \<Longrightarrow> cw_active w' = cw_active w \<Longrightarrow> cw_cancels w' = cw_cancels w \<Longrightarrow> cw_receivers w' = cw_receivers w \<Longrightarrow>
    set (cw_reports w') \<subseteq> set (cw_reports w) \<Longrightarrow> consumer_ok w'"
  by (auto simp: consumer_ok_def)

lemma offline_ok [simp]: "consumer_ok (offline_if_unmet w) \<longleftrightarrow> consumer_ok w"
  by (simp add: consumer_ok_def)

lemma reports_ok: "consumer_ok w \<Longrightarrow> consumer_ok (w\<lparr>cw_reports := removeAll j (cw_reports w)\<rparr>)"
  by (auto simp: consumer_ok_def)

lemma subscribe_ok:
  assumes "consumer_ok w"
  shows "consumer_ok (subscribe_to cfg now e x w)"
proof -
  let ?w = "w\<lparr>cw_receivers := cw_receivers w @ [(receiver_spawn cfg now e)\<lparr>rc_cancelled := cw_cancelled w\<rparr>],
    cw_reports := cw_reports w @ [length (cw_receivers w)], cw_active := AList.update (pe_id e) (length (cw_receivers w)) (cw_active w),
    cw_cancels := AList.update (pe_id e) (length (cw_receivers w)) (cw_cancels w)\<rparr>"
  have "consumer_ok ?w"
    using assms by (fastforce simp: consumer_ok_def update_conv' distinct_update nth_append less_Suc_eq)
  then show ?thesis
    by (rule consumer_ok_cong) (simp_all add: subscribe_to_def Let_def split: option.splits)
qed

lemma consider_ok: "consumer_ok w \<Longrightarrow> consumer_ok (consider_producer cfg now rtt e w)"
  by (auto simp: consider_producer_def subscribe_ok elim: consumer_ok_cong split: option.splits)

lemma fold_ok: "(\<And>x w. consumer_ok w \<Longrightarrow> consumer_ok (f x w)) \<Longrightarrow> consumer_ok w \<Longrightarrow> consumer_ok (fold f xs w)"
  by (induction xs arbitrary: w) auto

lemma catalog_update_ok: "consumer_ok w \<Longrightarrow> consumer_ok (consumer_catalog_update cfg now rtt latest w)"
  unfolding consumer_catalog_update_def disconnect_ineligible_producers_def Let_def
  by (auto intro!: fold_ok consider_ok disconnect_ok)

lemma consumer_handle_ok:
  assumes "consumer_ok w"
  shows "consumer_ok (consumer_handle env cfg now i w)"
proof (cases i)
  case (CCatalog rtt latest)
  then show ?thesis using assms by (simp add: catalog_update_ok)
next
  case (CTicket p)
  have "consumer_ok (producer_ticket_expired p (w\<lparr>cw_timers := ts\<rparr>))" for ts
    using disconnect_ok [of "w\<lparr>cw_timers := ts\<rparr>" p] assms consumer_ok_cong [OF assms, of "w\<lparr>cw_timers := ts\<rparr>"]
    by (auto simp: producer_ticket_expired_def)
  then show ?thesis using CTicket assms by simp
next
  case (CState j)
  have "consumer_ok (on_receiver_state_update p st w)" for p st
    using assms consumer_ok_remove [OF assms, of p]
    by (auto simp: on_receiver_state_update_def drop_active_def Let_def)
  then show ?thesis using CState assms reports_ok by (auto simp: Let_def)
next
  case CPoll
  then show ?thesis
    using assms by (auto simp: Let_def consumer_online_def intro: consumer_ok_cong split: prod.splits)
next
  case CDrop
  then show ?thesis using assms by (auto simp: consumer_ok_def list_all_length)
next
  case CShutdown
  then show ?thesis using assms by (auto simp: consumer_ok_def consumer_terminated_def)
qed (use assms in simp)

lemma consumer_step_ok:
  assumes "consumer_ok w"
  shows "consumer_ok (consumer_step env cfg now i w)"
proof (cases "\<exists>j k. i = CReceiver j k")
  case True
  then obtain j k where i: "i = CReceiver j k" by blast
  have "receiver_ok (cw_receivers w ! j)" if "j < length (cw_receivers w)"
    using assms that by (simp add: consumer_ok_def list_all_length)
  then show ?thesis
    using i assms consumer_ok_receiver [OF assms, of j "receiver_step env cfg now k (cw_receivers w ! j)"]
      receiver_step_ok [of "cw_receivers w ! j"] by (auto simp: consumer_step_def)
next
  case False
  then show ?thesis
    using assms consumer_handle_ok [OF assms, of env cfg now i]
    by (cases i) (auto simp: consumer_step_def simp del: consumer_handle.simps)
qed

lemma consumer_run_ok: "consumer_ok w \<Longrightarrow> consumer_ok (consumer_run env cfg is w)"
  unfolding consumer_run_def by (rule fold_ok) (auto simp: consumer_step_ok)

lemma consumer_ok_new [simp]: "consumer_ok (consumer_new c)"
  by (simp add: consumer_ok_def consumer_new_def)

section \<open>What an update of the catalog does\<close>

lemma consider_active:
  assumes "map_of (cw_active w) p = Some j"
  shows "map_of (cw_active (consider_producer cfg now rtt e w)) p = Some j"
  using assms by (auto simp: consider_producer_def subscribe_to_def Let_def update_conv' split: option.splits)

definition wanted :: "'a consumer_config \<Rightarrow> int \<Rightarrow> rtt_tracker \<Rightarrow> 'a peer_entry \<Rightarrow> bool" where
  "wanted cfg now rtt e \<longleftrightarrow>
    rtt_get rtt (pe_id e) \<noteq> None \<and> cs_require cfg (from_tracker e rtt) \<and>
    validate_tickets (map (\<lambda>v. v now) (cs_validators cfg)) e \<noteq> None"

lemma consider_wanted:
  "wanted cfg now rtt e \<Longrightarrow> map_of (cw_active (consider_producer cfg now rtt e w)) (pe_id e) \<noteq> None"
  by (auto simp: wanted_def consider_producer_def subscribe_to_def Let_def update_conv' split: option.splits)

lemma consider_all_active:
  "map_of (cw_active w) p = Some j \<Longrightarrow> map_of (cw_active (fold (consider_producer cfg now rtt) es w)) p = Some j"
  by (induction es arbitrary: w) (simp_all add: consider_active)

lemma consider_all_wanted:
  "e \<in> set es \<Longrightarrow> wanted cfg now rtt e \<Longrightarrow> map_of (cw_active (fold (consider_producer cfg now rtt) es w)) (pe_id e) \<noteq> None"
proof (induction es arbitrary: w)
  case (Cons e' es)
  show ?case
  proof (cases "e = e'")
    case True
    then obtain j where "map_of (cw_active (consider_producer cfg now rtt e' w)) (pe_id e) = Some j"
      using consider_wanted [OF Cons.prems(2), of w] by blast
    from consider_all_active [OF this] show ?thesis by simp
  qed (use Cons in simp)
qed simp

lemma disconnect_all:
  assumes "consumer_ok w"
  shows "map_of (cw_active (fold (\<lambda>p w. drop_active p (cancel_receiver p w)) ps w)) q = (if q \<in> set ps then None else map_of (cw_active w) q) \<and>
    (\<forall>j. rc_cancelled (cw_receivers w ! j) \<or> q \<in> set ps \<and> map_of (cw_active w) q = Some j \<longrightarrow>
      rc_cancelled (cw_receivers (fold (\<lambda>p w. drop_active p (cancel_receiver p w)) ps w) ! j))"
  using assms
proof (induction ps arbitrary: w)
  case (Cons p ps)
  let ?w = "drop_active p (cancel_receiver p w)"
  have ok: "consumer_ok ?w" by (rule disconnect_ok [OF Cons.prems])
  have a: "map_of (cw_active ?w) q = (if q = p then None else map_of (cw_active w) q)"
    by (auto simp: disconnect_eq [OF Cons.prems] delete_conv' split: option.splits)
  have c: "rc_cancelled (cw_receivers w ! j) \<or> map_of (cw_active w) p = Some j \<longrightarrow> rc_cancelled (cw_receivers ?w ! j)" for j
    using Cons.prems by (auto simp: disconnect_eq [OF Cons.prems] consumer_ok_def nth_list_update split: option.splits)
  show ?case using Cons.IH [OF ok] a c by (simp split: if_splits)
qed simp

lemma catalog_update_enforces:
  fixes w :: "('x, 'a, 'd) consumer" and cfg :: "'a consumer_config" and now :: int and rtt :: rtt_tracker
    and latest :: "'a catalog_view"
  assumes "consumer_ok w"
  defines "w' \<equiv> consumer_catalog_update cfg now rtt latest w"
  shows "map_of (cw_active w') p \<noteq> None \<Longrightarrow> \<not> ineligible cfg now rtt latest p"
    and "map_of (cw_active w) p = Some j \<Longrightarrow> ineligible cfg now rtt latest p \<Longrightarrow> rc_cancelled (cw_receivers w' ! j)"
    and "map_of (cw_active w) p = Some j \<Longrightarrow> \<not> ineligible cfg now rtt latest p \<Longrightarrow> map_of (cw_active w') p = Some j"
    and "e \<in> set (cv_peers latest) \<Longrightarrow> cs_stream cfg |\<in>| pe_streams e \<Longrightarrow> wanted cfg now rtt e \<Longrightarrow>
      \<not> ineligible cfg now rtt latest (pe_id e) \<Longrightarrow> map_of (cw_active w') (pe_id e) \<noteq> None"
proof -
  define v :: "('x, 'a, 'd) consumer" where
    "v = fold (consider_producer cfg now rtt) (filter (\<lambda>e. cs_stream cfg |\<in>| pe_streams e) (cv_peers latest)) w"
  define ps where "ps = filter (ineligible cfg now rtt latest) (map fst (cw_active v))"
  have ok: "consumer_ok v" unfolding v_def by (rule fold_ok) (simp_all add: consider_ok assms(1))
  have w': "cw_active w' = cw_active (fold (\<lambda>p w. drop_active p (cancel_receiver p w)) ps v)"
    "cw_receivers w' = cw_receivers (fold (\<lambda>p w. drop_active p (cancel_receiver p w)) ps v)"
    by (simp_all add: w'_def consumer_catalog_update_def disconnect_ineligible_producers_def v_def ps_def Let_def)
  have ps: "p \<in> set ps \<longleftrightarrow> ineligible cfg now rtt latest p \<and> map_of (cw_active v) p \<noteq> None" for p
    by (auto simp: ps_def map_of_eq_None_iff)
  have act: "map_of (cw_active w') p = (if p \<in> set ps then None else map_of (cw_active v) p)" for p
    using disconnect_all [OF ok] w' by simp
  show "map_of (cw_active w') p \<noteq> None \<Longrightarrow> \<not> ineligible cfg now rtt latest p"
    using act ps by (auto split: if_splits)
  show "map_of (cw_active w) p = Some j \<Longrightarrow> ineligible cfg now rtt latest p \<Longrightarrow> rc_cancelled (cw_receivers w' ! j)"
    using disconnect_all [OF ok, of ps p] ps consider_all_active w' v_def by (metis option.distinct(1))
  show "map_of (cw_active w) p = Some j \<Longrightarrow> \<not> ineligible cfg now rtt latest p \<Longrightarrow> map_of (cw_active w') p = Some j"
    using act ps consider_all_active by (auto simp: v_def)
  show "e \<in> set (cv_peers latest) \<Longrightarrow> cs_stream cfg |\<in>| pe_streams e \<Longrightarrow> wanted cfg now rtt e \<Longrightarrow>
      \<not> ineligible cfg now rtt latest (pe_id e) \<Longrightarrow> map_of (cw_active w') (pe_id e) \<noteq> None"
    using act ps consider_all_wanted [of e "filter (\<lambda>e. cs_stream cfg |\<in>| pe_streams e) (cv_peers latest)"]
    by (auto simp: v_def)
qed

section \<open>Receivers that left the table\<close>

definition untracked :: "nat \<Rightarrow> ('x, 'a, 'd) consumer \<Rightarrow> bool" where
  "untracked j w \<longleftrightarrow> j < length (cw_receivers w) \<and> (\<forall>p. map_of (cw_active w) p \<noteq> Some j)"

lemma consider_untracked:
  assumes "untracked j w"
  shows "untracked j (consider_producer cfg now rtt e w) \<and> cw_receivers (consider_producer cfg now rtt e w) ! j = cw_receivers w ! j"
  using assms by (auto simp: untracked_def consider_producer_def subscribe_to_def Let_def update_conv' nth_append split: option.splits)

lemma disconnect_untracked:
  assumes "consumer_ok w" and "untracked j w"
  shows "untracked j (drop_active p (cancel_receiver p w)) \<and> cw_receivers (drop_active p (cancel_receiver p w)) ! j = cw_receivers w ! j"
  using assms(2) unfolding disconnect_eq [OF assms(1)]
  by (auto simp: untracked_def delete_conv' intro!: nth_list_update_neq split: option.splits)

text \<open>No update of the catalog reaches such a receiver.\<close>

lemma update_untracked:
  assumes "consumer_ok w" and "untracked j w"
  shows "untracked j (consumer_catalog_update cfg now rtt latest w) \<and>
    cw_receivers (consumer_catalog_update cfg now rtt latest w) ! j = cw_receivers w ! j"
proof -
  have a: "consumer_ok (fold (consider_producer cfg now rtt) es w) \<and> untracked j (fold (consider_producer cfg now rtt) es w) \<and>
      cw_receivers (fold (consider_producer cfg now rtt) es w) ! j = cw_receivers w ! j" for es
    using assms by (induction es arbitrary: w) (auto simp: consider_ok consider_untracked)
  have d: "untracked j (fold (\<lambda>p w. drop_active p (cancel_receiver p w)) ps v) \<and>
      cw_receivers (fold (\<lambda>p w. drop_active p (cancel_receiver p w)) ps v) ! j = cw_receivers v ! j"
    if "consumer_ok v" "untracked j v" for ps and v :: "('a, 'b, 'c) consumer"
    using that by (induction ps arbitrary: v) (auto simp: disconnect_ok disconnect_untracked)
  have o: "untracked j (offline_if_unmet v) = untracked j v" for v :: "('a, 'b, 'c) consumer" by (simp add: untracked_def)
  show ?thesis
    using d [OF conjunct1 [OF a] conjunct1 [OF conjunct2 [OF a]]] a
    by (simp add: consumer_catalog_update_def disconnect_ineligible_producers_def Let_def o)
qed

end
