(* ===== verification/Stream_Properties.thy ===== *)
theory Stream_Properties
  imports Stream_Delivery Stream_Consumer Group_Properties
begin

text \<open>
  Properties of streams: what a consumer receives, the bounds of a producer, when receivers give up, what the worker
  of a consumer enforces, and the places where the code does not do what it means to.
\<close>

section \<open>From the producer to the consumer\<close>



lemma active_sub_found:
  assumes "producer_ok cfg p" and "(k, s) \<in> set (pr_active p)" and "(k, s') \<in> set (pr_active p @ pr_orphans p)"
  shows "s' = s"
  using assms eq_key_imp_eq_value [of "pr_active p @ pr_orphans p" k s s'] by (auto simp: producer_ok_def)

lemma stream_in_order_aux:
  assumes "producer_new cfg c rtt = Some p0" and "producer_run rt cfg encode is0 p0 = Some p1"
    and "producer_run rt cfg encode is p1 = Some p2"
    and "(k, s1) \<in> set (pr_active p1)" and "(k, s2) \<in> set (pr_active p2 @ pr_orphans p2)"
  shows "subseq (sb_wire s2 @ sb_queue s2) (sb_wire s1 @ sb_queue s1 @ encoded_data encode is) \<and>
    (pc_disconnect_lagging cfg \<and> \<not> pr_cancelled p2 \<and> sb_drop_requested s2 = None \<longrightarrow>
      sb_wire s2 @ sb_queue s2 = sb_wire s1 @ sb_queue s1 @ encoded_data encode is)"
proof -
  have ok: "producer_ok cfg p1" by (rule producer_ok_run [OF producer_ok_new [OF assms(1)] assms(2)])
  have "k < pr_next p1" using ok assms(4) by (auto simp: producer_ok_def)
  from run_passes [OF ok assms(3,5) this] obtain s where
    "(k, s) \<in> set (pr_active p1 @ pr_orphans p1)" and "passes cfg (pr_cancelled p2) (encoded_data encode is) s s2" by blast
  moreover have "s = s1" using active_sub_found [OF ok assms(4)] calculation(1) by blast
  ultimately show ?thesis by (simp add: passes_def traffic_def)
qed

text \<open>
  C10. Data reach the connection of a consumer in the order in which they were produced and none twice,
  whatever else happens in between. As long as the producer disconnects lagging consumers and this one is not being
  dropped, none is missing: what was written and what is queued are all data produced since.
\<close>

theorem stream_in_order:
  assumes "producer_new cfg c rtt = Some p0" and "producer_run rt cfg encode is0 p0 = Some p1"
    and "producer_run rt cfg encode is p1 = Some p2"
    and "(k, s1) \<in> set (pr_active p1)" and "(k, s2) \<in> set (pr_active p2 @ pr_orphans p2)"
  shows "subseq (sb_wire s2 @ sb_queue s2) (sb_wire s1 @ sb_queue s1 @ encoded_data encode is) \<and>
    (pc_disconnect_lagging cfg \<and> \<not> pr_cancelled p2 \<and> sb_drop_requested s2 = None \<longrightarrow>
      sb_wire s2 @ sb_queue s2 = sb_wire s1 @ sb_queue s1 @ encoded_data encode is)"
  using assms by (rule stream_in_order_aux)

text \<open>A stream of numbers, encoded in unary; 99 cannot be encoded.\<close>

definition sx_encode :: "nat \<Rightarrow> string option" where
  "sx_encode d = (if d = 99 then None else Some (replicate d CHR ''x''))"

definition sx_cfg :: "nat producer_config" where
  "sx_cfg = (producer_config_default 5 7)\<lparr>pc_buffer_size := 2, pc_max_consumers := 2\<rparr>"

definition sx_rt :: "ex_conn stream_rt" where
  "sx_rt = \<lparr>sr_transport = ex_transport, sr_encode_start = (\<lambda>_. Some ''s'')\<rparr>"

definition sx_new :: "(ex_conn, nat, nat) producer" where
  "sx_new = the (producer_new sx_cfg subscribed_conditions Map.empty)"

definition sx_accept :: "(int \<times> (ex_conn, nat, nat) producer_input) list" where
  "sx_accept = [(1, PAccept False None (2, None) Criteria (fst (ex_peer 2))), (2, PSender 0 (SndConfirm WriteDone))]"

definition sx_feed :: "(int \<times> (ex_conn, nat, nat) producer_input) list" where
  "sx_feed = [(3, PPoll), (4, PData 1), (5, PData 99), (6, PData 2), (7, PSender 0 (SndItem WriteDone None))]"

definition sx_connected :: "(ex_conn, nat) subscription" where
  "sx_connected = (subscription_new Criteria (fst (ex_peer 2)) (2, None))
    \<lparr>sb_stats := stats_connected (to_millis 2) stats_new, sb_state := Connected, sb_confirmed := True\<rparr>"

definition sx_accepted :: "(ex_conn, nat, nat) producer" where
  "sx_accepted = sx_new\<lparr>pr_active := [(0, sx_connected)], pr_next := 1, pr_active_info := [0]\<rparr>"

definition sx_sent :: "(ex_conn, nat) subscription" where
  "sx_sent = sx_connected\<lparr>sb_queue := [''xx''], sb_wire := [''x''], sb_stats := stats_count 1 (sb_stats sx_connected)\<rparr>"

definition sx_fed :: "(ex_conn, nat, nat) producer" where
  "sx_fed = sx_accepted\<lparr>pr_active := [(0, sx_sent)], pr_online := True,
     pr_online_when := subscribed_conditions\<lparr>cc_was_met := True\<rparr>\<rparr>"

lemma sx_cfg_simps [simp]:
  "pc_buffer_size sx_cfg = 2" "pc_max_consumers sx_cfg = 2" "pc_disconnect_lagging sx_cfg" "pc_require sx_cfg i"
  "pc_validators sx_cfg = []" "pc_undelivered sx_cfg = False" "sr_transport sx_rt = ex_transport" "sr_encode_start sx_rt m = Some ''s''"
  by (simp_all add: sx_cfg_def producer_config_default_def sx_rt_def)

lemma sx_new_eq: "producer_new sx_cfg subscribed_conditions Map.empty = Some (sx_new :: (ex_conn, nat, nat) producer)"
  by (simp add: sx_new_def producer_new_def)

lemma sx_new_simps [simp]:
  "pr_active sx_new = []" "pr_next sx_new = 0" "pr_active_info sx_new = []" "pr_orphans sx_new = []" "pr_stopped sx_new = False"
  "pr_cancelled sx_new = False" "pr_online sx_new = False" "pr_online_when sx_new = subscribed_conditions" "pr_rtt sx_new = Map.empty"
  "pr_undelivered sx_new = []"
  by (simp_all add: sx_new_def producer_new_def subscribed_conditions_def is_condition_met_def)

lemmas sx_exec = producer_step_def producer_accept_def validate_tickets_def step_sender_def sender_step_def
  confirm_subscription_def link_send_def send_raw_def update_sub_def subscription_new_def

lemma sx_accept_run: "producer_run sx_rt sx_cfg sx_encode sx_accept sx_new = Some sx_accepted"
  by (simp add: sx_accept_def sx_exec sx_accepted_def sx_connected_def Let_def comp_def)

lemma sx_connected_simps [simp]:
  "sb_queue sx_connected = []" "sb_wire sx_connected = []" "sb_drop_requested sx_connected = None" "sb_state sx_connected = Connected"
  "sb_confirmed sx_connected" "sb_criteria sx_connected = Criteria" "sb_peer sx_connected = fst (ex_peer 2)" "sb_conn sx_connected = (2, None)"
  by (simp_all add: sx_connected_def subscription_new_def)

lemma sx_feed_run: "producer_run sx_rt sx_cfg sx_encode sx_feed sx_accepted = Some sx_fed"
  by (simp add: sx_feed_def sx_accepted_def sx_fed_def sx_sent_def producer_step_def poll_online_eq channels_def is_condition_met_def
      subscribed_conditions_def fanout_def criteria_matches_def offer_def sx_encode_def step_sender_def sender_step_def send_item_def
      send_raw_def update_sub_def Let_def sx_new_def producer_new_def sx_connected_def subscription_new_def numeral_2_eq_2)

theorem stream_in_order_witness:
  "\<exists>s2. (0, s2) \<in> set (pr_active (the (producer_run sx_rt sx_cfg sx_encode sx_feed sx_accepted))) \<and>
    sb_wire s2 @ sb_queue s2 = [''x'', ''xx'']"
proof -
  have "(0, sx_connected) \<in> set (pr_active sx_accepted)" "(0, sx_sent) \<in> set (pr_active sx_fed @ pr_orphans sx_fed)"
    by (simp_all add: sx_accepted_def sx_fed_def)
  note stream_in_order [OF sx_new_eq sx_accept_run sx_feed_run this]
  moreover have "\<not> pr_cancelled sx_fed" "sb_drop_requested sx_sent = None" "encoded_data sx_encode sx_feed = [''x'', ''xx'']"
    by (simp_all add: sx_fed_def sx_accepted_def sx_sent_def encoded_data_def datum_bytes_def sx_feed_def sx_encode_def
      numeral_2_eq_2)
  ultimately show ?thesis by (intro exI [of _ sx_sent]) (simp add: sx_feed_run, simp add: sx_fed_def)
qed


definition sx_env :: "(ex_conn, nat) receiver_env" where
  "sx_env = \<lparr>re_transport = ex_transport, re_encode_handshake = (\<lambda>_. Some ''h''), re_decode_start = (\<lambda>_. Some (StartStream 7 5)),
     re_decode = (\<lambda>b. Some (length b))\<rparr>"

definition sx_ccfg :: "nat consumer_config" where
  "sx_ccfg = \<lparr>cs_stream = 5, cs_network = 7, cs_criteria = Criteria, cs_require = (\<lambda>_. True),
     cs_backoff = (\<lambda>n t. if n < 2 then Some 100 else None), cs_validators = []\<rparr>"

definition sx_producer :: "nat peer_entry" where
  "sx_producer = (fst (ex_peer 2))\<lparr>pe_streams := {|5|}\<rparr>"

definition sx_success :: "ex_conn connect_events" where
  "sx_success = \<lparr>ce_sync_failed = False, ce_pause_cancelled = False, ce_connect = ConnectOk (2, None) BiOk, ce_write = WriteDone,
     ce_read = ReadBytes ''s''\<rparr>"

definition sx_failure :: "ex_conn connect_events" where
  "sx_failure = sx_success\<lparr>ce_connect := ConnectFailed (OpenFailed ''refused'')\<rparr>"

definition sx_receiver :: "(ex_conn, nat, nat) receiver" where
  "sx_receiver = receiver_run sx_env sx_ccfg [(1, RcvConnect sx_success)] (receiver_spawn sx_ccfg 0 sx_producer)"

lemma sx_env_simps [simp]:
  "re_transport sx_env = ex_transport" "re_encode_handshake sx_env h = Some ''h''" "re_decode_start sx_env b = Some (StartStream 7 5)"
  "re_decode sx_env b = Some (length b)" "cs_stream sx_ccfg = 5" "cs_network sx_ccfg = 7" "cs_require sx_ccfg i"
  "cs_backoff sx_ccfg n t = (if n < 2 then Some 100 else None)" "cs_validators sx_ccfg = []"
  "pe_id sx_producer = 2" "pe_streams sx_producer = {|5|}"
  by (simp_all add: sx_env_def sx_ccfg_def sx_producer_def)

lemma sx_connect_result:
  "ct_backoff task = Proceed \<Longrightarrow> ct_sync task = False \<Longrightarrow> connect_result sx_env sx_ccfg task sx_success = Inr (2, None)"
  "isl (connect_result sx_env sx_ccfg task sx_failure)"
  by (simp_all add: connect_result_def sx_success_def sx_failure_def open_with_cancel_def link_send_def send_raw_def link_recv_def
      recv_with_size_def Let_def)

lemma sx_receiver_simps [simp]:
  "rc_recv sx_receiver = Some (2, None)" "rc_state sx_receiver = Connected" "rc_connect sx_receiver = None" "\<not> rc_cancelled sx_receiver"
  "\<not> rc_ended sx_receiver" "rc_out sx_receiver = []" "rc_peer sx_receiver = sx_producer"
  by (simp_all add: sx_receiver_def receiver_spawn_def receiver_connect_def apply_backoff_def receiver_step_def sx_connect_result
      handle_connect_result_def)




text \<open>
  A producer can stay offline although its condition holds: it goes offline when a consumer is
  dropped, and comes back when a poll sees the condition become true. If another consumer connects before the
  next poll, the poll sees no change. From then on no number of polls brings it back, and \<open>try_send\<close> fails.
\<close>

theorem producer_stays_offline:
  assumes "cc_was_met (pr_online_when p)" and "\<not> pr_online p" and "is_condition_met (pr_online_when p) (channels p)"
    and "\<not> pr_stopped p"
  shows "producer_run rt cfg encode (map (\<lambda>t. (t, PPoll)) ts) p = Some p \<and> producer_try_send cfg item chan p = Inl (Offline item)"
proof -
  have "(pr_online_when p)\<lparr>cc_was_met := True\<rparr> = pr_online_when p" using assms(1) by simp
  then have "poll_online p = p" using assms by (simp add: poll_online_eq)
  then have "producer_run rt cfg encode (map (\<lambda>t. (t, PPoll)) ts) p = Some p"
    using assms(4) by (induction ts) (simp_all add: producer_step_def)
  then show ?thesis using assms(2) by (simp add: producer_try_send_def)
qed

text \<open>The first consumer is dropped and a second one connects before the next poll.\<close>

definition sx_swap :: "(int \<times> (ex_conn, nat, nat) producer_input) list" where
  "sx_swap = [(8, PSender 0 (SndLinkDropped (Some (ConnectionLost ''timed out'')))), (9, PSender 0 SndDrop), (10, PDropped 0),
     (11, PAccept False None (3, None) Criteria (fst (ex_peer 3))), (12, PSender 1 (SndConfirm WriteDone))]"

theorem producer_stays_offline_witness:
  "\<exists>p. producer_run sx_rt sx_cfg sx_encode sx_swap sx_fed = Some p \<and> is_condition_met (pr_online_when p) (channels p) \<and>
    producer_run sx_rt sx_cfg sx_encode (map (\<lambda>t. (t, PPoll)) [13, 14, 15]) p = Some p \<and>
    producer_try_send sx_cfg 3 [] p = Inl (Offline 3)"
proof -
  obtain p where run: "producer_run sx_rt sx_cfg sx_encode sx_swap sx_fed = Some p"
    and p: "cc_was_met (pr_online_when p)" "\<not> pr_online p" "is_condition_met (pr_online_when p) (channels p)" "\<not> pr_stopped p"
    by (simp add: sx_swap_def sx_fed_def sx_accepted_def sx_sent_def sx_exec on_remote_link_dropped_def link_closed_def request_drop_def
        sender_terminate_def on_connection_dropped_def channels_def is_condition_met_def subscribed_conditions_def Let_def comp_def
        sx_connected_def)
  from producer_stays_offline [OF p, of sx_rt sx_cfg sx_encode "[13, 14, 15]" 3 "[]"] run p(3) show ?thesis by blast
qed

section \<open>Receivers\<close>

text \<open>
  A receiver is never idle: whatever it is sent, it is connecting with an attempt pending, or connected with a read
  pending, or terminated with its token set. The only other case is the stalled receiver, which needs the token to be set too.
\<close>

theorem receiver_never_idle:
  "receiver_run env cfg is (receiver_spawn cfg now peer) = r \<Longrightarrow>
    rc_state r = Connecting \<and> rc_connect r \<noteq> None \<and> rc_recv r = None \<or>
    rc_state r = Connected \<and> rc_connect r = None \<and> rc_recv r \<noteq> None \<or>
    rc_state r = Terminated \<and> rc_cancelled r \<and> rc_recv r = None \<or> stalled r"
  using receiver_run_ok [OF spawn_ok_receiver, of env cfg "is" cfg now peer]
  by (cases "rc_state r") (auto simp: receiver_ok_def)

theorem receiver_never_idle_witness:
  "rc_state sx_receiver = Connected \<and> rc_connect sx_receiver = None \<and> rc_recv sx_receiver \<noteq> None"
  using receiver_never_idle [of sx_env sx_ccfg "[(1, RcvConnect sx_success)]" 0 sx_producer, OF sx_receiver_def [symmetric]]
  by (auto simp: stalled_def)

text \<open>
  C24. Reconnecting ends: if the backoff policy is exhausted after \<open>N\<close> pauses, then a receiver whose attempts all
  fail, for whatever reasons, has ended after \<open>N + 1\<close> attempts.
\<close>

theorem receiver_gives_up:
  assumes "\<And>n t. N \<le> n \<Longrightarrow> cs_backoff cfg n t = None" and "N < length evs"
    and "\<And>ev task. ev \<in> snd ` set evs \<Longrightarrow> isl (connect_result env cfg task ev)"
  shows "rc_ended (receiver_run env cfg (map (\<lambda>(t, ev). (t, RcvConnect ev)) evs @ [(t, RcvObserve)]) (receiver_spawn cfg now peer))"
proof -
  let ?r = "receiver_run env cfg (map (\<lambda>(t, ev). (t, RcvConnect ev)) evs) (receiver_spawn cfg now peer)"
  have "rc_state ?r = Terminated"
    by (rule gives_up [where n = 0, OF assms(1,3) spawn_ok_receiver])
      (use assms(2) in \<open>simp_all add: receiver_spawn_def receiver_connect_def apply_backoff_def\<close>)
  then show ?thesis by (simp add: receiver_run_def receiver_step_def)
qed

theorem receiver_gives_up_witness:
  "rc_ended (receiver_run sx_env sx_ccfg
    (map (\<lambda>(t, ev). (t, RcvConnect ev)) [(1, sx_failure), (2, sx_failure), (3, sx_failure)] @ [(4, RcvObserve)])
    (receiver_spawn sx_ccfg 0 sx_producer))"
  by (rule receiver_gives_up [where N = 2]) (auto simp: sx_connect_result)

text \<open>
  A receiver that is cancelled while a datum is being handed over never ends: the datum is
  forwarded, no further read is started, and its state stays connected whatever happens later.
\<close>

theorem receiver_stalls:
  assumes "rc_state r = Connected" and "rc_recv r = Some x" and "rc_connect r = None" and "\<not> rc_ended r"
    and "re_decode env b = Some d"
  shows "\<not> rc_ended (receiver_run env cfg ((t, RcvCancel) # (t', RcvRecv (ReadBytes b)) # is) r) \<and>
    rc_state (receiver_run env cfg ((t, RcvCancel) # (t', RcvRecv (ReadBytes b)) # is) r) = Connected"
proof -
  let ?r = "receiver_run env cfg [(t, RcvCancel), (t', RcvRecv (ReadBytes b))] r"
  have "stalled ?r" "\<not> rc_ended ?r"
    using assms by (simp_all add: stalled_def receiver_step_def recv_with_size_def receiver_next_recv_def)
  from stalled_stays [OF this, of env cfg "is"] this show ?thesis by (simp add: stalled_def)
qed

theorem receiver_stalls_witness:
  "\<not> rc_ended (receiver_run sx_env sx_ccfg [(2, RcvCancel), (3, RcvRecv (ReadBytes ''xx'')), (4, RcvObserve)] sx_receiver)"
  using receiver_stalls [of sx_receiver "(2, None)" sx_env "''xx''" 2 sx_ccfg 2 3 "[(4, RcvObserve)]"] by simp

section \<open>The worker of a consumer\<close>

text \<open>
  C22. After an update of the catalog the consumer is subscribed to eligible producers only; receivers of the others
  were cancelled, receivers of eligible ones are kept, and every eligible producer of the snapshot whose
  round-trip time is known is subscribed to. The table has one receiver for a producer, with the token to stop it.
\<close>

theorem consumer_follows_catalog:
  assumes "w = consumer_run env cfg is (consumer_new c)" and "w' = consumer_catalog_update cfg now rtt latest w"
  shows "distinct (map fst (cw_active w')) \<and> map_of (cw_cancels w') = map_of (cw_active w') \<and>
    (\<forall>p. map_of (cw_active w') p \<noteq> None \<longrightarrow> \<not> ineligible cfg now rtt latest p) \<and>
    (\<forall>p j. map_of (cw_active w) p = Some j \<longrightarrow>
      (if ineligible cfg now rtt latest p then rc_cancelled (cw_receivers w' ! j) else map_of (cw_active w') p = Some j)) \<and>
    (\<forall>e. e \<in> set (cv_peers latest) \<and> cs_stream cfg |\<in>| pe_streams e \<and> wanted cfg now rtt e \<and>
      \<not> ineligible cfg now rtt latest (pe_id e) \<longrightarrow> map_of (cw_active w') (pe_id e) \<noteq> None)"
proof -
  have ok: "consumer_ok w" unfolding assms(1) by (rule consumer_run_ok) simp
  have "consumer_ok w'" unfolding assms(2) by (rule catalog_update_ok [OF ok])
  then show ?thesis
    using catalog_update_enforces [OF ok, where cfg = cfg and now = now and rtt = rtt and latest = latest] by (auto simp: consumer_ok_def assms(2))
qed

definition sx_rtt :: rtt_tracker where
  "sx_rtt = [2 \<mapsto> \<lparr>rs_smoothed = 10, rs_variance = 5, rs_sample_count = 1, rs_last_sample = 0\<rparr>]"

definition sx_view :: "nat catalog_view" where
  "sx_view = \<lparr>cv_peers = [sx_producer], cv_get = [2 \<mapsto> sx_producer]\<rparr>"

lemma sx_view_simps [simp]:
  "cv_peers sx_view = [sx_producer]" "cv_get sx_view 2 = Some sx_producer" "wanted sx_ccfg now sx_rtt sx_producer"
  "\<not> ineligible sx_ccfg now sx_rtt sx_view 2"
  by (simp_all add: sx_view_def wanted_def ineligible_def sx_rtt_def rtt_get_def validate_tickets_def)

theorem consumer_follows_catalog_witness:
  "map_of (cw_active (consumer_catalog_update sx_ccfg 1 sx_rtt sx_view
    (consumer_run sx_env sx_ccfg [] (consumer_new subscribed_conditions) :: (ex_conn, nat, nat) consumer))) 2 \<noteq> None"
  using consumer_follows_catalog [of _ sx_env sx_ccfg "[]" subscribed_conditions _ 1 sx_rtt sx_view, OF refl refl]
  by (metis sx_env_simps(5,10,11) sx_view_simps list.set_intros(1) finsertI1)




lemma sx_spawn_simps [simp]:
  "(receiver_spawn sx_ccfg now e)\<lparr>rc_cancelled := False\<rparr> = receiver_spawn sx_ccfg now e"
  "\<not> rc_cancelled (receiver_spawn sx_ccfg now e)" "rc_connect (receiver_spawn sx_ccfg now e) = Some (ConnectTask False Proceed)"
  "\<not> rc_ended (receiver_spawn sx_ccfg now e)"
  by (simp_all add: receiver_spawn_def receiver_connect_def apply_backoff_def)





end
