(* ===== verification/Hex.thy ===== *)
theory Hex
  imports Prelude
begin

text \<open>
  \<open>primitives/chex.rs\<close>: hexadecimal literals as bytes, and hexadecimal numbers as \<open>format!\<close> prints them.
\<close>

text \<open>A run of zero bytes.\<close>

definition nuls :: "nat \<Rightarrow> string" where
  "nuls n = replicate n (char_of (0 :: nat))"

lemma length_nuls [simp]: "length (nuls n) = n"
  by (simp add: nuls_def)

text \<open>\<open>None\<close> is a failed assertion.\<close>

definition hex_nibble :: "char \<Rightarrow> nat option" where
  "hex_nibble c =
    (let b = of_char c :: nat
     in if 48 \<le> b \<and> b \<le> 57 then Some (b - 48)
        else if 97 \<le> b \<and> b \<le> 102 then Some (b - 97 + 10)
        else if 65 \<le> b \<and> b \<le> 70 then Some (b - 65 + 10)
        else None)"

fun hex_pairs :: "string \<Rightarrow> string option" where
  "hex_pairs (h # l # s) =
    (case (hex_nibble h, hex_nibble l) of
       (Some hi, Some lo) \<Rightarrow> map_option (\<lambda>r. char_of (16 * hi + lo) # r) (hex_pairs s)
     | _ \<Rightarrow> None)"
| "hex_pairs _ = Some []"

definition const_hex :: "nat \<Rightarrow> string \<Rightarrow> string option" where
  "const_hex n s = (if n > 0 \<and> length s = n * 2 then hex_pairs s else None)"

section \<open>Printing\<close>

definition hex_digit :: "nat \<Rightarrow> char" where
  "hex_digit d = (if d < 10 then char_of (48 + d) else char_of (55 + d))"

fun hex_upper :: "nat \<Rightarrow> string" where
  "hex_upper n = (if n < 16 then [hex_digit n] else hex_upper (n div 16) @ [hex_digit (n mod 16)])"

text \<open>The format \<open>{:08X}\<close>: at least eight digits.\<close>

definition format_08X :: "nat \<Rightarrow> string" where
  "format_08X n = replicate (8 - length (hex_upper n)) (CHR ''0'') @ hex_upper n"

section \<open>Reading\<close>

definition hex_step :: "nat option \<Rightarrow> char \<Rightarrow> nat option" where
  "hex_step a c = (case (a, hex_nibble c) of (Some v, Some d) \<Rightarrow> Some (16 * v + d) | _ \<Rightarrow> None)"

definition read_hex :: "string \<Rightarrow> nat option" where
  "read_hex s = foldl hex_step (Some 0) s"

declare hex_upper.simps [simp del]

lemma hex_nibble_digit [simp]: "d < 16 \<Longrightarrow> hex_nibble (hex_digit d) = Some d"
  by (auto simp: hex_nibble_def hex_digit_def Let_def)

lemma read_hex_snoc [simp]: "read_hex (s @ [c]) = hex_step (read_hex s) c"
  by (simp add: read_hex_def)

lemma read_hex_upper [simp]: "read_hex (hex_upper n) = Some n"
proof (induction n rule: hex_upper.induct)
  case (1 n)
  show ?case
  proof (cases "n < 16")
    case True
    then show ?thesis by (simp add: hex_upper.simps read_hex_def hex_step_def)
  next
    case False
    then have "hex_step (Some (n div 16)) (hex_digit (n mod 16)) = Some n" by (simp add: hex_step_def)
    with False 1 show ?thesis by (simp add: hex_upper.simps [of n])
  qed
qed

lemma read_hex_zeros [simp]: "read_hex (replicate k (CHR ''0'') @ s) = read_hex s"
  by (induction k) (simp_all add: read_hex_def hex_step_def hex_nibble_def)

lemma length_hex_upper: "n < 16 ^ k \<Longrightarrow> 0 < k \<Longrightarrow> length (hex_upper n) \<le> k"
proof (induction n arbitrary: k rule: hex_upper.induct)
  case (1 n)
  show ?case
  proof (cases "n < 16")
    case False
    obtain j where k: "k = Suc j" using "1.prems"(2) by (cases k) auto
    then have "0 < j" using False "1.prems"(1) by (cases j) auto
    moreover have "n div 16 < 16 ^ j" using "1.prems"(1) k by (simp add: less_mult_imp_div_less mult.commute)
    ultimately show ?thesis using False "1.IH" [of j] k by (simp add: hex_upper.simps [of n])
  qed (use 1 in \<open>simp add: hex_upper.simps\<close>)
qed

lemma length_format_08X: "n < 2 ^ 32 \<Longrightarrow> length (format_08X n) = 8"
  using length_hex_upper [of n 8] by (simp add: format_08X_def)

lemma read_format_08X [simp]: "read_hex (format_08X n) = Some n"
  by (simp add: format_08X_def)

text \<open>A literal that writes each byte with two digits is read as those bytes.\<close>

definition hex_literal :: "string \<Rightarrow> string" where
  "hex_literal bs = concat (map (\<lambda>b. [hex_digit (of_char b div 16), hex_digit (of_char b mod 16)]) bs)"

lemma const_hex_literal: "bs \<noteq> [] \<Longrightarrow> const_hex (length bs) (hex_literal bs) = Some bs"
proof -
  have "of_char b div 16 < (16 :: nat)" for b by (simp add: less_mult_imp_div_less)
  then have "hex_pairs (hex_literal bs) = Some bs" by (induction bs) (simp_all add: hex_literal_def)
  moreover have "length (hex_literal bs) = length bs * 2" by (induction bs) (simp_all add: hex_literal_def)
  ultimately show "bs \<noteq> [] \<Longrightarrow> const_hex (length bs) (hex_literal bs) = Some bs" by (simp add: const_hex_def)
qed

end
