(* ===== verification/Bytes.thy ===== *)
theory Bytes
  imports Digest Hex "HOL-Library.Monad_Syntax"
begin

text \<open>
  Reading and writing parts of byte strings, with \<open>None\<close> for an access out of range, and prefix codes.
\<close>

section \<open>Slices\<close>

definition sub_bytes :: "string \<Rightarrow> nat \<Rightarrow> nat \<Rightarrow> string option" where
  "sub_bytes s a b = (if a \<le> b \<and> b \<le> length s then Some (take (b - a) (drop a s)) else None)"

text \<open>\<open>copy_from_slice\<close> into the bytes from \<open>a\<close> on.\<close>

definition put_bytes :: "nat \<Rightarrow> string \<Rightarrow> string \<Rightarrow> string option" where
  "put_bytes a b s = (if a + length b \<le> length s then Some (take a s @ b @ drop (a + length b) s) else None)"

text \<open>\<open>from_le_bytes\<close>.\<close>

definition le_value :: "string \<Rightarrow> nat" where
  "le_value s = be_value (rev s)"

definition le_at :: "string \<Rightarrow> nat \<Rightarrow> nat \<Rightarrow> nat option" where
  "le_at s a n = map_option le_value (sub_bytes s a (a + n))"

lemma le_value_le_bytes: "n < 256 ^ k \<Longrightarrow> le_value (le_bytes k n) = n"
  by (simp add: le_value_def le_bytes_def be_value_be_bytes)

lemma be_bytes_0: "be_bytes k 0 = replicate k (char_of (0 :: nat))"
  by (induction k) (auto simp: replicate_append_same)

lemma le_value_nuls [simp]: "le_value (nuls n) = 0"
  using be_value_be_bytes [of n 0] by (simp add: le_value_def nuls_def be_bytes_0)

lemma nuls_parts [simp]: "take k (nuls n) = nuls (min k n)" "drop k (nuls n) = nuls (n - k)"
  by (simp_all add: nuls_def min.commute)

lemma le_value_less: "le_value s < 256 ^ length s"
  using be_value_less [of "rev s"] by (simp add: le_value_def)

lemma slice_middle: "a = length p \<Longrightarrow> b = length p + length x \<Longrightarrow> sub_bytes (p @ x @ r) a b = Some x"
  by (simp add: sub_bytes_def)

lemma le_at_middle: "a = length p \<Longrightarrow> k = length x \<Longrightarrow> le_at (p @ x @ r) a k = Some (le_value x)"
  by (simp add: le_at_def slice_middle)

lemma slice_Some: "sub_bytes s a b = Some x \<longleftrightarrow> a \<le> b \<and> b \<le> length s \<and> x = take (b - a) (drop a s)"
  by (auto simp: sub_bytes_def)

lemma le_at_less: "le_at s a k = Some v \<Longrightarrow> v < 256 ^ k"
proof -
  assume "le_at s a k = Some v"
  then have "v = le_value (take k (drop a s))" "length (take k (drop a s)) = k" by (auto simp: le_at_def slice_Some)
  then show "v < 256 ^ k" using le_value_less [of "take k (drop a s)"] by (simp only:)
qed

text \<open>Slices of a string of which a part was overwritten.\<close>

lemma put_bytes_length: "put_bytes a b s = Some s' \<Longrightarrow> length s' = length s"
  by (auto simp: put_bytes_def split: if_splits)

lemma nth_put_bytes:
  assumes "put_bytes a b s = Some s'" and "i < length s"
  shows "s' ! i = (if a \<le> i \<and> i < a + length b then b ! (i - a) else s ! i)"
  using assms by (auto simp: put_bytes_def nth_append split: if_splits)

lemma slice_cong:
  assumes "length s = length t" and "\<And>i. a \<le> i \<Longrightarrow> i < b \<Longrightarrow> i < length s \<Longrightarrow> s ! i = t ! i"
  shows "sub_bytes s a b = sub_bytes t a b"
  using assms by (auto simp: sub_bytes_def intro!: nth_equalityI)

lemma slice_put_other:
  assumes "put_bytes a b s = Some s'" and "y \<le> a \<or> a + length b \<le> x"
  shows "sub_bytes s' x y = sub_bytes s x y"
  using assms by (intro slice_cong) (auto simp: put_bytes_length nth_put_bytes)

lemma le_at_put_other:
  assumes "put_bytes a b s = Some s'" and "x + n \<le> a \<or> a + length b \<le> x"
  shows "le_at s' x n = le_at s x n"
  using assms by (simp add: le_at_def slice_put_other)

lemma slice_put_same: "put_bytes a b s = Some s' \<Longrightarrow> sub_bytes s' a (a + length b) = Some b"
  by (auto simp: put_bytes_def sub_bytes_def split: if_splits)

lemma le_at_put_same: "put_bytes a (le_bytes k n) s = Some s' \<Longrightarrow> n < 256 ^ k \<Longrightarrow> le_at s' a k = Some n"
  using slice_put_same [of a "le_bytes k n" s s'] by (simp add: le_at_def le_value_le_bytes)

section \<open>Prefix codes\<close>

text \<open>
  A code in which no code word begins another one and none is empty: the concatenation of code words
  determines what was encoded.
\<close>

locale prefix_code =
  fixes code :: "'a \<Rightarrow> 'b list" and valid :: "'a \<Rightarrow> bool"
  assumes prefix_free: "valid x \<Longrightarrow> valid y \<Longrightarrow> code x @ r = code y @ s \<Longrightarrow> x = y"
    and nonempty: "valid x \<Longrightarrow> code x \<noteq> []"
begin

lemma concat_inj:
  assumes "list_all valid xs" and "list_all valid ys" and "concat (map code xs) = concat (map code ys)"
  shows "xs = ys"
  using assms
proof (induction xs arbitrary: ys)
  case Nil
  then show ?case using nonempty by (cases ys) auto
next
  case (Cons x xs)
  then obtain y ys' where ys: "ys = y # ys'" using nonempty [of x] by (cases ys) auto
  then have "x = y" using Cons.prems prefix_free [of x y "concat (map code xs)" "concat (map code ys')"] by simp
  then show ?case using Cons ys by simp
qed

text \<open>What follows a sequence of code words is determined once their number is known.\<close>

lemma concat_prefix:
  assumes "list_all valid xs" and "list_all valid ys" and "length xs = length ys"
    and "concat (map code xs) @ r = concat (map code ys) @ s"
  shows "xs = ys \<and> r = s"
  using assms(3,1,2,4)
proof (induction xs ys rule: list_induct2)
  case (Cons x xs y ys)
  then have "x = y" using prefix_free [of x y "concat (map code xs) @ r" "concat (map code ys) @ s"] by simp
  then show ?case using Cons by simp
qed simp

end

end
