(* ===== verification/Tdx_Ticket.thy ===== *)
theory Tdx_Ticket
  imports Bytes Discovery
begin

text \<open>
  \<open>tee/tdx/measure.rs\<close>, \<open>ticket.rs\<close>, \<open>validator.rs\<close>, \<open>local.rs\<close>: tickets that carry a quote of the TDX hardware,
  which binds measurements of the machine to the identity of a peer.

  The quote library, the hardware, the codec and the compression are the record \<open>tdx_env\<close>; the identifiers
  that macros compute from fixed strings are constants of it. Measurements are strings of 48 bytes,
  times integers in nanoseconds, durations natural numbers in nanoseconds.
\<close>

section \<open>Measurements\<close>

type_synonym measurement = string

definition measurement_hex :: "string \<Rightarrow> measurement option" where
  "measurement_hex s = const_hex 48 s"

text \<open>\<open>FromStr\<close> decodes with the \<open>hex\<close> crate; \<open>None\<close> is an error.\<close>

definition measurement_from_str :: "(string \<Rightarrow> string option) \<Rightarrow> string \<Rightarrow> measurement option" where
  "measurement_from_str hex_decode s = Option.bind (hex_decode s) (\<lambda>b. if length b \<noteq> 48 then None else Some b)"

record measurements =
  ms_mrtd :: measurement
  ms_rtmr :: "measurement list"

record tdx_criteria =
  tc_mrtd :: "measurement option"
  tc_rtmr :: "measurement option list"

definition criteria_new :: tdx_criteria where
  "criteria_new = \<lparr>tc_mrtd = None, tc_rtmr = [None, None, None, None]\<rparr>"

definition criteria_require_mrtd :: "measurement \<Rightarrow> tdx_criteria \<Rightarrow> tdx_criteria" where
  "criteria_require_mrtd m c = c\<lparr>tc_mrtd := Some m\<rparr>"

text \<open>\<open>require_rtmr0\<close> to \<open>require_rtmr3\<close>.\<close>

definition criteria_require_rtmr :: "nat \<Rightarrow> measurement \<Rightarrow> tdx_criteria \<Rightarrow> tdx_criteria" where
  "criteria_require_rtmr i m c = c\<lparr>tc_rtmr := (tc_rtmr c)[i := Some m]\<rparr>"

definition criteria_of :: "measurements \<Rightarrow> tdx_criteria" where
  "criteria_of m =
    criteria_require_rtmr 3 (ms_rtmr m ! 3) (criteria_require_rtmr 2 (ms_rtmr m ! 2) (criteria_require_rtmr 1 (ms_rtmr m ! 1)
      (criteria_require_rtmr 0 (ms_rtmr m ! 0) (criteria_require_mrtd (ms_mrtd m) criteria_new))))"

definition required :: "measurement option \<Rightarrow> measurement \<Rightarrow> bool" where
  "required expected m = (case expected of None \<Rightarrow> True | Some e \<Rightarrow> m = e)"

definition tdx_matches :: "tdx_criteria \<Rightarrow> measurements \<Rightarrow> bool" where
  "tdx_matches c m \<longleftrightarrow>
    required (tc_mrtd c) (ms_mrtd m) \<and> list_all (\<lambda>i. required (tc_rtmr c ! i) (ms_rtmr m ! i)) [0..<4]"

section \<open>Environment\<close>

record extra_data =
  xd_peer_id :: peer_id
  xd_network_id :: unique_id
  xd_started_at :: int
  xd_quoted_at :: int
  xd_expiration :: expiration

record 'q tdx_env =
  td_hash :: hash_fun
  td_class :: unique_id
  td_criteria_id :: unique_id
  td_extra_id :: unique_id
  td_quote_from_bytes :: "string \<Rightarrow> 'q option"
  td_report_data :: "'q \<Rightarrow> string"
  td_measurements :: "'q \<Rightarrow> measurements"
  td_create_quote :: "string \<Rightarrow> string option"
  td_serialize :: "string \<times> extra_data \<Rightarrow> string option"
  td_deserialize :: "string \<Rightarrow> (string \<times> extra_data) option"
  td_compress :: "string \<Rightarrow> string option"
  td_decompress :: "nat \<Rightarrow> string \<Rightarrow> string option"

definition max_ticket_size :: nat where
  "max_ticket_size = 64 * 1024"

text \<open>A chain of \<open>derive\<close>s.\<close>

definition derive_bytes :: "hash_fun \<Rightarrow> unique_id \<Rightarrow> string list \<Rightarrow> unique_id" where
  "derive_bytes hash d infos = foldl (digest_derive hash) d infos"

definition fill :: "nat \<Rightarrow> nat \<Rightarrow> string" where
  "fill n b = replicate n (char_of b)"

definition criteria_signature :: "'q tdx_env \<Rightarrow> tdx_criteria \<Rightarrow> unique_id" where
  "criteria_signature env c =
    derive_bytes (td_hash env) (td_criteria_id env)
      [case tc_mrtd c of None \<Rightarrow> fill 48 9 | Some m \<Rightarrow> m, case tc_rtmr c ! 0 of None \<Rightarrow> fill 48 1 | Some m \<Rightarrow> m,
       case tc_rtmr c ! 1 of None \<Rightarrow> fill 48 2 | Some m \<Rightarrow> m, case tc_rtmr c ! 2 of None \<Rightarrow> fill 48 3 | Some m \<Rightarrow> m,
       case tc_rtmr c ! 3 of None \<Rightarrow> fill 48 4 | Some m \<Rightarrow> m]"

section \<open>Tickets\<close>

definition unix_secs :: "int \<Rightarrow> int" where
  "unix_secs t = t div 1000000000"

definition extra_parts :: "extra_data \<Rightarrow> string list" where
  "extra_parts x =
    [as_bytes (xd_peer_id x), as_bytes (xd_network_id x), signed_le_bytes 8 (unix_secs (xd_started_at x)),
     signed_le_bytes 8 (unix_secs (xd_quoted_at x)),
     case xd_expiration x of Never \<Rightarrow> fill 8 0 | At t \<Rightarrow> signed_le_bytes 8 (unix_secs t)]"

definition extra_signature :: "'q tdx_env \<Rightarrow> extra_data \<Rightarrow> unique_id" where
  "extra_signature env x = derive_bytes (td_hash env) (td_extra_id env) (extra_parts x)"

datatype tdx_ticket_error = InvalidFormat | QuoteVerificationFailed | TicketExpired | InvalidReportData | InvalidTicketType

record 'q tdx_ticket =
  tt_quote_bytes :: string
  tt_extra :: extra_data
  tt_quote :: 'q

definition verify_quote :: "'q tdx_env \<Rightarrow> string \<Rightarrow> extra_data \<Rightarrow> tdx_ticket_error + 'q" where
  "verify_quote env bytes x =
    (case td_quote_from_bytes env bytes of
       None \<Rightarrow> Inl QuoteVerificationFailed
     | Some q \<Rightarrow> if take 32 (td_report_data env q) \<noteq> as_bytes (extra_signature env x) then Inl InvalidReportData else Inr q)"

text \<open>\<open>TdxTicket::new\<close>, also the last step of deserialisation.\<close>

definition tdx_ticket_new :: "'q tdx_env \<Rightarrow> string \<Rightarrow> extra_data \<Rightarrow> tdx_ticket_error + 'q tdx_ticket" where
  "tdx_ticket_new env bytes x =
    (case verify_quote env bytes x of
       Inl e \<Rightarrow> Inl e
     | Inr q \<Rightarrow> Inr \<lparr>tt_quote_bytes = bytes, tt_extra = x, tt_quote = q\<rparr>)"

definition tdx_measurements :: "'q tdx_env \<Rightarrow> 'q tdx_ticket \<Rightarrow> measurements" where
  "tdx_measurements env t = td_measurements env (tt_quote t)"

definition ticket_of_tdx :: "'q tdx_env \<Rightarrow> 'q tdx_ticket \<Rightarrow> tdx_ticket_error + ticket" where
  "ticket_of_tdx env t =
    (case td_serialize env (tt_quote_bytes t, tt_extra t) of
       None \<Rightarrow> Inl QuoteVerificationFailed
     | Some s \<Rightarrow>
         (case td_compress env s of
            None \<Rightarrow> Inl InvalidFormat
          | Some z \<Rightarrow> Inr \<lparr>tk_class = td_class env, tk_data = z\<rparr>))"

definition tdx_of_bytes :: "'q tdx_env \<Rightarrow> string \<Rightarrow> tdx_ticket_error + 'q tdx_ticket" where
  "tdx_of_bytes env bytes =
    (case Option.bind (td_decompress env max_ticket_size bytes) (td_deserialize env) of
       None \<Rightarrow> Inl InvalidFormat
     | Some (quote, x) \<Rightarrow> (case tdx_ticket_new env quote x of Inl _ \<Rightarrow> Inl InvalidFormat | Inr t \<Rightarrow> Inr t))"

definition tdx_of_ticket :: "'q tdx_env \<Rightarrow> ticket \<Rightarrow> tdx_ticket_error + 'q tdx_ticket" where
  "tdx_of_ticket env t = (if tk_class t \<noteq> td_class env then Inl InvalidTicketType else tdx_of_bytes env (tk_data t))"

section \<open>The local machine\<close>

datatype tdx_error = QuoteGenerationError | QuoteParseError | TicketError tdx_ticket_error | ExpirationInThePast

definition measurements_local :: "'q tdx_env \<Rightarrow> tdx_error + measurements" where
  "measurements_local env =
    (case td_create_quote env (fill 64 0) of
       None \<Rightarrow> Inl QuoteGenerationError
     | Some b \<Rightarrow> (case td_quote_from_bytes env b of None \<Rightarrow> Inl QuoteParseError | Some q \<Rightarrow> Inr (td_measurements env q)))"

definition report_data :: "'q tdx_env \<Rightarrow> extra_data \<Rightarrow> string" where
  "report_data env x = as_bytes (extra_signature env x) @ fill 32 0"

text \<open>The reading of the clock for the expiration and the one for the quote are two arguments.\<close>

definition ticket_with_expiration ::
  "'q tdx_env \<Rightarrow> int \<Rightarrow> int \<Rightarrow> peer_id \<Rightarrow> unique_id \<Rightarrow> int \<Rightarrow> expiration \<Rightarrow> tdx_error + ticket" where
  "ticket_with_expiration env now now' local_id network started expiration =
    (if exp_is_expired now expiration then Inl ExpirationInThePast
     else
       (let x = \<lparr>xd_peer_id = local_id, xd_network_id = network, xd_started_at = started, xd_quoted_at = now', xd_expiration = expiration\<rparr>
        in case td_create_quote env (report_data env x) of
             None \<Rightarrow> Inl QuoteGenerationError
           | Some b \<Rightarrow>
               (case tdx_ticket_new env b x of
                  Inl e \<Rightarrow> Inl (TicketError e)
                | Inr t \<Rightarrow> (case ticket_of_tdx env t of Inl e \<Rightarrow> Inl (TicketError e) | Inr tk \<Rightarrow> Inr tk))))"

definition tdx_ticket_never :: "'q tdx_env \<Rightarrow> int \<Rightarrow> int \<Rightarrow> peer_id \<Rightarrow> unique_id \<Rightarrow> int \<Rightarrow> tdx_error + ticket" where
  "tdx_ticket_never env now now' local_id network started = ticket_with_expiration env now now' local_id network started Never"

definition tdx_available :: "'q tdx_env \<Rightarrow> bool" where
  "tdx_available env = (case measurements_local env of Inl _ \<Rightarrow> False | Inr _ \<Rightarrow> True)"

text \<open>The entry is the one of the local peer in the catalog; the two updates are applied one after the other.\<close>

definition install_own_ticket ::
  "'q tdx_env \<Rightarrow> ('a, 'k, 'g) disc_env \<Rightarrow> int \<Rightarrow> int \<Rightarrow> int \<Rightarrow> 'a peer_entry \<Rightarrow> tdx_error + 'a peer_entry" where
  "install_own_ticket env denv now now' now_ms e =
    (case tdx_ticket_never env now now' (pe_id e) (pe_network e) (started_at denv e) of
       Inl err \<Rightarrow> Inl err
     | Inr t \<Rightarrow> Inr (add_ticket denv now_ms t (remove_tickets_of now_ms (tk_class t) e)))"

section \<open>The validator\<close>

record tdx =
  tx_baseline :: tdx_criteria
  tx_any :: "tdx_criteria list"
  tx_max_age :: "nat option"
  tx_not_before :: "int option"
  tx_max_lifetime :: "nat option"

definition tdx_baseline :: "tdx_criteria \<Rightarrow> tdx" where
  "tdx_baseline c = \<lparr>tx_baseline = c, tx_any = [], tx_max_age = None, tx_not_before = None, tx_max_lifetime = None\<rparr>"

definition tdx_new :: tdx where
  "tdx_new = tdx_baseline criteria_new"

definition tdx_require_mrtd :: "measurement \<Rightarrow> tdx \<Rightarrow> tdx" where
  "tdx_require_mrtd m v = v\<lparr>tx_baseline := criteria_require_mrtd m (tx_baseline v)\<rparr>"

definition tdx_require_rtmr :: "nat \<Rightarrow> measurement \<Rightarrow> tdx \<Rightarrow> tdx" where
  "tdx_require_rtmr i m v = v\<lparr>tx_baseline := criteria_require_rtmr i m (tx_baseline v)\<rparr>"

definition tdx_from_local :: "'q tdx_env \<Rightarrow> tdx_error + tdx" where
  "tdx_from_local env = map_sum id (\<lambda>m. tdx_baseline (criteria_of m)) (measurements_local env)"

text \<open>\<open>require_own_mrtd\<close>, and \<open>require_own_rtmr0\<close> to \<open>require_own_rtmr3\<close>.\<close>

definition tdx_require_own_mrtd :: "'q tdx_env \<Rightarrow> tdx \<Rightarrow> tdx_error + tdx" where
  "tdx_require_own_mrtd env v = map_sum id (\<lambda>m. tdx_require_mrtd (ms_mrtd m) v) (measurements_local env)"

definition tdx_require_own_rtmr :: "'q tdx_env \<Rightarrow> nat \<Rightarrow> tdx \<Rightarrow> tdx_error + tdx" where
  "tdx_require_own_rtmr env i v = map_sum id (\<lambda>m. tdx_require_rtmr i (ms_rtmr m ! i) v) (measurements_local env)"

definition tdx_max_age :: "nat \<Rightarrow> tdx \<Rightarrow> tdx" where
  "tdx_max_age d v = v\<lparr>tx_max_age := Some d\<rparr>"

definition tdx_not_before :: "int \<Rightarrow> tdx \<Rightarrow> tdx" where
  "tdx_not_before t v = v\<lparr>tx_not_before := Some t\<rparr>"

definition tdx_max_lifetime :: "nat \<Rightarrow> tdx \<Rightarrow> tdx" where
  "tdx_max_lifetime d v = v\<lparr>tx_max_lifetime := Some d\<rparr>"

definition allow_variant :: "tdx_criteria \<Rightarrow> tdx \<Rightarrow> tdx" where
  "allow_variant c v = v\<lparr>tx_any := tx_any v @ [c]\<rparr>"

definition duration_secs :: "nat \<Rightarrow> nat" where
  "duration_secs d = d div 1000000000"

definition tdx_signature :: "'q tdx_env \<Rightarrow> tdx \<Rightarrow> unique_id" where
  "tdx_signature env v =
    derive_bytes (td_hash env) (td_class env)
      (as_bytes (criteria_signature env (tx_baseline v)) # map (as_bytes \<circ> criteria_signature env) (tx_any v) @
       [case tx_max_age v of None \<Rightarrow> fill 8 0 | Some d \<Rightarrow> le_bytes 8 (duration_secs d),
        case tx_not_before v of None \<Rightarrow> fill 8 0 | Some t \<Rightarrow> signed_le_bytes 8 (unix_secs t),
        case tx_max_lifetime v of None \<Rightarrow> fill 8 0 | Some d \<Rightarrow> le_bytes 8 (duration_secs d)])"

text \<open>\<open>to_std().unwrap_or(Duration::MAX)\<close>.\<close>

definition duration_max :: nat where
  "duration_max = (2 ^ 64 - 1) * 1000000000 + 999999999"

definition to_std_or_max :: "int \<Rightarrow> nat" where
  "to_std_or_max d = (if d < 0 then duration_max else nat d)"

definition tdx_validate :: "'q tdx_env \<Rightarrow> int \<Rightarrow> tdx \<Rightarrow> string \<Rightarrow> 'a peer_entry \<Rightarrow> expiration option" where
  "tdx_validate env now v bytes peer =
    (case tdx_of_bytes env bytes of
       Inl _ \<Rightarrow> None
     | Inr t \<Rightarrow>
         (let m = tdx_measurements env t; x = tt_extra t in
          if \<not> tdx_matches (tx_baseline v) m then None
          else if tx_any v \<noteq> [] \<and> \<not> list_ex (\<lambda>c. tdx_matches c m) (tx_any v) then None
          else if xd_peer_id x \<noteq> pe_id peer then None
          else if xd_network_id x \<noteq> pe_network peer then None
          else if (case tx_max_age v of None \<Rightarrow> False | Some a \<Rightarrow> to_std_or_max (now - xd_quoted_at x) > a) then None
          else if (case tx_not_before v of None \<Rightarrow> False | Some t0 \<Rightarrow> xd_quoted_at x < t0) then None
          else if (case tx_max_lifetime v of
                     None \<Rightarrow> False
                   | Some l \<Rightarrow> (case xd_expiration x of Never \<Rightarrow> True | At e \<Rightarrow> to_std_or_max (e - xd_quoted_at x) > l)) then None
          else if exp_is_expired now (xd_expiration x) then None
          else Some (xd_expiration x)))"

definition tdx_validator :: "'q tdx_env \<Rightarrow> int \<Rightarrow> tdx \<Rightarrow> 'a peer_entry ticket_validator" where
  "tdx_validator env now v = \<lparr>tv_class = td_class env, tv_validate = tdx_validate env now v\<rparr>"

section \<open>What a quote binds\<close>

text \<open>The byte strings that are hashed along a chain.\<close>

fun derive_inputs :: "hash_fun \<Rightarrow> unique_id \<Rightarrow> string list \<Rightarrow> string list" where
  "derive_inputs hash d [] = []"
| "derive_inputs hash d (i # is) = (as_bytes d @ i) # derive_inputs hash (digest_derive hash d i) is"

lemma derive_bytes_simps [simp]:
  "derive_bytes hash d [] = d" "derive_bytes hash d (i # is) = derive_bytes hash (digest_derive hash d i) is"
  by (simp_all add: derive_bytes_def)

lemma derive_bytes_snoc: "derive_bytes hash d (is @ [i]) = digest_derive hash (derive_bytes hash d is) i"
  by (simp add: derive_bytes_def)

lemma derive_inputs_snoc: "derive_inputs hash d (is @ [i]) = derive_inputs hash d is @ [as_bytes (derive_bytes hash d is) @ i]"
  by (induction "is" arbitrary: d) auto

lemma derive_bytes_ok: "(\<And>s. digest_ok (hash s)) \<Longrightarrow> digest_ok d \<Longrightarrow> digest_ok (derive_bytes hash d is)"
  by (induction "is" arbitrary: d) (auto simp: digest_derive_def)

lemma derive_bytes_inj:
  assumes "\<And>s. digest_ok (hash s)" and "digest_ok d" and "length xs = length ys"
    and "inj_on hash (set (derive_inputs hash d xs) \<union> set (derive_inputs hash d ys))"
    and "derive_bytes hash d xs = derive_bytes hash d ys"
  shows "xs = ys"
  using assms(3-)
proof (induction xs arbitrary: ys rule: rev_induct)
  case (snoc x xs)
  obtain ys' y where ys: "ys = ys' @ [y]" and len: "length xs = length ys'"
    using snoc.prems(1) by (cases ys rule: rev_cases) auto
  have "derive_bytes hash d xs = derive_bytes hash d ys' \<and> x = y"
  proof (rule derive_eqD)
    show "digest_derive hash (derive_bytes hash d xs) x = digest_derive hash (derive_bytes hash d ys') y"
      using snoc.prems(3) by (simp add: ys derive_bytes_snoc)
    show "inj_on hash {as_bytes (derive_bytes hash d xs) @ x, as_bytes (derive_bytes hash d ys') @ y}"
      by (rule inj_on_subset [OF snoc.prems(2)]) (auto simp: ys derive_inputs_snoc)
  qed (simp_all add: derive_bytes_ok assms(1,2))
  moreover have "xs = ys'"
    by (rule snoc.IH [OF len inj_on_subset [OF snoc.prems(2)]])
      (use calculation ys in \<open>auto simp: derive_inputs_snoc\<close>)
  ultimately show ?case using ys by simp
qed simp

definition extra_ok :: "extra_data \<Rightarrow> bool" where
  "extra_ok x \<longleftrightarrow> digest_ok (xd_peer_id x) \<and> digest_ok (xd_network_id x)"

definition exp_secs :: "expiration \<Rightarrow> int" where
  "exp_secs e = (case e of Never \<Rightarrow> 0 | At t \<Rightarrow> unix_secs t)"

definition secs_ok :: "int \<Rightarrow> bool" where
  "secs_ok n \<longleftrightarrow> - (2 ^ 63) \<le> n \<and> n < 2 ^ 63"

lemma signed_residue_inj:
  fixes a b m :: int
  assumes "- m \<le> a" "a < m" "- m \<le> b" "b < m" and "a mod (2 * m) = b mod (2 * m)"
  shows "a = b"
proof -
  have "2 * m dvd a - b" using assms(5) by (simp add: mod_eq_dvd_iff)
  then obtain k where k: "a - b = 2 * m * k" by (elim dvdE)
  have "0 < m" using assms by simp
  have "\<bar>2 * m * k\<bar> < 2 * m" using assms by (simp flip: k)
  then have "2 * m * \<bar>k\<bar> < 2 * m * 1" using \<open>0 < m\<close> by (simp add: abs_mult)
  then have "\<bar>k\<bar> < 1" using \<open>0 < m\<close> by (simp only: mult_less_cancel_left_pos)
  then show ?thesis using k by simp
qed

lemma signed_le_bytes_inj:
  assumes "secs_ok a" and "secs_ok b" and "signed_le_bytes 8 a = signed_le_bytes 8 b"
  shows "a = b"
proof -
  have less: "nat (n mod 256 ^ 8) < 256 ^ 8" for n :: int by (simp add: nat_less_iff)
  have "nat (a mod 256 ^ 8) = nat (b mod 256 ^ 8)"
    using assms(3) be_bytes_inj [OF less less, of a b] by (simp only: signed_le_bytes_def le_bytes_def rev_is_rev_conv)
  moreover have nonneg: "0 \<le> n mod 256 ^ 8" for n :: int by simp
  ultimately have "a mod 256 ^ 8 = b mod 256 ^ 8" using eq_nat_nat_iff [OF nonneg nonneg] by (simp only:)
  moreover have "(256 :: int) ^ 8 = 2 * 2 ^ 63" by simp
  ultimately have "a mod (2 * 2 ^ 63) = b mod (2 * 2 ^ 63)" by (simp only:)
  then show ?thesis using assms(1,2) unfolding secs_ok_def by (elim conjE) (rule signed_residue_inj)
qed

lemma exp_part: "(case e of Never \<Rightarrow> fill 8 0 | At t \<Rightarrow> signed_le_bytes 8 (unix_secs t)) = signed_le_bytes 8 (exp_secs e)"
proof -
  have "fill 8 0 = signed_le_bytes 8 0"
    by (simp only: fill_def signed_le_bytes_def le_bytes_def be_bytes_0 rev_replicate mod_0 nat_0)
  then show ?thesis by (cases e) (simp_all only: exp_secs_def expiration.case)
qed

lemma extra_signature_binds:
  assumes "\<And>s. digest_ok (td_hash env s)" and "digest_ok (td_extra_id env)" and "extra_ok x" and "extra_ok y"
    and "inj_on (td_hash env) (set (derive_inputs (td_hash env) (td_extra_id env) (extra_parts x)) \<union>
      set (derive_inputs (td_hash env) (td_extra_id env) (extra_parts y)))"
    and "extra_signature env x = extra_signature env y"
    and "list_all secs_ok [unix_secs (xd_started_at x), unix_secs (xd_quoted_at x), exp_secs (xd_expiration x),
      unix_secs (xd_started_at y), unix_secs (xd_quoted_at y), exp_secs (xd_expiration y)]"
  shows "xd_peer_id x = xd_peer_id y \<and> xd_network_id x = xd_network_id y \<and> unix_secs (xd_quoted_at x) = unix_secs (xd_quoted_at y) \<and>
    unix_secs (xd_started_at x) = unix_secs (xd_started_at y) \<and> exp_secs (xd_expiration x) = exp_secs (xd_expiration y)"
proof -
  have "extra_parts x = extra_parts y"
    by (rule derive_bytes_inj [OF assms(1,2) _ assms(5)]) (use assms(6) in \<open>simp_all add: extra_signature_def extra_parts_def\<close>)
  then show ?thesis
    using assms(3,4,7) by (auto simp: extra_parts_def exp_part extra_ok_def as_bytes_inj signed_le_bytes_inj)
qed

lemma tdx_of_bytes_Inr:
  "tdx_of_bytes env b = Inr t \<longleftrightarrow>
    (\<exists>z. td_decompress env max_ticket_size b = Some z \<and> td_deserialize env z = Some (tt_quote_bytes t, tt_extra t)) \<and>
    td_quote_from_bytes env (tt_quote_bytes t) = Some (tt_quote t) \<and>
    take 32 (td_report_data env (tt_quote t)) = as_bytes (extra_signature env (tt_extra t))"
  by (cases t) (auto simp: tdx_of_bytes_def tdx_ticket_new_def verify_quote_def bind_eq_Some_conv split: option.splits sum.splits prod.splits)

end
