(* ===== verification/Tdx_Properties.thy ===== *)
theory Tdx_Properties
  imports Tdx_Ticket
begin

text \<open>
  What tickets with a quote of the hardware guarantee: a peer that attests itself is accepted, a quote
  cannot be presented by another peer, and where two different validators have the same signature.
\<close>

section \<open>What is relied on\<close>

text \<open>The codec and the compression give back what they were given, up to the size that is decompressed.\<close>

definition tdx_codec_ok :: "'q tdx_env \<Rightarrow> bool" where
  "tdx_codec_ok env \<longleftrightarrow>
    (\<forall>p s z. td_serialize env p = Some s \<longrightarrow> td_compress env s = Some z \<longrightarrow>
      td_deserialize env s = Some p \<and> (length s \<le> max_ticket_size \<longrightarrow> td_decompress env max_ticket_size z = Some s))"

text \<open>A machine with measurements \<open>m\<close>: its quotes can be parsed and carry the report data they were asked for.\<close>

definition tdx_machine :: "'q tdx_env \<Rightarrow> measurements \<Rightarrow> bool" where
  "tdx_machine env m \<longleftrightarrow>
    (\<forall>r b. td_create_quote env r = Some b \<longrightarrow>
      (\<exists>q. td_quote_from_bytes env b = Some q \<and> td_report_data env q = r \<and> td_measurements env q = m))"

section \<open>Criteria\<close>

lemma matches_criteria_of:
  assumes "length (ms_rtmr m) = 4" and "length (ms_rtmr m') = 4"
  shows "tdx_matches (criteria_of m) m' \<longleftrightarrow> m' = m"
proof -
  have "list_all (\<lambda>i. ms_rtmr m' ! i = ms_rtmr m ! i) [0..<4] \<longleftrightarrow> ms_rtmr m' = ms_rtmr m"
    using assms by (auto simp: list_all_iff list_eq_iff_nth_eq)
  then show ?thesis
    by (cases m; cases m') (auto simp: tdx_matches_def criteria_of_def criteria_require_mrtd_def criteria_require_rtmr_def
        criteria_new_def required_def eval_nat_numeral)
qed

lemma from_local_matches:
  assumes "tdx_machine env m" and "tdx_from_local env = Inr v"
  shows "v = tdx_baseline (criteria_of m)"
  using assms by (auto simp: tdx_from_local_def measurements_local_def tdx_machine_def split: option.splits) fastforce

section \<open>Tickets of the own machine\<close>

lemma issued_ticket:
  assumes "tdx_codec_ok env" and "tdx_machine env m"
    and "ticket_with_expiration env now now' i n started x = Inr tk"
    and "\<And>r b x s. td_create_quote env r = Some b \<Longrightarrow> td_serialize env (b, x) = Some s \<Longrightarrow> length s \<le> max_ticket_size"
  obtains t where "tk_class tk = td_class env" "tdx_of_bytes env (tk_data tk) = Inr t" "tdx_measurements env t = m"
    "tt_extra t = \<lparr>xd_peer_id = i, xd_network_id = n, xd_started_at = started, xd_quoted_at = now', xd_expiration = x\<rparr>"
proof -
  let ?x = "\<lparr>xd_peer_id = i, xd_network_id = n, xd_started_at = started, xd_quoted_at = now', xd_expiration = x\<rparr>"
  from assms(3) obtain b t s z where b: "td_create_quote env (report_data env ?x) = Some b"
    and t: "tdx_ticket_new env b ?x = Inr t" and s: "td_serialize env (tt_quote_bytes t, tt_extra t) = Some s"
    and z: "td_compress env s = Some z" and tk: "tk = \<lparr>tk_class = td_class env, tk_data = z\<rparr>"
    by (auto simp: ticket_with_expiration_def ticket_of_tdx_def Let_def split: if_splits option.splits sum.splits)
  obtain q where q: "td_quote_from_bytes env b = Some q" "td_report_data env q = report_data env ?x" "td_measurements env q = m"
    using assms(2) b by (auto simp: tdx_machine_def)
  have t': "t = \<lparr>tt_quote_bytes = b, tt_extra = ?x, tt_quote = q\<rparr>"
    using t q by (auto simp: tdx_ticket_new_def verify_quote_def split: if_splits)
  have "tdx_of_bytes env z = Inr t"
    using assms(1) s z assms(4) [OF b] q by (auto simp: tdx_of_bytes_Inr tdx_codec_ok_def t' report_data_def)
  then show thesis using q by (intro that [of t]) (simp_all add: tk t' tdx_measurements_def)
qed

text \<open>After its tickets were replaced, a peer has the new ticket as the only one of its class.\<close>

lemma validate_replaced:
  assumes "tv_class v = tk_class t"
  shows "validate_ticket v (replace_ticket denv now t e) = tv_validate v (tk_data t) (replace_ticket denv now t e)"
proof -
  let ?e = "replace_ticket denv now t e" and ?old = "filter (\<lambda>(_, u). tk_class u \<noteq> tk_class t) (pe_tickets e)"
  have "pe_tickets ?e = btree_insert (ticket_id (de_derive denv) t) t ?old"
    by (simp add: replace_ticket_def add_ticket_def remove_tickets_of_def bump_if_def increment_version_def Let_def)
  then have "t \<in> snd ` set (pe_tickets ?e)" "snd ` set (pe_tickets ?e) \<subseteq> insert t (snd ` set ?old)"
    using btree_insert_values by (metis, metis)
  then have "set (tickets_of (tk_class t) ?e) = {t}" by (fastforce simp: tickets_of_def)
  then have "validate_ticket v ?e = Some x \<longleftrightarrow> tv_validate v (tk_data t) ?e = Some x" for x
    by (auto simp: validate_ticket_eq assms)
  then show ?thesis by (metis not_Some_eq)
qed

lemma replace_ticket_keeps [simp]:
  "pe_id (replace_ticket denv now t e) = pe_id e" "pe_network (replace_ticket denv now t e) = pe_network e"
  by (simp_all add: replace_ticket_def add_ticket_def remove_tickets_of_def bump_if_def increment_version_def Let_def)

lemma install_is_replace:
  "install_own_ticket env denv now now' now_ms e =
    map_sum id (\<lambda>t. replace_ticket denv now_ms t e) (tdx_ticket_never env now now' (pe_id e) (pe_network e) (started_at denv e))"
  by (simp add: install_own_ticket_def replace_ticket_def split: sum.splits)

section \<open>Example\<close>

text \<open>A machine whose quotes are the report data, and a hash that counts.\<close>

definition ex_count_hash :: hash_fun where
  "ex_count_hash s = (be_value (take 32 s) + 1) mod 256 ^ 32"

lemma ex_count_hash_ok [simp]: "digest_ok (ex_count_hash s)"
  by (simp add: ex_count_hash_def digest_ok_def)

lemma ex_count_hash_as_bytes [simp]: "d < 1000 \<Longrightarrow> ex_count_hash (as_bytes d @ i) = d + 1"
  using from_bytes_as_bytes [of d] by (simp add: ex_count_hash_def from_bytes_def digest_ok_def)

definition ex_measurements :: measurements where
  "ex_measurements = \<lparr>ms_mrtd = ''m'', ms_rtmr = [''r0'', ''r1'', ''r2'', ''r3'']\<rparr>"

definition ex_extra :: extra_data where
  "ex_extra = \<lparr>xd_peer_id = 3, xd_network_id = 4, xd_started_at = 1000000, xd_quoted_at = 5000000000, xd_expiration = Never\<rparr>"

text \<open>The quote for \<open>ex_extra\<close>: the fifth count, padded.\<close>

definition ex_quote :: string where
  "ex_quote = as_bytes 5 @ fill 32 0"

definition ex_tdx :: "string tdx_env" where
  "ex_tdx =
    \<lparr>td_hash = ex_count_hash, td_class = 8, td_criteria_id = 0, td_extra_id = 0, td_quote_from_bytes = Some, td_report_data = id,
     td_measurements = \<lambda>_. ex_measurements, td_create_quote = Some,
     td_serialize = \<lambda>p. if p = (ex_quote, ex_extra) then Some ''s'' else None, td_deserialize = \<lambda>_. Some (ex_quote, ex_extra),
     td_compress = Some, td_decompress = \<lambda>n s. if length s \<le> n then Some s else None\<rparr>"

lemma ex_tdx_simps [simp]:
  "td_hash ex_tdx = ex_count_hash" "td_class ex_tdx = 8" "td_extra_id ex_tdx = 0" "td_quote_from_bytes ex_tdx = Some"
  "td_report_data ex_tdx = id" "td_measurements ex_tdx q = ex_measurements" "td_create_quote ex_tdx = Some"
  "td_serialize ex_tdx p = (if p = (ex_quote, ex_extra) then Some ''s'' else None)"
  "td_deserialize ex_tdx b = Some (ex_quote, ex_extra)" "td_compress ex_tdx = Some"
  "td_decompress ex_tdx n b = (if length b \<le> n then Some b else None)"
  by (simp_all add: ex_tdx_def)

lemma ex_tdx_ok: "tdx_codec_ok ex_tdx" "tdx_machine ex_tdx ex_measurements" "length (ms_rtmr ex_measurements) = 4"
  by (auto simp: tdx_codec_ok_def tdx_machine_def ex_measurements_def split: if_splits)

lemma ex_signature: "extra_signature ex_tdx ex_extra = 5"
  by (simp add: extra_signature_def extra_parts_def digest_derive_def)

definition ex_tdx_entry :: "nat peer_entry" where
  "ex_tdx_entry =
    \<lparr>pe_protocol = ''1'', pe_network = 4, pe_version = Version 1 1, pe_id = 3, pe_addrs = 0, pe_tags = {||},
     pe_streams = {||}, pe_groups = {||}, pe_tickets = [(6, \<lparr>tk_class = 8, tk_data = ''old''\<rparr>)]\<rparr>"

definition ex_tdx_denv :: "(nat, nat, nat) disc_env" where
  "ex_tdx_denv =
    \<lparr>de_derive = \<lambda>c d. c, de_digest = \<lambda>_. ''d'', de_departure_digest = \<lambda>_ _ _. ''x'', de_public = id, de_sign = \<lambda>k _. k,
     de_verify = \<lambda>p _ g. g = p, de_time_ok = \<lambda>_. True\<rparr>"

definition ex_tdx_ticket :: "string tdx_ticket" where
  "ex_tdx_ticket = \<lparr>tt_quote_bytes = ex_quote, tt_extra = ex_extra, tt_quote = ex_quote\<rparr>"

lemma ex_tdx_of_bytes: "tdx_of_bytes ex_tdx ''s'' = Inr ex_tdx_ticket"
  by (simp add: tdx_of_bytes_Inr ex_tdx_ticket_def ex_signature ex_quote_def max_ticket_size_def)

lemma ex_tdx_issue: "ticket_with_expiration ex_tdx now 5000000000 3 4 1000000 Never = Inr \<lparr>tk_class = 8, tk_data = ''s''\<rparr>"
  using ex_signature
  by (simp add: ticket_with_expiration_def tdx_ticket_new_def verify_quote_def ticket_of_tdx_def report_data_def ex_quote_def ex_extra_def)

lemma ex_tdx_validate: "pe_id e = 3 \<Longrightarrow> pe_network e = 4 \<Longrightarrow> tdx_validate ex_tdx now tdx_new ''s'' e = Some Never"
  by (simp add: tdx_validate_def ex_tdx_of_bytes tdx_new_def tdx_baseline_def ex_tdx_ticket_def ex_extra_def
      tdx_matches_def criteria_new_def required_def eval_nat_numeral)

section \<open>Properties\<close>

text \<open>
  C32. A peer that attests itself is accepted: after \<open>install_own_ticket\<close> the entry of the local peer passes a
  validator made with \<open>Tdx::from_local\<close> on a machine with the same measurements, and one with a limit
  on the age as long as the quote is younger; whatever tickets the entry had before. The ticket has to fit
  into the size that is decompressed.
\<close>

theorem own_ticket_accepted:
  assumes "tdx_codec_ok env" and "tdx_machine env m" and "length (ms_rtmr m) = 4"
    and "\<And>r b x s. td_create_quote env r = Some b \<Longrightarrow> td_serialize env (b, x) = Some s \<Longrightarrow> length s \<le> max_ticket_size"
    and "install_own_ticket env denv now quoted now_ms e = Inr e'"
    and "tdx_from_local env = Inr v" and "quoted \<le> later" and "nat (later - quoted) \<le> age"
  shows "validate_ticket (tdx_validator env later v) e' = Some Never \<and>
    validate_ticket (tdx_validator env later (tdx_max_age age v)) e' = Some Never"
proof -
  obtain tk where tk: "ticket_with_expiration env now quoted (pe_id e) (pe_network e) (started_at denv e) Never = Inr tk"
    and e': "e' = replace_ticket denv now_ms tk e"
    using assms(5) by (cases "tdx_ticket_never env now quoted (pe_id e) (pe_network e) (started_at denv e)")
      (auto simp: install_is_replace tdx_ticket_never_def)
  obtain t where t: "tk_class tk = td_class env" "tdx_of_bytes env (tk_data tk) = Inr t" "tdx_measurements env t = m"
    "tt_extra t = \<lparr>xd_peer_id = pe_id e, xd_network_id = pe_network e, xd_started_at = started_at denv e, xd_quoted_at = quoted, xd_expiration = Never\<rparr>"
    using issued_ticket [OF assms(1,2) tk] assms(4) by blast
  have v: "v = tdx_baseline (criteria_of m)" using from_local_matches [OF assms(2,6)] .
  have "validate_ticket (tdx_validator env later w) e' = tdx_validate env later w (tk_data tk) e'" for w
    using validate_replaced [of "tdx_validator env later w" tk denv now_ms e] by (simp add: tdx_validator_def t(1) e')
  then show ?thesis
    using assms(7,8) t(2-)
    by (simp add: e' tdx_validate_def v tdx_baseline_def tdx_max_age_def matches_criteria_of assms(3) to_std_or_max_def)
qed

theorem own_ticket_accepted_witness:
  "\<exists>e. install_own_ticket ex_tdx ex_tdx_denv 5000000000 5000000000 5000 ex_tdx_entry = Inr e \<and>
    validate_ticket (tdx_validator ex_tdx 7000000000 (tdx_baseline (criteria_of ex_measurements))) e = Some Never"
proof -
  have "started_at ex_tdx_denv ex_tdx_entry = 1000000"
    by (simp add: started_at_def from_millis_def ex_tdx_denv_def ex_tdx_entry_def)
  then obtain e where e: "install_own_ticket ex_tdx ex_tdx_denv 5000000000 5000000000 5000 ex_tdx_entry = Inr e"
    using ex_tdx_issue by (simp add: install_is_replace tdx_ticket_never_def ex_tdx_entry_def)
  have v: "tdx_from_local ex_tdx = Inr (tdx_baseline (criteria_of ex_measurements))"
    by (simp add: tdx_from_local_def measurements_local_def)
  have "validate_ticket (tdx_validator ex_tdx 7000000000 (tdx_baseline (criteria_of ex_measurements))) e = Some Never \<and>
    validate_ticket (tdx_validator ex_tdx 7000000000 (tdx_max_age 2000000000 (tdx_baseline (criteria_of ex_measurements)))) e = Some Never"
    by (rule own_ticket_accepted [OF ex_tdx_ok _ e v]) (auto simp: max_ticket_size_def split: if_splits)
  then show ?thesis using e by blast
qed

text \<open>
  C33. A quote cannot be used by another peer: of two accepted tickets that carry the same quote the peers
  that presented them have the same identity and are in the same network, as long as the hash has no
  collision among the inputs of the two signatures. This holds whatever the two validators require and
  whenever they are asked.
\<close>

theorem quote_not_transferable:
  assumes "\<And>s. digest_ok (td_hash env s)" and "digest_ok (td_extra_id env)"
    and "tdx_of_bytes env b = Inr t" and "tdx_of_bytes env b' = Inr t'" and "tt_quote_bytes t = tt_quote_bytes t'"
    and "tdx_validate env now v b p \<noteq> None" and "tdx_validate env now' v' b' p' \<noteq> None"
    and "list_all digest_ok [pe_id p, pe_network p, pe_id p', pe_network p']"
    and "inj_on (td_hash env) (set (derive_inputs (td_hash env) (td_extra_id env) (extra_parts (tt_extra t))) \<union>
      set (derive_inputs (td_hash env) (td_extra_id env) (extra_parts (tt_extra t'))))"
  shows "pe_id p = pe_id p' \<and> pe_network p = pe_network p'"
proof -
  have t: "xd_peer_id (tt_extra t) = pe_id p" "xd_network_id (tt_extra t) = pe_network p"
    using assms(3,6) by (auto simp: tdx_validate_def Let_def split: if_splits)
  have t': "xd_peer_id (tt_extra t') = pe_id p'" "xd_network_id (tt_extra t') = pe_network p'"
    using assms(4,7) by (auto simp: tdx_validate_def Let_def split: if_splits)
  have "as_bytes (extra_signature env (tt_extra t)) = as_bytes (extra_signature env (tt_extra t'))"
    using assms(3-5) by (simp add: tdx_of_bytes_Inr)
  then have "extra_signature env (tt_extra t) = extra_signature env (tt_extra t')"
    using assms(1,2) by (simp add: extra_signature_def derive_bytes_ok as_bytes_inj)
  then have "extra_parts (tt_extra t) = extra_parts (tt_extra t')"
    by (intro derive_bytes_inj [OF assms(1,2) _ assms(9)]) (simp_all add: extra_signature_def extra_parts_def)
  then show ?thesis using assms(8) t t' by (simp add: extra_parts_def as_bytes_inj)
qed

theorem quote_not_transferable_witness:
  "pe_id ex_tdx_entry = pe_id (ex_tdx_entry\<lparr>pe_tickets := []\<rparr>) \<and> pe_network ex_tdx_entry = pe_network (ex_tdx_entry\<lparr>pe_tickets := []\<rparr>)"
proof (rule quote_not_transferable [OF _ _ ex_tdx_of_bytes ex_tdx_of_bytes])
  have "distinct (map ex_count_hash (derive_inputs ex_count_hash 0 (extra_parts ex_extra)))"
    by (simp add: extra_parts_def digest_derive_def)
  then show "inj_on (td_hash ex_tdx) (set (derive_inputs (td_hash ex_tdx) (td_extra_id ex_tdx) (extra_parts (tt_extra ex_tdx_ticket))) \<union>
      set (derive_inputs (td_hash ex_tdx) (td_extra_id ex_tdx) (extra_parts (tt_extra ex_tdx_ticket))))"
    by (simp add: distinct_map ex_tdx_ticket_def)
  show "tdx_validate ex_tdx 0 tdx_new ''s'' ex_tdx_entry \<noteq> None" "tdx_validate ex_tdx 9 tdx_new ''s'' (ex_tdx_entry\<lparr>pe_tickets := []\<rparr>) \<noteq> None"
    by (simp_all add: ex_tdx_validate ex_tdx_entry_def)
  show "digest_ok (td_hash ex_tdx s)" for s by simp
qed (simp_all add: digest_ok_def ex_tdx_entry_def)

text \<open>
  The signature of a validator does not determine what it accepts. A limit on the age of less than a
  second is signed like no limit at all, so that groups with and without it have the same identifier; but
  a ticket that the validator without the limit accepts is rejected by the other one when its quote is
  older than the limit, and also when its quote is dated after the clock of the validator.
\<close>

theorem age_limit_not_signed:
  assumes "tx_max_age v = None" and "age < 1000000000" and "tdx_validate env now v b p = Some x" and "tdx_of_bytes env b = Inr t"
    and "now - xd_quoted_at (tt_extra t) > int age \<or> now < xd_quoted_at (tt_extra t)"
  shows "tdx_signature env (tdx_max_age age v) = tdx_signature env v \<and> tdx_validate env now (tdx_max_age age v) b p = None"
proof -
  have "le_bytes 8 0 = fill 8 0" by (simp only: fill_def le_bytes_def be_bytes_0 rev_replicate)
  then have "tdx_signature env (tdx_max_age age v) = tdx_signature env v"
    using assms(1,2) by (simp add: tdx_signature_def tdx_max_age_def duration_secs_def criteria_signature_def)
  moreover have "age < duration_max" using assms(2) by (simp add: duration_max_def)
  then have "age < to_std_or_max (now - xd_quoted_at (tt_extra t))" using assms(5) by (auto simp: to_std_or_max_def)
  then have "tdx_validate env now (tdx_max_age age v) b p = None"
    using assms(4) by (simp add: tdx_validate_def tdx_max_age_def Let_def)
  ultimately show ?thesis by simp
qed

theorem age_limit_not_signed_witness:
  "tdx_signature ex_tdx (tdx_max_age 500000000 tdx_new) = tdx_signature ex_tdx tdx_new \<and>
    tdx_validate ex_tdx 6000000000 (tdx_max_age 500000000 tdx_new) ''s'' ex_tdx_entry = None"
  by (rule age_limit_not_signed [OF _ _ ex_tdx_validate ex_tdx_of_bytes])
    (simp_all add: tdx_new_def tdx_baseline_def ex_tdx_ticket_def ex_extra_def ex_tdx_entry_def)

end
