(* ===== verification/Cpio.thy ===== *)
theory Cpio
  imports Hex "HOL-Library.Word" "HOL-Library.Monad_Syntax"
begin

text \<open>
  \<open>tee/tdx/builder/cpio.rs\<close>: the writer of initramfs archives in the format \<open>newc\<close>, and a reader of the
  format that says what an archive contains. The underlying writer is a parameter: \<open>wr w s\<close> is
  \<open>write_all\<close> of the bytes \<open>s\<close>, \<open>None\<close> an error of it.
\<close>

section \<open>The writer\<close>

record 'w cpio_writer =
  cw_inner :: 'w
  cw_ino :: "32 word"
  cw_offset :: nat

type_synonym 'w write_all = "'w \<Rightarrow> string \<Rightarrow> 'w option"

definition cpio_new :: "'w \<Rightarrow> 'w cpio_writer" where
  "cpio_new w = \<lparr>cw_inner = w, cw_ino = 1, cw_offset = 0\<rparr>"

text \<open>A write, and the advance of the offset that goes with it.\<close>

definition cpio_put :: "'w write_all \<Rightarrow> string \<Rightarrow> nat \<Rightarrow> 'w cpio_writer \<Rightarrow> 'w cpio_writer option" where
  "cpio_put wr s n c = map_option (\<lambda>w. c\<lparr>cw_inner := w, cw_offset := cw_offset c + n\<rparr>) (wr (cw_inner c) s)"

definition cpio_align4 :: "'w write_all \<Rightarrow> 'w cpio_writer \<Rightarrow> 'w cpio_writer option" where
  "cpio_align4 wr c = (let pad = (4 - cw_offset c mod 4) mod 4 in if pad > 0 then cpio_put wr (nuls pad) pad c else Some c)"

text \<open>The fields: ino, mode, uid, gid, nlink, mtime, filesize, devmajor, devminor, rdevmajor, rdevminor, namesize, check.\<close>

definition cpio_header :: "nat \<Rightarrow> nat \<Rightarrow> nat \<Rightarrow> nat \<Rightarrow> string" where
  "cpio_header ino mode filesize namesize =
    ''070701'' @ concat (map format_08X [ino, mode, 0, 0, 1, 0, filesize, 0, 0, 0, 0, namesize, 0])"

text \<open>The assertion on the length of the header is checked in debug builds only; the offset advances by 110 in any case.\<close>

definition write_entry :: "'w write_all \<Rightarrow> string \<Rightarrow> string \<Rightarrow> nat \<Rightarrow> 'w cpio_writer \<Rightarrow> 'w cpio_writer option" where
  "write_entry wr name data mode c =
    (let namesize = length name + 1; filesize = length data
     in do {
       c1 \<leftarrow> cpio_put wr (cpio_header (unat (cw_ino c)) mode filesize namesize) 110 c;
       c2 \<leftarrow> cpio_put wr name 0 c1;
       c3 \<leftarrow> cpio_put wr (nuls 1) namesize c2;
       c4 \<leftarrow> cpio_align4 wr c3;
       c5 \<leftarrow> cpio_put wr data filesize c4;
       c6 \<leftarrow> cpio_align4 wr c5;
       Some (c6\<lparr>cw_ino := cw_ino c6 + 1\<rparr>)
     })"

definition add_file :: "'w write_all \<Rightarrow> string \<Rightarrow> string \<Rightarrow> bool \<Rightarrow> 'w cpio_writer \<Rightarrow> 'w cpio_writer option" where
  "add_file wr path data executable = write_entry wr path data (if executable then 33261 else 33188)"

definition add_dir :: "'w write_all \<Rightarrow> string \<Rightarrow> 'w cpio_writer \<Rightarrow> 'w cpio_writer option" where
  "add_dir wr path = write_entry wr path [] 16877"

definition add_symlink :: "'w write_all \<Rightarrow> string \<Rightarrow> string \<Rightarrow> 'w cpio_writer \<Rightarrow> 'w cpio_writer option" where
  "add_symlink wr path target = write_entry wr path target 41471"

definition cpio_finish :: "'w write_all \<Rightarrow> 'w cpio_writer \<Rightarrow> 'w option" where
  "cpio_finish wr c = do {
     c1 \<leftarrow> write_entry wr ''TRAILER!!!'' [] 0 c;
     (let pad = (512 - cw_offset c1 mod 512) mod 512
      in if pad > 0 then wr (cw_inner c1) (nuls pad) else Some (cw_inner c1))
   }"

text \<open>What a builder does with a writer.\<close>

datatype cpio_op = AddFile string string bool | AddDir string | AddSymlink string string

fun cpio_do :: "'w write_all \<Rightarrow> cpio_op \<Rightarrow> 'w cpio_writer \<Rightarrow> 'w cpio_writer option" where
  "cpio_do wr (AddFile path data executable) c = add_file wr path data executable c"
| "cpio_do wr (AddDir path) c = add_dir wr path c"
| "cpio_do wr (AddSymlink path target) c = add_symlink wr path target c"

fun cpio_build :: "'w write_all \<Rightarrow> cpio_op list \<Rightarrow> 'w cpio_writer \<Rightarrow> 'w cpio_writer option" where
  "cpio_build wr [] c = Some c"
| "cpio_build wr (x # xs) c = do { c1 \<leftarrow> cpio_do wr x c; cpio_build wr xs c1 }"

section \<open>What an archive contains\<close>

record cpio_entry =
  ce_ino :: nat
  ce_mode :: nat
  ce_name :: string
  ce_data :: string

definition align4_up :: "nat \<Rightarrow> nat" where
  "align4_up n = n + (4 - n mod 4) mod 4"

fun read_fields :: "nat \<Rightarrow> string \<Rightarrow> nat list option" where
  "read_fields 0 s = Some []"
| "read_fields (Suc k) s = do {
     v \<leftarrow> read_hex (take 8 s);
     vs \<leftarrow> read_fields k (drop 8 s);
     Some (v # vs)
   }"

text \<open>Names and data begin at multiples of four bytes; the name ends with a zero byte that \<open>namesize\<close> counts.\<close>

definition read_entry :: "string \<Rightarrow> (cpio_entry \<times> string) option" where
  "read_entry s =
    (if take 6 s \<noteq> ''070701'' then None
     else do {
       f \<leftarrow> read_fields 13 (drop 6 s);
       (let p = align4_up (110 + f ! 11); q = align4_up (p + f ! 6)
        in if length s < q then None
           else Some (\<lparr>ce_ino = f ! 0, ce_mode = f ! 1, ce_name = take (f ! 11 - 1) (drop 110 s), ce_data = take (f ! 6) (drop p s)\<rparr>, drop q s))
     })"

function read_archive :: "string \<Rightarrow> cpio_entry list option" where
  "read_archive s =
    (case read_entry s of
       None \<Rightarrow> None
     | Some (e, r) \<Rightarrow>
         if ce_name e = ''TRAILER!!!'' then Some []
         else if length r < length s then map_option (\<lambda>es. e # es) (read_archive r)
         else None)"
  by pat_completeness auto
termination by (relation "measure length") auto

declare read_archive.simps [simp del]

fun op_entry :: "nat \<Rightarrow> cpio_op \<Rightarrow> cpio_entry" where
  "op_entry ino (AddFile path data executable) =
    \<lparr>ce_ino = ino, ce_mode = (if executable then 33261 else 33188), ce_name = path, ce_data = data\<rparr>"
| "op_entry ino (AddDir path) = \<lparr>ce_ino = ino, ce_mode = 16877, ce_name = path, ce_data = []\<rparr>"
| "op_entry ino (AddSymlink path target) = \<lparr>ce_ino = ino, ce_mode = 41471, ce_name = path, ce_data = target\<rparr>"

fun op_entries :: "nat \<Rightarrow> cpio_op list \<Rightarrow> cpio_entry list" where
  "op_entries ino [] = []"
| "op_entries ino (x # xs) = op_entry ino x # op_entries (ino + 1) xs"

section \<open>Reading back one entry\<close>

definition entry_ok :: "cpio_entry \<Rightarrow> bool" where
  "entry_ok e \<longleftrightarrow> ce_ino e < 2 ^ 32 \<and> ce_mode e < 2 ^ 32 \<and> length (ce_data e) < 2 ^ 32 \<and> length (ce_name e) + 1 < 2 ^ 32"

text \<open>The bytes of an entry that begins at a multiple of four.\<close>

definition entry_bytes :: "cpio_entry \<Rightarrow> string" where
  "entry_bytes e =
    (let n = length (ce_name e) + 1; m = length (ce_data e)
     in cpio_header (ce_ino e) (ce_mode e) m n @ ce_name e @ nuls 1 @ nuls (align4_up (110 + n) - (110 + n)) @
        ce_data e @ nuls (align4_up m - m))"

lemma pad_mod: "0 < k \<Longrightarrow> (n + (k - n mod k) mod k) mod k = (0 :: nat)"
proof -
  assume "0 < k"
  have "(n + (k - n mod k) mod k) mod k = (n mod k + (k - n mod k)) mod k" by (simp only: mod_add_right_eq mod_add_left_eq)
  also have "\<dots> = 0" using \<open>0 < k\<close> by (simp add: less_imp_le)
  finally show ?thesis .
qed

lemma align4_up: "n \<le> align4_up n" "align4_up n mod 4 = 0"
  by (simp_all add: align4_up_def pad_mod)

lemma align4_up_add: "a mod 4 = 0 \<Longrightarrow> align4_up (a + n) = a + align4_up n"
  by (simp add: align4_up_def mod_add_left_eq [symmetric])

lemma length_cpio_header:
  "ino < 2 ^ 32 \<Longrightarrow> mode < 2 ^ 32 \<Longrightarrow> m < 2 ^ 32 \<Longrightarrow> n < 2 ^ 32 \<Longrightarrow> length (cpio_header ino mode m n) = 110"
  by (simp add: cpio_header_def length_format_08X)

lemma read_fields_concat:
  "list_all (\<lambda>n. n < 2 ^ 32) ns \<Longrightarrow> read_fields (length ns) (concat (map format_08X ns) @ r) = Some ns"
  by (induction ns) (simp_all add: length_format_08X)

lemma read_entry_bytes:
  assumes "entry_ok e"
  shows "read_entry (entry_bytes e @ r) = Some (e, r)"
proof -
  define n m where nm: "n = length (ce_name e) + 1" "m = length (ce_data e)"
  let ?ns = "[ce_ino e, ce_mode e, 0, 0, 1, 0, m, 0, 0, 0, 0, n, 0]"
  let ?h = "cpio_header (ce_ino e) (ce_mode e) m n"
  let ?body = "nuls 1 @ nuls (align4_up (110 + n) - (110 + n)) @ ce_data e @ nuls (align4_up m - m) @ r"
  have s: "entry_bytes e @ r = ?h @ ce_name e @ ?body"
    by (simp add: entry_bytes_def nm Let_def)
  have h: "length ?h = 110" using assms by (simp add: length_cpio_header entry_ok_def nm)
  have f: "read_fields 13 (drop 6 (?h @ t)) = Some ?ns" for t
  proof -
    have "read_fields (length ?ns) (concat (map format_08X ?ns) @ t) = Some ?ns"
      by (rule read_fields_concat) (use assms in \<open>simp add: entry_ok_def nm\<close>)
    moreover have "drop 6 (?h @ t) = concat (map format_08X ?ns) @ t" by (simp add: cpio_header_def)
    moreover have "length ?ns = 13" by simp
    ultimately show ?thesis by (simp only:)
  qed
  let ?p = "align4_up (110 + n)"
  have p: "110 + n \<le> ?p" "?p mod 4 = 0" by (simp_all add: align4_up)
  have q: "align4_up (?p + m) = ?p + align4_up m" "m \<le> align4_up m" using p(2) by (simp_all add: align4_up_add align4_up)
  have pre: "length (?h @ ce_name e @ nuls 1 @ nuls (?p - (110 + n))) = ?p" using h p(1) by (simp add: nm)
  have data: "drop ?p (?h @ ce_name e @ ?body) = ce_data e @ nuls (align4_up m - m) @ r"
    using pre by (metis append.assoc append_eq_conv_conj)
  have "drop (?p + align4_up m) (?h @ ce_name e @ ?body) = drop (align4_up m) (drop ?p (?h @ ce_name e @ ?body))"
    by (simp only: drop_drop add.commute)
  also have "\<dots> = r" unfolding data using q(2) by (simp add: nm(2))
  finally have rest: "drop (?p + align4_up m) (?h @ ce_name e @ ?body) = r" .
  have name: "take (n - 1) (drop 110 (?h @ ce_name e @ ?body)) = ce_name e" using h by (simp add: nm)
  have len: "\<not> length (?h @ ce_name e @ ?body) < ?p + align4_up m"
    using h p(1) q(2) by (simp add: nm)
  have "take 6 (?h @ ce_name e @ ?body) = ''070701''" by (simp add: cpio_header_def)
  then show ?thesis
    unfolding s read_entry_def f using name data rest len q(1) by (simp add: Let_def nm del: drop_append)
qed

section \<open>What the writer writes\<close>

text \<open>The contract of \<open>write_all\<close>: when it succeeds it has appended all the bytes.\<close>

definition appends :: "'w write_all \<Rightarrow> ('w \<Rightarrow> string) \<Rightarrow> bool" where
  "appends wr contents \<longleftrightarrow> (\<forall>w s w'. wr w s = Some w' \<longrightarrow> contents w' = contents w @ s)"

text \<open>A step of the writer: it has appended \<open>s\<close> and moved the offset by as much.\<close>

definition wrote :: "('w \<Rightarrow> string) \<Rightarrow> 'w cpio_writer \<Rightarrow> string \<Rightarrow> 'w cpio_writer \<Rightarrow> bool" where
  "wrote contents c s c' \<longleftrightarrow>
    contents (cw_inner c') = contents (cw_inner c) @ s \<and> cw_offset c' = cw_offset c + length s \<and> cw_ino c' = cw_ino c"

lemma wrote_trans: "wrote contents a s b \<Longrightarrow> wrote contents b t c \<Longrightarrow> wrote contents a (s @ t) c"
  by (simp add: wrote_def)

lemma put_wrote: "appends wr contents \<Longrightarrow> cpio_put wr s (length s) c = Some c' \<Longrightarrow> wrote contents c s c'"
  by (auto simp: appends_def cpio_put_def wrote_def)

lemma align4_wrote:
  assumes "appends wr contents" and "cpio_align4 wr c = Some c'"
  shows "wrote contents c (nuls (align4_up (cw_offset c) - cw_offset c)) c'"
proof (cases "(4 - cw_offset c mod 4) mod 4 > 0")
  case True
  then show ?thesis
    using assms put_wrote [OF assms(1), of "nuls ((4 - cw_offset c mod 4) mod 4)"] by (simp add: cpio_align4_def align4_up_def Let_def)
next
  case False
  then show ?thesis using assms(2) by (simp add: cpio_align4_def align4_up_def wrote_def nuls_def)
qed

lemma name_wrote:
  assumes "appends wr contents" and "cpio_put wr name 0 c = Some c1" and "cpio_put wr (nuls 1) (length name + 1) c1 = Some c2"
  shows "wrote contents c (name @ nuls 1) c2"
  using assms by (auto simp: appends_def cpio_put_def wrote_def)

lemma write_entry_wrote:
  assumes "appends wr contents" and "entry_ok e" and "ce_ino e = unat (cw_ino c)" and "cw_offset c mod 4 = 0"
    and "write_entry wr (ce_name e) (ce_data e) (ce_mode e) c = Some c'"
  shows "contents (cw_inner c') = contents (cw_inner c) @ entry_bytes e \<and>
    cw_offset c' = cw_offset c + length (entry_bytes e) \<and> cw_offset c' mod 4 = 0 \<and> cw_ino c' = cw_ino c + 1"
proof -
  let ?n = "length (ce_name e) + 1" and ?m = "length (ce_data e)"
  let ?h = "cpio_header (ce_ino e) (ce_mode e) ?m ?n"
  from assms(5) obtain c1 c2 c3 c4 c5 c6 where
    c: "cpio_put wr ?h 110 c = Some c1" "cpio_put wr (ce_name e) 0 c1 = Some c2" "cpio_put wr (nuls 1) ?n c2 = Some c3"
      "cpio_align4 wr c3 = Some c4" "cpio_put wr (ce_data e) ?m c4 = Some c5" "cpio_align4 wr c5 = Some c6"
    and c': "c' = c6\<lparr>cw_ino := cw_ino c6 + 1\<rparr>"
    by (auto simp: write_entry_def Let_def bind_eq_Some_conv assms(3))
  have h: "length ?h = 110" using assms(2) by (simp add: length_cpio_header entry_ok_def)
  have 1: "wrote contents c ?h c1" using put_wrote [OF assms(1), of ?h c c1] c(1) h by simp
  have 3: "wrote contents c1 (ce_name e @ nuls 1) c3" using name_wrote [OF assms(1) c(2,3)] .
  have "cw_offset c3 = cw_offset c + (110 + ?n)" using 1 3 h by (simp add: wrote_def)
  then have off3: "align4_up (cw_offset c3) - cw_offset c3 = align4_up (110 + ?n) - (110 + ?n)"
    using align4_up_add [OF assms(4)] by simp
  have 4: "wrote contents c3 (nuls (align4_up (110 + ?n) - (110 + ?n))) c4" using align4_wrote [OF assms(1) c(4)] off3 by simp
  have 5: "wrote contents c4 (ce_data e) c5" using put_wrote [OF assms(1) c(5)] .
  have "cw_offset c4 = align4_up (cw_offset c3)" using 4 off3 align4_up(1) [of "cw_offset c3"] by (simp add: wrote_def)
  then have off4: "cw_offset c4 mod 4 = 0" by (simp add: align4_up)
  moreover have "cw_offset c5 = cw_offset c4 + ?m" using 5 by (simp add: wrote_def)
  ultimately have off5: "align4_up (cw_offset c5) = cw_offset c4 + align4_up ?m" by (simp add: align4_up_add)
  have 6: "wrote contents c5 (nuls (align4_up ?m - ?m)) c6"
    using align4_wrote [OF assms(1) c(6)] off5 \<open>cw_offset c5 = cw_offset c4 + ?m\<close> by simp
  have "wrote contents c (?h @ (ce_name e @ nuls 1) @ nuls (align4_up (110 + ?n) - (110 + ?n)) @ ce_data e @ nuls (align4_up ?m - ?m)) c6"
    using wrote_trans [OF 1 wrote_trans [OF 3 wrote_trans [OF 4 wrote_trans [OF 5 6]]]] .
  then have "wrote contents c (entry_bytes e) c6" by (simp add: entry_bytes_def Let_def)
  moreover have "cw_offset c6 = cw_offset c4 + align4_up ?m"
    using 6 off5 align4_up(1) [of ?m] \<open>cw_offset c5 = cw_offset c4 + ?m\<close> by (simp add: wrote_def)
  then have "cw_offset c6 mod 4 = 0" using off4 align4_up(2) [of ?m] by (simp add: mod_add_eq [symmetric])
  ultimately show ?thesis by (simp add: wrote_def c')
qed

lemma cpio_do_entry:
  "cpio_do wr x c = write_entry wr (ce_name (op_entry i x)) (ce_data (op_entry i x)) (ce_mode (op_entry i x)) c"
  by (cases x) (simp_all add: add_file_def add_dir_def add_symlink_def)

definition op_ok :: "cpio_op \<Rightarrow> bool" where
  "op_ok x \<longleftrightarrow> entry_ok (op_entry 0 x) \<and> ce_name (op_entry 0 x) \<noteq> ''TRAILER!!!''"

lemma op_ok_entry: "op_ok x \<Longrightarrow> i < 2 ^ 32 \<Longrightarrow> entry_ok (op_entry i x) \<and> ce_name (op_entry i x) \<noteq> ''TRAILER!!!''"
  by (cases x) (auto simp: op_ok_def entry_ok_def)

lemma op_entries_ok:
  assumes "list_all op_ok xs" and "i + length xs < 2 ^ 32"
  shows "list_all (\<lambda>e. entry_ok e \<and> ce_name e \<noteq> ''TRAILER!!!'') (op_entries i xs)"
  using assms by (induction xs arbitrary: i) (simp_all add: op_ok_entry)

lemma build_wrote:
  assumes "appends wr contents" and "list_all op_ok xs" and "unat (cw_ino c) + length xs < 2 ^ 32" and "cw_offset c mod 4 = 0"
    and "cpio_build wr xs c = Some c'"
  shows "contents (cw_inner c') = contents (cw_inner c) @ concat (map entry_bytes (op_entries (unat (cw_ino c)) xs)) \<and>
    cw_offset c' = cw_offset c + length (concat (map entry_bytes (op_entries (unat (cw_ino c)) xs))) \<and>
    cw_offset c' mod 4 = 0 \<and> unat (cw_ino c') = unat (cw_ino c) + length xs"
  using assms(2-)
proof (induction xs arbitrary: c)
  case (Cons x xs)
  let ?i = "unat (cw_ino c)"
  obtain c1 where c1: "cpio_do wr x c = Some c1" and c': "cpio_build wr xs c1 = Some c'"
    using Cons.prems(4) by (auto simp: bind_eq_Some_conv)
  have e: "entry_ok (op_entry ?i x)" using Cons.prems op_ok_entry [of x ?i] by simp
  have "ce_ino (op_entry ?i x) = ?i" by (cases x) simp_all
  note write_entry_wrote [OF assms(1) e this Cons.prems(3) c1 [unfolded cpio_do_entry [of wr x c ?i]]]
  then have w: "contents (cw_inner c1) = contents (cw_inner c) @ entry_bytes (op_entry ?i x)"
    "cw_offset c1 = cw_offset c + length (entry_bytes (op_entry ?i x))" "cw_offset c1 mod 4 = 0" "cw_ino c1 = cw_ino c + 1"
    by blast+
  have i: "unat (cw_ino c1) = ?i + 1" using Cons.prems(2) w(4) by (simp add: unat_word_ariths)
  show ?case using Cons.IH [of c1] Cons.prems(1-2) w i c' by auto
qed simp

lemma read_archive_bytes:
  assumes "list_all (\<lambda>e. entry_ok e \<and> ce_name e \<noteq> ''TRAILER!!!'') es" and "entry_ok t" and "ce_name t = ''TRAILER!!!''"
  shows "read_archive (concat (map entry_bytes es) @ entry_bytes t @ r) = Some es"
  using assms(1)
proof (induction es)
  case Nil
  then show ?case using assms(2,3) by (simp add: read_archive.simps read_entry_bytes)
next
  case (Cons e es)
  then have "length (entry_bytes e) > 0"
    by (simp add: entry_bytes_def cpio_header_def Let_def)
  with Cons show ?case by (simp add: read_archive.simps [of "entry_bytes e @ _"] read_entry_bytes)
qed

section \<open>Properties\<close>

text \<open>
  C37. The archive contains what was added: read in the format \<open>newc\<close> up to its trailer, it has exactly the
  entries of the operations in their order, with the names, data and modes they were given and numbers
  from one on, and its length is a multiple of 512; whatever the underlying writer is, as long as a
  successful write appends, no entry has the name of the trailer, and names and data stay below 4 GiB.
\<close>

theorem cpio_roundtrip:
  assumes "appends wr contents" and "contents w0 = []" and "list_all op_ok xs" and "length xs + 2 < 2 ^ 32"
    and "cpio_build wr xs (cpio_new w0) = Some c" and "cpio_finish wr c = Some w"
  shows "read_archive (contents w) = Some (op_entries 1 xs) \<and> length (contents w) mod 512 = 0"
proof -
  have b: "contents (cw_inner c) = concat (map entry_bytes (op_entries 1 xs))" "cw_offset c = length (contents (cw_inner c))"
    "cw_offset c mod 4 = 0" "unat (cw_ino c) = 1 + length xs"
    using build_wrote [OF assms(1,3) _ _ assms(5)] assms(2,4) by (auto simp: cpio_new_def)
  let ?t = "\<lparr>ce_ino = 1 + length xs, ce_mode = 0, ce_name = ''TRAILER!!!'', ce_data = []\<rparr>"
  have t: "entry_ok ?t" using assms(4) by (simp add: entry_ok_def)
  obtain c1 where c1: "write_entry wr ''TRAILER!!!'' [] 0 c = Some c1"
    and w: "(let pad = (512 - cw_offset c1 mod 512) mod 512 in if pad > 0 then wr (cw_inner c1) (nuls pad) else Some (cw_inner c1)) = Some w"
    using assms(6) by (auto simp: cpio_finish_def bind_eq_Some_conv)
  have t1: "contents (cw_inner c1) = contents (cw_inner c) @ entry_bytes ?t" "cw_offset c1 = length (contents (cw_inner c1))"
    using write_entry_wrote [OF assms(1) t _ b(3), of c1] c1 b(2,4) by simp_all
  define pad where "pad = (512 - cw_offset c1 mod 512) mod 512"
  have p: "contents w = contents (cw_inner c1) @ nuls pad"
    using w assms(1) by (cases "pad > 0") (auto simp: Let_def appends_def nuls_def simp flip: pad_def)
  have "(cw_offset c1 + pad) mod 512 = 0" unfolding pad_def by (rule pad_mod) simp
  then have "length (contents w) mod 512 = 0" using p t1(2) by simp
  moreover have "read_archive (contents w) = Some (op_entries 1 xs)"
    unfolding p t1(1) b(1) append.assoc
    by (rule read_archive_bytes [OF op_entries_ok t]) (use assms(3,4) in simp_all)
  ultimately show ?thesis by simp
qed

text \<open>A vector of bytes as the underlying writer never fails.\<close>

definition vec_write :: "string write_all" where
  "vec_write w s = Some (w @ s)"

lemma vec_put_total: "\<exists>c'. cpio_put vec_write s n c = Some c'"
  by (simp add: cpio_put_def vec_write_def)

lemma vec_align_total: "\<exists>c'. cpio_align4 vec_write c = Some c'"
  by (simp add: cpio_align4_def vec_put_total Let_def)

lemma bind_total: "\<exists>y. m = Some y \<Longrightarrow> (\<And>y. \<exists>z. f y = Some z) \<Longrightarrow> \<exists>z. Option.bind m f = Some z"
  by auto

lemma vec_entry_total: "\<exists>c'. write_entry vec_write name data mode c = Some c'"
  unfolding write_entry_def Let_def by (intro bind_total vec_put_total vec_align_total) simp

lemma vec_finish_total: "\<exists>w. cpio_finish vec_write c = Some w"
  unfolding cpio_finish_def by (intro bind_total vec_entry_total) (simp add: vec_write_def Let_def)

lemma vec_build_total: "\<exists>c'. cpio_build vec_write xs c = Some c'"
  by (induction xs arbitrary: c) (use vec_entry_total in \<open>auto simp: cpio_do_entry [of _ _ _ 0] intro: bind_total\<close>)

definition ex_cpio_ops :: "cpio_op list" where
  "ex_cpio_ops = [AddDir ''bin'', AddFile ''bin/a'' ''data'' True, AddSymlink ''init'' ''bin/a'']"

theorem cpio_roundtrip_witness:
  "\<exists>c w. cpio_build vec_write ex_cpio_ops (cpio_new []) = Some c \<and> cpio_finish vec_write c = Some w \<and> length w mod 512 = 0 \<and>
    map_option (map ce_name) (read_archive w) = Some [''bin'', ''bin/a'', ''init''] \<and>
    map_option (map ce_ino) (read_archive w) = Some [1, 2, 3]"
proof -
  obtain c w where b: "cpio_build vec_write ex_cpio_ops (cpio_new []) = Some c" "cpio_finish vec_write c = Some w"
    using vec_build_total vec_finish_total by meson
  have "read_archive (id w) = Some (op_entries 1 ex_cpio_ops) \<and> length (id w) mod 512 = 0"
    by (rule cpio_roundtrip [OF _ _ _ _ b]) (simp_all add: appends_def vec_write_def ex_cpio_ops_def op_ok_def entry_ok_def)
  with b show ?thesis by (auto simp: ex_cpio_ops_def)
qed

end
