(* ===== verification/Mrtd.thy ===== *)
theory Mrtd
  imports Bytes "HOL-Library.Word"
begin

unbundle bit_operations_syntax

text \<open>
  \<open>tee/tdx/builder/mrtd.rs\<close>, first part: the prediction of the measurement MRTD from a firmware image.
  The metadata of the image say which parts of memory the firmware is loaded to; MRTD is the hash of
  the records of the operations that load it.

  The hash is a parameter. \<open>None\<close> is a panic (a slice out of range or a negative offset, which ends in one).
  Guest addresses are words of 64 bits and wrap around, as in a release build.
\<close>

section \<open>Locating the metadata\<close>

definition byte_string :: "nat list \<Rightarrow> string" where
  "byte_string ns = map char_of ns"

definition tdvf_metadata_guid :: string where
  "tdvf_metadata_guid = byte_string [53, 101, 122, 228, 74, 152, 152, 71, 134, 94, 70, 133, 167, 191, 142, 194]"

definition table_footer_guid :: string where
  "table_footer_guid = byte_string [222, 130, 181, 150, 178, 31, 247, 69, 186, 234, 163, 102, 197, 90, 8, 45]"

datatype mrtd_error = NotLocated | TooSmall | SignatureMismatch | SectionPastDescriptor nat

text \<open>
  The loop over the entries of the table, from its end: \<open>Some None\<close> is the end of the loop. An entry
  size that exceeds the offset leads to a slice out of range also if the subtraction wraps around.
\<close>

function guid_walk :: "string \<Rightarrow> nat \<Rightarrow> nat option option" where
  "guid_walk table offset =
    (if offset < 18 then Some None
     else do {
       entry_guid \<leftarrow> sub_bytes table (offset - 16) offset;
       entry_size \<leftarrow> le_at table (offset - 18) 2;
       (if entry_size = 0 then Some None
        else if offset < entry_size then None
        else if entry_guid = tdvf_metadata_guid \<and> entry_size = 22
        then do { desc_off \<leftarrow> le_at table (offset - entry_size) 4; Some (Some desc_off) }
        else guid_walk table (offset - entry_size))
     })"
  by pat_completeness auto
termination by (relation "measure snd") auto

declare guid_walk.simps [simp del]

definition legacy_offset :: "string \<Rightarrow> (mrtd_error + nat) option" where
  "legacy_offset ovmf =
    (let len = length ovmf
     in if len \<ge> 40
        then do {
          descriptor_offset \<leftarrow> le_at ovmf (len - 32) 4;
          Some (if descriptor_offset > 0 \<and> descriptor_offset < len then Inr descriptor_offset else Inl NotLocated)
        }
        else Some (Inl NotLocated))"

definition find_tdvf_descriptor_offset :: "string \<Rightarrow> (mrtd_error + nat) option" where
  "find_tdvf_descriptor_offset ovmf =
    (let len = length ovmf
     in if len \<ge> 50
        then do {
          footer_guid \<leftarrow> sub_bytes ovmf (len - 48) (len - 48 + 16);
          (if footer_guid = table_footer_guid
           then do {
             table_size \<leftarrow> le_at ovmf (len - 50) 2;
             (if len - 32 < table_size then None
              else do {
                table \<leftarrow> sub_bytes ovmf (len - 32 - table_size) (len - 32 - table_size + table_size);
                found \<leftarrow> guid_walk table (table_size - 18);
                (case found of
                   Some desc_off \<Rightarrow> if len < desc_off then None else Some (Inr (len - desc_off))
                 | None \<Rightarrow> legacy_offset ovmf)
              })
           }
           else legacy_offset ovmf)
        }
        else legacy_offset ovmf)"

section \<open>Sections\<close>

record tdvf_section =
  ts_data_offset :: nat
  ts_raw_data_size :: nat
  ts_memory_address :: "64 word"
  ts_memory_data_size :: nat
  ts_section_type :: nat
  ts_attributes :: "32 word"

definition attr_mr_extend :: "32 word" where
  "attr_mr_extend = 1"

definition attr_page_aug :: "32 word" where
  "attr_page_aug = 2"

definition parse_section :: "string \<Rightarrow> tdvf_section option" where
  "parse_section s = do {
     data_offset \<leftarrow> le_at s 0 4;
     raw_data_size \<leftarrow> le_at s 4 4;
     memory_address \<leftarrow> le_at s 8 8;
     memory_data_size \<leftarrow> le_at s 16 8;
     section_type \<leftarrow> le_at s 24 4;
     attributes \<leftarrow> le_at s 28 4;
     Some \<lparr>ts_data_offset = data_offset, ts_raw_data_size = raw_data_size, ts_memory_address = of_nat memory_address,
           ts_memory_data_size = memory_data_size, ts_section_type = section_type, ts_attributes = of_nat attributes\<rparr>
   }"

text \<open>The loop: \<open>n\<close> sections are left, the next one is number \<open>i\<close>.\<close>

fun parse_sections_from :: "string \<Rightarrow> nat \<Rightarrow> nat \<Rightarrow> (mrtd_error + tdvf_section list) option" where
  "parse_sections_from desc i 0 = Some (Inr [])"
| "parse_sections_from desc i (Suc n) =
    (let base = 16 + i * 32
     in if base + 32 > length desc then Some (Inl (SectionPastDescriptor i))
        else do {
          s \<leftarrow> sub_bytes desc base (base + 32);
          section \<leftarrow> parse_section s;
          rest \<leftarrow> parse_sections_from desc (i + 1) n;
          Some (map_sum id (\<lambda>ss. section # ss) rest)
        })"

definition parse_tdvf_sections :: "string \<Rightarrow> (mrtd_error + tdvf_section list) option" where
  "parse_tdvf_sections ovmf = do {
     found \<leftarrow> find_tdvf_descriptor_offset ovmf;
     (case found of
        Inl e \<Rightarrow> Some (Inl e)
      | Inr desc_start \<Rightarrow> do {
          desc \<leftarrow> sub_bytes ovmf desc_start (length ovmf);
          (if length desc < 16 then Some (Inl TooSmall)
           else do {
             signature \<leftarrow> sub_bytes desc 0 4;
             (if signature \<noteq> ''TDVF'' then Some (Inl SignatureMismatch)
              else do {
                num_sections \<leftarrow> le_at desc 12 4;
                parse_sections_from desc 0 num_sections
              })
           })
        })
   }"

section \<open>The measurement\<close>

definition section_data :: "string \<Rightarrow> tdvf_section \<Rightarrow> string" where
  "section_data ovmf s =
    (let raw_offset = ts_data_offset s; raw_size = ts_raw_data_size s
     in if raw_size > 0 \<and> raw_offset + raw_size \<le> length ovmf then take raw_size (drop raw_offset ovmf) else [])"

definition num_pages :: "tdvf_section \<Rightarrow> nat" where
  "num_pages s = (ts_memory_data_size s + 4095) div 4096"

definition add_buf :: "64 word \<Rightarrow> string" where
  "add_buf page_gpa = ''MEM.PAGE.ADD'' @ nuls 4 @ le_bytes 8 (unat page_gpa) @ nuls 104"

definition ext_header :: "64 word \<Rightarrow> string" where
  "ext_header chunk_gpa = ''MR.EXTEND'' @ nuls 7 @ le_bytes 8 (unat chunk_gpa) @ nuls 104"

definition page_gpa :: "tdvf_section \<Rightarrow> nat \<Rightarrow> 64 word" where
  "page_gpa s page_idx = ts_memory_address s + of_nat page_idx * 4096"

definition page_data :: "string \<Rightarrow> nat \<Rightarrow> string" where
  "page_data data page_idx =
    (let start = page_idx * 4096
     in if start < length data
        then (let copy_len = min (length data - start) 4096 in take copy_len (drop start data) @ nuls (4096 - copy_len))
        else nuls 4096)"

text \<open>The byte strings the hasher is updated with.\<close>

definition chunk_updates :: "64 word \<Rightarrow> string \<Rightarrow> nat \<Rightarrow> string list" where
  "chunk_updates gpa page chunk_idx =
    [ext_header (gpa + of_nat chunk_idx * 256), take 256 (drop (chunk_idx * 256) page)]"

definition section_updates :: "string \<Rightarrow> tdvf_section \<Rightarrow> string list" where
  "section_updates ovmf s =
    (if ts_attributes s AND attr_page_aug \<noteq> 0 then []
     else map (\<lambda>i. add_buf (page_gpa s i)) [0..<num_pages s] @
       (if ts_attributes s AND attr_mr_extend \<noteq> 0
        then concat (map (\<lambda>i. concat (map (chunk_updates (page_gpa s i) (page_data (section_data ovmf s) i)) [0..<16])) [0..<num_pages s])
        else []))"

definition compute_mrtd :: "(string \<Rightarrow> string) \<Rightarrow> string \<Rightarrow> (mrtd_error + string) option" where
  "compute_mrtd sha384 ovmf = do {
     parsed \<leftarrow> parse_tdvf_sections ovmf;
     Some (map_sum id (\<lambda>sections. sha384 (concat (concat (map (section_updates ovmf) sections)))) parsed)
   }"

section \<open>What is measured\<close>

text \<open>
  The operations of the TDX module that load a section: a page is added, and a chunk of 256 bytes of
  its contents is measured. The record of an operation is what the module hashes.
\<close>

datatype td_op = PageAdd "64 word" | MrExtend "64 word" string

fun td_op_bytes :: "td_op \<Rightarrow> string" where
  "td_op_bytes (PageAdd gpa) = add_buf gpa"
| "td_op_bytes (MrExtend gpa chunk) = ext_header gpa @ chunk"

fun td_op_valid :: "td_op \<Rightarrow> bool" where
  "td_op_valid (PageAdd gpa) = True"
| "td_op_valid (MrExtend gpa chunk) = (length chunk = 256)"

text \<open>The contents of \<open>n\<close> pages: the data, cut off or continued with zeros.\<close>

definition memory_image :: "string \<Rightarrow> nat \<Rightarrow> string" where
  "memory_image data n = take (4096 * n) (data @ nuls (4096 * n))"

definition section_ops :: "string \<Rightarrow> tdvf_section \<Rightarrow> td_op list" where
  "section_ops ovmf s =
    (if ts_attributes s AND attr_page_aug \<noteq> 0 then []
     else map (\<lambda>i. PageAdd (ts_memory_address s + of_nat (4096 * i))) [0..<num_pages s] @
       (if ts_attributes s AND attr_mr_extend \<noteq> 0
        then map (\<lambda>k. MrExtend (ts_memory_address s + of_nat (256 * k))
               (take 256 (drop (256 * k) (memory_image (section_data ovmf s) (num_pages s))))) [0..<16 * num_pages s]
        else []))"

lemma le_bytes_word_inj: "le_bytes 8 (unat (a :: 64 word)) = le_bytes 8 (unat b) \<longleftrightarrow> a = b"
proof -
  have "unat w < 256 ^ 8" for w :: "64 word" using unsigned_less [of w] by simp
  then show ?thesis using be_bytes_inj [of "unat a" 8 "unat b"] by (simp add: le_bytes_def word_unat_eq_iff)
qed

interpretation td_code: prefix_code td_op_bytes td_op_valid
proof
  fix x y :: td_op and r s
  assume "td_op_valid x" "td_op_valid y" "td_op_bytes x @ r = td_op_bytes y @ s"
  then show "x = y"
    by (cases x; cases y) (simp_all add: add_buf_def ext_header_def le_bytes_word_inj)
next
  show "td_op_bytes x \<noteq> []" for x by (cases x) (simp_all add: add_buf_def ext_header_def)
qed

lemma length_memory_image [simp]: "length (memory_image data n) = 4096 * n"
  by (simp add: memory_image_def)

lemma page_data_eq:
  assumes "i < n"
  shows "page_data data i = take 4096 (drop (4096 * i) (memory_image data n))"
proof -
  have n: "4096 \<le> 4096 * n - 4096 * i" using assms by (simp add: diff_mult_distrib2 [symmetric])
  then have "take 4096 (drop (4096 * i) (memory_image data n)) = take 4096 (drop (4096 * i) (data @ nuls (4096 * n)))"
    by (simp only: memory_image_def drop_take take_take min_absorb1)
  also have "\<dots> = page_data data i"
    using n by (auto simp: page_data_def Let_def mult.commute nuls_def min_def)
  finally show ?thesis ..
qed

lemma chunk_eq:
  assumes "i < n" and "j < 16"
  shows "take 256 (drop (j * 256) (page_data data i)) = take 256 (drop (256 * (16 * i + j)) (memory_image data n))"
proof -
  have "256 \<le> 4096 - j * 256" using assms(2) by simp
  then have "take 256 (drop (j * 256) (take 4096 (drop (4096 * i) m))) = take 256 (drop (j * 256) (drop (4096 * i) m))" for m :: string
    by (simp only: drop_take take_take min_absorb1)
  moreover have "j * 256 + 4096 * i = 256 * (16 * i + j)" by simp
  ultimately show ?thesis by (simp only: page_data_eq [OF assms(1)] drop_drop)
qed

lemma concat_map_pages:
  "concat (map (\<lambda>i. map (\<lambda>j. f (16 * i + j)) [0..<16]) [0..<n]) = map f [0..<16 * n]"
proof (induction n)
  case (Suc n)
  have "map (\<lambda>j. f (16 * n + j)) [0..<16] = map f [16 * n..<16 * n + 16]"
    using map_add_upt [of "16 * n" 16] by (simp add: add.commute flip: map_map [of f "\<lambda>j. j + 16 * n", unfolded comp_def])
  moreover have "[0..<16 * Suc n] = [0..<16 * n] @ [16 * n..<16 * n + 16]"
    using upt_add_eq_append [of 0 "16 * n" 16] by (simp add: add.commute)
  ultimately show ?case using Suc by simp
qed simp

lemma concat_concat: "concat (concat xsss) = concat (map concat xsss)"
  by (induction xsss) simp_all

lemma section_updates_ops: "concat (section_updates ovmf s) = concat (map td_op_bytes (section_ops ovmf s))"
proof -
  let ?m = "memory_image (section_data ovmf s) (num_pages s)"
  let ?f = "\<lambda>k. MrExtend (ts_memory_address s + of_nat (256 * k)) (take 256 (drop (256 * k) ?m))"
  have c: "concat (chunk_updates (page_gpa s i) (page_data (section_data ovmf s) i) j) = td_op_bytes (?f (16 * i + j))"
    if "i < num_pages s" "j < 16" for i j
    using chunk_eq [OF that, of "section_data ovmf s"]
    by (simp add: chunk_updates_def page_gpa_def algebra_simps)
  have p: "concat (concat (map (chunk_updates (page_gpa s i) (page_data (section_data ovmf s) i)) [0..<16])) =
      concat (map td_op_bytes (map (\<lambda>j. ?f (16 * i + j)) [0..<16]))" if "i < num_pages s" for i
  proof -
    have "map (\<lambda>j. concat (chunk_updates (page_gpa s i) (page_data (section_data ovmf s) i) j)) [0..<16] =
        map (\<lambda>j. td_op_bytes (?f (16 * i + j))) [0..<16]"
      by (rule map_cong [OF refl]) (rule c [OF that], simp)
    then show ?thesis by (simp only: concat_concat map_map comp_def)
  qed
  have "concat (concat (map (\<lambda>i. concat (map (chunk_updates (page_gpa s i) (page_data (section_data ovmf s) i)) [0..<16])) [0..<num_pages s])) =
      concat (map (\<lambda>i. concat (map td_op_bytes (map (\<lambda>j. ?f (16 * i + j)) [0..<16]))) [0..<num_pages s])"
    unfolding concat_concat map_map comp_def
    by (rule arg_cong [of _ _ concat], rule map_cong [OF refl]) (use p in \<open>simp add: concat_concat comp_def\<close>)
  also have "\<dots> = concat (map td_op_bytes (concat (map (\<lambda>i. map (\<lambda>j. ?f (16 * i + j)) [0..<16]) [0..<num_pages s])))"
    by (simp only: map_concat concat_concat map_map comp_def)
  finally have e: "concat (concat (map (\<lambda>i. concat (map (chunk_updates (page_gpa s i) (page_data (section_data ovmf s) i)) [0..<16])) [0..<num_pages s])) =
      concat (map td_op_bytes (map ?f [0..<16 * num_pages s]))"
    unfolding concat_map_pages [of ?f] .
  show ?thesis
    using e by (simp add: section_updates_def section_ops_def page_gpa_def comp_def mult.commute)
qed

lemma section_ops_valid: "list_all td_op_valid (section_ops ovmf s)"
proof -
  have "256 \<le> 4096 * n - 256 * k" if "k < 16 * n" for k n :: nat using that by linarith
  then show ?thesis by (auto simp: section_ops_def list_all_iff min_absorb2)
qed

section \<open>Images with a table of identifiers\<close>

text \<open>An entry of the table: its data, its size and its identifier; the footer has the size of the table.\<close>

definition guid_entry :: "string \<times> string \<Rightarrow> string" where
  "guid_entry e = snd e @ le_bytes 2 (length (snd e) + 18) @ fst e"

definition guid_entries :: "(string \<times> string) list \<Rightarrow> string" where
  "guid_entries es = concat (map guid_entry es)"

definition guid_table :: "(string \<times> string) list \<Rightarrow> string" where
  "guid_table es = guid_entries es @ le_bytes 2 (length (guid_entries es) + 18) @ table_footer_guid"

definition guid_entry_ok :: "string \<times> string \<Rightarrow> bool" where
  "guid_entry_ok e \<longleftrightarrow> length (fst e) = 16 \<and> length (snd e) + 18 < 65536"

definition is_metadata :: "string \<times> string \<Rightarrow> bool" where
  "is_metadata e \<longleftrightarrow> fst e = tdvf_metadata_guid \<and> length (snd e) = 4"

definition metadata_offset :: "(string \<times> string) list \<Rightarrow> nat option" where
  "metadata_offset es = map_option (\<lambda>e. le_value (snd e)) (List.find is_metadata (rev es))"

lemma length_guids [simp]: "length tdvf_metadata_guid = 16" "length table_footer_guid = 16"
  by (simp_all add: tdvf_metadata_guid_def table_footer_guid_def byte_string_def)

lemma guid_walk_entries:
  assumes "list_all guid_entry_ok es"
  shows "guid_walk (guid_entries es @ r) (length (guid_entries es)) = Some (metadata_offset es)"
  using assms
proof (induction es arbitrary: r rule: rev_induct)
  case Nil
  then show ?case by (simp add: guid_walk.simps guid_entries_def metadata_offset_def)
next
  case (snoc e es)
  let ?p = "guid_entries es" and ?d = "snd e" and ?g = "fst e"
  have ok: "length ?g = 16" "length ?d + 18 < 65536" using snoc.prems by (simp_all add: guid_entry_ok_def)
  let ?o = "length (guid_entries (es @ [e]))"
  have es: "guid_entries (es @ [e]) = ?p @ ?d @ le_bytes 2 (length ?d + 18) @ ?g"
    by (simp add: guid_entries_def guid_entry_def)
  have o: "?o = length ?p + length ?d + 18" using ok(1) by (simp add: es)
  have g: "sub_bytes (guid_entries (es @ [e]) @ r) (?o - 16) ?o = Some ?g"
    using slice_middle [of "?o - 16" "?p @ ?d @ le_bytes 2 (length ?d + 18)" ?o ?g r] ok(1) by (simp add: es)
  have sz: "le_at (guid_entries (es @ [e]) @ r) (?o - 18) 2 = Some (length ?d + 18)"
    using le_at_middle [of "?o - 18" "?p @ ?d" 2 "le_bytes 2 (length ?d + 18)" "?g @ r"] ok by (simp add: es le_value_le_bytes)
  have d: "le_at (guid_entries (es @ [e]) @ r) (?o - 22) 4 = Some (le_value ?d)" if "length ?d = 4"
  proof -
    have "?o - 22 = length ?p" using o that by simp
    moreover have "le_at (?p @ ?d @ (le_bytes 2 (length ?d + 18) @ ?g @ r)) (length ?p) 4 = Some (le_value ?d)"
      by (rule le_at_middle) (simp_all only: that)
    ultimately show ?thesis by (simp only: es append.assoc)
  qed
  have rest: "guid_walk (guid_entries (es @ [e]) @ r) (length ?p) = Some (metadata_offset es)"
    using snoc by (simp add: es)
  have o': "?o - (length ?d + 18) = length ?p" using o by simp
  show ?case
    using g sz d rest o o' by (subst guid_walk.simps) (auto simp: metadata_offset_def is_metadata_def)
qed

lemma find_in_table:
  assumes "list_all guid_entry_ok es" and "length (guid_table es) < 65536" and "length tail = 32"
    and "metadata_offset es = Some d" and "d \<le> length (pre @ guid_table es @ tail)"
  shows "find_tdvf_descriptor_offset (pre @ guid_table es @ tail) = Some (Inr (length (pre @ guid_table es @ tail) - d))"
proof -
  define t where "t = length (guid_table es)"
  define ovmf where "ovmf = pre @ guid_table es @ tail"
  have t: "t = length (guid_entries es) + 18" by (simp add: t_def guid_table_def)
  have len: "length ovmf = length pre + t + 32" by (simp add: ovmf_def t_def assms(3))
  have o: "ovmf = pre @ guid_entries es @ le_bytes 2 t @ table_footer_guid @ tail"
    by (simp add: ovmf_def guid_table_def t)
  have footer: "sub_bytes ovmf (length ovmf - 48) (length ovmf - 48 + 16) = Some table_footer_guid"
    using slice_middle [of "length ovmf - 48" "pre @ guid_entries es @ le_bytes 2 t" "length ovmf - 48 + 16" table_footer_guid tail]
    by (simp add: len t) (simp add: o t)
  have size: "le_at ovmf (length ovmf - 50) 2 = Some t"
    using le_at_middle [of "length ovmf - 50" "pre @ guid_entries es" 2 "le_bytes 2 t" "table_footer_guid @ tail"] assms(2)
    by (simp add: len t le_value_le_bytes t_def [symmetric]) (simp add: o t)
  have table: "sub_bytes ovmf (length ovmf - 32 - t) (length ovmf - 32 - t + t) = Some (guid_table es)"
    using slice_middle [of "length pre" pre "length pre + t" "guid_table es" tail] by (simp add: len t_def [symmetric] flip: ovmf_def)
  have "guid_walk (guid_table es) (t - 18) = Some (Some d)"
    using guid_walk_entries [OF assms(1)] assms(4) by (simp add: t guid_table_def)
  then have "find_tdvf_descriptor_offset ovmf = Some (Inr (length ovmf - d))"
    using footer size table assms(5) by (simp add: find_tdvf_descriptor_offset_def len t flip: ovmf_def)
  then show ?thesis by (simp add: ovmf_def)
qed

section \<open>Sections in the image\<close>

definition section_bytes :: "tdvf_section \<Rightarrow> string" where
  "section_bytes s =
    le_bytes 4 (ts_data_offset s) @ le_bytes 4 (ts_raw_data_size s) @ le_bytes 8 (unat (ts_memory_address s)) @
    le_bytes 8 (ts_memory_data_size s) @ le_bytes 4 (ts_section_type s) @ le_bytes 4 (unat (ts_attributes s))"

definition section_ok :: "tdvf_section \<Rightarrow> bool" where
  "section_ok s \<longleftrightarrow> ts_data_offset s < 2 ^ 32 \<and> ts_raw_data_size s < 2 ^ 32 \<and> ts_memory_data_size s < 2 ^ 64 \<and> ts_section_type s < 2 ^ 32"

definition descriptor :: "nat \<Rightarrow> nat \<Rightarrow> tdvf_section list \<Rightarrow> string" where
  "descriptor len version ss =
    ''TDVF'' @ le_bytes 4 len @ le_bytes 4 version @ le_bytes 4 (length ss) @ concat (map section_bytes ss)"

lemma length_section_bytes [simp]: "length (section_bytes s) = 32"
  by (simp add: section_bytes_def)

lemma length_section_list [simp]: "length (concat (map section_bytes ss)) = 32 * length ss"
  by (induction ss) simp_all

lemma parse_section_bytes:
  assumes "section_ok s"
  shows "parse_section (section_bytes s) = Some s"
proof -
  let ?a = "le_bytes 4 (ts_data_offset s)" and ?b = "le_bytes 4 (ts_raw_data_size s)" and ?c = "le_bytes 8 (unat (ts_memory_address s))"
    and ?d = "le_bytes 8 (ts_memory_data_size s)" and ?e = "le_bytes 4 (ts_section_type s)" and ?f = "le_bytes 4 (unat (ts_attributes s))"
  have w: "unat (ts_memory_address s) < 256 ^ 8" "unat (ts_attributes s) < 256 ^ 4"
    using unsigned_less [of "ts_memory_address s"] unsigned_less [of "ts_attributes s"] by simp_all
  have "le_at (section_bytes s) 0 4 = Some (ts_data_offset s)" "le_at (section_bytes s) 4 4 = Some (ts_raw_data_size s)"
    "le_at (section_bytes s) 8 8 = Some (unat (ts_memory_address s))" "le_at (section_bytes s) 16 8 = Some (ts_memory_data_size s)"
    "le_at (section_bytes s) 24 4 = Some (ts_section_type s)" "le_at (section_bytes s) 28 4 = Some (unat (ts_attributes s))"
    using assms w le_at_middle [of 0 "[]" 4 ?a "?b @ ?c @ ?d @ ?e @ ?f"] le_at_middle [of 4 ?a 4 ?b "?c @ ?d @ ?e @ ?f"]
      le_at_middle [of 8 "?a @ ?b" 8 ?c "?d @ ?e @ ?f"] le_at_middle [of 16 "?a @ ?b @ ?c" 8 ?d "?e @ ?f"]
      le_at_middle [of 24 "?a @ ?b @ ?c @ ?d" 4 ?e ?f] le_at_middle [of 28 "?a @ ?b @ ?c @ ?d @ ?e" 4 ?f "[]"]
    by (simp_all add: section_bytes_def section_ok_def le_value_le_bytes)
  then show ?thesis by (simp add: parse_section_def)
qed

lemma parse_sections_concat:
  assumes "list_all section_ok ss" and "length h = 16 + 32 * i"
  shows "parse_sections_from (h @ concat (map section_bytes ss) @ r) i (length ss) = Some (Inr ss)"
  using assms
proof (induction ss arbitrary: h i)
  case (Cons s ss)
  have "sub_bytes (h @ section_bytes s @ concat (map section_bytes ss) @ r) (16 + i * 32) (16 + i * 32 + 32) = Some (section_bytes s)"
    using slice_middle [of "16 + i * 32" h "16 + i * 32 + 32" "section_bytes s" "concat (map section_bytes ss) @ r"] Cons.prems(2) by simp
  moreover have "parse_sections_from (h @ section_bytes s @ concat (map section_bytes ss) @ r) (i + 1) (length ss) = Some (Inr ss)"
    using Cons.IH [of "h @ section_bytes s" "i + 1"] Cons.prems by simp
  ultimately show ?case using Cons.prems by (simp add: parse_section_bytes)
qed simp

lemma parse_located:
  assumes "find_tdvf_descriptor_offset (pre @ descriptor len version ss @ r) = Some (Inr (length pre))"
    and "list_all section_ok ss" and "length ss < 2 ^ 32"
  shows "parse_tdvf_sections (pre @ descriptor len version ss @ r) = Some (Inr ss)"
proof -
  define h where "h = ''TDVF'' @ le_bytes 4 len @ le_bytes 4 version @ le_bytes 4 (length ss)"
  have h: "length h = 16" "sub_bytes (h @ x) 0 4 = Some ''TDVF''" for x by (simp_all add: h_def sub_bytes_def)
  have n: "le_at (h @ x) 12 4 = Some (length ss)" for x
    using le_at_middle [of 12 "''TDVF'' @ le_bytes 4 len @ le_bytes 4 version" 4 "le_bytes 4 (length ss)" x] assms(3)
    by (simp add: h_def le_value_le_bytes)
  have d: "descriptor len version ss = h @ concat (map section_bytes ss)" by (simp add: descriptor_def h_def)
  have "sub_bytes (pre @ x) (length pre) (length (pre @ x)) = Some x" for x by (simp add: sub_bytes_def)
  then show ?thesis
    unfolding parse_tdvf_sections_def assms(1) bind.simps sum.case using parse_sections_concat [OF assms(2), of h 0 r] h n
    by (simp add: d del: length_append) simp
qed

section \<open>Properties\<close>

text \<open>
  The metadata of a well-formed image are found and read: if the image has a table of identifiers at its
  end in which the metadata entry with the highest position points to a descriptor, parsing gives
  exactly the sections of that descriptor. It does not panic, whatever else the table and the image
  contain.
\<close>

theorem firmware_sections_found:
  assumes "ovmf = pre @ descriptor len version ss @ mid @ guid_table es @ tail" and "length tail = 32"
    and "list_all guid_entry_ok es" and "length (guid_table es) < 65536"
    and "metadata_offset es = Some (length (descriptor len version ss @ mid @ guid_table es @ tail))"
    and "list_all section_ok ss" and "length ss < 2 ^ 32"
  shows "parse_tdvf_sections ovmf = Some (Inr ss)"
proof -
  have "find_tdvf_descriptor_offset ((pre @ descriptor len version ss @ mid) @ guid_table es @ tail) =
      Some (Inr (length ((pre @ descriptor len version ss @ mid) @ guid_table es @ tail) -
        length (descriptor len version ss @ mid @ guid_table es @ tail)))"
    by (rule find_in_table [OF assms(3,4,2,5)]) simp
  then have "find_tdvf_descriptor_offset ovmf = Some (Inr (length pre))" by (simp add: assms(1))
  then show ?thesis unfolding assms(1) by (rule parse_located [OF _ assms(6,7)])
qed

definition ex_section :: tdvf_section where
  "ex_section = \<lparr>ts_data_offset = 0, ts_raw_data_size = 0, ts_memory_address = 4096, ts_memory_data_size = 4096, ts_section_type = 0,
    ts_attributes = 1\<rparr>"

definition ex_image :: "nat \<Rightarrow> string" where
  "ex_image version = descriptor 48 version [ex_section] @ guid_table [(tdvf_metadata_guid, le_bytes 4 120)] @ nuls 32"

theorem firmware_sections_found_witness: "parse_tdvf_sections (ex_image 1) = Some (Inr [ex_section])"
  by (rule firmware_sections_found [of _ "[]" 48 1 _ "[]" "[(tdvf_metadata_guid, le_bytes 4 120)]" "nuls 32"])
    (simp_all add: ex_image_def guid_entry_ok_def guid_table_def guid_entries_def guid_entry_def metadata_offset_def is_metadata_def
      le_value_le_bytes descriptor_def section_ok_def ex_section_def)

text \<open>
  C34. MRTD identifies what is loaded. The bytes that are hashed are the records of a sequence of
  operations: for each section in order its pages, and if it is measured the chunks of its memory, which is
  the data in the file continued with zeros. Two images have the same MRTD exactly if these operations
  are the same: the same pages, and the same contents of the measured ones, as long as the two inputs
  do not collide.
\<close>

theorem mrtd_identifies_memory:
  assumes "parse_tdvf_sections ovmf = Some (Inr ss)" and "parse_tdvf_sections ovmf' = Some (Inr ss')"
    and "inj_on sha384 {concat (map td_op_bytes (concat (map (section_ops ovmf) ss))), concat (map td_op_bytes (concat (map (section_ops ovmf') ss')))}"
  shows "compute_mrtd sha384 ovmf = compute_mrtd sha384 ovmf' \<longleftrightarrow>
    concat (map (section_ops ovmf) ss) = concat (map (section_ops ovmf') ss')"
proof -
  have in_ops: "concat (concat (map (section_updates o') xs)) = concat (map td_op_bytes (concat (map (section_ops o') xs)))" for o' xs
    by (induction xs) (simp_all add: section_updates_ops)
  have valid: "list_all td_op_valid (concat (map (section_ops o') xs))" for o' xs
    using section_ops_valid by (induction xs) simp_all
  have "compute_mrtd sha384 ovmf = compute_mrtd sha384 ovmf' \<longleftrightarrow>
      concat (map td_op_bytes (concat (map (section_ops ovmf) ss))) = concat (map td_op_bytes (concat (map (section_ops ovmf') ss')))"
    using inj_on_eq_iff [OF assms(3)] by (simp add: compute_mrtd_def assms(1,2) in_ops)
  then show ?thesis using td_code.concat_inj [OF valid valid] by auto
qed

lemma ex_image_parsed: "parse_tdvf_sections (ex_image v) = Some (Inr [ex_section])"
proof -
  let ?es = "[(tdvf_metadata_guid, le_bytes 4 120)]"
  have "find_tdvf_descriptor_offset (descriptor 48 v [ex_section] @ guid_table ?es @ nuls 32) =
      Some (Inr (length (descriptor 48 v [ex_section] @ guid_table ?es @ nuls 32) - 120))"
    by (rule find_in_table) (simp_all add: guid_entry_ok_def guid_table_def guid_entries_def guid_entry_def metadata_offset_def
        is_metadata_def le_value_le_bytes descriptor_def)
  then show ?thesis
    using parse_located [of "[]" 48 v "[ex_section]" "guid_table ?es @ nuls 32"]
    by (simp add: ex_image_def descriptor_def guid_table_def guid_entries_def guid_entry_def section_ok_def ex_section_def)
qed

theorem mrtd_identifies_memory_witness: "compute_mrtd id (ex_image 1) = compute_mrtd id (ex_image 2)"
proof -
  have "section_ops (ex_image 1) ex_section = section_ops (ex_image 2) ex_section"
    by (simp add: section_ops_def section_data_def ex_section_def)
  then show ?thesis using mrtd_identifies_memory [OF ex_image_parsed ex_image_parsed, of id 1 2] by simp
qed

end
