(* ===== verification/Boot_Measure.thy ===== *)
theory Boot_Measure
  imports Mrtd
begin

text \<open>
  \<open>tee/tdx/builder/mrtd.rs\<close>, second part: the prediction of the registers RTMR[1] (the kernel) and RTMR[2] (the
  command line and the initrd). As for MRTD the hash is a parameter and \<open>None\<close> is a panic; the
  command line is the list of its Unicode scalar values, the setting of the memory size is ASCII.
\<close>

section \<open>RTMR[2]\<close>

definition scalar_ok :: "nat \<Rightarrow> bool" where
  "scalar_ok c \<longleftrightarrow> c < 55296 \<or> (57344 \<le> c \<and> c < 1114112)"

text \<open>\<open>encode_utf16\<close> of one character, and its bytes.\<close>

definition encode_utf16 :: "nat \<Rightarrow> nat list" where
  "encode_utf16 c = (if c < 65536 then [c] else [55296 + (c - 65536) div 1024, 56320 + (c - 65536) mod 1024])"

definition utf16_bytes :: "nat \<Rightarrow> string" where
  "utf16_bytes c = concat (map (le_bytes 2) (encode_utf16 c))"

definition rtmr_extend :: "(string \<Rightarrow> string) \<Rightarrow> string \<Rightarrow> string \<Rightarrow> string" where
  "rtmr_extend sha384 rtmr preimage = sha384 (rtmr @ sha384 preimage)"

definition measured_cmdline :: "nat list \<Rightarrow> string \<Rightarrow> nat list" where
  "measured_cmdline cmdline initrd = (if initrd = [] then cmdline @ [0] else cmdline @ map of_char '' initrd=initrd'' @ [0])"

definition compute_rtmr2 :: "(string \<Rightarrow> string) \<Rightarrow> nat list \<Rightarrow> string \<Rightarrow> string" where
  "compute_rtmr2 sha384 cmdline initrd =
    (let r = rtmr_extend sha384 (nuls 48) (concat (map utf16_bytes (measured_cmdline cmdline initrd)))
     in if initrd = [] then r else rtmr_extend sha384 r initrd)"

section \<open>The layout of the memory\<close>

definition is_space :: "char \<Rightarrow> bool" where
  "is_space c \<longleftrightarrow> (of_char c :: nat) \<in> {9, 10, 11, 12, 13, 32}"

definition trim :: "string \<Rightarrow> string" where
  "trim s = rev (dropWhile is_space (rev (dropWhile is_space s)))"

definition strip_suffix :: "char \<Rightarrow> string \<Rightarrow> string option" where
  "strip_suffix c s = (if s \<noteq> [] \<and> last s = c then Some (butlast s) else None)"

definition digit_step :: "nat option \<Rightarrow> char \<Rightarrow> nat option" where
  "digit_step a c =
    (case a of
       None \<Rightarrow> None
     | Some v \<Rightarrow> let d = of_char c in if 48 \<le> d \<and> d \<le> 57 then Some (10 * v + (d - 48)) else None)"

text \<open>\<open>parse::<u64>\<close>: a sign is allowed.\<close>

definition parse_u64 :: "string \<Rightarrow> nat option" where
  "parse_u64 s =
    (let ds = (if s \<noteq> [] \<and> hd s = CHR ''+'' then tl s else s)
     in if ds = [] then None
        else case foldl digit_step (Some 0) ds of
               Some v \<Rightarrow> if v < 2 ^ 64 then Some v else None
             | None \<Rightarrow> None)"

definition or_else :: "'a option \<Rightarrow> 'a option \<Rightarrow> 'a option" where
  "or_else a b = (case a of Some x \<Rightarrow> Some x | None \<Rightarrow> b)"

definition parse_memory_bytes :: "string \<Rightarrow> 64 word option" where
  "parse_memory_bytes memory =
    (let s = trim memory
     in case or_else (strip_suffix CHR ''G'' s) (strip_suffix CHR ''g'' s) of
          Some n \<Rightarrow> map_option (\<lambda>v. of_nat v * 1024 * 1024 * 1024) (parse_u64 (trim n))
        | None \<Rightarrow>
            (case or_else (strip_suffix CHR ''M'' s) (strip_suffix CHR ''m'' s) of
               Some n \<Rightarrow> map_option (\<lambda>v. of_nat v * 1024 * 1024) (parse_u64 (trim n))
             | None \<Rightarrow> map_option (\<lambda>v. of_nat v * 1024 * 1024) (parse_u64 s)))"

text \<open>\<open>MemoryLayout\<close> has the one field \<open>below_4g\<close>.\<close>

definition memory_layout :: "64 word \<Rightarrow> 64 word" where
  "memory_layout ram =
    (let lowmem = (if ram \<ge> 2952790016 then 2147483648 else 2952790016)
     in if ram \<ge> lowmem then lowmem else ram)"

definition acpi_data_size :: "64 word" where
  "acpi_data_size = 131072 + 32768"

section \<open>The setup header of the kernel\<close>

record kernel_setup =
  ks_protocol :: nat
  ks_high :: bool
  ks_initrd_max :: "64 word"

text \<open>What is read from the header: the protocol, whether the kernel is loaded high, the bound for the initrd.\<close>

definition read_setup :: "string \<Rightarrow> 64 word \<Rightarrow> kernel_setup option" where
  "read_setup vmlinuz below_4g = do {
     magic \<leftarrow> sub_bytes vmlinuz 514 518;
     protocol \<leftarrow> (if magic = ''HdrS'' then le_at vmlinuz 518 2 else Some 0);
     loadflags \<leftarrow> (if protocol \<ge> 514 then le_at vmlinuz 529 1 else Some 0);
     xloadflags \<leftarrow> (if protocol \<ge> 524 then le_at vmlinuz 566 2 else Some 0);
     initrd_max \<leftarrow> (if protocol \<ge> 524 \<and> bit xloadflags 1 then Some 4294967295
                   else if protocol \<ge> 515 then map_option of_nat (le_at vmlinuz 556 4)
                   else Some 939524095);
     (let mem_cap = below_4g - acpi_data_size
      in Some \<lparr>ks_protocol = protocol, ks_high = bit loadflags 0,
               ks_initrd_max = (if initrd_max \<ge> mem_cap then mem_cap - 1 else initrd_max)\<rparr>)
   }"

definition real_addr :: "kernel_setup \<Rightarrow> 32 word" where
  "real_addr ks = (if ks_high ks then 65536 else 589824)"

definition cmdline_addr :: "kernel_setup \<Rightarrow> 32 word" where
  "cmdline_addr ks = (if ks_high ks then 131072 else 630784 - 32)"

definition low_half :: "32 word \<Rightarrow> nat" where
  "low_half w = unat w mod 65536"

definition patch_cmdline :: "kernel_setup \<Rightarrow> string \<Rightarrow> string option" where
  "patch_cmdline ks k =
    (if ks_protocol ks \<ge> 514 then put_bytes 552 (le_bytes 4 (unat (cmdline_addr ks))) k
     else do {
       k1 \<leftarrow> put_bytes 32 (le_bytes 2 41791) k;
       put_bytes 34 (le_bytes 2 (low_half (cmdline_addr ks - real_addr ks))) k1
     })"

definition patch_loader :: "kernel_setup \<Rightarrow> string \<Rightarrow> string option" where
  "patch_loader ks k = do {
     k1 \<leftarrow> (if ks_protocol ks \<ge> 512 then put_bytes 528 (le_bytes 1 176) k else Some k);
     (if ks_protocol ks \<ge> 513
      then do {
        flags \<leftarrow> le_at k1 529 1;
        k2 \<leftarrow> put_bytes 529 (le_bytes 1 (flags OR 128)) k1;
        put_bytes 548 (le_bytes 2 (low_half (cmdline_addr ks - real_addr ks - 512))) k2
      }
      else Some k1)
   }"

definition initrd_addr :: "kernel_setup \<Rightarrow> nat \<Rightarrow> 32 word" where
  "initrd_addr ks initrd_len = ucast ((ks_initrd_max ks - of_nat initrd_len) AND NOT (4095 :: 64 word))"

definition patch_initrd :: "kernel_setup \<Rightarrow> nat \<Rightarrow> string \<Rightarrow> string option" where
  "patch_initrd ks initrd_len k =
    (if initrd_len > 0
     then if (of_nat initrd_len :: 64 word) < ks_initrd_max ks
          then do {
            k1 \<leftarrow> put_bytes 536 (le_bytes 4 (unat (initrd_addr ks initrd_len))) k;
            put_bytes 540 (le_bytes 4 (initrd_len mod 2 ^ 32)) k1
          }
          else None
     else Some k)"

definition patch_kernel_setup :: "string \<Rightarrow> nat \<Rightarrow> 64 word \<Rightarrow> string option" where
  "patch_kernel_setup vmlinuz initrd_len below_4g = do {
     ks \<leftarrow> read_setup vmlinuz below_4g;
     k1 \<leftarrow> patch_cmdline ks vmlinuz;
     k2 \<leftarrow> patch_loader ks k1;
     patch_initrd ks initrd_len k2
   }"

section \<open>The hash of a PE file\<close>

record sec_info =
  si_ptr :: nat
  si_size :: nat

record pe_layout =
  pl_opt :: nat
  pl_fixed :: nat
  pl_headers :: nat
  pl_num_rva :: nat
  pl_section_table :: nat
  pl_num_sections :: nat

text \<open>The loop over the section headers; sections without data are left out.\<close>

fun pe_sections :: "string \<Rightarrow> nat \<Rightarrow> nat \<Rightarrow> sec_info list option" where
  "pe_sections data sh 0 = Some []"
| "pe_sections data sh (Suc n) = do {
     raw_size \<leftarrow> le_at data (sh + 16) 4;
     raw_ptr \<leftarrow> le_at data (sh + 20) 4;
     rest \<leftarrow> pe_sections data (sh + 40) n;
     Some (if raw_size > 0 then \<lparr>si_ptr = raw_ptr, si_size = raw_size\<rparr> # rest else rest)
   }"

definition read_pe_layout :: "string \<Rightarrow> pe_layout option" where
  "read_pe_layout data = do {
     e_lfanew \<leftarrow> le_at data 60 4;
     num_sections \<leftarrow> le_at data (e_lfanew + 4 + 2) 2;
     size_of_optional_header \<leftarrow> le_at data (e_lfanew + 4 + 16) 2;
     magic \<leftarrow> le_at data (e_lfanew + 24) 2;
     fixed \<leftarrow> (if magic = 267 then Some 96 else if magic = 523 then Some 112 else None);
     size_of_headers \<leftarrow> le_at data (e_lfanew + 24 + 60) 4;
     num_rva \<leftarrow> le_at data (e_lfanew + 24 + fixed - 4) 4;
     Some \<lparr>pl_opt = e_lfanew + 24, pl_fixed = fixed, pl_headers = size_of_headers, pl_num_rva = num_rva,
           pl_section_table = e_lfanew + 24 + size_of_optional_header, pl_num_sections = num_sections\<rparr>
   }"

definition cert_dir_off :: "pe_layout \<Rightarrow> nat" where
  "cert_dir_off l = pl_opt l + pl_fixed l + 4 * 8"

definition pe_header_parts :: "string \<Rightarrow> pe_layout \<Rightarrow> string option" where
  "pe_header_parts data l = do {
     before \<leftarrow> sub_bytes data 0 (pl_opt l + 64);
     (if pl_num_rva l \<le> 4
      then do { rest \<leftarrow> sub_bytes data (pl_opt l + 68) (pl_headers l); Some (before @ rest) }
      else do {
        middle \<leftarrow> sub_bytes data (pl_opt l + 68) (cert_dir_off l);
        rest \<leftarrow> sub_bytes data (cert_dir_off l + 8) (pl_headers l);
        Some (before @ middle @ rest)
      })
   }"

fun pe_bodies :: "string \<Rightarrow> sec_info list \<Rightarrow> string option" where
  "pe_bodies data [] = Some []"
| "pe_bodies data (s # ss) = do {
     body \<leftarrow> sub_bytes data (si_ptr s) (si_ptr s + si_size s);
     rest \<leftarrow> pe_bodies data ss;
     Some (body @ rest)
   }"

definition pe_trailing :: "string \<Rightarrow> pe_layout \<Rightarrow> nat \<Rightarrow> string option" where
  "pe_trailing data l sum_hashed =
    (if length data > sum_hashed
     then do {
       cert_size \<leftarrow> (if pl_num_rva l > 4 \<and> cert_dir_off l + 4 + 4 \<le> length data then le_at data (cert_dir_off l + 4) 4 else Some 0);
       (if length data > sum_hashed + cert_size then sub_bytes data sum_hashed (length data - cert_size) else Some [])
     }
     else Some [])"

definition pe_hash_preimage :: "string \<Rightarrow> string option" where
  "pe_hash_preimage data = do {
     l \<leftarrow> read_pe_layout data;
     headers \<leftarrow> pe_header_parts data l;
     sections \<leftarrow> pe_sections data (pl_section_table l) (pl_num_sections l);
     bodies \<leftarrow> pe_bodies data (sort_key si_ptr sections);
     trailing \<leftarrow> pe_trailing data l (pl_headers l + sum_list (map si_size (sort_key si_ptr sections)));
     Some (headers @ bodies @ trailing)
   }"

section \<open>RTMR[1]\<close>

definition efi_actions :: "string list" where
  "efi_actions =
    [''Calling EFI Application from Boot Option'', ''Exit Boot Services Invocation'', ''Exit Boot Services Returned with Success'']"

definition compute_rtmr1 :: "(string \<Rightarrow> string) \<Rightarrow> string \<Rightarrow> string \<Rightarrow> string \<Rightarrow> string option" where
  "compute_rtmr1 sha384 vmlinuz initrd memory = do {
     ram \<leftarrow> parse_memory_bytes memory;
     patched \<leftarrow> patch_kernel_setup vmlinuz (length initrd) (memory_layout ram);
     preimage \<leftarrow> pe_hash_preimage patched;
     Some (foldl (rtmr_extend sha384) (rtmr_extend sha384 (nuls 48) preimage) efi_actions)
   }"

section \<open>The encoding of the command line\<close>

lemma le_bytes_2_inj: "a < 65536 \<Longrightarrow> b < 65536 \<Longrightarrow> le_bytes 2 a = le_bytes 2 b \<longleftrightarrow> a = b"
  using be_bytes_inj [of a 2 b] by (simp add: le_bytes_def)

lemma high_surrogate: "c < 1114112 \<Longrightarrow> 55296 + (c - 65536) div 1024 < (56320 :: nat)"
  by (simp add: less_mult_imp_div_less)

lemma utf16_first:
  assumes "scalar_ok c" and "scalar_ok d" and "utf16_bytes c @ r = utf16_bytes d @ s"
  shows "hd (encode_utf16 c) = hd (encode_utf16 d)"
proof -
  have "hd (encode_utf16 x) < 65536" if "scalar_ok x" for x
    using that high_surrogate [of x] by (auto simp: encode_utf16_def scalar_ok_def)
  moreover have "take 2 (utf16_bytes x @ t) = le_bytes 2 (hd (encode_utf16 x))" for x t
    by (simp add: utf16_bytes_def encode_utf16_def)
  ultimately show ?thesis using assms by (metis le_bytes_2_inj)
qed

interpretation utf16_code: prefix_code utf16_bytes scalar_ok
proof
  fix c d r s
  assume ok: "scalar_ok c" "scalar_ok d" and eq: "utf16_bytes c @ r = utf16_bytes d @ s"
  have hd: "hd (encode_utf16 c) = hd (encode_utf16 d)" using utf16_first [OF ok eq] .
  show "c = d"
  proof (cases "c < 65536")
    case True
    then show ?thesis using hd ok high_surrogate [of d] by (auto simp: encode_utf16_def scalar_ok_def split: if_splits)
  next
    case False
    then have d: "\<not> d < 65536" using hd ok high_surrogate [of c] by (auto simp: encode_utf16_def scalar_ok_def split: if_splits)
    have "take 2 (drop 2 (utf16_bytes c @ r)) = take 2 (drop 2 (utf16_bytes d @ s))" using eq by simp
    then have "(c - 65536) mod 1024 = (d - 65536) mod 1024"
      using False d by (simp add: utf16_bytes_def encode_utf16_def le_bytes_2_inj)
    moreover have "(c - 65536) div 1024 = (d - 65536) div 1024" using hd False d by (simp add: encode_utf16_def)
    ultimately have "c - 65536 = d - 65536" by (metis div_mult_mod_eq)
    then show ?thesis using False d by simp
  qed
next
  show "utf16_bytes c \<noteq> []" for c
  proof -
    have "le_bytes 2 n \<noteq> []" for n using length_le_bytes [of 2 n] by (metis list.size(3) zero_neq_numeral)
    then show ?thesis by (simp add: utf16_bytes_def encode_utf16_def)
  qed
qed

lemma of_char_scalar: "scalar_ok (of_char c)"
proof -
  have "(of_char c :: nat) < 55296" using of_char_less [of c] by linarith
  then show ?thesis by (simp add: scalar_ok_def)
qed

text \<open>The byte strings that are hashed for RTMR[2].\<close>

definition rtmr2_inputs :: "(string \<Rightarrow> string) \<Rightarrow> nat list \<Rightarrow> string \<Rightarrow> string list" where
  "rtmr2_inputs sha384 cmdline initrd =
    (let u = concat (map utf16_bytes (measured_cmdline cmdline initrd)); e = nuls 48 @ sha384 u
     in [u, e, initrd, sha384 e @ sha384 initrd])"

lemma rtmr_extend_inj:
  assumes "\<And>s. length (sha384 s) = 48" and "rtmr_extend sha384 r x = rtmr_extend sha384 r' x'" and "length r = length r'"
    and "inj_on sha384 A" and "{x, x', r @ sha384 x, r' @ sha384 x'} \<subseteq> A"
  shows "r = r' \<and> x = x'"
proof -
  have "r @ sha384 x = r' @ sha384 x'"
    using assms(2,5) inj_onD [OF assms(4), of "r @ sha384 x" "r' @ sha384 x'"] by (simp add: rtmr_extend_def)
  then have "r = r' \<and> sha384 x = sha384 x'" using assms(3) by simp
  then show ?thesis using assms(5) inj_onD [OF assms(4), of x x'] by simp
qed

section \<open>The placement of the initrd\<close>

lemma and_not_4095: "unat ((w :: 64 word) AND NOT 4095) = 4096 * (unat w div 4096)"
proof -
  have "(4095 :: 64 word) = mask 12" by (simp add: mask_eq_exp_minus_1)
  moreover have "w AND NOT (mask 12) = push_bit 12 (drop_bit 12 w)" by (rule bit_eqI) (auto simp: bit_simps not_less)
  moreover have "unat w < 2 ^ 64" using unsigned_less [of w] by simp
  then have "4096 * (unat w div 4096) < 2 ^ 64" by linarith
  ultimately show ?thesis
    by (simp add: push_bit_eq_mult drop_bit_eq_div mult.commute unat_word_ariths unat_div)
qed

text \<open>A string that differs from another one only at given positions.\<close>

definition same_outside :: "nat set \<Rightarrow> string \<Rightarrow> string \<Rightarrow> bool" where
  "same_outside A s s' \<longleftrightarrow> length s' = length s \<and> (\<forall>i < length s. i \<notin> A \<longrightarrow> s' ! i = s ! i)"

lemma put_same_outside: "put_bytes a b s = Some s' \<Longrightarrow> {a..<a + length b} \<subseteq> A \<Longrightarrow> same_outside A s s'"
  by (auto simp: same_outside_def put_bytes_length nth_put_bytes subset_iff)

lemma same_outside_refl: "same_outside A s s"
  by (simp add: same_outside_def)

lemma same_outside_trans: "same_outside A s t \<Longrightarrow> same_outside A t u \<Longrightarrow> same_outside A s u"
  by (simp add: same_outside_def)

text \<open>The fields QEMU writes: the command line of old protocols, loader, flags, initrd, heap end, command line.\<close>

definition patched_fields :: "nat set" where
  "patched_fields = {32..<36} \<union> {528..<530} \<union> {536..<544} \<union> {548..<550} \<union> {552..<556}"

lemma patch_frame:
  "patch_cmdline ks k = Some k' \<Longrightarrow> same_outside patched_fields k k'"
  "patch_loader ks k = Some k' \<Longrightarrow> same_outside patched_fields k k'"
  "patch_initrd ks n k = Some k' \<Longrightarrow> same_outside patched_fields k k'"
proof -
  note put = put_same_outside [where A = patched_fields]
  show "patch_cmdline ks k = Some k' \<Longrightarrow> same_outside patched_fields k k'"
    by (auto simp: patch_cmdline_def bind_eq_Some_conv patched_fields_def dest!: put split: if_splits intro: same_outside_trans)
  show "patch_loader ks k = Some k' \<Longrightarrow> same_outside patched_fields k k'"
    by (auto simp: patch_loader_def bind_eq_Some_conv patched_fields_def dest!: put split: if_splits
        intro: same_outside_trans same_outside_trans [OF same_outside_trans] same_outside_refl)
  show "patch_initrd ks n k = Some k' \<Longrightarrow> same_outside patched_fields k k'"
    by (auto simp: patch_initrd_def bind_eq_Some_conv patched_fields_def dest!: put split: if_splits intro: same_outside_trans same_outside_refl)
qed

lemma memory_layout_bounds: "unat (memory_layout ram) \<le> unat ram" "unat (memory_layout ram) < 2952790016"
  "163840 < unat ram \<Longrightarrow> 163840 < unat (memory_layout ram)"
  by (auto simp: memory_layout_def Let_def word_le_nat_alt not_le)

lemma read_setup_bound:
  assumes "read_setup vmlinuz below = Some ks" and "163840 < unat below"
  shows "unat (ks_initrd_max ks) < unat below - 163840"
proof -
  define cap where "cap = below - acpi_data_size"
  have cap: "unat cap = unat below - 163840"
    using assms(2) unat_sub [of acpi_data_size below] by (simp add: cap_def acpi_data_size_def word_le_nat_alt)
  then have "unat (cap - 1) < unat cap" using assms(2) unat_sub [of 1 cap] by (simp add: word_le_nat_alt)
  moreover obtain m where "ks_initrd_max ks = (if m \<ge> cap then cap - 1 else m)"
    using assms(1) by (auto simp: read_setup_def bind_eq_Some_conv Let_def simp flip: cap_def)
  ultimately show ?thesis using cap by (auto simp: word_le_nat_alt split: if_splits)
qed

lemma initrd_addr_value:
  assumes "n < 2 ^ 64" and "(of_nat n :: 64 word) < ks_initrd_max ks" and "unat (ks_initrd_max ks) < 2 ^ 32"
  shows "unat (initrd_addr ks n) = 4096 * ((unat (ks_initrd_max ks) - n) div 4096)" and "n < unat (ks_initrd_max ks)"
proof -
  let ?m = "ks_initrd_max ks"
  have n: "unat (of_nat n :: 64 word) = n" using assms(1) by (simp add: unat_of_nat)
  then show lt: "n < unat ?m" using assms(2) by (simp add: word_less_nat_alt)
  have "unat (?m - of_nat n) = unat ?m - n" using unat_sub [of "of_nat n" ?m] assms(2) n by simp
  then have a: "unat ((?m - of_nat n) AND NOT 4095) = 4096 * ((unat ?m - n) div 4096)" by (simp only: and_not_4095)
  moreover have "4096 * ((unat ?m - n) div 4096) < 2 ^ 32" using assms(3) by linarith
  ultimately show "unat (initrd_addr ks n) = 4096 * ((unat ?m - n) div 4096)"
    unfolding initrd_addr_def unsigned_ucast_eq by (simp add: take_bit_eq_mod)
qed

section \<open>The hash of the kernel\<close>

lemma pe_sections_put:
  assumes "put_bytes a b data = Some data'" and "a + length b \<le> sh"
  shows "pe_sections data' sh n = pe_sections data sh n"
  using assms(2) by (induction n arbitrary: sh) (simp_all add: le_at_put_other [OF assms(1)])

lemma pe_bodies_put:
  assumes "put_bytes a b data = Some data'" and "list_all (\<lambda>s. a + length b \<le> si_ptr s) ss"
  shows "pe_bodies data' ss = pe_bodies data ss"
  using assms(2) by (induction ss) (simp_all add: slice_put_other [OF assms(1)])

text \<open>Sections whose headers and bodies are behind the checksum.\<close>

definition pe_ordered :: "string \<Rightarrow> pe_layout \<Rightarrow> bool" where
  "pe_ordered data l \<longleftrightarrow> pl_opt l + 68 \<le> pl_section_table l \<and> pl_opt l + 68 \<le> pl_headers l \<and>
    (case pe_sections data (pl_section_table l) (pl_num_sections l) of
       None \<Rightarrow> True
     | Some ss \<Rightarrow> list_all (\<lambda>s. pl_opt l + 68 \<le> si_ptr s) ss)"

lemma read_pe_layout_put:
  assumes "put_bytes (pl_opt l + 64) b data = Some data'" and "length b = 4" and "read_pe_layout data = Some l"
  shows "read_pe_layout data' = Some l"
proof -
  obtain e n z m f h v where r: "le_at data 60 4 = Some e" "le_at data (e + 4 + 2) 2 = Some n" "le_at data (e + 4 + 16) 2 = Some z"
    "le_at data (e + 24) 2 = Some m" "(if m = 267 then Some 96 else if m = 523 then Some 112 else None) = Some f"
    "le_at data (e + 24 + 60) 4 = Some h" "le_at data (e + 24 + f - 4) 4 = Some v"
    and l: "l = \<lparr>pl_opt = e + 24, pl_fixed = f, pl_headers = h, pl_num_rva = v, pl_section_table = e + 24 + z, pl_num_sections = n\<rparr>"
    using assms(3) by (auto simp: read_pe_layout_def bind_eq_Some_conv)
  note other = le_at_put_other [OF assms(1), unfolded assms(2) l pe_layout.simps]
  have "96 \<le> f" using r(5) by (auto split: if_splits)
  then have "le_at data' 60 4 = Some e" "le_at data' (e + 4 + 2) 2 = Some n" "le_at data' (e + 4 + 16) 2 = Some z"
    "le_at data' (e + 24) 2 = Some m" "le_at data' (e + 24 + 60) 4 = Some h" "le_at data' (e + 24 + f - 4) 4 = Some v"
    using r by (subst other; simp)+
  then show ?thesis using r(5) unfolding read_pe_layout_def by (simp add: l)
qed

section \<open>Properties\<close>

text \<open>
  C35. RTMR[2] identifies the command line and the initrd: for boots with an initrd the predicted values are equal
  exactly if both are, as long as none of the hashed inputs collide. In particular no command line can
  stand for another one with the suffix that QEMU appends, and the UTF-16 encoding loses nothing.
\<close>

theorem rtmr2_identifies_boot:
  assumes "\<And>s. length (sha384 s) = 48" and "list_all scalar_ok c" "list_all scalar_ok c'" and "d \<noteq> []" "d' \<noteq> []"
    and "inj_on sha384 (set (rtmr2_inputs sha384 c d) \<union> set (rtmr2_inputs sha384 c' d'))"
  shows "compute_rtmr2 sha384 c d = compute_rtmr2 sha384 c' d' \<longleftrightarrow> c = c' \<and> d = d'"
proof
  let ?u = "concat (map utf16_bytes (measured_cmdline c d))" and ?u' = "concat (map utf16_bytes (measured_cmdline c' d'))"
  let ?r = "rtmr_extend sha384 (nuls 48) ?u" and ?r' = "rtmr_extend sha384 (nuls 48) ?u'"
  assume "compute_rtmr2 sha384 c d = compute_rtmr2 sha384 c' d'"
  then have "rtmr_extend sha384 ?r d = rtmr_extend sha384 ?r' d'" using assms(4,5) by (simp add: compute_rtmr2_def)
  then have r: "?r = ?r' \<and> d = d'"
    by (rule rtmr_extend_inj [OF assms(1) _ _ assms(6)]) (auto simp: rtmr2_inputs_def rtmr_extend_def Let_def assms(1))
  then have "nuls 48 = nuls 48 \<and> ?u = ?u'"
    by (intro rtmr_extend_inj [OF assms(1) _ _ assms(6)]) (auto simp: rtmr2_inputs_def Let_def)
  moreover have "list_all scalar_ok (measured_cmdline x y)" if "list_all scalar_ok x" for x y
    using that by (simp add: measured_cmdline_def of_char_scalar) (simp add: scalar_ok_def)
  ultimately have "measured_cmdline c d = measured_cmdline c' d'" using utf16_code.concat_inj assms(2,3) by blast
  then show "c = c' \<and> d = d'" using r assms(4,5) by (simp add: measured_cmdline_def)
qed simp

text \<open>A hash for the example, which tells the inputs of two boots apart.\<close>

definition ex_sha :: "string \<Rightarrow> string" where
  "ex_sha s =
    be_bytes 48 (if s = ''i'' then 1 else if s = ''j'' then 2 else if length s = 32 then 3 else if take 48 s = nuls 48 then 4
      else if drop 48 s = be_bytes 48 1 then 5 else 6)"

lemma ex_digests: "a < 7 \<Longrightarrow> b < 7 \<Longrightarrow> be_bytes 48 a = be_bytes 48 b \<longleftrightarrow> a = b" "a < 7 \<Longrightarrow> be_bytes 48 a = nuls 48 \<longleftrightarrow> a = 0"
proof -
  have less: "n < 256 ^ 48" if "n < 7" for n :: nat
  proof -
    have "(7 :: nat) \<le> 256 ^ 48" by simp
    then show ?thesis using that by linarith
  qed
  then show *: "a < 7 \<Longrightarrow> b < 7 \<Longrightarrow> be_bytes 48 a = be_bytes 48 b \<longleftrightarrow> a = b" for a b by (intro be_bytes_inj)
  have "nuls 48 = be_bytes 48 0" by (simp only: be_bytes_0 nuls_def)
  then show "a < 7 \<Longrightarrow> be_bytes 48 a = nuls 48 \<longleftrightarrow> a = 0" using * [of a 0] by (simp only:)
qed

lemma ex_sha_simps:
  "ex_sha ''i'' = be_bytes 48 1" "ex_sha ''j'' = be_bytes 48 2" "length u = 32 \<Longrightarrow> ex_sha u = be_bytes 48 3"
  "length d = 48 \<Longrightarrow> ex_sha (nuls 48 @ d) = be_bytes 48 4"
  "ex_sha (be_bytes 48 4 @ be_bytes 48 1) = be_bytes 48 5" "ex_sha (be_bytes 48 4 @ be_bytes 48 2) = be_bytes 48 6"
  by (auto simp: ex_sha_def ex_digests dest: arg_cong [where f = length])

theorem rtmr2_identifies_boot_witness: "compute_rtmr2 ex_sha [65] ''i'' \<noteq> compute_rtmr2 ex_sha [65] ''j''"
proof -
  have u: "length (concat (map utf16_bytes (measured_cmdline [65] d))) = 32" if "d \<noteq> []" for d
    using that by (simp add: measured_cmdline_def utf16_bytes_def encode_utf16_def)
  let ?is = "rtmr2_inputs ex_sha [65] ''i'' @ drop 2 (rtmr2_inputs ex_sha [65] ''j'')"
  have "map ex_sha ?is = map (be_bytes 48) [3, 4, 1, 5, 2, 6]"
    by (simp add: rtmr2_inputs_def Let_def u ex_sha_simps del: One_nat_def)
  moreover have "distinct (map (be_bytes 48) [3, 4, 1, 5, 2, 6])" by (simp add: ex_digests)
  ultimately have "inj_on ex_sha (set ?is)" by (metis distinct_map)
  moreover have "set (rtmr2_inputs ex_sha [65] ''i'') \<union> set (rtmr2_inputs ex_sha [65] ''j'') \<subseteq> set ?is"
    by (auto simp: rtmr2_inputs_def Let_def measured_cmdline_def)
  ultimately have inj: "inj_on ex_sha (set (rtmr2_inputs ex_sha [65] ''i'') \<union> set (rtmr2_inputs ex_sha [65] ''j''))"
    by (rule inj_on_subset)
  show ?thesis
    using rtmr2_identifies_boot [OF _ _ _ _ _ inj] by (simp add: ex_sha_def scalar_ok_def)
qed

text \<open>
  C36. The initrd fits: if the patches succeed for a machine with more than 160 KiB of memory, the header says that the
  initrd begins at a multiple of the page size and has its real length, and it ends below the memory
  QEMU keeps for ACPI data under 4 GiB; the rest of the kernel is unchanged.
\<close>

theorem initrd_placement:
  assumes "patch_kernel_setup vmlinuz n (memory_layout ram) = Some k" and "0 < n" "n < 2 ^ 64" and "163840 < unat ram"
  shows "\<exists>addr. le_at k 536 4 = Some addr \<and> le_at k 540 4 = Some n \<and> addr mod 4096 = 0 \<and>
    addr + n < unat (memory_layout ram) - 163840 \<and> same_outside patched_fields vmlinuz k"
proof -
  obtain ks k1 k2 where ks: "read_setup vmlinuz (memory_layout ram) = Some ks" and k1: "patch_cmdline ks vmlinuz = Some k1"
    and k2: "patch_loader ks k1 = Some k2" and k: "patch_initrd ks n k2 = Some k"
    using assms(1) by (auto simp: patch_kernel_setup_def bind_eq_Some_conv)
  have frame: "same_outside patched_fields vmlinuz k"
    using same_outside_trans [OF same_outside_trans] patch_frame k1 k2 k by blast
  obtain k3 where lt: "(of_nat n :: 64 word) < ks_initrd_max ks"
    and k3: "put_bytes 536 (le_bytes 4 (unat (initrd_addr ks n))) k2 = Some k3" "put_bytes 540 (le_bytes 4 (n mod 2 ^ 32)) k3 = Some k"
    using k assms(2) by (auto simp: patch_initrd_def bind_eq_Some_conv split: if_splits)
  have m: "unat (ks_initrd_max ks) < unat (memory_layout ram) - 163840"
    using read_setup_bound [OF ks] memory_layout_bounds(3) [OF assms(4)] by simp
  then have m32: "unat (ks_initrd_max ks) < 2 ^ 32" using memory_layout_bounds(2) [of ram] by simp
  note addr = initrd_addr_value [OF assms(3) lt m32]
  have "unat (initrd_addr ks n) < 256 ^ 4" using unsigned_less [of "initrd_addr ks n"] by simp
  then have "le_at k 536 4 = Some (unat (initrd_addr ks n))"
    using le_at_put_same [OF k3(1)] le_at_put_other [OF k3(2), of 536 4] by simp
  moreover have "n mod 2 ^ 32 = n" using addr(2) m32 by simp
  then have "le_at k 540 4 = Some n" using le_at_put_same [OF k3(2)] addr(2) m32 by simp
  moreover have "unat (initrd_addr ks n) + n < unat (memory_layout ram) - 163840"
  proof -
    have "unat (initrd_addr ks n) \<le> unat (ks_initrd_max ks) - n" unfolding addr(1) by (rule times_div_less_eq_dividend)
    then show ?thesis using addr(2) m by linarith
  qed
  moreover have "unat (initrd_addr ks n) mod 4096 = 0" by (simp add: addr(1))
  ultimately show ?thesis using frame by (intro exI [of _ "unat (initrd_addr ks n)"] conjI)
qed

theorem initrd_placement_witness:
  "\<exists>k addr. patch_kernel_setup (nuls 600) 5000 (memory_layout 1073741824) = Some k \<and> le_at k 536 4 = Some addr \<and>
    le_at k 540 4 = Some 5000 \<and> addr mod 4096 = 0 \<and> same_outside patched_fields (nuls 600) k"
proof -
  have "nuls 4 \<noteq> ''HdrS''" by (simp add: nuls_def eval_nat_numeral)
  then have "\<exists>k. patch_kernel_setup (nuls 600) 5000 (memory_layout 1073741824) = Some k"
    by (simp add: patch_kernel_setup_def read_setup_def sub_bytes_def patch_cmdline_def patch_loader_def patch_initrd_def put_bytes_def
        memory_layout_def acpi_data_size_def Let_def)
  then obtain k where k: "patch_kernel_setup (nuls 600) 5000 (memory_layout 1073741824) = Some k" ..
  show ?thesis using initrd_placement [OF k] k by auto
qed

text \<open>
  The hash of the kernel does not depend on the checksum in its header: overwriting the four bytes of the
  field changes neither the hashed bytes nor whether the file can be hashed at all, in a file whose
  section headers and sections are behind the field.
\<close>

theorem pe_hash_ignores_checksum:
  assumes "read_pe_layout data = Some l" and "pe_ordered data l"
    and "put_bytes (pl_opt l + 64) b data = Some data'" and "length b = 4"
  shows "pe_hash_preimage data' = pe_hash_preimage data"
proof -
  have len: "length data' = length data" using put_bytes_length [OF assms(3)] .
  note slice = slice_put_other [OF assms(3), unfolded assms(4)] and le = le_at_put_other [OF assms(3), unfolded assms(4)]
  have l: "read_pe_layout data' = Some l" by (rule read_pe_layout_put [OF assms(3,4,1)])
  have s: "pe_sections data' (pl_section_table l) (pl_num_sections l) = pe_sections data (pl_section_table l) (pl_num_sections l)"
    using assms(2,4) by (intro pe_sections_put [OF assms(3)]) (simp add: pe_ordered_def)
  have fx: "96 \<le> pl_fixed l"
    using assms(1) by (auto simp: read_pe_layout_def bind_eq_Some_conv split: if_splits)
  have h: "pe_header_parts data' l = pe_header_parts data l"
    using assms(4) fx by (simp add: pe_header_parts_def slice cert_dir_off_def cong: if_cong)
  have b: "pe_bodies data' (sort_key si_ptr ss) = pe_bodies data (sort_key si_ptr ss)"
    if "pe_sections data (pl_section_table l) (pl_num_sections l) = Some ss" for ss
    using that assms(2,4) by (intro pe_bodies_put [OF assms(3)]) (auto simp: pe_ordered_def list_all_iff add.commute)
  have t: "pe_trailing data' l (pl_headers l + x) = pe_trailing data l (pl_headers l + x)" for x
  proof -
    have "pl_opt l + 68 \<le> pl_headers l + x" using assms(2) by (simp add: pe_ordered_def)
    moreover have "pl_opt l + 68 \<le> cert_dir_off l + 4" using fx by (simp add: cert_dir_off_def)
    ultimately show ?thesis by (simp add: pe_trailing_def len slice le cong: if_cong)
  qed
  show ?thesis
    unfolding pe_hash_preimage_def l assms(1) using s h b t
    by (cases "pe_sections data (pl_section_table l) (pl_num_sections l)") simp_all
qed

definition ex_pe :: string where
  "ex_pe = nuls 20 @ le_bytes 2 96 @ nuls 2 @ le_bytes 2 267 @ nuls 58 @ le_bytes 4 200 @ nuls 112"

definition ex_pe_layout :: pe_layout where
  "ex_pe_layout = \<lparr>pl_opt = 24, pl_fixed = 96, pl_headers = 200, pl_num_rva = 0, pl_section_table = 120, pl_num_sections = 0\<rparr>"

lemma nuls_split: "nuls (a + b) = nuls a @ nuls b"
  by (simp add: nuls_def replicate_add)

lemma ex_pe_reads:
  "le_at ex_pe 60 4 = Some 0" "le_at ex_pe 6 2 = Some 0" "le_at ex_pe 20 2 = Some 96" "le_at ex_pe 24 2 = Some 267"
  "le_at ex_pe 84 4 = Some 200" "le_at ex_pe 116 4 = Some 0"
proof -
  let ?z = "le_bytes 2 96" and ?m = "le_bytes 2 267" and ?h = "le_bytes 4 200"
  have e: "ex_pe = (nuls 20 @ ?z @ nuls 2 @ ?m @ nuls 34) @ nuls 4 @ nuls 20 @ ?h @ nuls 112"
    using nuls_split [of 34 24] nuls_split [of 4 20] by (simp add: ex_pe_def)
  show "le_at ex_pe 60 4 = Some 0" by (subst e, subst le_at_middle) (simp_all)
  have e: "ex_pe = nuls 6 @ nuls 2 @ nuls 12 @ ?z @ nuls 2 @ ?m @ nuls 58 @ ?h @ nuls 112"
    using nuls_split [of 6 14] nuls_split [of 2 12] by (simp add: ex_pe_def)
  show "le_at ex_pe 6 2 = Some 0" by (subst e, subst le_at_middle) (simp_all)
  show "le_at ex_pe 20 2 = Some 96" unfolding ex_pe_def by (subst le_at_middle) (simp_all add: le_value_le_bytes)
  have e: "ex_pe = (nuls 20 @ ?z @ nuls 2) @ ?m @ nuls 58 @ ?h @ nuls 112" by (simp add: ex_pe_def)
  show "le_at ex_pe 24 2 = Some 267" by (subst e, subst le_at_middle) (simp_all add: le_value_le_bytes)
  have e: "ex_pe = (nuls 20 @ ?z @ nuls 2 @ ?m @ nuls 58) @ ?h @ nuls 112" by (simp add: ex_pe_def)
  show "le_at ex_pe 84 4 = Some 200" by (subst e, subst le_at_middle) (simp_all add: le_value_le_bytes)
  have e: "ex_pe = (nuls 20 @ ?z @ nuls 2 @ ?m @ nuls 58 @ ?h @ nuls 28) @ nuls 4 @ nuls 80"
    using nuls_split [of 28 84] nuls_split [of 4 80] by (simp add: ex_pe_def)
  show "le_at ex_pe 116 4 = Some 0" by (subst e, subst le_at_middle) (simp_all)
qed

theorem pe_hash_ignores_checksum_witness:
  "pe_hash_preimage (take 88 ex_pe @ ''abcd'' @ drop 92 ex_pe) = pe_hash_preimage ex_pe"
proof (rule pe_hash_ignores_checksum)
  show "read_pe_layout ex_pe = Some ex_pe_layout"
    by (simp add: read_pe_layout_def ex_pe_layout_def ex_pe_reads)
  show "pe_ordered ex_pe ex_pe_layout" by (simp add: pe_ordered_def ex_pe_layout_def)
  have "length ex_pe = 200" by (simp add: ex_pe_def)
  then show "put_bytes (pl_opt ex_pe_layout + 64) ''abcd'' ex_pe = Some (take 88 ex_pe @ ''abcd'' @ drop 92 ex_pe)"
    by (simp add: put_bytes_def ex_pe_layout_def)
qed simp

end
