(* ===== verification/Spec2Isabelle.thy ===== *)
theory Spec2Isabelle
  imports Sync_Properties Discovery_Properties Group_Properties Stream_Properties Tdx_Properties Cpio Boot_Measure
begin

text \<open>
  \<^bold>\<open>mosaik\<close>: a library for self-organising networks of peers. Peers find each other through a
  \<^emph>\<open>discovery\<close> system, form \<^emph>\<open>groups\<close> that agree on a log of commands with a variant of Raft, and
  replicate \<^emph>\<open>collections\<close> (maps, sets, vectors, cells, priority queues) as state machines of such groups.
  \<^emph>\<open>Streams\<close> carry typed data from producers to consumers. \<^emph>\<open>Tickets\<close> decide who may join. This development models the logic of these parts as functions on
  explicit states and proves what makes them correct. Paths are below \<open>src/src/\<close>.

  \<^bold>\<open>Conventions.\<close> A struct is a record, an enum a datatype, one definition models one function. A panic
  is \<open>None\<close>; early returns are branches. Positions (terms, log indices) are natural numbers with the
  saturating arithmetic of \<open>groups/cursor.rs\<close> at 64 bits; counters whose wrap-around matters are 64-bit
  words; times are integers. Clock readings, random numbers, elapsed timers, and the behaviour of third-party
  code (hashing, signatures, codecs, iteration orders of hash maps) are arguments or records of
  functions; what the code relies on is a named hypothesis of the theorems that need it. Messages to other
  peers are appended to an outbox, other effects to a list of effects. Wakers, metrics and
  tracing are not modelled; a connection is a parameter (record \<open>transport\<close> of \<open>Link\<close>).

  \<^bold>\<open>Groups.\<close>
  \<^item> \<open>Log_Cursor\<close>, \<open>Log_Storage\<close>: \<open>groups/cursor.rs\<close>, \<open>groups/storage.rs\<close>. The in-memory log with pruning
    and reset, its representation invariant, reads and range reads against a reference definition.
  \<^item> \<open>Raft_Protocol\<close>, \<open>Raft_Shared\<close>, \<open>Raft_Committee\<close>, \<open>Raft_Leader\<close>, \<open>Raft_Candidate\<close>, \<open>Raft_Follower\<close>,
    \<open>Raft_Role\<close>: \<open>groups/raft/*.rs\<close>. Every handler of the three roles, the dispatch between them, votes,
    commits, forwarded commands and queries.
  \<^item> \<open>Raft_Sync\<close> states the interface between raft and a state synchronisation as the locale
    \<open>state_sync\<close>; \<open>Raft_Votes\<close> defines the states a node can reach (any messages in any order, polls,
    client calls, changes of its bonds) and proves vote safety and monotone terms by rule induction;
    \<open>Raft_Election\<close> derives election safety; \<open>Raft_Commit\<close> states the locale \<open>replica\<close> of a state machine
    and proves that commits refine appending to a history; \<open>Raft_Append\<close> proves what a follower's log holds.
  \<^item> \<open>Log_Replay\<close>: \<open>groups/replay/*.rs\<close>, catch-up from the logs of peers; \<open>Snapshot_Sync\<close>:
    \<open>collections/sync/*.rs\<close>, catch-up from snapshots. Both interpret \<open>state_sync\<close>; the invariants of their
    sessions, what the last poll installs, and the two ways a session gets stuck are proved there.

  \<^bold>\<open>Collections.\<close> \<open>State_Machine\<close> has the parts the six machines share and the locales \<open>batch_machine\<close>
  (what a batch does to the data) and \<open>snapshot_machine\<close> (a snapshot rebuilds the data); \<open>Map_Machine\<close>,
  \<open>Set_Machine\<close>, \<open>Vec_Machine\<close>, \<open>Cell_Machine\<close>, \<open>Depq_Machine\<close> model \<open>collections/*.rs\<close> and interpret them;
  \<open>Replicated\<close> plugs them into raft and into the snapshot sync (locale \<open>snapshot_transfer\<close>).

  \<^bold>\<open>Discovery and tickets.\<close> \<open>Tickets\<close> (\<open>tickets/ticket.rs\<close>), \<open>Peer_Entry\<close> (\<open>discovery/entry.rs\<close>),
  \<open>Catalog\<close> (\<open>discovery/catalog.rs\<close>), \<open>Catalog_Sync\<close> (\<open>discovery/sync.rs\<close>), \<open>Rtt\<close> (\<open>discovery/rtt.rs\<close>),
  \<open>Discovery\<close> (\<open>discovery/announce.rs\<close>, \<open>worker.rs\<close>, \<open>ping.rs\<close>, \<open>mod.rs\<close>: the handlers of both workers as
  steps \<open>disc_step\<close>, with the queues between them), \<open>Jwt\<close> (\<open>tickets/jwt.rs\<close>).

  \<^bold>\<open>Links and bonds.\<close> \<open>Digest\<close> (\<open>primitives/id.rs\<close>), \<open>Link\<close> (\<open>network/link.rs\<close>, \<open>network/error.rs\<close>),
  \<open>Group_Key\<close> (\<open>groups/key.rs\<close>, \<open>config.rs\<close>, \<open>builder.rs\<close>: what the identifier of a group covers),
  \<open>Bond_Handshake\<close> (\<open>groups/bond/mod.rs\<close>, \<open>protocol.rs\<close>: both sides of the handshake, message by message),
  \<open>Bond_Worker\<close> (\<open>groups/bond/worker.rs\<close>, \<open>heartbeat.rs\<close>: the loop of a bond as \<open>bond_step\<close>), \<open>Group_Worker\<close>
  (\<open>groups/group/worker.rs\<close>: the loop of a group as \<open>group_step\<close>, the table of bonds, the registry of groups).

  \<^bold>\<open>Streams.\<close> \<open>Stream_Status\<close> (\<open>streams/status\<close>: online conditions as polled futures), \<open>Stream_Producer\<close>
  (\<open>streams/producer\<close>, \<open>streams/accept.rs\<close>: the worker of a producer and its sender tasks, interleaved by
  \<open>producer_step\<close>), \<open>Stream_Delivery\<close> (its invariants: bounds of the table, order and completeness of what
  is written), \<open>Stream_Receiver\<close> and \<open>Stream_Consumer\<close> (\<open>streams/consumer\<close>: receiver tasks with reconnection
  under a backoff policy, and the worker that starts and stops them).

  \<^bold>\<open>Attestation.\<close> \<open>Tdx_Ticket\<close> (\<open>tee/tdx/measure.rs\<close>, \<open>ticket.rs\<close>, \<open>validator.rs\<close>, \<open>local.rs\<close>: tickets that carry a quote of the
  hardware; the quote library, the hardware and the codec are the record \<open>tdx_env\<close>). The image builder predicts what the
  hardware will measure: \<open>Mrtd\<close> and \<open>Boot_Measure\<close> (\<open>tee/tdx/builder/mrtd.rs\<close>: the metadata of firmware images, the
  patches of the kernel header, the hash of a PE file, the registers) and \<open>Cpio\<close> (\<open>tee/tdx/builder/cpio.rs\<close>:
  the writer of the initramfs, with a reader of the format as its specification). \<open>Hex\<close> and \<open>Bytes\<close> have the
  reading and writing of byte strings and the locale \<open>prefix_code\<close> of encodings whose concatenations can be
  told apart, interpreted for the records MRTD hashes and for UTF-16.

  \<^bold>\<open>Properties.\<close> This theory has the properties of raft and collections, \<open>Sync_Properties\<close> those of the
  snapshot sync, \<open>Discovery_Properties\<close> those of discovery and tickets, \<open>Group_Properties\<close> those of identities and
  bonds, \<open>Stream_Properties\<close> those of streams, \<open>Tdx_Properties\<close> those of attested tickets; \<open>Cpio\<close>, \<open>Mrtd\<close> and \<open>Boot_Measure\<close> have
  their own. Each has an example that meets its hypotheses.

  \<^bold>\<open>Bounds.\<close> The only search that may not end is the one for a votable term in \<open>Candidate::new\<close>
  (a \<open>partial_function\<close>; the property on candidacies shows that it ends below the largest term). All other loops are recursion on
  the data. Hypotheses of the form \<open>n \<le> u64_max\<close> say that a log does not outgrow 64 bits.

  \<^bold>\<open>Not modelled.\<close> The set-up of endpoints and subsystems (\<open>network/local.rs\<close>, \<open>network/builder.rs\<close>), the bootstrap
  through a distributed hash table (\<open>discovery/dht.rs\<close>), the handles of collections and the status futures of
  groups, which only send commands and wait on watch channels, the parts of the image builders of \<open>tee\<close> that run
  external programs, the command line and the macros.
\<close>

section \<open>Example nodes\<close>

abbreviation ex_ops :: "(unit, unit, unit, unit, unit replay_message) machine_ops" where
  "ex_ops \<equiv> noop_ops (\<lambda>_. True)"

abbreviation ex_sync ::
  "(unit, unit replay_session, unit, unit replay_message, (unit, unit, unit, unit) replay_shared) sync_ops" where
  "ex_sync \<equiv> log_replay ex_ops 2"

type_synonym ex_node = "(unit, unit replay_session, unit) role \<times> (unit, unit, unit, unit) replay_shared"

text \<open>A node of the no-op machine, and the state after a sequence of events.\<close>

definition ex_start :: "peer_id \<Rightarrow> ex_node" where
  "ex_start me = role_new ex_ops (shared_new log_default () () me)"

definition ex_node :: "peer_id \<Rightarrow> (unit, unit, unit, unit replay_message) event list \<Rightarrow> ex_node" where
  "ex_node me es = the (node_run ex_ops ex_sync es (ex_start me))"

definition ex_request :: "(unit, unit, unit, unit replay_message) message" where
  "ex_request = RequestVote \<lparr>rv_term = 1, rv_candidate = 1, rv_log_position = cursor_zero\<rparr>"

definition ex_grant :: "(unit, unit, unit, unit replay_message) message" where
  "ex_grant = RequestVoteResponse \<lparr>rvr_term = 1, rvr_vote = Granted\<rparr>"

definition ex_candidate :: ex_node where
  "ex_candidate = ex_node 1 [Rebond [2, 3], Poll 0 True, Receive ex_grant 2 0]"

definition ex_voter :: ex_node where
  "ex_voter = ex_node 2 [Rebond [1, 3], Receive ex_request 1 0]"

lemma ex_start_reachable: "reachable ex_ops ex_sync me (fst (ex_start me)) (snd (ex_start me))"
  by (rule reachable.start [of _ log_default "()" "()"]) (simp add: ex_start_def)

lemma pos_next_small [simp]: "pos_next 0 = 1" "pos_next (Suc 0) = 2"
  by (simp_all add: pos_next_def saturating_add_def u64_max_def)

lemmas ex_defs = ex_start_def role_new_def shared_new_def follower_new_def set_offline_def update_leader_def
  ex_request_def ex_grant_def cursor_zero_def node_run_def

lemmas ex_exec = role_poll_def follower_poll_def follower_catch_up_def clean_expired_forwarded_commands_def
  poll_state_sync_provider_def log_replay_def candidate_new_def votable_term.simps can_vote_def
  broadcast_raft_def save_vote_def role_receive.simps role_dispatch_def maybe_step_down_def decide_vote_def
  send_raft_to_def log_default_def log_last_def

lemma ex_voter_run:
  "node_run ex_ops ex_sync [Rebond [1, 3], Receive ex_request 1 0] (ex_start 2) = Some ex_voter \<and>
    outbox (snd ex_voter) = [(1, ex_grant)]"
  by (simp add: ex_voter_def ex_node_def ex_defs ex_exec Let_def)

lemma ex_candidate_run:
  "node_run ex_ops ex_sync [Rebond [2, 3], Poll 0 True, Receive ex_grant 2 0] (ex_start 1) = Some ex_candidate \<and>
    fst ex_candidate = RCandidate \<lparr>cand_term = 1, requested_from = {1, 2, 3}, votes_granted = {1, 2},
      votes_abstained = {}, votes_denied = {}\<rparr>"
  by (simp add: ex_candidate_def ex_node_def ex_defs ex_exec Let_def insert_commute)

lemma ex_candidate_reachable: "reachable ex_ops ex_sync 1 (fst ex_candidate) (snd ex_candidate)"
  by (rule node_run_reachable [OF conjunct1 [OF ex_candidate_run] ex_start_reachable])
    (simp add: message_ok_def ex_grant_def)

lemma ex_voter_reachable: "reachable ex_ops ex_sync 2 (fst ex_voter) (snd ex_voter)"
  by (rule node_run_reachable [OF conjunct1 [OF ex_voter_run] ex_start_reachable])
    (simp add: message_ok_def ex_request_def)

section \<open>Voting and elections\<close>

text \<open>
  C1. Vote safety: in every state a node can get into (messages in any order, polls, client
  requests, changes of its bonds), it has voted for at most one peer in each term. Its votes are the
  granted responses it has sent and its own candidacies. Vote requests name their sender.
\<close>

theorem vote_once_per_term:
  assumes "reachable ops (log_replay ops n) me role sh"
    and "(t, p) \<in> votes_cast (outbox sh)" and "(t, p') \<in> votes_cast (outbox sh)"
  shows "p = p'"
  using assms by (rule lr.reachable_vote_once)

theorem vote_once_per_term_witness:
  "reachable ex_ops ex_sync 2 (fst ex_voter) (snd ex_voter) \<and>
    (THE p. (1, p) \<in> votes_cast (outbox (snd ex_voter))) = 1"
proof -
  have v: "(1, 1) \<in> votes_cast (outbox (snd ex_voter))"
    using ex_voter_run by (simp add: votes_cast_def ex_grant_def)
  show ?thesis
    using v ex_voter_reachable vote_once_per_term [OF ex_voter_reachable]
    by (blast intro: the_equality)
qed

text \<open>
  C2. Election safety: of the candidates of one term that ask the same electorate and count no
  abstention, at most one reaches a quorum. The votes they count were cast by reachable nodes.
\<close>

theorem one_winner_per_term:
  assumes "\<And>p. p \<in> requested_from ca \<Longrightarrow> reachable ops (log_replay ops n) p (fst (nodes p)) (snd (nodes p))"
    and "fst (nodes a) = RCandidate ca" and "a \<in> requested_from ca" and "votes_backed nodes a ca"
    and "fst (nodes b) = RCandidate cb" and "b \<in> requested_from cb" and "votes_backed nodes b cb"
    and "cand_term cb = cand_term ca" and "requested_from cb = requested_from ca"
    and "votes_abstained ca = {}" and "votes_abstained cb = {}"
    and "quorum_reached ca" and "quorum_reached cb"
  shows "a = b"
  using assms by (rule lr.one_winner)

definition ex_nodes :: "peer_id \<Rightarrow> ex_node" where
  "ex_nodes p = (if p = 1 then ex_candidate else if p = 2 then ex_voter else ex_start p)"

theorem one_winner_per_term_witness:
  "{a. \<exists>c. a \<in> requested_from c \<and> fst (ex_nodes a) = RCandidate c \<and> cand_term c = 1 \<and>
      requested_from c = {1, 2, 3} \<and> votes_abstained c = {} \<and> quorum_reached c \<and> votes_backed ex_nodes a c} = {1}"
  (is "{a. \<exists>c. ?W a c} = _")
proof -
  let ?c = "\<lparr>cand_term = 1, requested_from = {1, 2, 3}, votes_granted = {1, 2},
      votes_abstained = {}, votes_denied = {}\<rparr>"
  have c: "fst (ex_nodes 1) = RCandidate ?c" using ex_candidate_run by (simp add: ex_nodes_def)
  have b: "votes_backed ex_nodes 1 ?c"
    using ex_voter_run by (simp add: votes_backed_def ex_nodes_def votes_cast_def ex_grant_def)
  have q: "quorum_reached ?c" by (simp add: quorum_reached_def cand_quorum_def)
  have w: "?W 1 ?c" using b c q by simp
  have r: "reachable ex_ops ex_sync p (fst (ex_nodes p)) (snd (ex_nodes p))" if "p \<in> requested_from ?c" for p
    using that ex_candidate_reachable ex_voter_reachable ex_start_reachable by (auto simp: ex_nodes_def)
  have "1 = a" if "?W a d" for a d
    by (rule one_winner_per_term [of ?c ex_ops 2 ex_nodes 1 a d, OF r c _ b])
      (use w that in blast, use w that in auto)
  with w show ?thesis by blast
qed






text \<open>
  C27. The search for a votable term in \<open>Candidate::new\<close> ends: a node below the largest term whose
  messages can be encoded becomes a candidate of exactly the next term.
\<close>

theorem candidacy_succeeds:
  assumes "reachable ops (log_replay ops n) me role sh" and "role_term role < u64_max"
    and "\<And>m. m_encodable ops m"
  shows "\<exists>c sh'. candidate_new ops (pos_next (role_term role)) sh = Some (c, sh') \<and>
    cand_term c = Suc (role_term role)"
  using lr.reachable_inv [OF assms(1)] assms(2,3) by (rule candidate_new_next)

theorem candidacy_succeeds_witness:
  "\<exists>c sh'. candidate_new ex_ops (pos_next (role_term (fst ex_candidate))) (snd ex_candidate) = Some (c, sh') \<and>
    cand_term c = Suc 1"
proof -
  have t: "role_term (fst ex_candidate) = 1" using ex_candidate_run by simp
  have "role_term (fst ex_candidate) < u64_max" by (simp add: t u64_max_def)
  from candidacy_succeeds [OF ex_candidate_reachable this] show ?thesis by (simp add: t)
qed

text \<open>
  A message of an older term changes nothing.
\<close>

theorem stale_message_ignored:
  assumes "message_term m = Some t" and "t < role_term role"
  shows "role_receive ops sync now m p role sh = Some (role, sh)"
  using assms by (simp add: role_receive.simps role_dispatch_def)

theorem stale_message_ignored_witness:
  "role_receive ex_ops ex_sync 0 (RequestVote \<lparr>rv_term = 0, rv_candidate = 3, rv_log_position = cursor_zero\<rparr>) 3
    (fst ex_candidate) (snd ex_candidate) = Some (fst ex_candidate, snd ex_candidate)"
  by (rule stale_message_ignored [of _ 0]) (use ex_candidate_run in simp_all)

section \<open>Commitment\<close>

text \<open>
  C5. A commit on a node that replicates a map refines appending to an abstract history: if the data
  is the effect of the history so far, committing up to \<open>index\<close> makes it the effect of the history
  extended with exactly the commands the log holds between the committed position and \<open>index\<close>.
\<close>

theorem map_commit_refines_history:
  assumes "applied coll_data (\<lambda>d c. Some (map_effect encode d c)) Map.empty hist sh"
    and "length hist < index" and "index \<le> log_hi (storage sh)"
    and "commit_up_to (collection_ops (map_apply_batch encode) enc) now index sh = Some (c, sh')"
  shows "applied coll_data (\<lambda>d c. Some (map_effect encode d c)) Map.empty
    (hist @ log_commands (storage sh) (length hist) index) sh'"
  using assms by (rule rmap.commit_refines)

text \<open>A map replica with two uncommitted entries of different terms.\<close>

definition ex_map_log :: "(nat, nat) map_command log_store" where
  "ex_map_log = snd (log_append (snd (log_append log_default (MapInsert 1 10) 1)) (MapInsert 2 20) 2)"

definition ex_map_node :: "((nat, nat) map_command, (nat, nat) map_machine, unit, unit, unit, unit) shared" where
  "ex_map_node = shared_new ex_map_log (map_new True sync_config_default 1) () 1"

abbreviation ex_map_ops :: "((nat, nat) map_command, (nat, nat) map_machine, unit, unit, unit) machine_ops" where
  "ex_map_ops \<equiv> collection_ops (map_apply_batch Some) (\<lambda>_. True)"

lemma ex_map_log_simps [simp]:
  "log_entries ex_map_log = [(MapInsert 1 10, 1), (MapInsert 2 20, 2)]"
  "log_offset ex_map_log = 0" "last_pruned ex_map_log = None" "log_hi ex_map_log = 2" "log_wf ex_map_log"
  by (simp_all add: ex_map_log_def log_default_def log_append_def log_hi_def log_len_def log_wf_def u64_max_def)

lemma ex_map_node_applied:
  "applied coll_data (\<lambda>d c. Some (map_effect Some d c)) Map.empty [] ex_map_node"
  by (simp add: applied_def ex_map_node_def shared_new_def log_commands_def map_new_def collection_new_def)

lemma ex_map_commit: "\<exists>c sh'. commit_up_to ex_map_ops 0 2 ex_map_node = Some (c, sh')"
  by (simp add: commit_up_to_def ex_map_node_def shared_new_def log_get_range_eq Let_def
      map_apply_batch_def pos_add_def upt_rec numeral_2_eq_2 log_get_eq)

theorem map_commit_refines_history_witness:
  "\<exists>c sh'. commit_up_to ex_map_ops 0 2 ex_map_node = Some (c, sh') \<and>
    applied coll_data (\<lambda>d c. Some (map_effect Some d c)) Map.empty [MapInsert 1 10, MapInsert 2 20] sh'"
proof -
  obtain c sh' where c: "commit_up_to ex_map_ops 0 2 ex_map_node = Some (c, sh')"
    using ex_map_commit by blast
  have "log_commands (storage ex_map_node) 0 2 = [MapInsert 1 10, MapInsert 2 20]"
    by (simp add: log_commands_def ex_map_node_def shared_new_def log_get_eq upt_rec numeral_2_eq_2)
  with map_commit_refines_history [OF ex_map_node_applied _ _ c] c show ?thesis
    by (auto simp: ex_map_node_def shared_new_def)
qed

text \<open>
  C6. Committing applies each entry between the committed position and the target once and in index
  order, and the new committed cursor is the cursor of the target entry; a double-ended priority
  queue that panics on a command panics in the commit.
\<close>

theorem depq_commit_exact:
  assumes "log_wf (storage sh)" and "log_offset (storage sh) \<le> cursor_index (committed sh)"
    and "cursor_index (committed sh) < index" and "index \<le> log_hi (storage sh)"
  shows "(case commit_up_to (collection_ops (depq_apply_batch env) enc) now index sh of
      None \<Rightarrow> foldM (depq_effect env) (coll_data (state_machine sh))
        (log_commands (storage sh) (cursor_index (committed sh)) index) = None
    | Some (c, sh') \<Rightarrow>
        foldM (depq_effect env) (coll_data (state_machine sh))
          (log_commands (storage sh) (cursor_index (committed sh)) index) = Some (coll_data (state_machine sh')) \<and>
        c = committed sh' \<and> c = Cursor (the (log_term_at (storage sh) index)) index \<and>
        storage sh' = storage sh)"
  using assms by (rule rdepq.commit_up_to_spec)

definition ex_depq_env :: "(nat, nat, nat, nat) depq_env" where
  "ex_depq_env = \<lparr>iter_bucket = iter_by_key, iter_keys = iter_by_key, encode_value = Some, capacity = 8\<rparr>"

definition ex_depq_node ::
  "((nat, nat, nat) depq_command, (nat, nat, nat) depq_machine, unit, unit, unit, unit) shared" where
  "ex_depq_node = shared_new (snd (log_append log_default DepqClear 3)) (depq_new True sync_config_default 1) () 1"

theorem depq_commit_exact_witness:
  "\<exists>c sh'. commit_up_to (collection_ops (depq_apply_batch ex_depq_env) (\<lambda>_. True)) 0 1 ex_depq_node = Some (c, sh') \<and>
    c = Cursor 3 1 \<and> coll_data (state_machine sh') = depq_empty"
proof -
  let ?ops = "collection_ops (depq_apply_batch ex_depq_env) (\<lambda>_. True)" and ?sh = ex_depq_node
  have st: "log_wf (storage ?sh)" "log_offset (storage ?sh) = 0" "log_hi (storage ?sh) = 1"
    "committed ?sh = cursor_zero" "log_commands (storage ?sh) 0 1 = [DepqClear]" "log_term_at (storage ?sh) 1 = Some 3"
    by (simp_all add: ex_depq_node_def shared_new_def log_append_def log_default_def log_hi_def log_len_def
        log_wf_def u64_max_def log_commands_def log_get_def log_term_at_def upt_rec)
  have "(case commit_up_to ?ops 0 1 ?sh of
      None \<Rightarrow> foldM (depq_effect ex_depq_env) (coll_data (state_machine ?sh))
        (log_commands (storage ?sh) (cursor_index (committed ?sh)) 1) = None
    | Some (c, sh') \<Rightarrow>
        foldM (depq_effect ex_depq_env) (coll_data (state_machine ?sh))
          (log_commands (storage ?sh) (cursor_index (committed ?sh)) 1) = Some (coll_data (state_machine sh')) \<and>
        c = committed sh' \<and> c = Cursor (the (log_term_at (storage ?sh) 1)) 1 \<and> storage sh' = storage ?sh)"
    by (rule depq_commit_exact) (use st in simp_all)
  then show ?thesis using st by (auto split: option.splits)
qed

text \<open>
  C4. A leader that advances its committed position on an acknowledgement has a majority of the
  voters of its committee that have acknowledged the new committed index.
\<close>

theorem leader_commits_majority:
  assumes "log_wf (storage sh)" and "log_hi (storage sh) < u64_max" and "cursor_index (committed sh) \<le> u64_max"
    and "leader_record_vote ops (log_replay ops n) now l p i sh = Some (l', sh')"
    and "cursor_index (committed sh) < cursor_index (committed sh')"
  shows "length (voters (lead_committee l')) < 2 * acked (lead_committee l') (cursor_index (committed sh'))"
  using assms by (rule lr.leader_record_vote_majority)

text \<open>A leader with two followers and one entry in its log, acknowledged by itself.\<close>

definition ex_leader :: "unit leader" where
  "ex_leader = \<lparr>lead_term = 1, heartbeat_now = False, client_commands = [],
    lead_committee = \<lparr>voters = [(1, 1), (2, 0), (3, 0)], non_voters = [], max_committee_size = 5\<rparr>\<rparr>"

definition ex_leader_log :: "unit log_store" where
  "ex_leader_log = snd (log_append log_default () 1)"

definition ex_leader_shared :: "(unit, unit, unit, unit) replay_shared" where
  "ex_leader_shared = (shared_new ex_leader_log () () 1)\<lparr>sh_bonds := [2, 3]\<rparr>"

lemma ex_leader_shared_simps [simp]:
  "storage ex_leader_shared = ex_leader_log" "sh_bonds ex_leader_shared = [2, 3]"
  "sh_local_id ex_leader_shared = 1" "committed ex_leader_shared = cursor_zero"
  "state_machine ex_leader_shared = ()" "sync_provider ex_leader_shared = ()"
  "log_wf ex_leader_log" "log_hi ex_leader_log = 1" "log_offset ex_leader_log = 0"
  "log_last ex_leader_log = Cursor 1 1" "log_get_range ex_leader_log (Suc 0, Suc 0) = [(1, 1, ())]"
  by (simp_all add: ex_leader_shared_def ex_leader_log_def shared_new_def log_wf_def log_hi_def log_len_def
      log_append_def log_default_def log_last_def log_get_range_def u64_max_def wrapping_add_def Let_def)

lemma ex_leader_vote:
  "\<exists>l' sh'. leader_record_vote ex_ops ex_sync 0 ex_leader 2 1 ex_leader_shared = Some (l', sh') \<and>
    cursor_index (committed sh') = 1 \<and> voters (lead_committee l') = [(1, 1), (2, 1), (3, 0)]"
  by (simp add: leader_record_vote_def ex_leader_def active_bonds_def remove_dead_voters_def
      try_backfill_voters_def target_committee_size_def committee_record_vote_def highest_quorum_index_def
      advance_commit_def cursor_eq_index_def commit_up_to_def noop_apply_batch_def cursor_zero_def
      update_committed_def log_replay_def prune_safe_prefix_def schedule_immediate_heartbeat_def pos_add_def
      wrapping_add_def Let_def)

theorem leader_commits_majority_witness:
  "\<exists>l' sh'. leader_record_vote ex_ops ex_sync 0 ex_leader 2 1 ex_leader_shared = Some (l', sh') \<and>
    length (voters (lead_committee l')) = 3 \<and> 3 < 2 * acked (lead_committee l') 1"
proof -
  obtain l' sh' where v: "leader_record_vote ex_ops ex_sync 0 ex_leader 2 1 ex_leader_shared = Some (l', sh')"
    and c: "cursor_index (committed sh') = 1" "voters (lead_committee l') = [(1, 1), (2, 1), (3, 0)]"
    using ex_leader_vote by blast
  have "length (voters (lead_committee l')) < 2 * acked (lead_committee l') (cursor_index (committed sh'))"
    by (rule leader_commits_majority [OF _ _ _ v]) (simp_all add: c u64_max_def)
  then show ?thesis using v c by auto
qed

text \<open>
  C9. The quorum index of a committee is the highest index a majority of its voters has
  acknowledged.
\<close>

theorem quorum_index_highest:
  assumes "highest_quorum_index c = Some i"
  shows "length (voters c) < 2 * acked c i \<and> (\<forall>j > i. 2 * acked c j \<le> length (voters c))"
  using highest_quorum_majority [OF assms] by blast

theorem quorum_index_highest_witness:
  "highest_quorum_index (lead_committee ex_leader) = Some 0 \<and> 3 < 2 * acked (lead_committee ex_leader) 0 \<and>
    2 * acked (lead_committee ex_leader) 1 \<le> 3"
proof -
  have q: "highest_quorum_index (lead_committee ex_leader) = Some 0"
    by (simp add: highest_quorum_index_def ex_leader_def)
  have n: "length (voters (lead_committee ex_leader)) = 3" by (simp add: ex_leader_def)
  have "2 * acked (lead_committee ex_leader) 1 \<le> length (voters (lead_committee ex_leader))"
    by (rule quorum_index_highest [OF q, THEN conjunct2, rule_format]) simp
  then show ?thesis using q quorum_index_highest [OF q, THEN conjunct1] n by simp
qed

text \<open>
  The committee stays well-formed (no peer is listed twice, or as voter and non-voter) under
  every operation of the leader on it.
\<close>

theorem committee_stays_wf:
  assumes "committee_wf c"
  shows "committee_wf (remove_dead_voters c A) \<and> committee_wf (committee_remove c p) \<and>
    (case committee_record_vote c p i of None \<Rightarrow> True | Some (q, c') \<Rightarrow> committee_wf c')"
  using assms by (auto simp: remove_dead_wf committee_remove_wf split: option.splits dest: record_vote_wf)

theorem committee_stays_wf_witness:
  "committee_wf (remove_dead_voters (lead_committee ex_leader) {1, 2})"
proof -
  have "committee_wf (lead_committee ex_leader)" by (simp add: committee_wf_def ex_leader_def)
  from committee_stays_wf [OF this, of "{1, 2}"] show ?thesis by blast
qed

text \<open>
  The committed position never goes back and never passes the end of the log or the target of
  the commit.
\<close>

theorem commit_bounds:
  assumes "log_wf (storage sh)" and "log_hi (storage sh) < u64_max" and "cursor_index (committed sh) \<le> u64_max"
    and "commit_up_to ops now index sh = Some (c, sh')"
  shows "c = committed sh' \<and> storage sh' = storage sh \<and> cursor_index (committed sh) \<le> cursor_index c \<and>
    cursor_index c \<le> max (cursor_index (committed sh)) (min index (log_hi (storage sh)))"
  using commit_up_to_bounds [OF assms] by blast

theorem commit_bounds_witness:
  "\<exists>c sh'. commit_up_to ex_map_ops 0 2 ex_map_node = Some (c, sh') \<and> cursor_index c \<le> 2"
proof -
  obtain c sh' where c: "commit_up_to ex_map_ops 0 2 ex_map_node = Some (c, sh')" using ex_map_commit by blast
  have s: "storage ex_map_node = ex_map_log" "committed ex_map_node = cursor_zero"
    by (simp_all add: ex_map_node_def shared_new_def)
  have "c = committed sh' \<and> storage sh' = storage ex_map_node \<and> cursor_index (committed ex_map_node) \<le> cursor_index c \<and>
    cursor_index c \<le> max (cursor_index (committed ex_map_node)) (min 2 (log_hi (storage ex_map_node)))"
    by (rule commit_bounds [OF _ _ _ c]) (simp_all add: s u64_max_def)
  then show ?thesis using c s by auto
qed

section \<open>Replicating the log\<close>

text \<open>
  C8. The index range a leader answers a client with is the range its commands get: once the queue
  (with whatever was queued after them) is appended, the log holds each command at its index.
\<close>

theorem assigned_indices_hold:
  assumes "log_wf (storage sh)" and "cs \<noteq> []"
    and "log_hi (storage sh) + length (client_commands l) + length cs + length later \<le> u64_max"
    and "enqueue_commands l cs sh = ((a, b), l')"
  shows "b + 1 = a + length cs \<and> (\<forall>k < length cs.
    log_get (append_commands (storage sh) (client_commands l' @ later) t) (a + k) = Some (cs ! k, t))"
proof -
  have r: "log_hi (storage sh) + length (client_commands l) + length cs \<le> u64_max" using assms(3) by simp
  have "b + 1 = a + length cs" using enqueue_commands_spec(1,2) [OF assms(1,2) r assms(4)] by simp
  then show ?thesis using enqueue_then_append [OF assms] by blast
qed

theorem assigned_indices_hold_witness:
  "\<exists>l'. enqueue_commands ex_leader [(), ()] ex_leader_shared = ((2, 3), l') \<and>
    log_get (append_commands (storage ex_leader_shared) (client_commands l' @ [()]) 1) 3 = Some ((), 1)"
proof -
  have e: "enqueue_commands ex_leader [(), ()] ex_leader_shared =
      ((2, 3), ex_leader\<lparr>client_commands := [(), ()]\<rparr>)"
    by (simp add: enqueue_commands_def ex_leader_def Let_def log_last_index pos_add_def wrapping_add_def)
  have "3 + 1 = 2 + length [(), ()] \<and> (\<forall>k < length [(), ()].
    log_get (append_commands (storage ex_leader_shared)
      (client_commands (ex_leader\<lparr>client_commands := [(), ()]\<rparr>) @ [()]) 1) (2 + k) = Some ([(), ()] ! k, 1))"
    by (rule assigned_indices_hold [OF _ _ _ e]) (simp_all add: ex_leader_def u64_max_def)
  then show ?thesis using e by (auto simp: numeral_3_eq_3 numeral_2_eq_2)
qed




section \<open>Catching up by log replay\<close>


text \<open>A session that misses the entries 2 and 3 and has fetched them.\<close>

definition ex_group_log :: "raft_index \<Rightarrow> (unit \<times> raft_term) option" where
  "ex_group_log i = (if 1 \<le> i \<and> i \<le> 4 then Some ((), 1) else None)"

definition ex_session :: "unit replay_session" where
  "ex_session = \<lparr>rs_batch_size = 2, rs_leader = 2, rs_gap = (2, 3), rs_buffered = [], rs_terminations = [],
    rs_known_bonds = {}, rs_availability = [], rs_inflight = [], rs_fetched = [(2, 3, 7, [((), 1), ((), 1)])]\<rparr>"

lemma ex_session_ok: "replay_ok ex_group_log ex_session ex_leader_log"
  by (simp add: replay_ok_def ex_session_def agrees_def u64_max_def ex_group_log_def)
    (auto simp: ex_leader_log_def log_append_def log_default_def log_get_def log_len_def less_Suc_eq)


text \<open>
  C21. When the gap is closed, the next poll appends what the leader has sent in the meantime and
  reports the end of the log: the catch-up is complete and the log is a prefix of the group's log.
\<close>

theorem replay_session_finishes:
  assumes "replay_ok L s (storage sh)" and "snd (rs_gap s) = log_hi (storage sh)"
    and "rs_buffered s = index_entries (Suc (log_hi (storage sh))) es"
    and "Suc (log_hi (storage sh)) + length es \<le> u64_max"
    and "\<And>k. k < length es \<Longrightarrow> L (Suc (log_hi (storage sh)) + k) = Some (es ! k)"
  shows "\<exists>s' sh'. replay_poll ops s sh = Some (s', sh', Some (log_last (storage sh'))) \<and>
    log_wf (storage sh') \<and> agrees L (storage sh') \<and>
    log_hi (storage sh') = log_hi (storage sh) + length es \<and> rs_buffered s' = []"
  using assms by (rule replay_finishes)

theorem replay_session_finishes_witness:
  "\<exists>s' sh'. replay_poll ex_ops (ex_session\<lparr>rs_gap := (2, 1), rs_buffered := index_entries (Suc 1) [((), 1)]\<rparr>)
      ex_leader_shared = Some (s', sh', Some (log_last (storage sh'))) \<and> log_hi (storage sh') = 2"
proof -
  let ?s = "ex_session\<lparr>rs_gap := (2, 1), rs_buffered := index_entries (Suc 1) [((), 1)]\<rparr>"
  have ok: "replay_ok ex_group_log ?s (storage ex_leader_shared)"
    using ex_session_ok by (simp add: replay_ok_def)
  have "\<exists>s' sh'. replay_poll ex_ops ?s ex_leader_shared = Some (s', sh', Some (log_last (storage sh'))) \<and>
    log_wf (storage sh') \<and> agrees ex_group_log (storage sh') \<and>
    log_hi (storage sh') = log_hi (storage ex_leader_shared) + length [((), 1 :: raft_term)] \<and> rs_buffered s' = []"
    by (rule replay_session_finishes [OF ok]) (simp_all add: ex_group_log_def u64_max_def)
  then show ?thesis by auto
qed

text \<open>
  What a provider sends for a request inside its log is honest: consecutive entries of its log
  from the requested start on, at most a batch of them, under the range they are at.
\<close>

theorem provider_sends_its_log:
  assumes "log_wf (storage sh)" and "log_hi (storage sh) < u64_max"
    and "p \<in> set (sh_bonds sh)" and "\<And>m. m_encodable ops m"
    and "a \<le> b" and "log_offset (storage sh) < a" and "a \<le> log_hi (storage sh)" and "0 < n" and "a + n \<le> u64_max"
  shows "\<exists>sh' r es. replay_provider_receive ops n (FetchEntriesRequest (a, b)) p sh = Some (sh', None) \<and>
    outbox sh' = outbox sh @ [(p, StateSync (FetchEntriesResponse r es))] \<and> fst r = a \<and>
    honest_chunk (log_get (storage sh)) (fst r, snd r, p, es) \<and>
    snd r = min (min b (a + n - 1)) (log_hi (storage sh))"
  using assms by (rule provider_answer_honest)

theorem provider_sends_its_log_witness:
  "\<exists>sh' r es. replay_provider_receive ex_ops 5 (FetchEntriesRequest (1, 9)) 3 ex_leader_shared = Some (sh', None) \<and>
    honest_chunk (log_get ex_leader_log) (fst r, snd r, 3, es) \<and> r = (1, 1)"
proof -
  have "\<exists>sh' r es. replay_provider_receive ex_ops 5 (FetchEntriesRequest (1, 9)) 3 ex_leader_shared = Some (sh', None) \<and>
    outbox sh' = outbox ex_leader_shared @ [(3, StateSync (FetchEntriesResponse r es))] \<and> fst r = 1 \<and>
    honest_chunk (log_get (storage ex_leader_shared)) (fst r, snd r, 3, es) \<and>
    snd r = min (min 9 (1 + 5 - 1)) (log_hi (storage ex_leader_shared))"
    by (rule provider_sends_its_log) (simp_all add: u64_max_def)
  then obtain sh' r es where
    "replay_provider_receive ex_ops 5 (FetchEntriesRequest (1, 9)) 3 ex_leader_shared = Some (sh', None)"
    "fst r = 1" "snd r = 1" "honest_chunk (log_get ex_leader_log) (fst r, snd r, 3, es)"
    by (auto simp del: replay_provider_receive.simps honest_chunk.simps)
  then show ?thesis by (metis prod.collapse)
qed

text \<open>
  C38. An empty answer blocks a session: once the answer \<open>0..=0\<close> of a provider that has none of the
  requested entries is stored, draining makes no progress, whatever other chunks have arrived.
\<close>

theorem empty_answer_blocks_session:
  assumes "0 < fst (rs_gap s)" and "\<And>k. k \<in> fst ` set (rs_fetched s) \<Longrightarrow> 0 < k"
  shows "drain_fetched_entries (replay_receive s (FetchEntriesResponse (0, 0) []) p) sh =
    Some (replay_receive s (FetchEntriesResponse (0, 0) []) p, sh)"
proof -
  have "rs_fetched s = [] \<or> 0 < fst (hd (rs_fetched s))" using assms(2) by (cases "rs_fetched s") auto
  then have "rs_fetched (replay_receive s (FetchEntriesResponse (0, 0) []) p) = (0, 0, p, []) # rs_fetched s"
    by (simp add: btree_insert_zero)
  then show ?thesis by (rule drain_blocked) (use assms(1) in simp)
qed

theorem empty_answer_blocks_session_witness:
  "drain_fetched_entries (replay_receive ex_session (FetchEntriesResponse (0, 0) []) 3) ex_leader_shared =
    Some (replay_receive ex_session (FetchEntriesResponse (0, 0) []) 3, ex_leader_shared)"
  by (rule empty_answer_blocks_session) (auto simp: ex_session_def)

section \<open>The log store\<close>

text \<open>
  The representation invariant of the in-memory log (indices fit in 64 bits, the pruned prefix
  ends at the cursor it reports) is kept by every operation.
\<close>

theorem log_operations_keep_wf:
  assumes "log_wf s"
  shows "log_wf (log_truncate s i) \<and> log_wf (log_prune_prefix s i) \<and>
    (log_hi s < u64_max \<longrightarrow> log_wf (snd (log_append s c t))) \<and>
    (cursor_index p \<le> u64_max \<longrightarrow> log_wf (log_reset_to s p))"
  using assms by (simp add: log_truncate_wf log_prune_wf log_append_wf log_reset_wf)

theorem log_operations_keep_wf_witness:
  "log_wf (log_prune_prefix ex_map_log 1) \<and> log_wf (snd (log_append ex_map_log MapClear 3))"
proof -
  have "log_hi ex_map_log < u64_max" by (simp add: u64_max_def)
  then show ?thesis using log_operations_keep_wf [of ex_map_log 1 MapClear 3 cursor_zero] by simp
qed

text \<open>
  An appended entry gets the next index and can be read there; all other entries are unchanged.
\<close>

theorem log_append_then_get:
  assumes "log_wf s" and "log_hi s < u64_max"
  shows "fst (log_append s c t) = Suc (log_hi s) \<and>
    log_get (snd (log_append s c t)) = (log_get s)(Suc (log_hi s) \<mapsto> (c, t)) \<and>
    log_last (snd (log_append s c t)) = Cursor t (Suc (log_hi s))"
  using assms
  by (simp add: log_append_fst log_append_get log_last_eq log_append_wf log_append_hi log_append_snd_simps log_len_def)

theorem log_append_then_get_witness:
  "log_get (snd (log_append ex_map_log MapClear 3)) 3 = Some (MapClear, 3)"
proof -
  have "log_hi ex_map_log < u64_max" by (simp add: u64_max_def)
  then show ?thesis using log_append_then_get [of ex_map_log MapClear 3] by simp
qed

text \<open>
  A range read returns exactly the readable entries of the range, in index order, each with its
  term and index.
\<close>

theorem log_range_exact:
  assumes "log_wf s"
  shows "log_get_range s (a, b) =
    map (\<lambda>i. (snd (the (log_get s i)), i, fst (the (log_get s i))))
      [max a (Suc (log_offset s)) ..< Suc (min b (log_hi s))]"
  using assms by (rule log_get_range_eq)

theorem log_range_exact_witness:
  "log_get_range ex_map_log (2, 9) = [(2, 2, MapInsert 2 20)]"
  using log_range_exact [of ex_map_log 2 9] by (simp add: log_get_eq upt_rec numeral_2_eq_2)

text \<open>
  Pruning a prefix removes exactly the entries up to the given index; the entries behind it,
  the end of the log and the last cursor stay, and the term at the new boundary is still known.
\<close>

theorem log_prune_keeps_suffix:
  assumes "log_wf s" and "log_offset s < n" and "n \<le> log_hi s"
  shows "(\<forall>i. log_get (log_prune_prefix s n) i = (if i \<le> n then None else log_get s i)) \<and>
    log_hi (log_prune_prefix s n) = log_hi s \<and>
    log_term_at (log_prune_prefix s n) n = map_option snd (log_get s n)"
proof -
  have wf: "log_wf (log_prune_prefix s n)" by (rule log_prune_wf [OF assms(1)])
  have "log_offset (log_prune_prefix s n) = n" using assms by (simp add: log_prune_offset)
  then have "log_term_at (log_prune_prefix s n) n = map_option cursor_term (last_pruned (log_prune_prefix s n))"
    using assms(2) by (simp add: log_term_at_def)
  also have "\<dots> = map_option snd (log_get s n)"
    using assms by (auto simp: log_prune_last_pruned log_get_eq log_hi_def log_len_def)
  finally show ?thesis using assms(1) by (simp add: log_prune_get log_prune_hi)
qed

theorem log_prune_keeps_suffix_witness:
  "log_get (log_prune_prefix ex_map_log 1) 2 = Some (MapInsert 2 20, 2) \<and>
    log_get (log_prune_prefix ex_map_log 1) 1 = None \<and> log_term_at (log_prune_prefix ex_map_log 1) 1 = Some 1"
proof -
  have "(\<forall>i. log_get (log_prune_prefix ex_map_log 1) i = (if i \<le> 1 then None else log_get ex_map_log i)) \<and>
    log_hi (log_prune_prefix ex_map_log 1) = log_hi ex_map_log \<and>
    log_term_at (log_prune_prefix ex_map_log 1) 1 = map_option snd (log_get ex_map_log 1)"
    by (rule log_prune_keeps_suffix) simp_all
  moreover have "log_get ex_map_log 1 = Some (MapInsert 1 10, 1)" and "log_get ex_map_log 2 = Some (MapInsert 2 20, 2)"
    by (simp_all add: log_get_eq)
  ultimately show ?thesis by simp
qed

section \<open>Replicated collections\<close>

text \<open>
  Replicas of a map that apply the same commands in the same order hold the same data, however
  the log was cut into batches and whatever their clocks, contexts and local state are.
\<close>

theorem map_replicas_converge:
  assumes "coll_data m1 = coll_data m2" and "concat (map fst bs1) = concat (map fst bs2)"
  shows "map_option coll_data (run_batches (map_apply_batch encode) bs1 m1) =
    map_option coll_data (run_batches (map_apply_batch encode) bs2 m2)"
  using assms by (rule mp.replicas_converge)

definition ex_ctx :: apply_context where
  "ex_ctx = \<lparr>ctx_committed = cursor_zero, ctx_log_position = cursor_zero, ctx_current_term = 1\<rparr>"

theorem map_replicas_converge_witness:
  "map_option coll_data (run_batches (map_apply_batch Some)
      [([MapInsert 1 (2 :: nat), MapClear], ex_ctx, 0)] (map_new True sync_config_default 1 :: (nat, nat) map_machine)) =
    map_option coll_data (run_batches (map_apply_batch Some)
      [([MapInsert 1 2], ex_ctx, 7), ([MapClear], ex_ctx, 9)] (map_new False sync_config_default 2))"
  by (rule map_replicas_converge) (simp_all add: map_new_def collection_new_def)

text \<open>
  The same for the double-ended priority queue, evictions included.
\<close>

theorem depq_replicas_converge:
  assumes "coll_data m1 = coll_data m2" and "concat (map fst bs1) = concat (map fst bs2)"
  shows "map_option coll_data (run_batches (depq_apply_batch env) bs1 m1) =
    map_option coll_data (run_batches (depq_apply_batch env) bs2 m2)"
  using assms by (rule dq.replicas_converge)

theorem depq_replicas_converge_witness:
  "map_option coll_data (run_batches (depq_apply_batch ex_depq_env)
      [([DepqInsert 1 2 3, DepqClear], ex_ctx, 0)] (depq_new True sync_config_default 1)) =
    map_option coll_data (run_batches (depq_apply_batch ex_depq_env)
      [([DepqInsert 1 2 3], ex_ctx, 7), ([DepqClear], ex_ctx, 9)] (depq_new False sync_config_default 2))"
  by (rule depq_replicas_converge) (simp_all add: depq_new_def collection_new_def)

text \<open>
  Every command of the priority queue terminates without a panic, keeps its two indexes
  consistent with each other and the number of entries within the capacity.
\<close>

theorem depq_commands_keep_invariant:
  assumes "depq_bounded (capacity env) d" and "hash_iter (iter_bucket env)"
  shows "\<exists>d'. depq_effect env d c = Some d' \<and> depq_bounded (capacity env) d'"
  using assms by (rule depq_effect_bounded)

theorem depq_commands_keep_invariant_witness:
  "\<exists>d'. depq_effect ex_depq_env depq_empty (DepqInsert 5 1 7) = Some d' \<and> depq_bounded 8 d'"
proof -
  have "\<exists>d'. depq_effect ex_depq_env depq_empty (DepqInsert 5 1 7) = Some d' \<and>
      depq_bounded (capacity ex_depq_env) d'"
    by (rule depq_commands_keep_invariant)
      (simp_all add: depq_bounded_def ex_depq_env_def hash_iter_by_key, simp add: depq_empty_def)
  then show ?thesis by (simp add: ex_depq_env_def)
qed

text \<open>
  C25. The eviction loop ends and evicts by priority: what it leaves is a part of the queue of the
  largest size the capacity allows, and no evicted entry has a higher priority than a kept one.
\<close>

theorem depq_evicts_lowest:
  assumes "depq_ok d" and "hash_iter iter_b"
  shows "\<exists>d'. depq_evict iter_b cap d = Some d' \<and> depq_ok d' \<and>
    map_size (by_key d') = min cap (map_size (by_key d)) \<and> (\<exists>S. by_key d' = by_key d |` S) \<and>
    (\<forall>k p v k' p' v'. by_key d k = Some (p, v) \<longrightarrow> by_key d' k = None \<longrightarrow>
      by_key d' k' = Some (p', v') \<longrightarrow> p \<le> p')"
  using assms by (rule depq_evict_ok)

theorem depq_evicts_lowest_witness:
  "\<exists>d'. depq_evict iter_by_key 1 (depq_put (depq_put depq_empty 5 1 7) 3 2 (9 :: nat)) = Some d' \<and>
    depq_ok (d' :: (nat, nat, nat) depq) \<and> map_size (by_key d') = 1"
proof -
  let ?d = "depq_put (depq_put depq_empty 5 1 7) 3 2 9 :: (nat, nat, nat) depq"
  have ok: "depq_ok ?d" by (simp add: depq_put_ok)
  have "by_key ?d = [1 \<mapsto> (5, 7), 2 \<mapsto> (3, 9)]" by (simp add: depq_put_by_key depq_empty_def)
  then have "map_size (by_key ?d) = 2" by (simp add: map_size_def)
  then show ?thesis using depq_evicts_lowest [OF ok hash_iter_by_key, of 1] by auto
qed

text \<open>
  Ascending iteration over the priority queue visits exactly its entries, in the order of their
  priorities.
\<close>

theorem depq_iter_asc_sorted:
  assumes "depq_ok d" and "hash_iter iter_b"
  shows "sorted (map fst (depq_iter_asc iter_b d)) \<and>
    (\<forall>p k v. (p, k, v) \<in> set (depq_iter_asc iter_b d) \<longleftrightarrow> by_key d k = Some (p, v))"
proof -
  have "sorted (map fst (depq_iter_asc iter_b d))"
    unfolding depq_iter_asc_def by (rule sorted_concat_buckets) simp
  then show ?thesis using depq_iter_asc_set [OF assms] by blast
qed

theorem depq_iter_asc_sorted_witness:
  "(5, 1, 7) \<in> set (depq_iter_asc iter_by_key (depq_put depq_empty 5 1 (7 :: nat) :: (nat, nat, nat) depq))"
proof -
  have "depq_ok (depq_put depq_empty 5 1 7 :: (nat, nat, nat) depq)" by (simp add: depq_put_ok)
  from depq_iter_asc_sorted [OF this hash_iter_by_key] show ?thesis by (simp add: depq_put_by_key)
qed

end
